(* ===== verification/Prelude.thy ===== *)
theory Prelude
  imports Main "HOL-Library.Word"
begin

text \<open>
  Shared vocabulary of the development: the parts of the Go language and of its
  standard library that \<^verbatim>\<open>src/\<close> uses, and the generic lemmas about them.

  \<^item> A Go string and a byte slice are both \<open>char list\<close> (HOL's \<open>char\<close> is exactly one
    byte, so \<^verbatim>\<open>[]byte(s)\<close> and \<^verbatim>\<open>string(b)\<close> are the identity). A slice
    that may be nil, such as a bound parameter, is a \<open>bytes option\<close>.
  \<^item> An \<^verbatim>\<open>error\<close> is its text and the text of the error it wraps innermost;
    \<^verbatim>\<open>errors.Is\<close> against a sentinel compares the latter.
  \<^item> Package \<^verbatim>\<open>strings\<close> is modelled on bytes; the Unicode tables behind
    \<^verbatim>\<open>unicode.ToUpper\<close>, \<^verbatim>\<open>unicode.ToLower\<close> and
    \<^verbatim>\<open>unicode.IsPrint\<close> are the fields of a parameter record, the UTF-8
    decoding around them is modelled.
\<close>

type_synonym bytes = "char list"

named_theorems go_string \<open>rewrite rules for the modelled string functions\<close>
named_theorems go_codec \<open>round-trip laws of encoders and decoders\<close>

section \<open>Errors\<close>

datatype goerror = GoError (errText: string) (errRoot: string)

definition errorsNew :: "string \<Rightarrow> goerror" where
  "errorsNew s = GoError s s"

text \<open>\<^verbatim>\<open>fmt.Errorf(pre + "%w" + post, err)\<close>.\<close>

definition wrapErr :: "string \<Rightarrow> goerror \<Rightarrow> string \<Rightarrow> goerror" where
  "wrapErr pre e post = GoError (pre @ errText e @ post) (errRoot e)"

definition errorsIs :: "goerror \<Rightarrow> goerror \<Rightarrow> bool" where
  "errorsIs e target \<longleftrightarrow> errRoot e = errRoot target"

type_synonym 'a result = "goerror + 'a"

lemma errorsIs_wrapErr [simp]: "errorsIs (wrapErr pre e post) t \<longleftrightarrow> errorsIs e t"
  by (simp add: errorsIs_def wrapErr_def)

lemma errorsIs_refl [simp]: "errorsIs e e"
  by (simp add: errorsIs_def)

lemma errorsIs_New [simp]: "errorsIs (errorsNew s) (errorsNew t) \<longleftrightarrow> s = t"
  by (simp add: errorsIs_def errorsNew_def)

text \<open>Sequencing of fallible calls: the first error is returned.\<close>

definition bindR :: "'a result \<Rightarrow> ('a \<Rightarrow> 'b result) \<Rightarrow> 'b result" where
  "bindR m f = (case m of Inl e \<Rightarrow> Inl e | Inr a \<Rightarrow> f a)"

lemma bindR_simps [simp]:
  "bindR (Inl e) f = Inl e"
  "bindR (Inr a) f = f a"
  by (simp_all add: bindR_def)

lemma bindR_eq_Inr: "bindR m f = Inr b \<longleftrightarrow> (\<exists>a. m = Inr a \<and> f a = Inr b)"
  by (cases m) auto

lemma bindR_eq_Inl:
  "bindR m f = Inl e \<longleftrightarrow> m = Inl e \<or> (\<exists>a. m = Inr a \<and> f a = Inl e)"
  by (cases m) auto

lemma bindR_cong [fundef_cong]:
  "m = m' \<Longrightarrow> (\<And>a. m' = Inr a \<Longrightarrow> f a = f' a) \<Longrightarrow> bindR m f = bindR m' f'"
  by (cases m') auto

text \<open>A loop \<^verbatim>\<open>for _, x := range xs { if err := f(s, x); err != nil { return err } }\<close>.\<close>

fun foldR :: "('s \<Rightarrow> 'a \<Rightarrow> 's result) \<Rightarrow> 's \<Rightarrow> 'a list \<Rightarrow> 's result" where
  "foldR f s [] = Inr s"
| "foldR f s (x # xs) = bindR (f s x) (\<lambda>s'. foldR f s' xs)"

lemma foldR_append: "foldR f s (xs @ ys) = bindR (foldR f s xs) (\<lambda>s'. foldR f s' ys)"
proof (induction xs arbitrary: s)
  case (Cons x xs)
  then show ?case by (cases "f s x") simp_all
qed simp

lemma foldR_inv:
  assumes "foldR f s xs = Inr s'" and "P s"
    and "\<And>s x s'. x \<in> set xs \<Longrightarrow> f s x = Inr s' \<Longrightarrow> P s \<Longrightarrow> P s'"
  shows "P s'"
  using assms
proof (induction xs arbitrary: s)
  case (Cons x xs)
  then obtain t where t: "f s x = Inr t" "foldR f t xs = Inr s'"
    by (auto simp: bindR_eq_Inr)
  have "P t" using Cons.prems(2,3) t(1) by (meson list.set_intros(1))
  with Cons.IH [OF t(2)] Cons.prems(3) show ?case by (meson list.set_intros(2))
qed simp

text \<open>
  Operations that keep their effects when they fail: a new state and the error, if any.
  \<open>thenE\<close> is Go's \<^verbatim>\<open>if err != nil { return err }\<close>, \<open>forE\<close> a range
  loop whose body ends so.
\<close>

definition thenE :: "'s \<times> goerror option \<Rightarrow> ('s \<Rightarrow> 's \<times> goerror option) \<Rightarrow> 's \<times> goerror option" where
  "thenE m k = (case m of (s, None) \<Rightarrow> k s | (s, Some e) \<Rightarrow> (s, Some e))"

fun forE :: "('a \<Rightarrow> 's \<Rightarrow> 's \<times> goerror option) \<Rightarrow> 'a list \<Rightarrow> 's \<Rightarrow> 's \<times> goerror option" where
  "forE f [] s = (s, None)"
| "forE f (x # xs) s = thenE (f x s) (forE f xs)"

lemma thenE_simps [simp]:
  "thenE (s, None) k = k s" "thenE (s, Some e) k = (s, Some e)"
  by (simp_all add: thenE_def)

lemma thenE_None:
  "thenE m k = (s', None) \<longleftrightarrow> (\<exists>s. m = (s, None) \<and> k s = (s', None))"
  by (auto simp: thenE_def split: prod.splits option.splits)

lemma thenE_inv:
  assumes "I (fst m)" "\<And>s. I s \<Longrightarrow> I (fst (k s))"
  shows "I (fst (thenE m k))"
  using assms by (auto simp: thenE_def split: prod.splits option.splits)

lemma forE_inv:
  assumes "I s" "\<And>x s. x \<in> set xs \<Longrightarrow> I s \<Longrightarrow> I (fst (f x s))"
  shows "I (fst (forE f xs s))"
  using assms
proof (induction xs arbitrary: s)
  case (Cons x xs)
  show ?case unfolding forE.simps
    by (rule thenE_inv) (auto intro!: Cons)
qed simp

lemma forE_append: "forE f (xs @ ys) s = thenE (forE f xs s) (forE f ys)"
proof (induction xs arbitrary: s)
  case (Cons x xs)
  then show ?case
    by (cases "f x s"; cases "snd (f x s)") (simp_all add: thenE_def)
qed simp

lemma nth_update_if: "xs[i := v] ! j = (if i = j \<and> i < length xs then v else xs ! j)"
  by (cases "i = j") (simp_all add: list_update_beyond not_less)

section \<open>Bytes\<close>

abbreviation byteVal :: "char \<Rightarrow> nat" where
  "byteVal c \<equiv> of_char c"

abbreviation byteOf :: "nat \<Rightarrow> char" where
  "byteOf n \<equiv> char_of n"

lemma byteVal_less [simp]: "byteVal c < 256"
  by (rule nat_of_char_less_256)

lemma byteOf_byteVal [simp]: "byteOf (byteVal c) = c"
  by simp

lemma byteVal_byteOf: "n < 256 \<Longrightarrow> byteVal (byteOf n) = n"
  by (simp add: of_char_of)

definition isASCII :: "string \<Rightarrow> bool" where
  "isASCII s \<longleftrightarrow> list_all (\<lambda>c. byteVal c < 128) s"

end
