(* ===== verification/GoStrings.thy ===== *)
theory GoStrings
  imports Prelude
begin

text \<open>
  The functions of Go's \<^verbatim>\<open>strings\<close>, \<^verbatim>\<open>unicode/utf8\<close> and
  \<^verbatim>\<open>strconv\<close> packages that \<^verbatim>\<open>src/\<close> calls, on byte lists, with
  the lemmas the component proofs use.
\<close>

section \<open>Prefixes, searching, splitting\<close>

definition HasPrefix :: "string \<Rightarrow> string \<Rightarrow> bool" where
  "HasPrefix s p \<longleftrightarrow> take (length p) s = p"

definition HasSuffix :: "string \<Rightarrow> string \<Rightarrow> bool" where
  "HasSuffix s p \<longleftrightarrow> length p \<le> length s \<and> drop (length s - length p) s = p"

lemma HasPrefix_append [simp, go_string]: "HasPrefix (p @ t) p"
  by (simp add: HasPrefix_def)

lemma HasPrefix_iff: "HasPrefix s p \<longleftrightarrow> (\<exists>t. s = p @ t)"
  unfolding HasPrefix_def by (metis append_eq_conv_conj append_take_drop_id)

lemma HasPrefix_drop: "HasPrefix s p \<Longrightarrow> s = p @ drop (length p) s"
  by (auto simp: HasPrefix_iff)

lemma HasPrefix_appendD: "HasPrefix s (p @ q) \<Longrightarrow> HasPrefix s p"
  by (auto simp: HasPrefix_iff)

text \<open>\<^verbatim>\<open>strings.IndexByte\<close>; \<open>None\<close> is Go's -1.\<close>

fun IndexByte :: "string \<Rightarrow> char \<Rightarrow> nat option" where
  "IndexByte [] c = None"
| "IndexByte (x # xs) c = (if x = c then Some 0 else map_option Suc (IndexByte xs c))"

lemma IndexByte_None [simp]: "IndexByte s c = None \<longleftrightarrow> c \<notin> set s"
  by (induction s) auto

lemma IndexByte_append [simp]: "c \<notin> set p \<Longrightarrow> IndexByte (p @ c # t) c = Some (length p)"
  by (induction p) auto

lemma IndexByte_Some:
  "IndexByte s c = Some i \<Longrightarrow> s = take i s @ c # drop (Suc i) s \<and> c \<notin> set (take i s)"
proof (induction s arbitrary: i)
  case (Cons x s)
  then show ?case by (cases i) (auto split: if_splits)
qed simp

text \<open>\<^verbatim>\<open>strings.Index\<close> and \<^verbatim>\<open>strings.LastIndex\<close> for a substring.\<close>

fun strIndex :: "string \<Rightarrow> string \<Rightarrow> nat option" where
  "strIndex [] sub = (if sub = [] then Some 0 else None)"
| "strIndex (x # xs) sub =
     (if HasPrefix (x # xs) sub then Some 0 else map_option Suc (strIndex xs sub))"

fun strLastIndex :: "string \<Rightarrow> string \<Rightarrow> nat option" where
  "strLastIndex [] sub = (if sub = [] then Some 0 else None)"
| "strLastIndex (x # xs) sub =
     (case strLastIndex xs sub of
        Some i \<Rightarrow> Some (Suc i)
      | None \<Rightarrow> if HasPrefix (x # xs) sub then Some 0 else None)"

definition strContains :: "string \<Rightarrow> string \<Rightarrow> bool" where
  "strContains s sub \<longleftrightarrow> strIndex s sub \<noteq> None"

lemma strIndex_Some_bound: "strIndex s sub = Some i \<Longrightarrow> i + length sub \<le> length s"
proof (induction s arbitrary: i)
  case (Cons x s)
  then show ?case
    by (auto simp: HasPrefix_iff split: if_splits) (metis append_eq_Cons_conv length_append
      length_Cons le_add1)
qed (auto split: if_splits)

lemma strIndex_Some: "strIndex s sub = Some i \<Longrightarrow> HasPrefix (drop i s) sub"
proof (induction s arbitrary: i)
  case (Cons x s)
  then show ?case by (auto split: if_splits)
qed (auto simp: HasPrefix_def split: if_splits)

lemma strIndex_first: "strIndex s sub = Some i \<Longrightarrow> k < i \<Longrightarrow> \<not> HasPrefix (drop k s) sub"
proof (induction s arbitrary: i k)
  case (Cons x s)
  then show ?case by (cases k) (auto split: if_splits)
qed (auto split: if_splits)

lemma strIndex_none: "strIndex s sub = None \<Longrightarrow> \<not> HasPrefix (drop k s) sub"
proof (induction s arbitrary: k)
  case (Cons x s)
  then show ?case by (cases k) (auto split: if_splits)
qed (auto simp: HasPrefix_def split: if_splits)

text \<open>\<^verbatim>\<open>strings.SplitN(s, sep, n)\<close> for a one-byte separator and positive \<open>n\<close>.\<close>

fun SplitN :: "string \<Rightarrow> char \<Rightarrow> nat \<Rightarrow> string list" where
  "SplitN s c 0 = []"
| "SplitN s c (Suc 0) = [s]"
| "SplitN s c (Suc (Suc n)) =
     (case IndexByte s c of
        None \<Rightarrow> [s]
      | Some i \<Rightarrow> take i s # SplitN (drop (Suc i) s) c (Suc n))"

text \<open>\<^verbatim>\<open>strings.Split(s, sep)\<close> for a one-byte separator.\<close>

fun Split :: "string \<Rightarrow> char \<Rightarrow> string list" where
  "Split [] c = [[]]"
| "Split (x # xs) c =
     (if x = c then [] # Split xs c
      else (case Split xs c of [] \<Rightarrow> [[x]] | y # ys \<Rightarrow> (x # y) # ys))"

lemma Split_not_Nil [simp]: "Split s c \<noteq> []"
  by (induction s) (auto split: list.splits)

lemma Split_no_sep [simp]: "c \<notin> set s \<Longrightarrow> Split s c = [s]"
  by (induction s) auto

lemma Split_append [simp]: "c \<notin> set p \<Longrightarrow> Split (p @ c # t) c = p # Split t c"
  by (induction p) auto

lemma SplitN_append [simp]:
  "c \<notin> set p \<Longrightarrow> SplitN (p @ c # t) c (Suc (Suc n)) = p # SplitN t c (Suc n)"
  by simp

lemma SplitN_two:
  assumes "SplitN s c (Suc (Suc n)) = p # q # ps"
  shows "s = p @ c # drop (Suc (length p)) s \<and> c \<notin> set p \<and> SplitN (drop (Suc (length p)) s) c (Suc n) = q # ps"
proof (cases "IndexByte s c")
  case (Some i)
  from IndexByte_Some [OF Some] have s: "s = take i s @ c # drop (Suc i) s" "c \<notin> set (take i s)" by simp_all
  then have i: "length (take i s) = i" by (metis append_self_conv length_take list.distinct(1) min.absorb2 nat_le_linear take_all)
  have "p = take i s" "SplitN (drop (Suc i) s) c (Suc n) = q # ps" using assms Some by simp_all
  then show ?thesis using s i by simp
next
  case None
  then show ?thesis using assms by (simp del: IndexByte_None)
qed

lemma SplitN_length: "length (SplitN s c n) \<le> n"
  by (induction s c n rule: SplitN.induct) (auto split: option.splits)

text \<open>\<^verbatim>\<open>strings.ReplaceAll(s, old, new)\<close> for a non-empty \<open>old\<close>.\<close>

function ReplaceAll :: "string \<Rightarrow> string \<Rightarrow> string \<Rightarrow> string" where
  "ReplaceAll s old new =
     (if s = [] \<or> old = [] then s
      else if HasPrefix s old then new @ ReplaceAll (drop (length old) s) old new
      else hd s # ReplaceAll (tl s) old new)"
  by pat_completeness auto
termination
  by (relation "measure (\<lambda>(s, old, new). length s)") auto

declare ReplaceAll.simps [simp del]

lemma ReplaceAll_Nil [simp]: "ReplaceAll [] old new = []"
  by (simp add: ReplaceAll.simps)

lemma ReplaceAll_match [simp]:
  "old \<noteq> [] \<Longrightarrow> ReplaceAll (old @ t) old new = new @ ReplaceAll t old new"
  by (simp add: ReplaceAll.simps [of "old @ t"])

lemma ReplaceAll_skip:
  "old \<noteq> [] \<Longrightarrow> \<not> HasPrefix (x # t) old \<Longrightarrow> ReplaceAll (x # t) old new = x # ReplaceAll t old new"
  by (simp add: ReplaceAll.simps [of "x # t"])

text \<open>\<^verbatim>\<open>strings.TrimLeft(s, cutset)\<close> for an ASCII cutset.\<close>

definition TrimLeft :: "string \<Rightarrow> string \<Rightarrow> string" where
  "TrimLeft s cutset = dropWhile (\<lambda>c. c \<in> set cutset) s"

end
