(* ===== verification/GoText.thy ===== *)
theory GoText
  imports GoStrings
begin

text \<open>
  Case mapping (\<^verbatim>\<open>strings.ToUpper\<close>, \<^verbatim>\<open>strings.ToLower\<close>) with the UTF-8
  codec under it, decimal conversion (\<^verbatim>\<open>strconv\<close>) and the \<^verbatim>\<open>%q\<close> verb.
  The record \<open>unicode\<close> carries the Unicode tables the Go distribution generates.
\<close>

record unicode =
  uniToUpper :: "nat \<Rightarrow> nat"
  uniToLower :: "nat \<Rightarrow> nat"
  uniIsPrint :: "nat \<Rightarrow> bool"

section \<open>UTF-8\<close>

definition runeError :: nat where
  "runeError = 0xFFFD"

definition contByte :: "char \<Rightarrow> bool" where
  "contByte c \<longleftrightarrow> 0x80 \<le> byteVal c \<and> byteVal c \<le> 0xBF"

text \<open>
  The second byte a leading byte accepts (\<^verbatim>\<open>utf8.acceptRanges\<close>), which
  excludes overlong forms, surrogates and values above U+10FFFF.
\<close>

definition acceptSecond :: "nat \<Rightarrow> char \<Rightarrow> bool" where
  "acceptSecond b0 c =
     (if b0 = 0xE0 then 0xA0 \<le> byteVal c \<and> byteVal c \<le> 0xBF
      else if b0 = 0xED then 0x80 \<le> byteVal c \<and> byteVal c \<le> 0x9F
      else if b0 = 0xF0 then 0x90 \<le> byteVal c \<and> byteVal c \<le> 0xBF
      else if b0 = 0xF4 then 0x80 \<le> byteVal c \<and> byteVal c \<le> 0x8F
      else contByte c)"

text \<open>\<^verbatim>\<open>utf8.DecodeRuneInString\<close>: the rune and its width; an invalid byte is U+FFFD of width 1.\<close>

definition DecodeRune :: "string \<Rightarrow> nat \<times> nat" where
  "DecodeRune s =
     (case s of [] \<Rightarrow> (runeError, 0)
      | c0 # r0 \<Rightarrow>
        let b0 = byteVal c0 in
        if b0 < 0x80 then (b0, 1)
        else if 0xC2 \<le> b0 \<and> b0 \<le> 0xDF then
          (case r0 of c1 # _ \<Rightarrow>
             if contByte c1 then ((b0 mod 32) * 64 + byteVal c1 mod 64, 2) else (runeError, 1)
           | [] \<Rightarrow> (runeError, 1))
        else if 0xE0 \<le> b0 \<and> b0 \<le> 0xEF then
          (case r0 of c1 # c2 # _ \<Rightarrow>
             if acceptSecond b0 c1 \<and> contByte c2
             then ((b0 mod 16) * 4096 + (byteVal c1 mod 64) * 64 + byteVal c2 mod 64, 3)
             else (runeError, 1)
           | _ \<Rightarrow> (runeError, 1))
        else if 0xF0 \<le> b0 \<and> b0 \<le> 0xF4 then
          (case r0 of c1 # c2 # c3 # _ \<Rightarrow>
             if acceptSecond b0 c1 \<and> contByte c2 \<and> contByte c3
             then ((b0 mod 8) * 262144 + (byteVal c1 mod 64) * 4096
                   + (byteVal c2 mod 64) * 64 + byteVal c3 mod 64, 4)
             else (runeError, 1)
           | _ \<Rightarrow> (runeError, 1))
        else (runeError, 1))"

text \<open>\<^verbatim>\<open>utf8.EncodeRune\<close>: surrogates and out-of-range values encode as U+FFFD.\<close>

definition validRune :: "nat \<Rightarrow> bool" where
  "validRune r \<longleftrightarrow> r < 0xD800 \<or> (0xDFFF < r \<and> r \<le> 0x10FFFF)"

definition EncodeRune :: "nat \<Rightarrow> string" where
  "EncodeRune r0 =
     (let r = (if validRune r0 then r0 else runeError) in
      if r < 0x80 then [byteOf r]
      else if r < 0x800 then [byteOf (0xC0 + r div 64), byteOf (0x80 + r mod 64)]
      else if r < 0x10000 then
        [byteOf (0xE0 + r div 4096), byteOf (0x80 + (r div 64) mod 64), byteOf (0x80 + r mod 64)]
      else
        [byteOf (0xF0 + r div 262144), byteOf (0x80 + (r div 4096) mod 64),
         byteOf (0x80 + (r div 64) mod 64), byteOf (0x80 + r mod 64)])"

lemma DecodeRune_width: "0 < snd (DecodeRune (c # s))"
  by (auto simp: DecodeRune_def Let_def split: list.splits)

function utf8Runes :: "string \<Rightarrow> nat list" where
  "utf8Runes s =
     (if s = [] then [] else fst (DecodeRune s) # utf8Runes (drop (snd (DecodeRune s)) s))"
  by pat_completeness auto
termination
proof (relation "measure length")
  fix s :: string
  assume "s \<noteq> []"
  then show "(drop (snd (DecodeRune s)) s, s) \<in> measure length"
    by (cases s) (auto simp: DecodeRune_width)
qed simp

declare utf8Runes.simps [simp del]

lemma utf8Runes_Nil [simp]: "utf8Runes [] = []"
  by (simp add: utf8Runes.simps)

text \<open>\<^verbatim>\<open>strings.Map(f, s)\<close> for a mapping that never drops a rune.\<close>

definition stringsMap :: "(nat \<Rightarrow> nat) \<Rightarrow> string \<Rightarrow> string" where
  "stringsMap f s = concat (map (\<lambda>r. EncodeRune (f r)) (utf8Runes s))"

section \<open>Case mapping\<close>

definition upperASCII :: "char \<Rightarrow> char" where
  "upperASCII c = (if 97 \<le> byteVal c \<and> byteVal c \<le> 122 then byteOf (byteVal c - 32) else c)"

definition lowerASCII :: "char \<Rightarrow> char" where
  "lowerASCII c = (if 65 \<le> byteVal c \<and> byteVal c \<le> 90 then byteOf (byteVal c + 32) else c)"

definition ToUpper :: "unicode \<Rightarrow> string \<Rightarrow> string" where
  "ToUpper U s = (if isASCII s then map upperASCII s else stringsMap (uniToUpper U) s)"

definition ToLower :: "unicode \<Rightarrow> string \<Rightarrow> string" where
  "ToLower U s = (if isASCII s then map lowerASCII s else stringsMap (uniToLower U) s)"

text \<open>
  \<^verbatim>\<open>strings.EqualFold(s, t)\<close> for an ASCII \<open>t\<close> without the letters \<open>k\<close> and \<open>s\<close>
  (the only ASCII letters whose simple-folding orbit leaves ASCII); the source compares
  with \<^verbatim>\<open>"lower"\<close> and \<^verbatim>\<open>"upper"\<close> only.
\<close>

definition EqualFold :: "string \<Rightarrow> string \<Rightarrow> bool" where
  "EqualFold s t \<longleftrightarrow> map lowerASCII s = map lowerASCII t"

lemma upperASCII_upperASCII [simp]: "upperASCII (upperASCII c) = upperASCII c"
  by (cases "97 \<le> byteVal c \<and> byteVal c \<le> 122") (auto simp: upperASCII_def)

lemma lowerASCII_lowerASCII [simp]: "lowerASCII (lowerASCII c) = lowerASCII c"
  by (cases "65 \<le> byteVal c \<and> byteVal c \<le> 90") (auto simp: lowerASCII_def)

lemma upperASCII_ascii [simp]: "byteVal c < 128 \<Longrightarrow> byteVal (upperASCII c) < 128"
  by (auto simp: upperASCII_def)

lemma lowerASCII_ascii [simp]: "byteVal c < 128 \<Longrightarrow> byteVal (lowerASCII c) < 128"
  by (auto simp: lowerASCII_def)

lemma isASCII_map_upper [simp]: "isASCII s \<Longrightarrow> isASCII (map upperASCII s)"
  by (simp add: isASCII_def list_all_iff)

lemma isASCII_map_lower [simp]: "isASCII s \<Longrightarrow> isASCII (map lowerASCII s)"
  by (simp add: isASCII_def list_all_iff)

lemma ToUpper_idem_ascii [simp]: "isASCII s \<Longrightarrow> ToUpper U (ToUpper U s) = ToUpper U s"
  by (simp add: ToUpper_def)

lemma ToLower_idem_ascii [simp]: "isASCII s \<Longrightarrow> ToLower U (ToLower U s) = ToLower U s"
  by (simp add: ToLower_def)

lemma isASCII_ToUpper [simp]: "isASCII s \<Longrightarrow> isASCII (ToUpper U s)"
  by (simp add: ToUpper_def)

lemma ToUpper_Nil [simp]: "ToUpper U [] = []"
  by (simp add: ToUpper_def isASCII_def)

lemma ToLower_Nil [simp]: "ToLower U [] = []"
  by (simp add: ToLower_def isASCII_def)

section \<open>Case mapping beyond ASCII\<close>

text \<open>The UTF-8 codec round trip on one rune, by the length of its encoding.\<close>

lemma EncodeRune_1: "r < 0x80 \<Longrightarrow> EncodeRune r = [byteOf r]"
  by (simp add: EncodeRune_def validRune_def)

lemma EncodeRune_2:
  "0x80 \<le> r \<Longrightarrow> r < 0x800 \<Longrightarrow> EncodeRune r = [byteOf (0xC0 + r div 64), byteOf (0x80 + r mod 64)]"
  by (simp add: EncodeRune_def validRune_def)

lemma EncodeRune_3:
  "0x800 \<le> r \<Longrightarrow> r < 0x10000 \<Longrightarrow> validRune r \<Longrightarrow>
   EncodeRune r =
     [byteOf (0xE0 + r div 4096), byteOf (0x80 + (r div 64) mod 64), byteOf (0x80 + r mod 64)]"
  by (simp add: EncodeRune_def)

lemma EncodeRune_4:
  "0x10000 \<le> r \<Longrightarrow> validRune r \<Longrightarrow>
   EncodeRune r =
     [byteOf (0xF0 + r div 262144), byteOf (0x80 + (r div 4096) mod 64),
      byteOf (0x80 + (r div 64) mod 64), byteOf (0x80 + r mod 64)]"
  by (simp add: EncodeRune_def)

lemma DecodeRune_2:
  assumes "0x80 \<le> r" "r < 0x800"
  shows "DecodeRune (EncodeRune r @ t) = (r, 2)"
proof -
  have b: "r div 64 < 32" "2 \<le> r div 64" "r mod 64 < 64" using assms by auto
  have "(0xC0 + r div 64) mod 32 * 64 + (0x80 + r mod 64) mod 64 = r"
    using b(1) by (simp add: mod_add_left_eq [symmetric, of 192] mod_add_left_eq [symmetric, of 128])
  with b show ?thesis
    by (simp add: EncodeRune_2 [OF assms] DecodeRune_def contByte_def)
qed

lemma base64_split2: "(n div 64) * 64 + n mod 64 = (n::nat)"
  by (rule div_mult_mod_eq)

lemma base64_split3: "(n div 4096) * 4096 + (n div 64 mod 64) * 64 + n mod 64 = (n::nat)"
proof -
  have "n div 4096 = n div 64 div 64" by (simp add: div_mult2_eq [symmetric])
  then show ?thesis
    using base64_split2 [of n] base64_split2 [of "n div 64"] by linarith
qed

lemma base64_split4:
  "(n div 262144) * 262144 + (n div 4096 mod 64) * 4096 + (n div 64 mod 64) * 64 + n mod 64 = (n::nat)"
proof -
  have "n div 262144 = n div 4096 div 64" by (simp add: div_mult2_eq [symmetric])
  then show ?thesis
    using base64_split3 [of n] base64_split2 [of "n div 4096"] by linarith
qed

lemma DecodeRune_3:
  assumes "0x800 \<le> r" "r < 0x10000" "validRune r"
  shows "DecodeRune (EncodeRune r @ t) = (r, 3)"
proof -
  define a b c where "a = r div 4096" and "b = (r div 64) mod 64" and "c = r mod 64"
  have r: "r = a * 4096 + b * 64 + c" and bd: "a < 16" "b < 64" "c < 64"
    using assms(2) base64_split3 [of r] unfolding a_def b_def c_def by simp_all
  have e: "EncodeRune r = [byteOf (0xE0 + a), byteOf (0x80 + b), byteOf (0x80 + c)]"
    using EncodeRune_3 [OF assms] by (simp add: a_def b_def c_def)
  have lo: "a = 0 \<Longrightarrow> 32 \<le> b" using assms(1) r bd by auto
  have hi: "a = 13 \<Longrightarrow> b < 32" using assms(3) r bd by (auto simp: validRune_def)
  have m: "(0xE0 + a) mod 16 = a" "(0x80 + b) mod 64 = b" "(0x80 + c) mod 64 = c"
    using bd by (simp_all add: mod_add_left_eq [symmetric, of 224] mod_add_left_eq [symmetric, of 128])
  have acc: "acceptSecond (0xE0 + a) (byteOf (0x80 + b))"
    using lo hi bd by (auto simp: acceptSecond_def contByte_def)
  show ?thesis
    unfolding e using acc bd by (simp add: DecodeRune_def contByte_def m) (simp add: r)
qed

lemma DecodeRune_4:
  assumes "0x10000 \<le> r" "validRune r"
  shows "DecodeRune (EncodeRune r @ t) = (r, 4)"
proof -
  define a b c d where "a = r div 262144" and "b = (r div 4096) mod 64"
    and "c = (r div 64) mod 64" and "d = r mod 64"
  have le: "r \<le> 0x10FFFF" using assms by (auto simp: validRune_def)
  have r: "r = a * 262144 + b * 4096 + c * 64 + d" and bd: "a < 5" "b < 64" "c < 64" "d < 64"
    using le base64_split4 [of r] unfolding a_def b_def c_def d_def by simp_all
  have e: "EncodeRune r =
      [byteOf (0xF0 + a), byteOf (0x80 + b), byteOf (0x80 + c), byteOf (0x80 + d)]"
    using EncodeRune_4 [OF assms] by (simp add: a_def b_def c_def d_def)
  have lo: "a = 0 \<Longrightarrow> 16 \<le> b" using assms(1) r bd by auto
  have hi: "a = 4 \<Longrightarrow> b < 16" using le r bd by auto
  have m: "(0xF0 + a) mod 8 = a" "(0x80 + b) mod 64 = b" "(0x80 + c) mod 64 = c"
      "(0x80 + d) mod 64 = d"
    using bd by (simp_all add: mod_add_left_eq [symmetric, of 240] mod_add_left_eq [symmetric, of 128])
  have acc: "acceptSecond (0xF0 + a) (byteOf (0x80 + b))"
    using lo hi bd by (auto simp: acceptSecond_def contByte_def)
  show ?thesis
    unfolding e using acc bd by (simp add: DecodeRune_def contByte_def m) (simp add: r)
qed

lemma DecodeRune_EncodeRune [go_codec]:
  assumes "validRune r"
  shows "DecodeRune (EncodeRune r @ t) = (r, length (EncodeRune r))"
proof -
  consider "r < 0x80" | "0x80 \<le> r" "r < 0x800" | "0x800 \<le> r" "r < 0x10000" | "0x10000 \<le> r"
    by linarith
  then show ?thesis
  proof cases
    case 1
    then show ?thesis by (simp add: EncodeRune_1 DecodeRune_def)
  next
    case 2
    then show ?thesis by (simp add: DecodeRune_2 del: append.simps) (simp add: EncodeRune_2)
  next
    case 3
    with assms show ?thesis
      by (simp add: DecodeRune_3 del: append.simps) (simp add: EncodeRune_3)
  next
    case 4
    with assms show ?thesis
      by (simp add: DecodeRune_4 del: append.simps) (simp add: EncodeRune_4)
  qed
qed

lemma EncodeRune_not_Nil [simp]: "EncodeRune r \<noteq> []"
  by (simp add: EncodeRune_def Let_def)

lemma utf8Runes_EncodeRune:
  "validRune r \<Longrightarrow> utf8Runes (EncodeRune r @ t) = r # utf8Runes t"
  by (subst utf8Runes.simps) (simp add: DecodeRune_EncodeRune)

lemma utf8Runes_concat [go_codec]:
  "list_all validRune rs \<Longrightarrow> utf8Runes (concat (map EncodeRune rs)) = rs"
  by (induction rs) (simp_all add: utf8Runes_EncodeRune)

lemma validRune_runeError [simp]: "validRune runeError"
  by (simp add: validRune_def runeError_def)

lemma DecodeRune_valid_3:
  assumes "0xE0 \<le> b0" "b0 \<le> 0xEF" "acceptSecond b0 c1"
  shows "validRune ((b0 mod 16) * 4096 + (byteVal c1 mod 64) * 64 + byteVal c2 mod 64)"
proof -
  have h: "b0 mod 16 = b0 - 0xE0" using assms(1,2) by (simp add: mod_nat_eqI)
  have m: "byteVal c2 mod 64 < 64" "byteVal c1 mod 64 < 64" by simp_all
  have "b0 = 0xED \<Longrightarrow> byteVal c1 mod 64 < 32"
    using assms(3) by (auto simp: acceptSecond_def mod_nat_eqI [where r = "byteVal c1 - 128"])
  then show ?thesis
    using assms(1,2) h m by (cases "b0 = 0xED") (auto simp: validRune_def)
qed

lemma DecodeRune_valid_4:
  assumes "0xF0 \<le> b0" "b0 \<le> 0xF4" "acceptSecond b0 c1"
  shows "validRune ((b0 mod 8) * 262144 + (byteVal c1 mod 64) * 4096
           + (byteVal c2 mod 64) * 64 + byteVal c3 mod 64)"
proof -
  have h: "b0 mod 8 = b0 - 0xF0" using assms(1,2) by (simp add: mod_nat_eqI)
  have m: "byteVal c3 mod 64 < 64" "byteVal c2 mod 64 < 64" "byteVal c1 mod 64 < 64" by simp_all
  have "b0 = 0xF0 \<Longrightarrow> 16 \<le> byteVal c1 mod 64" "b0 = 0xF4 \<Longrightarrow> byteVal c1 mod 64 < 16"
    using assms(3) by (auto simp: acceptSecond_def mod_nat_eqI [where r = "byteVal c1 - 128"])
  moreover have "b0 = 0xF0 \<or> b0 = 0xF1 \<or> b0 = 0xF2 \<or> b0 = 0xF3 \<or> b0 = 0xF4"
    using assms(1,2) by linarith
  ultimately show ?thesis
    using h m unfolding validRune_def by (elim disjE) auto
qed

lemma DecodeRune_valid: "validRune (fst (DecodeRune s))"
proof -
  have two: "validRune ((a mod 32) * 64 + b mod 64)" for a b :: nat
  proof -
    have "a mod 32 < 32" "b mod 64 < 64" by simp_all
    then show ?thesis unfolding validRune_def by linarith
  qed
  have one: "b < 128 \<Longrightarrow> validRune b" for b by (simp add: validRune_def)
  show ?thesis
    by (auto simp: DecodeRune_def Let_def one two DecodeRune_valid_3 DecodeRune_valid_4
        split: list.splits)
qed

lemma utf8Runes_valid: "list_all validRune (utf8Runes s)"
proof (induction s rule: utf8Runes.induct)
  case (1 s)
  then show ?case by (subst utf8Runes.simps) (simp add: DecodeRune_valid)
qed

text \<open>
  What \<^verbatim>\<open>unicode.ToUpper\<close> and \<^verbatim>\<open>unicode.ToLower\<close> are relied on for: they
  map runes to runes, agree with the ASCII mapping on ASCII, and are idempotent.
\<close>

definition caseMapLaws :: "(nat \<Rightarrow> nat) \<Rightarrow> (char \<Rightarrow> char) \<Rightarrow> bool" where
  "caseMapLaws f g \<longleftrightarrow>
     (\<forall>r. validRune r \<longrightarrow> validRune (f r) \<and> f (f r) = f r) \<and>
     (\<forall>c. byteVal c < 128 \<longrightarrow> f (byteVal c) = byteVal (g c) \<and> byteVal (g c) < 128)"

definition unicodeLaws :: "unicode \<Rightarrow> bool" where
  "unicodeLaws U \<longleftrightarrow>
     caseMapLaws (uniToUpper U) upperASCII \<and> caseMapLaws (uniToLower U) lowerASCII"

lemma utf8Runes_ascii: "isASCII s \<Longrightarrow> utf8Runes s = map byteVal s"
proof (induction s)
  case (Cons c s)
  then show ?case
    by (subst utf8Runes.simps) (simp add: DecodeRune_def isASCII_def)
qed simp

lemma stringsMap_ascii: "caseMapLaws f g \<Longrightarrow> isASCII s \<Longrightarrow> stringsMap f s = map g s"
  by (induction s)
    (auto simp: stringsMap_def utf8Runes_ascii caseMapLaws_def EncodeRune_1 isASCII_def)

lemma stringsMap_idem:
  assumes "caseMapLaws f g"
  shows "stringsMap f (stringsMap f s) = stringsMap f s"
proof -
  have v: "list_all validRune (map f (utf8Runes s))"
    using utf8Runes_valid [of s] assms by (auto simp: list_all_iff caseMapLaws_def)
  have "utf8Runes (stringsMap f s) = map f (utf8Runes s)"
    using utf8Runes_concat [OF v] by (simp add: stringsMap_def comp_def)
  then have "stringsMap f (stringsMap f s) = concat (map (\<lambda>r. EncodeRune (f (f r))) (utf8Runes s))"
    by (simp add: stringsMap_def [of f "stringsMap f s"] comp_def)
  moreover have "\<forall>r \<in> set (utf8Runes s). f (f r) = f r"
    using utf8Runes_valid [of s] assms by (auto simp: list_all_iff caseMapLaws_def)
  ultimately show ?thesis
    by (simp add: stringsMap_def cong: map_cong)
qed

lemma ToUpper_stringsMap: "unicodeLaws U \<Longrightarrow> ToUpper U s = stringsMap (uniToUpper U) s"
  by (auto simp: ToUpper_def unicodeLaws_def stringsMap_ascii)

lemma ToLower_stringsMap: "unicodeLaws U \<Longrightarrow> ToLower U s = stringsMap (uniToLower U) s"
  by (auto simp: ToLower_def unicodeLaws_def stringsMap_ascii)

lemma ToUpper_idem: "unicodeLaws U \<Longrightarrow> ToUpper U (ToUpper U s) = ToUpper U s"
  by (simp add: ToUpper_stringsMap) (metis stringsMap_idem unicodeLaws_def)

lemma ToLower_idem: "unicodeLaws U \<Longrightarrow> ToLower U (ToLower U s) = ToLower U s"
  by (simp add: ToLower_stringsMap) (metis stringsMap_idem unicodeLaws_def)

text \<open>A byte below 128 is a rune of its own; every other rune is read from bytes above.\<close>

lemma mod_shift: "128 \<le> n \<Longrightarrow> n < 192 \<Longrightarrow> n mod 64 = n - 128" for n :: nat
  by (simp add: le_mod_geq)

lemma DecodeRune_bytes:
  assumes "DecodeRune (x # s) = (r, w)"
  shows "if byteVal x < 128 then r = byteVal x \<and> w = 1
         else 128 \<le> r \<and> list_all (\<lambda>b. 128 \<le> byteVal b) (take w (x # s))"
proof -

  have two: "128 \<le> b mod 32 * 64 + k" if "0xC2 \<le> b" "b \<le> 0xDF" for b k :: nat
  proof -
    have "2 \<le> b mod 32" using that by presburger
    then show ?thesis by simp
  qed
  have three: "128 \<le> b mod 16 * 4096 + byteVal c mod 64 * 64 + k"
    if "0xE0 \<le> b" "b \<le> 0xEF" "acceptSecond b c" for b k :: nat and c
  proof (cases "b = 0xE0")
    case True
    then have "32 \<le> byteVal c mod 64" using that(3) by (auto simp: acceptSecond_def mod_shift)
    then show ?thesis by simp
  next
    case False
    then have "1 \<le> b mod 16" using that by presburger
    then show ?thesis by simp
  qed
  have four: "128 \<le> b mod 8 * 262144 + byteVal c mod 64 * 4096 + k + l"
    if "0xF0 \<le> b" "b \<le> 0xF4" "acceptSecond b c" for b k l :: nat and c
  proof (cases "b = 0xF0")
    case True
    then have "16 \<le> byteVal c mod 64" using that(3) by (auto simp: acceptSecond_def mod_shift)
    then show ?thesis by simp
  next
    case False
    then have "1 \<le> b mod 8" using that by presburger
    then show ?thesis by simp
  qed
  have second: "128 \<le> byteVal c" if "acceptSecond b c" for b c
    using that by (auto simp: acceptSecond_def contByte_def split: if_splits)
  show ?thesis
    using assms two three four second
    by (auto simp: DecodeRune_def Let_def runeError_def contByte_def take_Cons' split: if_splits list.splits)
qed

lemma byte_literals: "byteOf 92 = CHR 0x5C" "byteOf 34 = CHR 0x22" "byteOf 48 = CHR ''0''"
  by code_simp+

lemma EncodeRune_high: "128 \<le> r \<Longrightarrow> x \<in> set (EncodeRune r) \<Longrightarrow> 128 \<le> byteVal x"
proof -
  assume r: "128 \<le> r" "x \<in> set (EncodeRune r)"
  have "r div 262144 \<le> 4" if "validRune r"
    using that by (auto simp: validRune_def)
  then show ?thesis
    using r by (auto simp: EncodeRune_def Let_def of_char_of runeError_def split: if_splits)
qed

lemma DecodeRune_head:
  assumes "s \<noteq> []" "b \<notin> set s" "byteVal b < 128"
  shows "fst (DecodeRune s) \<noteq> byteVal b"
  using DecodeRune_bytes [of "hd s" "tl s" "fst (DecodeRune s)" "snd (DecodeRune s)"] assms
  by (cases s) (auto split: if_splits)

section \<open>White space\<close>

definition spaceTokens :: "string list" where
  "spaceTokens = map EncodeRune ([0x20, 9, 10, 11, 12, 13, 0x85, 0xA0, 0x1680] @ [0x2000..<0x200B]
     @ [0x2028, 0x2029, 0x202F, 0x205F, 0x3000])"

text \<open>\<^verbatim>\<open>strings.TrimSpace\<close>: white space of Unicode at both ends.\<close>

fun dropSpaces :: "nat \<Rightarrow> string \<Rightarrow> string" where
  "dropSpaces 0 s = s"
| "dropSpaces (Suc n) s =
     (case find (HasPrefix s) spaceTokens of None \<Rightarrow> s | Some t \<Rightarrow> dropSpaces n (drop (length t) s))"

fun chopSpaces :: "nat \<Rightarrow> string \<Rightarrow> string" where
  "chopSpaces 0 s = s"
| "chopSpaces (Suc n) s =
     (case find (HasSuffix s) spaceTokens of None \<Rightarrow> s | Some t \<Rightarrow> chopSpaces n (take (length s - length t) s))"

definition TrimSpace :: "string \<Rightarrow> string" where
  "TrimSpace s = (let t = dropSpaces (length s) s in chopSpaces (length t) t)"

lemma dropSpaces_suffix: "\<exists>p. s = p @ dropSpaces n s"
proof (induction n arbitrary: s)
  case (Suc n)
  show ?case
  proof (cases "find (HasPrefix s) spaceTokens")
    case (Some t)
    then obtain p where "drop (length t) s = p @ dropSpaces n (drop (length t) s)" using Suc by blast
    then have "s = (take (length t) s @ p) @ dropSpaces n (drop (length t) s)" by (metis append.assoc append_take_drop_id)
    then have "s = (take (length t) s @ p) @ dropSpaces (Suc n) s" using Some by simp
    then show ?thesis by blast
  qed simp
qed simp

lemma chopSpaces_prefix: "\<exists>p. s = chopSpaces n s @ p"
proof (induction n arbitrary: s)
  case (Suc n)
  show ?case
  proof (cases "find (HasSuffix s) spaceTokens")
    case (Some t)
    let ?s = "take (length s - length t) s"
    obtain p where "?s = chopSpaces n ?s @ p" using Suc by blast
    then have "s = chopSpaces n ?s @ p @ drop (length s - length t) s" by (metis append.assoc append_take_drop_id)
    then show ?thesis using Some by auto
  qed simp
qed simp

lemma spaceTokens_nonempty: "t \<in> set spaceTokens \<Longrightarrow> t \<noteq> []"
proof -
  assume "t \<in> set spaceTokens"
  then obtain r where "t = EncodeRune r" unfolding spaceTokens_def set_map by blast
  then show ?thesis by simp
qed

lemma chopSpaces_done: "length s \<le> n \<Longrightarrow> t \<in> set spaceTokens \<Longrightarrow> \<not> HasSuffix (chopSpaces n s) t"
proof (induction n arbitrary: s)
  case 0
  then show ?case using spaceTokens_nonempty by (auto simp: HasSuffix_def)
next
  case (Suc n)
  show ?case
  proof (cases "find (HasSuffix s) spaceTokens")
    case None
    moreover from None have "\<not> HasSuffix s t" using Suc.prems(2) by (simp add: find_None_iff)
    ultimately show ?thesis by simp
  next
    case (Some u)
    then have "u \<in> set spaceTokens" "HasSuffix s u" by (auto simp: find_Some_iff in_set_conv_nth)
    then have "length s - length u < length s"
      using spaceTokens_nonempty [of u] by (cases s; cases u) (auto simp: HasSuffix_def)
    then show ?thesis using Suc Some by simp
  qed
qed

lemma TrimSpace_part: "\<exists>p r. s = p @ TrimSpace s @ r"
  using dropSpaces_suffix [of s "length s"] chopSpaces_prefix [of "dropSpaces (length s) s" "length (dropSpaces (length s) s)"]
  by (metis TrimSpace_def)

lemma TrimSpace_last: "TrimSpace s \<noteq> [] \<Longrightarrow> last (TrimSpace s) \<noteq> CHR 0x0D"
proof
  assume n: "TrimSpace s \<noteq> []" and l: "last (TrimSpace s) = CHR 0x0D"
  obtain u where "TrimSpace s = u @ [CHR 0x0D]" using append_butlast_last_id [OF n] l by metis
  then have "HasSuffix (TrimSpace s) [CHR 0x0D]" by (simp add: HasSuffix_def)
  moreover have "EncodeRune 13 = [CHR 0x0D]" by code_simp
  moreover have "EncodeRune 13 \<in> set spaceTokens" unfolding spaceTokens_def set_map by (rule imageI) simp
  ultimately show False
    using chopSpaces_done [of "dropSpaces (length s) s", OF order_refl] by (simp add: TrimSpace_def Let_def)
qed

text \<open>Text that begins and ends with visible ASCII characters is trimmed already.\<close>

definition visible :: "char \<Rightarrow> bool" where
  "visible c \<longleftrightarrow> 33 \<le> byteVal c \<and> byteVal c < 127"

lemma spaceTokens_visible: "t \<in> set spaceTokens \<Longrightarrow> x \<in> set t \<Longrightarrow> \<not> visible x"
proof -
  assume t: "t \<in> set spaceTokens" "x \<in> set t"
  then obtain r where r: "t = EncodeRune r" "r \<in> {9, 10, 11, 12, 13, 32} \<or> 128 \<le> r"
    unfolding spaceTokens_def set_map by auto
  show ?thesis
  proof (cases "128 \<le> r")
    case True
    then show ?thesis using EncodeRune_high t(2) r(1) by (fastforce simp: visible_def)
  next
    case False
    then have "r < 33" "x = byteOf r" using r t(2) EncodeRune_1 [of r] by auto
    then show ?thesis by (simp add: visible_def byteVal_byteOf)
  qed
qed

lemma TrimSpace_visible:
  assumes "s \<noteq> []" "visible (hd s)" "visible (last s)"
  shows "TrimSpace s = s"
proof -
  have "\<not> HasPrefix s t" "\<not> HasSuffix s t" if "t \<in> set spaceTokens" for t
  proof -
    note ne = spaceTokens_nonempty [OF that]
    show "\<not> HasPrefix s t"
    proof
      assume "HasPrefix s t"
      then obtain u where "s = t @ u" by (auto simp: HasPrefix_iff)
      then show False using spaceTokens_visible [OF that, of "hd s"] ne assms(2) by simp
    qed
    show "\<not> HasSuffix s t"
    proof
      assume "HasSuffix s t"
      then have "s = take (length s - length t) s @ t" by (metis HasSuffix_def append_take_drop_id)
      then have "last s = last t" using ne by (metis last_appendR)
      then show False using spaceTokens_visible [OF that, of "last s"] ne assms(3) by simp
    qed
  qed
  then have "find (HasPrefix s) spaceTokens = None" "find (HasSuffix s) spaceTokens = None"
    by (auto simp: find_None_iff)
  then have "dropSpaces n s = s" "chopSpaces n s = s" for n by (cases n; simp)+
  then show ?thesis by (simp add: TrimSpace_def)
qed

text \<open>\<^verbatim>\<open>unicode.IsSpace\<close>, and \<^verbatim>\<open>strings.Fields\<close>; \<open>w\<close> is the word being read.\<close>

definition isSpace :: "nat \<Rightarrow> bool" where
  "isSpace r \<longleftrightarrow> r \<in> set [0x20, 9, 10, 11, 12, 13, 0x85, 0xA0, 0x1680, 0x2028, 0x2029, 0x202F, 0x205F, 0x3000]
     \<or> 0x2000 \<le> r \<and> r < 0x200B"

function fieldsFrom :: "string \<Rightarrow> string \<Rightarrow> string list" where
  "fieldsFrom w s =
     (if s = [] then (if w = [] then [] else [w])
      else let (r, n) = DecodeRune s in
        if isSpace r then (if w = [] then [] else [w]) @ fieldsFrom [] (drop n s)
        else fieldsFrom (w @ take n s) (drop n s))"
  by pat_completeness auto
termination
proof (relation "measure (\<lambda>(w, s). length s)")
  fix w s :: string and x r n
  assume "s \<noteq> []" "x = DecodeRune s" "(r, n) = x"
  then have "0 < n" using DecodeRune_width [of "hd s" "tl s"] by (metis list.collapse snd_conv)
  then show "(([], drop n s), w, s) \<in> measure (\<lambda>(w, s). length s)"
    "((w @ take n s, drop n s), w, s) \<in> measure (\<lambda>(w, s). length s)"
    using \<open>s \<noteq> []\<close> by simp_all
qed simp

declare fieldsFrom.simps [simp del]

definition Fields :: "string \<Rightarrow> string list" where
  "Fields s = fieldsFrom [] s"

text \<open>\<^verbatim>\<open>strings.Join(ss, sep)\<close>.\<close>

fun strJoin :: "string \<Rightarrow> string list \<Rightarrow> string" where
  "strJoin sep [] = []"
| "strJoin sep [s] = s"
| "strJoin sep (s # ss) = s @ sep @ strJoin sep ss"

end
