(* ===== verification/Strconv.thy ===== *)
theory Strconv
  imports GoText
begin

text \<open>
  Go's \<^verbatim>\<open>strconv\<close>: decimal rendering (\<^verbatim>\<open>%d\<close>, \<^verbatim>\<open>Itoa\<close>),
  \<^verbatim>\<open>Atoi\<close> and \<^verbatim>\<open>ParseUint(s, 10, bits)\<close> with their range checks,
  \<^verbatim>\<open>Quote\<close> (\<^verbatim>\<open>%q\<close>) and lower-case hexadecimal, with the decimal round trip.
\<close>

section \<open>Rendering\<close>

definition digitChar :: "nat \<Rightarrow> char" where
  "digitChar d = byteOf (48 + d)"

definition hexChar :: "nat \<Rightarrow> char" where
  "hexChar d = (if d < 10 then byteOf (48 + d) else byteOf (87 + d))"

fun showNat :: "nat \<Rightarrow> string" where
  "showNat n = (if n < 10 then [digitChar n] else showNat (n div 10) @ [digitChar (n mod 10)])"

declare showNat.simps [simp del]

definition showInt :: "int \<Rightarrow> string" where
  "showInt i = (if i < 0 then CHR ''-'' # showNat (nat (- i)) else showNat (nat i))"

text \<open>\<^verbatim>\<open>hex.EncodeToString\<close>.\<close>

definition hexEncode :: "bytes \<Rightarrow> string" where
  "hexEncode bs = concat (map (\<lambda>c. [hexChar (byteVal c div 16), hexChar (byteVal c mod 16)]) bs)"

fun hexDigits :: "nat \<Rightarrow> nat \<Rightarrow> string" where
  "hexDigits 0 n = []"
| "hexDigits (Suc k) n = hexDigits k (n div 16) @ [hexChar (n mod 16)]"

text \<open>\<^verbatim>\<open>strconv.Quote\<close>: \<^verbatim>\<open>appendEscapedRune\<close> for one rune, then the whole string.\<close>

definition escapedRune :: "unicode \<Rightarrow> nat \<Rightarrow> string" where
  "escapedRune U r =
     (if r = 34 \<or> r = 92 then [byteOf 92, byteOf r]
      else if uniIsPrint U r then EncodeRune r
      else if 7 \<le> r \<and> r \<le> 13 then [byteOf 92, ''abtnvfr'' ! (r - 7)]
      else if r < 32 \<or> r = 0x7F then byteOf 92 # CHR ''x'' # hexDigits 2 r
      else if \<not> validRune r then byteOf 92 # CHR ''u'' # hexDigits 4 runeError
      else if r < 0x10000 then byteOf 92 # CHR ''u'' # hexDigits 4 r
      else byteOf 92 # CHR ''U'' # hexDigits 8 r)"

function quoteBody :: "unicode \<Rightarrow> string \<Rightarrow> string" where
  "quoteBody U s =
     (if s = [] then []
      else if DecodeRune s = (runeError, 1)
           then (byteOf 92 # CHR ''x'' # hexDigits 2 (byteVal (hd s))) @ quoteBody U (tl s)
      else escapedRune U (fst (DecodeRune s)) @ quoteBody U (drop (snd (DecodeRune s)) s))"
  by pat_completeness auto
termination
proof (relation "measure (\<lambda>(U, s). length s)")
  fix U and s :: string
  assume "s \<noteq> []"
  then show "((U, drop (snd (DecodeRune s)) s), U, s) \<in> measure (\<lambda>(U, s). length s)"
    by (cases s) (auto simp: DecodeRune_width)
qed auto

declare quoteBody.simps [simp del]

definition Quote :: "unicode \<Rightarrow> string \<Rightarrow> string" where
  "Quote U s = [byteOf 34] @ quoteBody U s @ [byteOf 34]"

section \<open>Parsing\<close>

definition isDigit :: "char \<Rightarrow> bool" where
  "isDigit c \<longleftrightarrow> 48 \<le> byteVal c \<and> byteVal c \<le> 57"

definition decimal :: "string \<Rightarrow> nat" where
  "decimal s = foldl (\<lambda>n c. 10 * n + (byteVal c - 48)) 0 s"

text \<open>\<^verbatim>\<open>strconv.ParseUint(s, 10, bits)\<close>: no sign, no underscores; \<open>None\<close> is an error.\<close>

definition ParseUint :: "string \<Rightarrow> nat \<Rightarrow> nat option" where
  "ParseUint s bits =
     (if s \<noteq> [] \<and> list_all isDigit s \<and> decimal s < 2 ^ bits then Some (decimal s) else None)"

text \<open>\<^verbatim>\<open>strconv.Atoi\<close> on a 64-bit platform.\<close>

definition Atoi :: "string \<Rightarrow> int option" where
  "Atoi s =
     (case s of [] \<Rightarrow> None
      | c # t \<Rightarrow>
        let neg = (c = CHR ''-'');
            digits = (if c = CHR ''-'' \<or> c = CHR ''+'' then t else s)
        in (case ParseUint digits 64 of None \<Rightarrow> None
            | Some u \<Rightarrow>
              if \<not> neg \<and> 2 ^ 63 \<le> u then None
              else if neg \<and> 2 ^ 63 < u then None
              else Some (if neg then - int u else int u)))"

section \<open>Round trip\<close>

lemma showNat_not_Nil [simp]: "showNat n \<noteq> []"
  by (subst showNat.simps) simp

lemma isDigit_digitChar [simp]: "d < 10 \<Longrightarrow> isDigit (digitChar d)"
  by (simp add: isDigit_def digitChar_def)

lemma showNat_digits [simp]: "list_all isDigit (showNat n)"
proof (induction n rule: showNat.induct)
  case (1 n)
  then show ?case by (subst showNat.simps) simp
qed

lemma digit_not_special:
  "isDigit c \<Longrightarrow> c \<noteq> CHR ''-'' \<and> c \<noteq> CHR ''+'' \<and> c \<noteq> CHR ''.'' \<and> c \<noteq> CHR ''='' \<and> c \<noteq> CHR '',''"
  by (auto simp: isDigit_def)

lemma showNat_special:
  "CHR ''.'' \<notin> set (showNat n)" "CHR ''='' \<notin> set (showNat n)" "CHR '','' \<notin> set (showNat n)"
  using showNat_digits [of n] digit_not_special by (auto simp: list_all_iff)

lemma decimal_showNat [go_codec, simp]: "decimal (showNat n) = n"
proof (induction n rule: showNat.induct)
  case (1 n)
  have d: "d < 10 \<Longrightarrow> byteVal (digitChar d) - 48 = d" for d by (simp add: digitChar_def)
  show ?case
  proof (cases "n < 10")
    case True
    then show ?thesis by (subst showNat.simps) (simp add: decimal_def d)
  next
    case False
    with "1" have "decimal (showNat (n div 10)) = n div 10" by simp
    then show ?thesis
      using False by (subst showNat.simps) (simp add: decimal_def d)
  qed
qed

lemma ParseUint_showNat [go_codec]: "n < 2 ^ bits \<Longrightarrow> ParseUint (showNat n) bits = Some n"
  by (simp add: ParseUint_def)

lemma ParseUint_bound: "ParseUint s bits = Some n \<Longrightarrow> n < 2 ^ bits"
  by (auto simp: ParseUint_def split: if_splits)

lemma Atoi_showNat [go_codec]:
  assumes "n < 2 ^ 63"
  shows "Atoi (showNat n) = Some (int n)"
proof -
  obtain c t where s: "showNat n = c # t" by (cases "showNat n") auto
  then have "isDigit c" using showNat_digits [of n] by simp
  with digit_not_special have "c \<noteq> CHR ''-''" "c \<noteq> CHR ''+''" by auto
  moreover have "ParseUint (c # t) 64 = Some n"
    using assms ParseUint_showNat [of n 64] by (simp add: s)
  ultimately show ?thesis using assms by (simp add: Atoi_def s)
qed

lemma hexEncode_length [simp]: "length (hexEncode bs) = 2 * length bs"
  by (induction bs) (simp_all add: hexEncode_def)

lemma hexChar_inject: "a < 16 \<Longrightarrow> b < 16 \<Longrightarrow> hexChar a = hexChar b \<Longrightarrow> a = b"
  by (auto simp: hexChar_def split: if_splits dest!: arg_cong [where f = byteVal])

lemma hexEncode_inject: "hexEncode a = hexEncode b \<Longrightarrow> a = b"
proof (induction a arbitrary: b)
  case Nil
  then show ?case by (cases b) (simp_all add: hexEncode_def)
next
  case (Cons x a)
  then obtain y b' where b: "b = y # b'" by (cases b) (auto simp: hexEncode_def)
  with Cons.prems have h: "hexChar (byteVal x div 16) = hexChar (byteVal y div 16)"
      "hexChar (byteVal x mod 16) = hexChar (byteVal y mod 16)" "hexEncode a = hexEncode b'"
    by (simp_all add: hexEncode_def)
  have "byteVal x div 16 < 16" "byteVal y div 16 < 16"
    using byteVal_less [of x] byteVal_less [of y] by linarith+
  then have "byteVal x div 16 = byteVal y div 16" "byteVal x mod 16 = byteVal y mod 16"
    using h hexChar_inject by simp_all
  then have "byteVal x = byteVal y" by (metis div_mult_mod_eq)
  then have "x = y" by (metis byteOf_byteVal)
  then show ?case using Cons.IH [OF h(3)] b by simp
qed

end
