(* ===== verification/Base64.thy ===== *)
theory Base64
  imports Strconv
begin

text \<open>
  Go's \<^verbatim>\<open>encoding/base64\<close>: \<^verbatim>\<open>RawURLEncoding\<close> (marker payloads) and
  \<^verbatim>\<open>StdEncoding\<close> (SCRAM messages, keys). The decoder follows
  \<^verbatim>\<open>decodeQuantum\<close>: it skips carriage returns and newlines, is not strict about
  the unused low bits of the last character, and reports the offset of a corrupt byte.

  The locale \<open>text_codec\<close> is the interface the clients rely on: decoding inverts
  encoding, and the encoding stays inside an alphabet. Both encodings are interpreted.
\<close>

locale text_codec =
  fixes encode :: "bytes \<Rightarrow> string"
    and decode :: "string \<Rightarrow> bytes result"
    and alphabet :: "char \<Rightarrow> bool"
  assumes roundtrip: "decode (encode bs) = Inr bs"
    and charset: "c \<in> set (encode bs) \<Longrightarrow> alphabet c"
begin

lemma inject: "encode a = encode b \<Longrightarrow> a = b"
  by (metis roundtrip sum.inject(2))

lemma avoids: "\<not> alphabet c \<Longrightarrow> c \<notin> set (encode bs)"
  using charset by blast

end

section \<open>Alphabets and encoding\<close>

definition b64char :: "bool \<Rightarrow> nat \<Rightarrow> char" where
  "b64char url n =
     (if n < 26 then byteOf (65 + n)
      else if n < 52 then byteOf (71 + n)
      else if n < 62 then byteOf (n - 4)
      else if n = 62 then (if url then CHR ''-'' else CHR ''+'')
      else (if url then CHR ''_'' else CHR ''/''))"

definition b64val :: "bool \<Rightarrow> char \<Rightarrow> nat option" where
  "b64val url c =
     (let v = byteVal c in
      if 65 \<le> v \<and> v \<le> 90 then Some (v - 65)
      else if 97 \<le> v \<and> v \<le> 122 then Some (v - 71)
      else if 48 \<le> v \<and> v \<le> 57 then Some (v + 4)
      else if c = (if url then CHR ''-'' else CHR ''+'') then Some 62
      else if c = (if url then CHR ''_'' else CHR ''/'') then Some 63
      else None)"

definition padding :: "bool \<Rightarrow> nat \<Rightarrow> string" where
  "padding pad n = (if pad then replicate n (CHR ''='') else [])"

fun b64encode :: "bool \<Rightarrow> bool \<Rightarrow> bytes \<Rightarrow> string" where
  "b64encode url pad [] = []"
| "b64encode url pad [a] =
     [b64char url (byteVal a div 4), b64char url (byteVal a mod 4 * 16)] @ padding pad 2"
| "b64encode url pad [a, b] =
     [b64char url (byteVal a div 4),
      b64char url (byteVal a mod 4 * 16 + byteVal b div 16),
      b64char url (byteVal b mod 16 * 4)] @ padding pad 1"
| "b64encode url pad (a # b # c # bs) =
     [b64char url (byteVal a div 4),
      b64char url (byteVal a mod 4 * 16 + byteVal b div 16),
      b64char url (byteVal b mod 16 * 4 + byteVal c div 64),
      b64char url (byteVal c mod 64)] @ b64encode url pad bs"

section \<open>Decoding\<close>

definition CorruptInputError :: "nat \<Rightarrow> goerror" where
  "CorruptInputError i = errorsNew (''illegal base64 data at input byte '' @ showNat i)"

definition newlineChar :: "char \<Rightarrow> bool" where
  "newlineChar c \<longleftrightarrow> byteVal c = 10 \<or> byteVal c = 13"

text \<open>The bytes of a quantum of two, three or four 6-bit values.\<close>

fun quantum :: "nat list \<Rightarrow> bytes" where
  "quantum (a # b # ds) =
     byteOf (a * 4 + b div 16) #
     (case ds of [] \<Rightarrow> []
      | c # es \<Rightarrow> byteOf (b mod 16 * 16 + c div 4) #
        (case es of [] \<Rightarrow> [] | d # _ \<Rightarrow> [byteOf (c mod 4 * 64 + d)]))"
| "quantum ds = []"

text \<open>
  The tail of \<^verbatim>\<open>decodeQuantum\<close> once the first \<^verbatim>\<open>=\<close> of a padded encoding
  was read: \<open>ds\<close> are the values so far, \<open>si\<close> the offset after that \<^verbatim>\<open>=\<close>.
\<close>

definition finishPadding :: "nat \<Rightarrow> nat list \<Rightarrow> string \<Rightarrow> bytes result" where
  "finishPadding si ds cs =
     (let rest = dropWhile newlineChar cs; si' = si + (length cs - length rest) in
      if length ds = 2 then
        (case rest of [] \<Rightarrow> Inl (CorruptInputError si')
         | c # rest' \<Rightarrow>
           if c \<noteq> CHR ''='' then Inl (CorruptInputError (si' - 1))
           else let tail = dropWhile newlineChar rest' in
                if tail = [] then Inr (quantum ds)
                else Inl (CorruptInputError (si' + 1 + (length rest' - length tail))))
      else if rest = [] then Inr (quantum ds)
      else Inl (CorruptInputError si'))"

fun decodeQuanta :: "bool \<Rightarrow> bool \<Rightarrow> nat \<Rightarrow> nat list \<Rightarrow> string \<Rightarrow> bytes result" where
  "decodeQuanta url pad si ds [] =
     (if ds = [] then Inr []
      else if length ds = 1 \<or> pad then Inl (CorruptInputError (si - length ds))
      else Inr (quantum ds))"
| "decodeQuanta url pad si ds (c # cs) =
     (case b64val url c of
        Some v \<Rightarrow>
          if length ds = 3
          then bindR (decodeQuanta url pad (Suc si) [] cs) (\<lambda>r. Inr (quantum (ds @ [v]) @ r))
          else decodeQuanta url pad (Suc si) (ds @ [v]) cs
      | None \<Rightarrow>
          if newlineChar c then decodeQuanta url pad (Suc si) ds cs
          else if \<not> (pad \<and> c = CHR ''='') then Inl (CorruptInputError si)
          else if length ds < 2 then Inl (CorruptInputError si)
          else finishPadding (Suc si) ds cs)"

definition b64decode :: "bool \<Rightarrow> bool \<Rightarrow> string \<Rightarrow> bytes result" where
  "b64decode url pad s = decodeQuanta url pad 0 [] s"

abbreviation RawURLEncode :: "bytes \<Rightarrow> string" where
  "RawURLEncode \<equiv> b64encode True False"

abbreviation RawURLDecode :: "string \<Rightarrow> bytes result" where
  "RawURLDecode \<equiv> b64decode True False"

abbreviation StdEncode :: "bytes \<Rightarrow> string" where
  "StdEncode \<equiv> b64encode False True"

abbreviation StdDecode :: "string \<Rightarrow> bytes result" where
  "StdDecode \<equiv> b64decode False True"

abbreviation RawStdEncode :: "bytes \<Rightarrow> string" where
  "RawStdEncode \<equiv> b64encode False False"

section \<open>Round trip\<close>

lemma b64val_b64char [go_codec]: "n < 64 \<Longrightarrow> b64val url (b64char url n) = Some n"
  by (auto simp: b64val_def b64char_def Let_def)

definition b64alphabet :: "bool \<Rightarrow> bool \<Rightarrow> char \<Rightarrow> bool" where
  "b64alphabet url pad c \<longleftrightarrow> b64val url c \<noteq> None \<or> (pad \<and> c = CHR ''='')"

lemma byte_parts:
  "byteVal a div 4 < 64" "byteVal a mod 4 * 16 + byteVal b div 16 < 64"
  "byteVal a mod 4 * 16 < 64" "byteVal b mod 16 * 4 < 64"
  "byteVal b mod 16 * 4 + byteVal c div 64 < 64" "byteVal c mod 64 < 64"
proof -
  have m: "byteVal a mod 4 < 4" "byteVal b mod 16 < 16" by simp_all
  show "byteVal a div 4 < 64" using byteVal_less [of a] by linarith
  show "byteVal a mod 4 * 16 + byteVal b div 16 < 64"
    using m byteVal_less [of b] by linarith
  show "byteVal a mod 4 * 16 < 64" "byteVal b mod 16 * 4 < 64" using m by linarith+
  show "byteVal b mod 16 * 4 + byteVal c div 64 < 64"
    using m byteVal_less [of c] by linarith
  show "byteVal c mod 64 < 64" by simp
qed

lemma quantum_bytes:
  "quantum [byteVal a div 4, byteVal a mod 4 * 16] = [a]"
  "quantum [byteVal a div 4, byteVal a mod 4 * 16 + byteVal b div 16, byteVal b mod 16 * 4] = [a, b]"
  "quantum [byteVal a div 4, byteVal a mod 4 * 16 + byteVal b div 16,
      byteVal b mod 16 * 4 + byteVal c div 64, byteVal c mod 64] = [a, b, c]"
proof -
  have d: "byteVal b div 16 < 16" "byteVal c div 64 < 4"
    using byteVal_less [of b] byteVal_less [of c] by linarith+
  have a: "byteVal a div 4 * 4 + byteVal a mod 4 = byteVal a" by (rule div_mult_mod_eq)
  have b: "byteVal b div 16 * 16 + byteVal b mod 16 = byteVal b" by (rule div_mult_mod_eq)
  have c: "byteVal c div 64 * 64 + byteVal c mod 64 = byteVal c" by (rule div_mult_mod_eq)
  show "quantum [byteVal a div 4, byteVal a mod 4 * 16] = [a]"
    by (simp add: a)
  show "quantum [byteVal a div 4, byteVal a mod 4 * 16 + byteVal b div 16, byteVal b mod 16 * 4] = [a, b]"
    using d a b by (simp add: add.commute mult.commute)
  show "quantum [byteVal a div 4, byteVal a mod 4 * 16 + byteVal b div 16,
      byteVal b mod 16 * 4 + byteVal c div 64, byteVal c mod 64] = [a, b, c]"
    using d a b c by (simp add: add.commute mult.commute)
qed

lemma decodeQuanta_step:
  assumes "w < 64" "x < 64" "y < 64" "z < 64"
  shows "decodeQuanta url pad si [] ([b64char url w, b64char url x, b64char url y, b64char url z] @ cs)
    = bindR (decodeQuanta url pad (Suc (Suc (Suc (Suc si)))) [] cs) (\<lambda>r. Inr (quantum [w, x, y, z] @ r))"
  using assms by (simp add: b64val_b64char del: quantum.simps)

lemma b64val_pad [simp]: "b64val url (CHR ''='') = None"
  by (simp add: b64val_def)

lemma decodeQuanta_encode:
  "decodeQuanta url pad si [] (b64encode url pad bs) = Inr bs"
proof (induction url pad bs arbitrary: si rule: b64encode.induct)
  case (2 url pad a)
  then show ?case
    by (cases pad) (simp_all add: padding_def b64val_b64char byte_parts quantum_bytes newlineChar_def
        finishPadding_def numeral_2_eq_2 del: quantum.simps)
next
  case (3 url pad a b)
  then show ?case
    by (cases pad) (simp_all add: padding_def b64val_b64char byte_parts quantum_bytes newlineChar_def
        finishPadding_def del: quantum.simps)
next
  case (4 url pad a b c bs)
  then show ?case
    by (simp only: b64encode.simps decodeQuanta_step [OF byte_parts(1,2,5,6)])
      (simp add: quantum_bytes del: quantum.simps)
qed simp

lemma b64decode_encode [go_codec]: "b64decode url pad (b64encode url pad bs) = Inr bs"
  by (simp add: b64decode_def decodeQuanta_encode)

lemma b64encode_alphabet: "c \<in> set (b64encode url pad bs) \<Longrightarrow> b64alphabet url pad c"
  by (induction url pad bs rule: b64encode.induct)
    (auto simp: b64alphabet_def b64val_b64char byte_parts padding_def split: if_splits)

interpretation b64: text_codec "b64encode url pad" "b64decode url pad" "b64alphabet url pad"
  for url pad
  by unfold_locales (auto simp: b64decode_encode b64encode_alphabet)

lemma b64_special:
  "CHR ''.'' \<notin> set (b64encode url pad bs)" "CHR '','' \<notin> set (b64encode url pad bs)"
  by (rule b64.avoids, simp add: b64alphabet_def b64val_def)+

lemma b64encode_Nil_iff [simp]: "b64encode url pad bs = [] \<longleftrightarrow> bs = []"
  by (cases "(url, pad, bs)" rule: b64encode.cases) auto

end
