(* ===== verification/Marker.thy ===== *)
theory Marker
  imports Base64
begin

text \<open>
  \<^verbatim>\<open>internal/crypto/marker.go\<close>: the textual envelope around an encrypted value,
  \<^verbatim>\<open>$KKP$<fmt>.<scheme>.<keyver>.<payload>\<close>, its parser, and the escaping of
  plaintext that happens to begin with the sentinel.
\<close>

section \<open>Schemes\<close>

type_synonym Scheme = "8 word"

definition SchemeDeterministic :: Scheme where
  "SchemeDeterministic = 0"

definition SchemeNonDeterministic :: Scheme where
  "SchemeNonDeterministic = 1"

lemma Scheme_neq [simp]:
  "SchemeDeterministic \<noteq> SchemeNonDeterministic" "SchemeNonDeterministic \<noteq> SchemeDeterministic"
  by (simp_all add: SchemeDeterministic_def SchemeNonDeterministic_def)

definition Scheme_String :: "Scheme \<Rightarrow> string" where
  "Scheme_String s =
     (if s = SchemeDeterministic then ''deterministic''
      else if s = SchemeNonDeterministic then ''non-deterministic''
      else ''Scheme('' @ showNat (unat s) @ '')'')"

section \<open>Constants and errors\<close>

definition sentinel :: string where "sentinel = ''$KKP$''"

definition escapeMarker :: string where "escapeMarker = ''=''"

definition markerFormatVersion :: nat where "markerFormatVersion = 1"

definition fieldSep :: char where "fieldSep = CHR ''.''"

definition schemeCharDeterministic :: string where "schemeCharDeterministic = ''d''"

definition schemeCharNonDeterministic :: string where "schemeCharNonDeterministic = ''n''"

definition headerFields :: nat where "headerFields = 4"

definition ErrMalformedEnvelope :: goerror where
  "ErrMalformedEnvelope = errorsNew ''crypto: malformed ciphertext envelope''"

definition ErrUnsupportedFormat :: goerror where
  "ErrUnsupportedFormat = errorsNew ''crypto: unsupported marker format version''"

definition ErrUnknownScheme :: goerror where
  "ErrUnknownScheme = errorsNew ''crypto: unknown encryption scheme''"

lemmas marker_consts = sentinel_def escapeMarker_def markerFormatVersion_def fieldSep_def
  schemeCharDeterministic_def schemeCharNonDeterministic_def headerFields_def

section \<open>Envelopes\<close>

record Envelope =
  envScheme :: Scheme
  envKeyVersion :: "32 word"
  envCiphertext :: bytes

definition Marshal :: "Envelope \<Rightarrow> string result" where
  "Marshal e =
     (let finish = (\<lambda>schemeChar.
        Inr (sentinel @ showNat markerFormatVersion @ [fieldSep] @ schemeChar @ [fieldSep]
             @ showNat (unat (envKeyVersion e)) @ [fieldSep] @ RawURLEncode (envCiphertext e)))
      in if envScheme e = SchemeDeterministic then finish schemeCharDeterministic
         else if envScheme e = SchemeNonDeterministic then finish schemeCharNonDeterministic
         else Inl (wrapErr [] ErrUnknownScheme ('': '' @ showNat (unat (envScheme e)))))"

definition parseScheme :: "unicode \<Rightarrow> string \<Rightarrow> Scheme result" where
  "parseScheme U s =
     (if s = schemeCharDeterministic then Inr SchemeDeterministic
      else if s = schemeCharNonDeterministic then Inr SchemeNonDeterministic
      else Inl (wrapErr [] ErrUnknownScheme ('': '' @ Quote U s)))"

text \<open>
  \<^verbatim>\<open>Parse\<close> returns \<^verbatim>\<open>(Envelope, ok, err)\<close>: here \<open>Inl err\<close>, \<open>Inr None\<close> for
  \<^verbatim>\<open>ok = false\<close> (plaintext) and \<open>Inr (Some env)\<close> for \<^verbatim>\<open>ok = true\<close>.
\<close>

definition Parse :: "unicode \<Rightarrow> string \<Rightarrow> Envelope option result" where
  "Parse U stored =
     (if \<not> HasPrefix stored sentinel then Inr None
      else let rest = drop (length sentinel) stored in
      if HasPrefix rest escapeMarker then Inr None
      else let parts = SplitN rest fieldSep headerFields in
      if length parts \<noteq> headerFields
      then Inl (wrapErr [] ErrMalformedEnvelope ('': want '' @ showNat headerFields @ '' header fields''))
      else (case Atoi (parts ! 0) of
        None \<Rightarrow> Inl (wrapErr [] ErrMalformedEnvelope ('': bad format version '' @ Quote U (parts ! 0)))
      | Some fv \<Rightarrow>
        if fv \<noteq> int markerFormatVersion
        then Inl (wrapErr [] ErrUnsupportedFormat ('': '' @ showInt fv))
        else bindR (parseScheme U (parts ! 1)) (\<lambda>scheme.
          (case ParseUint (parts ! 2) 32 of
             None \<Rightarrow> Inl (wrapErr [] ErrMalformedEnvelope ('': bad key version '' @ Quote U (parts ! 2)))
           | Some keyVer \<Rightarrow>
             (case RawURLDecode (parts ! 3) of
                Inl err \<Rightarrow> Inl (wrapErr [] ErrMalformedEnvelope ('': bad payload: '' @ errText err))
              | Inr ciphertext \<Rightarrow>
                  Inr (Some \<lparr>envScheme = scheme, envKeyVersion = word_of_nat keyVer,
                             envCiphertext = ciphertext\<rparr>))))))"

definition Escape :: "string \<Rightarrow> string" where
  "Escape plaintext =
     (if HasPrefix plaintext sentinel then sentinel @ escapeMarker @ plaintext else plaintext)"

definition Unescape :: "string \<Rightarrow> string" where
  "Unescape stored =
     (let prefix = sentinel @ escapeMarker in
      if HasPrefix stored prefix then drop (length prefix) stored else stored)"

section \<open>Properties\<close>

definition knownScheme :: "Scheme \<Rightarrow> bool" where
  "knownScheme s \<longleftrightarrow> s = SchemeDeterministic \<or> s = SchemeNonDeterministic"

text \<open>What \<^verbatim>\<open>Parse\<close> takes for plaintext: no sentinel, or an escaped one.\<close>

definition isPlaintext :: "string \<Rightarrow> bool" where
  "isPlaintext s \<longleftrightarrow> \<not> HasPrefix s sentinel \<or> HasPrefix s (sentinel @ escapeMarker)"

lemma showNat_version: "showNat markerFormatVersion = ''1''"
  by code_simp

lemma Marshal_cases:
  "Marshal e = Inr s \<longleftrightarrow> knownScheme (envScheme e) \<and>
     s = sentinel @ ''1.'' @ (if envScheme e = SchemeDeterministic then ''d'' else ''n'') @ ''.''
         @ showNat (unat (envKeyVersion e)) @ ''.'' @ RawURLEncode (envCiphertext e)"
  unfolding Marshal_def showNat_version
  by (auto simp: knownScheme_def marker_consts)

lemma parseScheme_known: "parseScheme U s = Inr sch \<Longrightarrow> knownScheme sch"
  by (auto simp: parseScheme_def knownScheme_def split: if_splits)

lemma Parse_plaintext_iff: "Parse U s = Inr None \<longleftrightarrow> isPlaintext s"
proof -
  have "HasPrefix s sentinel \<Longrightarrow>
      HasPrefix (drop (length sentinel) s) escapeMarker \<longleftrightarrow> HasPrefix s (sentinel @ escapeMarker)"
    by (auto simp: HasPrefix_iff)
  moreover have "\<not> HasPrefix s sentinel \<Longrightarrow> \<not> HasPrefix s (sentinel @ escapeMarker)"
    using HasPrefix_appendD by blast
  ultimately show ?thesis
    by (auto simp: Parse_def isPlaintext_def Let_def bindR_eq_Inr split: option.splits sum.splits)
qed

lemma Parse_scheme: "Parse U s = Inr (Some e) \<Longrightarrow> knownScheme (envScheme e)"
  by (auto simp: Parse_def Let_def bindR_def dest: parseScheme_known
      split: if_split_asm option.split_asm sum.split_asm)

lemma Parse_marked: "Parse U s = Inr (Some e) \<Longrightarrow> HasPrefix s sentinel"
  by (auto simp: Parse_def split: if_splits)

lemma Parse_fields:
  assumes "rest = a @ ''.'' @ b @ ''.'' @ c @ ''.'' @ d"
    and "CHR ''.'' \<notin> set a" "CHR ''.'' \<notin> set b" "CHR ''.'' \<notin> set c"
    and "\<not> HasPrefix rest escapeMarker"
    and "Atoi a = Some 1" "parseScheme U b = Inr sch" "ParseUint c 32 = Some kv"
    and "RawURLDecode d = Inr ct"
  shows "Parse U (sentinel @ rest) =
    Inr (Some \<lparr>envScheme = sch, envKeyVersion = word_of_nat kv, envCiphertext = ct\<rparr>)"
proof -
  have "SplitN rest fieldSep headerFields = [a, b, c, d]"
    using assms(2-4) by (simp add: assms(1) marker_consts numeral_eq_Suc)
  then show ?thesis
    using assms(5-9) by (simp add: Parse_def headerFields_def markerFormatVersion_def)
qed

lemma Parse_Marshal:
  assumes "Marshal e = Inr s"
  shows "Parse U s = Inr (Some e)"
proof -
  let ?c = "if envScheme e = SchemeDeterministic then ''d'' else ''n''"
  let ?rest = "''1'' @ ''.'' @ ?c @ ''.'' @ showNat (unat (envKeyVersion e)) @ ''.''
      @ RawURLEncode (envCiphertext e)"
  from assms have k: "knownScheme (envScheme e)" and s: "s = sentinel @ ?rest"
    by (auto simp: Marshal_cases)
  have "unat (envKeyVersion e) < 2 ^ 32"
    using unsigned_less [of "envKeyVersion e", where ?'a = nat] by simp
  then have kv: "ParseUint (showNat (unat (envKeyVersion e))) 32 = Some (unat (envKeyVersion e))"
    by (rule ParseUint_showNat)
  have sch: "parseScheme U ?c = Inr (envScheme e)"
    using k by (auto simp: parseScheme_def knownScheme_def marker_consts)
  have "Parse U (sentinel @ ?rest) =
      Inr (Some \<lparr>envScheme = envScheme e, envKeyVersion = word_of_nat (unat (envKeyVersion e)),
                 envCiphertext = envCiphertext e\<rparr>)"
    by (rule Parse_fields [OF refl _ _ _ _ _ sch kv b64.roundtrip])
      (auto simp: showNat_special HasPrefix_def escapeMarker_def Atoi_def ParseUint_def isDigit_def
        decimal_def)
  then show ?thesis by (simp add: s)
qed

lemma Unescape_Escape: "Unescape (Escape p) = p"
proof (cases "HasPrefix p sentinel")
  case True
  then show ?thesis
    using HasPrefix_append [of "sentinel @ escapeMarker" p]
    by (simp add: Escape_def Unescape_def)
next
  case False
  then have "\<not> HasPrefix p (sentinel @ escapeMarker)" using HasPrefix_appendD by blast
  with False show ?thesis by (simp add: Escape_def Unescape_def)
qed

lemma isPlaintext_Escape: "isPlaintext (Escape p)"
  using HasPrefix_append [of "sentinel @ escapeMarker" p]
  by (auto simp: isPlaintext_def Escape_def)

section \<open>The format as a grammar\<close>

text \<open>A marker, a format version, a scheme letter, a key version and a payload.\<close>

definition envelopeText :: "string \<Rightarrow> Envelope \<Rightarrow> bool" where
  "envelopeText s e \<longleftrightarrow>
     (\<exists>version scheme number payload.
        s = sentinel @ version @ ''.'' @ scheme @ ''.'' @ number @ ''.'' @ payload
        \<and> CHR ''.'' \<notin> set version \<union> set scheme \<union> set number
        \<and> Atoi version = Some 1
        \<and> (scheme = ''d'' \<and> envScheme e = SchemeDeterministic \<or> scheme = ''n'' \<and> envScheme e = SchemeNonDeterministic)
        \<and> ParseUint number 32 = Some (unat (envKeyVersion e)) \<and> RawURLDecode payload = Inr (envCiphertext e))"

lemma envelopeText_dot: "envelopeText s e \<Longrightarrow> CHR ''.'' \<in> set s"
  by (auto simp: envelopeText_def)

lemma Atoi_no_escape: "Atoi v = Some n \<Longrightarrow> \<not> HasPrefix (v @ t) escapeMarker"
  by (auto simp: Atoi_def HasPrefix_def escapeMarker_def ParseUint_def isDigit_def Let_def split: list.splits if_splits)

lemma parseScheme_iff: "parseScheme U s = Inr sch \<longleftrightarrow>
   s = ''d'' \<and> sch = SchemeDeterministic \<or> s = ''n'' \<and> sch = SchemeNonDeterministic"
  by (auto simp: parseScheme_def marker_consts)

lemma Parse_envelopeText: "Parse U s = Inr (Some e) \<longleftrightarrow> envelopeText s e"
proof
  assume p: "Parse U s = Inr (Some e)"
  let ?rest = "drop (length sentinel) s"
  let ?parts = "SplitN ?rest fieldSep headerFields"
  obtain sch kv ct where f: "length ?parts = 4" "Atoi (?parts ! 0) = Some 1" "parseScheme U (?parts ! 1) = Inr sch"
    "ParseUint (?parts ! 2) 32 = Some kv" "RawURLDecode (?parts ! 3) = Inr ct"
    "e = \<lparr>envScheme = sch, envKeyVersion = word_of_nat kv, envCiphertext = ct\<rparr>"
    using p by (auto simp: Parse_def Let_def bindR_def headerFields_def markerFormatVersion_def
        split: if_split_asm option.split_asm sum.split_asm)
  obtain a b k d where parts: "?parts = [a, b, k, d]"
    using f(1) by (auto simp: length_Suc_conv numeral_eq_Suc)
  have "SplitN ?rest (CHR ''.'') (Suc (Suc 2)) = [a, b, k, d]" using parts by (simp add: marker_consts numeral_eq_Suc)
  from SplitN_two [OF this] obtain t1 where t1: "?rest = a @ CHR ''.'' # t1" "CHR ''.'' \<notin> set a" "SplitN t1 (CHR ''.'') (Suc (Suc 1)) = [b, k, d]"
    by (auto simp: numeral_eq_Suc)
  from SplitN_two [OF t1(3)] obtain t2 where t2: "t1 = b @ CHR ''.'' # t2" "CHR ''.'' \<notin> set b" "SplitN t2 (CHR ''.'') (Suc (Suc 0)) = [k, d]"
    by (auto simp: numeral_eq_Suc)
  from SplitN_two [OF t2(3)] have t3: "t2 = k @ CHR ''.'' # d" "CHR ''.'' \<notin> set k" by auto
  have s: "s = sentinel @ a @ ''.'' @ b @ ''.'' @ k @ ''.'' @ d"
    using Parse_marked [OF p] t1(1) t2(1) t3(1) by (auto simp: HasPrefix_iff)
  have kv: "ParseUint k 32 = Some (unat (envKeyVersion e))"
    using f(4,6) ParseUint_bound [of k 32 kv] parts by (simp add: unat_of_nat)
  show "envelopeText s e"
    unfolding envelopeText_def
    by (rule exI [of _ a], rule exI [of _ b], rule exI [of _ k], rule exI [of _ d])
      (use s t1(2) t2(2) t3(2) f kv parts in \<open>simp add: parseScheme_iff\<close>)
next
  assume "envelopeText s e"
  then obtain a b k d where s: "s = sentinel @ a @ ''.'' @ b @ ''.'' @ k @ ''.'' @ d"
    and n: "CHR ''.'' \<notin> set a" "CHR ''.'' \<notin> set b" "CHR ''.'' \<notin> set k" and f: "Atoi a = Some 1" "parseScheme U b = Inr (envScheme e)"
    "ParseUint k 32 = Some (unat (envKeyVersion e))" "RawURLDecode d = Inr (envCiphertext e)"
    by (auto simp: envelopeText_def parseScheme_iff)
  from Parse_fields [OF refl n Atoi_no_escape [OF f(1)] f]
  show "Parse U s = Inr (Some e)" unfolding s by simp
qed

lemma Parse_error:
  "Parse U s = Inl e \<Longrightarrow> errorsIs e ErrMalformedEnvelope \<or> errorsIs e ErrUnsupportedFormat \<or> errorsIs e ErrUnknownScheme"
  by (auto simp: Parse_def Let_def bindR_def parseScheme_def split: if_splits option.splits sum.splits)

end
