(* ===== verification/Sha256.thy ===== *)
theory Sha256
  imports Strconv
begin

text \<open>
  Go's \<^verbatim>\<open>crypto/sha256\<close> and \<^verbatim>\<open>crypto/hmac\<close> over 32-bit words, as
  \<^verbatim>\<open>internal/crypto/blindindex.go\<close> and the SCRAM legs use them, and
  \<^verbatim>\<open>encoding/binary\<close>'s big-endian 32-bit rendering.
\<close>

unbundle bit_operations_syntax

section \<open>Big-endian words\<close>

definition be32 :: "nat \<Rightarrow> bytes" where
  "be32 n = [byteOf (n div 16777216 mod 256), byteOf (n div 65536 mod 256),
             byteOf (n div 256 mod 256), byteOf (n mod 256)]"

definition fromBE32 :: "bytes \<Rightarrow> nat" where
  "fromBE32 bs = foldl (\<lambda>n c. 256 * n + byteVal c) 0 (take 4 bs)"

lemma be32_length [simp]: "length (be32 n) = 4"
  by (simp add: be32_def)

lemma fromBE32_be32 [go_codec]:
  assumes "n < 2 ^ 32"
  shows "fromBE32 (be32 n @ t) = n"
proof -
  define a b c where "a = n div 256" and "b = n div 65536" and "c = n div 16777216"
  have "b = a div 256" "c = b div 256"
    unfolding a_def b_def c_def by (simp_all add: div_mult2_eq [symmetric])
  then have n: "256 * a + n mod 256 = n" "256 * b + a mod 256 = a" "256 * c + b mod 256 = b"
    using a_def mult_div_mod_eq by metis+
  have "c < 256" using assms by (simp add: c_def)
  then have "fromBE32 (be32 n @ t) = 256 * (256 * (256 * c + b mod 256) + a mod 256) + n mod 256"
    by (simp add: fromBE32_def be32_def a_def b_def c_def)
  then show ?thesis by (simp only: n)
qed

section \<open>SHA-256\<close>

type_synonym w32 = "32 word"

definition sha256K :: "w32 list" where
  "sha256K =
     [1116352408, 1899447441, 3049323471, 3921009573, 961987163, 1508970993,
      2453635748, 2870763221, 3624381080, 310598401, 607225278, 1426881987,
      1925078388, 2162078206, 2614888103, 3248222580, 3835390401, 4022224774,
      264347078, 604807628, 770255983, 1249150122, 1555081692, 1996064986,
      2554220882, 2821834349, 2952996808, 3210313671, 3336571891, 3584528711,
      113926993, 338241895, 666307205, 773529912, 1294757372, 1396182291,
      1695183700, 1986661051, 2177026350, 2456956037, 2730485921, 2820302411,
      3259730800, 3345764771, 3516065817, 3600352804, 4094571909, 275423344,
      430227734, 506948616, 659060556, 883997877, 958139571, 1322822218,
      1537002063, 1747873779, 1955562222, 2024104815, 2227730452, 2361852424,
      2428436474, 2756734187, 3204031479, 3329325298]"

definition sha256Init :: "w32 list" where
  "sha256Init =
     [1779033703, 3144134277, 1013904242, 2773480762, 1359893119, 2600822924,
      528734635, 1541459225]"

definition word_of_bytes :: "bytes \<Rightarrow> w32" where
  "word_of_bytes bs = word_of_nat (fromBE32 bs)"

fun chunks :: "nat \<Rightarrow> nat \<Rightarrow> bytes \<Rightarrow> bytes list" where
  "chunks n 0 bs = []"
| "chunks n (Suc k) bs = take n bs # chunks n k (drop n bs)"

definition sha256Pad :: "bytes \<Rightarrow> bytes" where
  "sha256Pad m =
     (let l = length m; z = (119 - l mod 64) mod 64 in
      m @ [byteOf 0x80] @ replicate z (byteOf 0)
        @ be32 (8 * l div 4294967296 mod 4294967296) @ be32 (8 * l mod 4294967296))"

definition sigma0 :: "w32 \<Rightarrow> w32" where
  "sigma0 x = word_rotr 7 x XOR word_rotr 18 x XOR drop_bit 3 x"

definition sigma1 :: "w32 \<Rightarrow> w32" where
  "sigma1 x = word_rotr 17 x XOR word_rotr 19 x XOR drop_bit 10 x"

definition bigSigma0 :: "w32 \<Rightarrow> w32" where
  "bigSigma0 x = word_rotr 2 x XOR word_rotr 13 x XOR word_rotr 22 x"

definition bigSigma1 :: "w32 \<Rightarrow> w32" where
  "bigSigma1 x = word_rotr 6 x XOR word_rotr 11 x XOR word_rotr 25 x"

fun extendSchedule :: "nat \<Rightarrow> w32 list \<Rightarrow> w32 list" where
  "extendSchedule 0 ws = ws"
| "extendSchedule (Suc k) ws =
     (let t = length ws in
      extendSchedule k (ws @ [sigma1 (ws ! (t - 2)) + ws ! (t - 7)
                              + sigma0 (ws ! (t - 15)) + ws ! (t - 16)]))"

fun sha256Round :: "w32 list \<Rightarrow> w32 \<times> w32 \<Rightarrow> w32 list" where
  "sha256Round [a, b, c, d, e, f, g, h] (k, w) =
     (let t1 = h + bigSigma1 e + ((e AND f) XOR (NOT e AND g)) + k + w;
          t2 = bigSigma0 a + ((a AND b) XOR (a AND c) XOR (b AND c))
      in [t1 + t2, a, b, c, d + t1, e, f, g])"
| "sha256Round st kw = st"

definition sha256Block :: "w32 list \<Rightarrow> bytes \<Rightarrow> w32 list" where
  "sha256Block st block =
     (let ws = extendSchedule 48 (map word_of_bytes (chunks 4 16 block)) in
      map2 (+) st (foldl sha256Round st (zip sha256K ws)))"

definition sha256 :: "bytes \<Rightarrow> bytes" where
  "sha256 m =
     (let p = sha256Pad m in
      concat (map (\<lambda>w. be32 (unat w))
        (foldl sha256Block sha256Init (chunks 64 (length p div 64) p))))"

section \<open>HMAC\<close>

definition xorByte :: "char \<Rightarrow> char \<Rightarrow> char" where
  "xorByte a b = byteOf (byteVal a XOR byteVal b)"

definition hmacKey :: "bytes \<Rightarrow> bytes" where
  "hmacKey key =
     (let k = (if length key > 64 then sha256 key else key) in
      k @ replicate (64 - length k) (byteOf 0))"

definition hmacSHA256 :: "bytes \<Rightarrow> bytes \<Rightarrow> bytes" where
  "hmacSHA256 key msg =
     sha256 (map (xorByte (byteOf 0x5C)) (hmacKey key)
       @ sha256 (map (xorByte (byteOf 0x36)) (hmacKey key) @ msg))"

section \<open>Digest length and the XOR of bytes\<close>

lemma sha256Round_length [simp]: "length (sha256Round st kw) = length st"
  by (induction st kw rule: sha256Round.induct) (simp_all add: Let_def)

lemma foldl_sha256Round_length [simp]: "length (foldl sha256Round st kws) = length st"
  by (induction kws arbitrary: st) simp_all

lemma sha256Block_length [simp]: "length (sha256Block st block) = length st"
  by (simp add: sha256Block_def Let_def)

lemma foldl_sha256Block_length [simp]: "length (foldl sha256Block st bs) = length st"
  by (induction bs arbitrary: st) simp_all

lemma sha256_length [simp]: "length (sha256 m) = 32"
  by (simp add: sha256_def Let_def length_concat comp_def sum_list_triv sha256Init_def)

lemma hmacSHA256_length [simp]: "length (hmacSHA256 key msg) = 32"
  by (simp add: hmacSHA256_def)

lemma xor_byte_less: "(a::nat) < 256 \<Longrightarrow> b < 256 \<Longrightarrow> a XOR b < 256"
proof -
  assume "a < 256" "b < 256"
  then have "take_bit 8 a = a" "take_bit 8 b = b" by (simp_all add: take_bit_eq_mod)
  then have "take_bit 8 (a XOR b) = a XOR b" by (simp add: take_bit_xor)
  then show ?thesis using take_bit_nat_less_exp [of 8 "a XOR b"] by simp
qed

lemma xorByte_cancel [simp]: "xorByte (xorByte a b) b = a"
  by (simp add: xorByte_def xor_byte_less xor.assoc)

end
