(* ===== verification/Cipher.thy ===== *)
theory Cipher
  imports Marker Sha256
begin

text \<open>
  \<^verbatim>\<open>internal/crypto\<close> above the marker: the \<^verbatim>\<open>Primitive\<close> interface and its
  two implementations (\<^verbatim>\<open>aead.go\<close>, \<^verbatim>\<open>daead.go\<close>), the blind index
  (\<^verbatim>\<open>blindindex.go\<close>) and the \<^verbatim>\<open>Cipher\<close> facade (\<^verbatim>\<open>cipher.go\<close>).

  Tink's AEAD objects are third-party code and enter as records of functions; the random
  nonce an AES-GCM encryption draws is an explicit argument. What the code relies on is
  \<open>lawfulAEAD\<close> and \<open>lawfulDAEAD\<close>: decryption under the same associated data returns
  what was encrypted.
\<close>

section \<open>Primitives\<close>

record tinkAEAD =
  aeadEncrypt :: "bytes \<Rightarrow> bytes \<Rightarrow> bytes \<Rightarrow> bytes result"
  aeadDecrypt :: "bytes \<Rightarrow> bytes \<Rightarrow> bytes result"

record tinkDAEAD =
  EncryptDeterministically :: "bytes \<Rightarrow> bytes \<Rightarrow> bytes result"
  DecryptDeterministically :: "bytes \<Rightarrow> bytes \<Rightarrow> bytes result"

definition lawfulAEAD :: "tinkAEAD \<Rightarrow> bool" where
  "lawfulAEAD a \<longleftrightarrow>
     (\<forall>r pt ad ct. aeadEncrypt a r pt ad = Inr ct \<longrightarrow> aeadDecrypt a ct ad = Inr pt)"

definition lawfulDAEAD :: "tinkDAEAD \<Rightarrow> bool" where
  "lawfulDAEAD d \<longleftrightarrow>
     (\<forall>pt ad ct. EncryptDeterministically d pt ad = Inr ct \<longrightarrow> DecryptDeterministically d ct ad = Inr pt)"

record Primitive =
  primEncrypt :: "bytes \<Rightarrow> bytes \<Rightarrow> bytes \<Rightarrow> bytes result"
  primDecrypt :: "bytes \<Rightarrow> bytes \<Rightarrow> bytes result"
  primScheme :: Scheme

definition NonDeterministicAEAD :: "tinkAEAD \<Rightarrow> Primitive" where
  "NonDeterministicAEAD a =
     \<lparr>primEncrypt = (\<lambda>rnd plaintext associatedData. aeadEncrypt a rnd plaintext associatedData),
      primDecrypt = (\<lambda>ciphertext associatedData. aeadDecrypt a ciphertext associatedData),
      primScheme = SchemeNonDeterministic\<rparr>"

definition DeterministicAEAD :: "tinkDAEAD \<Rightarrow> Primitive" where
  "DeterministicAEAD d =
     \<lparr>primEncrypt = (\<lambda>rnd plaintext associatedData. EncryptDeterministically d plaintext associatedData),
      primDecrypt = (\<lambda>ciphertext associatedData. DecryptDeterministically d ciphertext associatedData),
      primScheme = SchemeDeterministic\<rparr>"

definition NormalizeLowercase :: "unicode \<Rightarrow> string \<Rightarrow> string" where
  "NormalizeLowercase U s = ToLower U s"

definition lawfulPrimitive :: "Primitive \<Rightarrow> bool" where
  "lawfulPrimitive p \<longleftrightarrow>
     (\<forall>r pt ad ct. primEncrypt p r pt ad = Inr ct \<longrightarrow> primDecrypt p ct ad = Inr pt)"

text \<open>
  The interface between the cipher facade and a way of building a primitive: lawful
  building material gives a lawful primitive of one fixed, known scheme.
\<close>

locale primitive_family =
  fixes build :: "'t \<Rightarrow> Primitive"
    and lawful :: "'t \<Rightarrow> bool"
    and scheme :: Scheme
  assumes build_lawful: "lawful t \<Longrightarrow> lawfulPrimitive (build t)"
    and build_scheme: "primScheme (build t) = scheme"
    and scheme_known: "knownScheme scheme"
begin

lemma decrypt_encrypt:
  "lawful t \<Longrightarrow> primEncrypt (build t) r pt ad = Inr ct \<Longrightarrow> primDecrypt (build t) ct ad = Inr pt"
  using build_lawful by (auto simp: lawfulPrimitive_def)

end

interpretation gcm: primitive_family NonDeterministicAEAD lawfulAEAD SchemeNonDeterministic
  by unfold_locales
    (auto simp: lawfulPrimitive_def lawfulAEAD_def NonDeterministicAEAD_def knownScheme_def)

interpretation siv: primitive_family DeterministicAEAD lawfulDAEAD SchemeDeterministic
  by unfold_locales
    (auto simp: lawfulPrimitive_def lawfulDAEAD_def DeterministicAEAD_def knownScheme_def)

section \<open>Blind index\<close>

definition BlindIndexKeyBytes :: nat where "BlindIndexKeyBytes = 32"

record BlindIndex =
  biKey :: bytes

definition NewBlindIndex :: "bytes \<Rightarrow> BlindIndex" where
  "NewBlindIndex key = \<lparr>biKey = key\<rparr>"

text \<open>The bytes fed to the MAC: a 4-byte length of the associated data, then both parts.\<close>

definition macInput :: "bytes \<Rightarrow> bytes \<Rightarrow> bytes" where
  "macInput associatedData plaintext =
     be32 (length associatedData) @ associatedData @ plaintext"

definition Compute :: "BlindIndex \<Rightarrow> bytes \<Rightarrow> bytes \<Rightarrow> string result" where
  "Compute b plaintext associatedData =
     (if length associatedData > 4294967295
      then Inl (errorsNew (''crypto: associated data too long ('' @ showNat (length associatedData) @ '' bytes)''))
      else Inr (hexEncode (hmacSHA256 (biKey b) (macInput associatedData plaintext))))"

section \<open>Cipher\<close>

definition ErrKeyVersionMismatch :: goerror where
  "ErrKeyVersionMismatch = errorsNew ''crypto: key version mismatch''"

record Cipher =
  primitives :: "Scheme \<rightharpoonup> Primitive"
  cipherIndex :: "BlindIndex option"
  keyVersion :: "32 word"

text \<open>The constructor's loop; a nil interface value is \<open>None\<close>.\<close>

fun registerPrimitives ::
  "(Scheme \<rightharpoonup> Primitive) \<Rightarrow> Primitive option list \<Rightarrow> (Scheme \<rightharpoonup> Primitive) result" where
  "registerPrimitives m [] = Inr m"
| "registerPrimitives m (None # ps) = Inl (errorsNew ''crypto: nil primitive'')"
| "registerPrimitives m (Some p # ps) =
     (if m (primScheme p) \<noteq> None
      then Inl (errorsNew (''crypto: duplicate primitive for scheme '' @ Scheme_String (primScheme p)))
      else registerPrimitives (m(primScheme p \<mapsto> p)) ps)"

definition NewCipher ::
  "32 word \<Rightarrow> BlindIndex option \<Rightarrow> Primitive option list \<Rightarrow> Cipher result" where
  "NewCipher kv index ps =
     bindR (registerPrimitives Map.empty ps) (\<lambda>m.
       Inr \<lparr>primitives = m, cipherIndex = index, keyVersion = kv\<rparr>)"

definition CipherBlindIndex :: "Cipher \<Rightarrow> BlindIndex option" where
  "CipherBlindIndex c = cipherIndex c"

definition Encrypt :: "Cipher \<Rightarrow> bytes \<Rightarrow> Scheme \<Rightarrow> bytes \<Rightarrow> bytes \<Rightarrow> string result" where
  "Encrypt c rnd scheme plaintext associatedData =
     (case primitives c scheme of
        None \<Rightarrow> Inl (wrapErr [] ErrUnknownScheme ('': '' @ Scheme_String scheme))
      | Some p \<Rightarrow>
        (case primEncrypt p rnd plaintext associatedData of
           Inl err \<Rightarrow> Inl (wrapErr ''crypto: encrypt: '' err [])
         | Inr ciphertext \<Rightarrow>
             Marshal \<lparr>envScheme = scheme, envKeyVersion = keyVersion c, envCiphertext = ciphertext\<rparr>))"

definition Decrypt :: "unicode \<Rightarrow> Cipher \<Rightarrow> string \<Rightarrow> bytes \<Rightarrow> bytes result" where
  "Decrypt U c stored associatedData =
     (case Parse U stored of
        Inl err \<Rightarrow> Inl err
      | Inr None \<Rightarrow> Inr (Unescape stored)
      | Inr (Some env) \<Rightarrow>
        if envKeyVersion env \<noteq> keyVersion c
        then Inl (wrapErr [] ErrKeyVersionMismatch ('': have '' @ showNat (unat (keyVersion c))
                    @ '', value uses '' @ showNat (unat (envKeyVersion env))))
        else (case primitives c (envScheme env) of
          None \<Rightarrow> Inl (wrapErr [] ErrUnknownScheme ('': '' @ Scheme_String (envScheme env)))
        | Some p \<Rightarrow>
          (case primDecrypt p (envCiphertext env) associatedData of
             Inl err \<Rightarrow> Inl (wrapErr ''crypto: decrypt: '' err [])
           | Inr plaintext \<Rightarrow> Inr plaintext)))"

section \<open>Well-formed ciphers\<close>

text \<open>
  The invariant \<^verbatim>\<open>NewCipher\<close> establishes: a primitive is registered under its own
  scheme; \<open>lawfulCipher\<close> adds that each registered primitive decrypts what it encrypts.
\<close>

definition wfCipher :: "Cipher \<Rightarrow> bool" where
  "wfCipher c \<longleftrightarrow> (\<forall>s p. primitives c s = Some p \<longrightarrow> primScheme p = s)"

definition lawfulCipher :: "Cipher \<Rightarrow> bool" where
  "lawfulCipher c \<longleftrightarrow> (\<forall>p \<in> ran (primitives c). lawfulPrimitive p)"

lemma registerPrimitives_scheme:
  "registerPrimitives m ps = Inr m' \<Longrightarrow> (\<And>s p. m s = Some p \<Longrightarrow> primScheme p = s) \<Longrightarrow>
   m' s = Some p \<Longrightarrow> primScheme p = s"
proof (induction m ps rule: registerPrimitives.induct)
  case (3 m q ps)
  from "3.prems"(1) have r: "registerPrimitives (m(primScheme q \<mapsto> q)) ps = Inr m'"
    and n: "\<not> m (primScheme q) \<noteq> None"
    by (simp_all split: if_splits)
  show ?case
  proof (rule "3.IH" [OF n r _ "3.prems"(3)])
    fix s' p'
    assume "(m(primScheme q \<mapsto> q)) s' = Some p'"
    then show "primScheme p' = s'" using "3.prems"(2) [of s' p'] by (auto split: if_splits)
  qed
qed auto

lemma registerPrimitives_ran:
  "registerPrimitives m ps = Inr m' \<Longrightarrow> ran m' = ran m \<union> {p. Some p \<in> set ps}"
proof (induction m ps rule: registerPrimitives.induct)
  case (3 m q ps)
  from "3.prems"(1) have r: "registerPrimitives (m(primScheme q \<mapsto> q)) ps = Inr m'"
    and n: "\<not> m (primScheme q) \<noteq> None"
    by (simp_all split: if_splits)
  have "ran (m(primScheme q \<mapsto> q)) = insert q (ran m)" using n by (simp add: ran_map_upd)
  then show ?case using "3.IH" [OF n r] by (auto simp: fun_upd_def)
qed auto

lemma NewCipher_Inr:
  assumes "NewCipher kv idx ps = Inr c"
  shows "wfCipher c" "keyVersion c = kv" "cipherIndex c = idx"
    "ran (primitives c) = {p. Some p \<in> set ps}"
proof -
  from assms obtain m where m: "registerPrimitives Map.empty ps = Inr m"
    and c: "c = \<lparr>primitives = m, cipherIndex = idx, keyVersion = kv\<rparr>"
    by (auto simp: NewCipher_def bindR_eq_Inr)
  show "keyVersion c = kv" "cipherIndex c = idx" by (simp_all add: c)
  show "wfCipher c"
    using registerPrimitives_scheme [OF m] by (simp add: c wfCipher_def)
  show "ran (primitives c) = {p. Some p \<in> set ps}"
    using registerPrimitives_ran [OF m] by (simp add: c)
qed

section \<open>Encryption and decryption\<close>

lemma Encrypt_Inr:
  "Encrypt c rnd sch pt ad = Inr s \<longleftrightarrow>
     (\<exists>p ct. primitives c sch = Some p \<and> primEncrypt p rnd pt ad = Inr ct \<and>
        Marshal \<lparr>envScheme = sch, envKeyVersion = keyVersion c, envCiphertext = ct\<rparr> = Inr s)"
  by (auto simp: Encrypt_def split: option.splits sum.splits)

lemma Parse_Encrypt:
  assumes "Encrypt c rnd sch pt ad = Inr s"
  obtains ct p where "Parse U s = Inr (Some \<lparr>envScheme = sch, envKeyVersion = keyVersion c, envCiphertext = ct\<rparr>)"
    and "primitives c sch = Some p" and "primEncrypt p rnd pt ad = Inr ct"
  using assms Parse_Marshal by (auto simp: Encrypt_Inr)

lemma Decrypt_Encrypt:
  assumes "lawfulCipher c" and "Encrypt c rnd sch pt ad = Inr s"
  shows "Decrypt U c s ad = Inr pt"
proof -
  from assms(2) obtain ct p where p:
    "Parse U s = Inr (Some \<lparr>envScheme = sch, envKeyVersion = keyVersion c, envCiphertext = ct\<rparr>)"
    "primitives c sch = Some p" "primEncrypt p rnd pt ad = Inr ct"
    by (rule Parse_Encrypt)
  then have "lawfulPrimitive p" using assms(1) by (auto simp: lawfulCipher_def ranI)
  then have "primDecrypt p ct ad = Inr pt" using p(3) by (auto simp: lawfulPrimitive_def)
  then show ?thesis using p(1,2) by (simp add: Decrypt_def)
qed

lemma Decrypt_plaintext: "isPlaintext s \<Longrightarrow> Decrypt U c s ad = Inr (Unescape s)"
  using Parse_plaintext_iff [of U s] by (simp add: Decrypt_def)

lemma Decrypt_Escape: "Decrypt U c (Escape p) ad = Inr p"
  by (simp add: Decrypt_plaintext isPlaintext_Escape Unescape_Escape)

lemma Decrypt_key_version:
  "Parse U s = Inr (Some env) \<Longrightarrow> envKeyVersion env \<noteq> keyVersion c \<Longrightarrow>
   \<exists>e. Decrypt U c s ad = Inl e \<and> errorsIs e ErrKeyVersionMismatch"
  by (auto simp: Decrypt_def)

text \<open>The framing of the MAC input is injective, so columns cannot collide by concatenation.\<close>

lemma macInput_inject:
  assumes "macInput ad pt = macInput ad' pt'"
    and "length ad < 2 ^ 32" "length ad' < 2 ^ 32"
  shows "ad = ad' \<and> pt = pt'"
proof -
  have "fromBE32 (macInput ad pt) = fromBE32 (macInput ad' pt')" using assms(1) by simp
  then have "length ad = length ad'"
    using assms(2,3) by (simp add: macInput_def fromBE32_be32)
  then show ?thesis using assms(1) by (simp add: macInput_def)
qed

end
