(* ===== verification/FieldSet.thy ===== *)
theory FieldSet
  imports Cipher "HOL-Library.AList" "HOL-Library.List_Lexorder" "HOL-Library.Char_ord" "HOL-Library.Multiset"
begin

text \<open>
  \<^verbatim>\<open>internal/config/fields.go\<close>: the configured set of encrypted fields, and
  \<^verbatim>\<open>selectFields\<close> of \<^verbatim>\<open>proxy.go\<close>. A Go map is an association list with
  distinct keys; the order of the list stands for the unspecified iteration order, which
  \<open>Columns\<close> must not expose. Strings compare bytewise, as in Go.
\<close>

section \<open>Rules and keys\<close>

definition TableUserEntity :: string where "TableUserEntity = ''USER_ENTITY''"
definition TableUserAttribute :: string where "TableUserAttribute = ''USER_ATTRIBUTE''"
definition TableCredential :: string where "TableCredential = ''CREDENTIAL''"
definition DefaultAttributePrefix :: string where "DefaultAttributePrefix = ''pii-''"

record Rule =
  ruleScheme :: Scheme
  LowercaseNormalize :: bool
  ruleBlindIndex :: string

datatype ColumnKey = ColumnKey (ckTable: string) (ckColumn: string)

text \<open>The comparator of \<open>Columns\<close>: by table, then by column.\<close>

instantiation ColumnKey :: linorder
begin

definition less_ColumnKey :: "ColumnKey \<Rightarrow> ColumnKey \<Rightarrow> bool" where
  "less_ColumnKey a b \<longleftrightarrow>
     (if ckTable a \<noteq> ckTable b then ckTable a < ckTable b else ckColumn a < ckColumn b)"

definition less_eq_ColumnKey :: "ColumnKey \<Rightarrow> ColumnKey \<Rightarrow> bool" where
  "less_eq_ColumnKey a b \<longleftrightarrow> a = b \<or> a < b"

instance
proof
  fix a b c :: ColumnKey
  show "(a < b) = (a \<le> b \<and> \<not> b \<le> a)" "a \<le> a"
    by (auto simp: less_ColumnKey_def less_eq_ColumnKey_def split: if_splits)
  show "a \<le> b \<Longrightarrow> b \<le> c \<Longrightarrow> a \<le> c"
    by (auto simp: less_ColumnKey_def less_eq_ColumnKey_def split: if_splits)
  show "a \<le> b \<Longrightarrow> b \<le> a \<Longrightarrow> a = b"
    by (auto simp: less_ColumnKey_def less_eq_ColumnKey_def split: if_splits)
  show "a \<le> b \<or> b \<le> a"
    by (cases a; cases b) (auto simp: less_ColumnKey_def less_eq_ColumnKey_def)
qed

end

section \<open>Field sets\<close>

record attrPolicy =
  apNameColumn :: string
  apValueColumns :: "string list"
  apPrefix :: string
  apRule :: Rule

record FieldSet =
  fsColumns :: "(ColumnKey \<times> Rule) list"
  fsAttrs :: "(string \<times> attrPolicy) list"

definition NewFieldSet :: FieldSet where
  "NewFieldSet = \<lparr>fsColumns = [], fsAttrs = []\<rparr>"

definition SetColumn :: "string \<Rightarrow> string \<Rightarrow> Rule \<Rightarrow> FieldSet \<Rightarrow> FieldSet" where
  "SetColumn table column rule fs =
     fs\<lparr>fsColumns := AList.update (ColumnKey table column) rule (fsColumns fs)\<rparr>"

definition SetAttributePolicy ::
  "string \<Rightarrow> string \<Rightarrow> string list \<Rightarrow> string \<Rightarrow> Rule \<Rightarrow> FieldSet \<Rightarrow> FieldSet" where
  "SetAttributePolicy table nameColumn valueColumns pre rule fs =
     fs\<lparr>fsAttrs := AList.update table
          \<lparr>apNameColumn = nameColumn, apValueColumns = valueColumns, apPrefix = pre, apRule = rule\<rparr>
          (fsAttrs fs)\<rparr>"

definition Columns :: "FieldSet \<Rightarrow> (ColumnKey \<times> Rule) list" where
  "Columns fs = sort_key fst (fsColumns fs)"

definition ColumnRule :: "FieldSet \<Rightarrow> string \<Rightarrow> string \<Rightarrow> Rule option" where
  "ColumnRule fs table column = map_of (fsColumns fs) (ColumnKey table column)"

text \<open>The read-only view \<^verbatim>\<open>AttributePolicy\<close> has the fields of \<^verbatim>\<open>attrPolicy\<close>.\<close>

definition AttributePolicyFor :: "FieldSet \<Rightarrow> string \<Rightarrow> attrPolicy option" where
  "AttributePolicyFor fs table = map_of (fsAttrs fs) table"

definition AttributeRule :: "FieldSet \<Rightarrow> string \<Rightarrow> string \<Rightarrow> (Rule \<times> string list) option" where
  "AttributeRule fs table attrName =
     (case map_of (fsAttrs fs) table of
        None \<Rightarrow> None
      | Some p \<Rightarrow> if \<not> HasPrefix attrName (apPrefix p) then None
                   else Some (apRule p, apValueColumns p))"

definition AttributeNameColumn :: "FieldSet \<Rightarrow> string \<Rightarrow> string option" where
  "AttributeNameColumn fs table = map_option apNameColumn (map_of (fsAttrs fs) table)"

definition detRule :: Rule where
  "detRule = \<lparr>ruleScheme = SchemeDeterministic, LowercaseNormalize = True, ruleBlindIndex = []\<rparr>"

definition nondetRule :: Rule where
  "nondetRule = \<lparr>ruleScheme = SchemeNonDeterministic, LowercaseNormalize = False, ruleBlindIndex = []\<rparr>"

definition DefaultFields :: FieldSet where
  "DefaultFields =
     SetAttributePolicy TableUserAttribute ''NAME'' [''VALUE'', ''LONG_VALUE'']
       DefaultAttributePrefix nondetRule
     (SetColumn TableCredential ''CREDENTIAL_DATA'' nondetRule
     (SetColumn TableCredential ''SECRET_DATA'' nondetRule
     (SetColumn TableUserEntity ''LAST_NAME'' nondetRule
     (SetColumn TableUserEntity ''FIRST_NAME'' nondetRule
     (SetColumn TableUserEntity ''EMAIL'' detRule
     (SetColumn TableUserEntity ''USERNAME'' detRule NewFieldSet))))))"

definition FieldsDisabled :: string where "FieldsDisabled = ''disabled''"
definition FieldsEmailOnly :: string where "FieldsEmailOnly = ''email-only''"
definition FieldsEmailOnlyBlindIndex :: string where
  "FieldsEmailOnlyBlindIndex = ''email-only-blind-index''"

definition selectFields :: "unicode \<Rightarrow> string \<Rightarrow> FieldSet result" where
  "selectFields U value =
     (if value = [] then Inr DefaultFields
      else if value = FieldsDisabled then Inr NewFieldSet
      else if value = FieldsEmailOnly then Inr (SetColumn TableUserEntity ''EMAIL'' detRule NewFieldSet)
      else if value = FieldsEmailOnlyBlindIndex
      then Inr (SetColumn TableUserEntity ''EMAIL'' (detRule\<lparr>ruleBlindIndex := ''EMAIL_HASH''\<rparr>) NewFieldSet)
      else Inl (errorsNew (''config: unknown KKP_FIELDS value '' @ Quote U value)))"

section \<open>Invariant and lookups\<close>

text \<open>
  \<open>wfFieldSet\<close> is the map invariant; \<open>piiFieldSet\<close> is what every field set
  \<^verbatim>\<open>selectFields\<close> builds has besides: known schemes, and a blind index only on a
  deterministic, lower-cased column.
\<close>

definition wfFieldSet :: "FieldSet \<Rightarrow> bool" where
  "wfFieldSet fs \<longleftrightarrow> distinct (map fst (fsColumns fs)) \<and> distinct (map fst (fsAttrs fs))"

definition okRule :: "Rule \<Rightarrow> bool" where
  "okRule r \<longleftrightarrow> knownScheme (ruleScheme r) \<and>
     (ruleBlindIndex r \<noteq> [] \<longrightarrow> ruleScheme r = SchemeDeterministic \<and> LowercaseNormalize r)"

definition piiFieldSet :: "FieldSet \<Rightarrow> bool" where
  "piiFieldSet fs \<longleftrightarrow> wfFieldSet fs \<and> (\<forall>(k, r) \<in> set (fsColumns fs). okRule r) \<and>
     (\<forall>(t, p) \<in> set (fsAttrs fs). okRule (apRule p))"

lemma NewFieldSet_wf [simp]: "wfFieldSet NewFieldSet"
  by (simp add: wfFieldSet_def NewFieldSet_def)

lemma SetColumn_wf: "wfFieldSet fs \<Longrightarrow> wfFieldSet (SetColumn t c r fs)"
  by (simp add: wfFieldSet_def SetColumn_def distinct_update)

lemma SetAttributePolicy_wf: "wfFieldSet fs \<Longrightarrow> wfFieldSet (SetAttributePolicy t n v p r fs)"
  by (simp add: wfFieldSet_def SetAttributePolicy_def distinct_update)

lemma ColumnRule_SetColumn:
  "ColumnRule (SetColumn t c r fs) t' c' = (if t' = t \<and> c' = c then Some r else ColumnRule fs t' c')"
  by (simp add: ColumnRule_def SetColumn_def update_conv')

lemma AttributePolicyFor_Set:
  "AttributePolicyFor (SetAttributePolicy t n v p r fs) t' =
     (if t' = t then Some \<lparr>apNameColumn = n, apValueColumns = v, apPrefix = p, apRule = r\<rparr>
      else AttributePolicyFor fs t')"
  by (simp add: AttributePolicyFor_def SetAttributePolicy_def update_conv')

lemma Columns_sorted: "sorted (map fst (Columns fs))"
  by (simp add: Columns_def)

lemma Columns_lookup: "wfFieldSet fs \<Longrightarrow> (ColumnKey t c, r) \<in> set (Columns fs) \<longleftrightarrow> ColumnRule fs t c = Some r"
  by (simp add: Columns_def ColumnRule_def wfFieldSet_def)

text \<open>Two field sets with the same contents enumerate in the same order.\<close>

lemma Columns_cong:
  assumes "wfFieldSet fs" "wfFieldSet gs" "\<And>t c. ColumnRule fs t c = ColumnRule gs t c"
  shows "Columns fs = Columns gs"
proof -
  have "map_of (fsColumns fs) k = map_of (fsColumns gs) k" for k
    using assms(3) [of "ckTable k" "ckColumn k"] by (simp add: ColumnRule_def)
  then have "map_of (fsColumns fs) = map_of (fsColumns gs)" by (rule ext)
  then have "set (fsColumns fs) = set (fsColumns gs)"
    using assms(1,2) by (metis map_of_inject_set wfFieldSet_def)
  moreover have "distinct (fsColumns fs)" "distinct (fsColumns gs)"
    using assms(1,2) by (simp_all add: wfFieldSet_def distinct_map)
  ultimately have "mset (fsColumns fs) = mset (fsColumns gs)"
    by (simp add: set_eq_iff_mset_eq_distinct)
  moreover have "inj_on fst (set (fsColumns fs))"
    using assms(1) by (simp add: wfFieldSet_def distinct_map)
  ultimately show ?thesis
    unfolding Columns_def by (intro sort_key_inj_key_eq) simp_all
qed

end
