(* ===== verification/PgAst.thy ===== *)
theory PgAst
  imports GoText
begin

text \<open>
  The part of pg_query's parse tree that \<^verbatim>\<open>internal/rewrite\<close> inspects or mutates.
  The parser is third-party code: \<open>pg_Parse\<close> and \<open>pg_Deparse\<close> are parameters of the
  definitions that use them (record \<open>pgquery\<close>); the tree type is their interface.

  One constructor per protobuf message the code looks at; an absent sub-message is
  \<open>None\<close> (a missing WITH clause is the empty list of CTEs). Sub-nodes of a message that no code in \<^verbatim>\<open>src/\<close> reads (ORDER BY, RETURNING,
  ON CONFLICT, type casts, ...) are kept in its last argument, a list of nodes, and every
  other message is \<open>OtherN\<close> with its name and its sub-nodes. The getters are nil-safe,
  as protobuf's are.
\<close>

datatype AExprKind = AEXPR_OP | AEXPR_LIKE | AEXPR_ILIKE | AEXPR_OTHER nat

datatype Node =
    ParamRef int
  | FuncCall "Node list" "Node list" "Node list"
  | ColumnRef "Node list"
  | StringN string
  | BoolExpr nat "Node list"
  | A_Expr AExprKind "Node list" "Node option" "Node option"
  | ResTarget string "Node option" "Node list"
  | RangeVar string "Node list"
  | JoinExpr "Node option" "Node option" "Node list"
  | RangeSubselect "Node option" "Node list"
  | CommonTableExpr string "Node option" "Node list"
  | ListN "Node list"
  | SelectN SelectStmt
  | InsertN InsertStmt
  | UpdateN UpdateStmt
  | DeleteN DeleteStmt
  | OtherN string "Node list"
and SelectStmt =
    SelectStmt (selWith: "Node list") (selLarg: "SelectStmt option")
      (selRarg: "SelectStmt option") (selFrom: "Node list") (selWhere: "Node option")
      (selValues: "Node list") (selTargets: "Node list") (selRest: "Node list")
and InsertStmt =
    InsertStmt (insRelname: string) (insCols: "Node list") (insSelect: "Node option")
      (insRest: "Node list")
and UpdateStmt =
    UpdateStmt (updRelname: string) (updTargets: "Node list") (updWhere: "Node option")
      (updRest: "Node list")
and DeleteStmt =
    DeleteStmt (delRelname: string) (delWhere: "Node option") (delRest: "Node list")

record RawStmt =
  rsStmt :: "Node option"
  rsLocation :: int
  rsLen :: int

record pgquery =
  pg_Parse :: "string \<Rightarrow> RawStmt list result"
  pg_Deparse :: "RawStmt list \<Rightarrow> string result"

section \<open>Getters\<close>

definition GetString :: "Node \<Rightarrow> string option" where
  "GetString n = (case n of StringN s \<Rightarrow> Some s | _ \<Rightarrow> None)"

definition GetSelectStmt :: "Node option \<Rightarrow> SelectStmt option" where
  "GetSelectStmt n = (case n of Some (SelectN s) \<Rightarrow> Some s | _ \<Rightarrow> None)"

text \<open>\<^verbatim>\<open>n.GetList().GetItems()\<close>.\<close>

definition GetListItems :: "Node \<Rightarrow> Node list" where
  "GetListItems n = (case n of ListN xs \<Rightarrow> xs | _ \<Rightarrow> [])"

text \<open>\<^verbatim>\<open>n.GetResTarget().GetName()\<close> and \<^verbatim>\<open>n.GetResTarget().GetVal()\<close>.\<close>

definition ResTargetName :: "Node \<Rightarrow> string" where
  "ResTargetName n = (case n of ResTarget name _ _ \<Rightarrow> name | _ \<Rightarrow> [])"

definition ResTargetVal :: "Node \<Rightarrow> Node option" where
  "ResTargetVal n = (case n of ResTarget _ v _ \<Rightarrow> v | _ \<Rightarrow> None)"

section \<open>Sub-nodes\<close>

text \<open>
  All nodes of a tree in preorder. From them: how many there are, which parameter numbers
  occur, and which CTE names occur at any depth. An arm of a set operation, which the
  message holds directly, counts as the SELECT node it is.
\<close>

primrec nodeSub :: "Node \<Rightarrow> Node list"
  and selSub :: "SelectStmt \<Rightarrow> Node list"
  and insSub :: "InsertStmt \<Rightarrow> Node list"
  and updSub :: "UpdateStmt \<Rightarrow> Node list"
  and delSub :: "DeleteStmt \<Rightarrow> Node list" where
  "nodeSub (ParamRef i) =
     (ParamRef i) # []"
| "nodeSub (FuncCall f a r) =
     (FuncCall f a r) # concat (map nodeSub f) @ concat (map nodeSub a) @ concat (map nodeSub r)"
| "nodeSub (ColumnRef f) =
     (ColumnRef f) # concat (map nodeSub f)"
| "nodeSub (StringN s) =
     (StringN s) # []"
| "nodeSub (BoolExpr b a) =
     (BoolExpr b a) # concat (map nodeSub a)"
| "nodeSub (A_Expr k n l r) =
     (A_Expr k n l r) # concat (map nodeSub n) @ case_option [] id (map_option nodeSub l)
       @ case_option [] id (map_option nodeSub r)"
| "nodeSub (ResTarget n v r) =
     (ResTarget n v r) # case_option [] id (map_option nodeSub v) @ concat (map nodeSub r)"
| "nodeSub (RangeVar n r) =
     (RangeVar n r) # concat (map nodeSub r)"
| "nodeSub (JoinExpr l r x) =
     (JoinExpr l r x) # case_option [] id (map_option nodeSub l) @ case_option [] id (map_option nodeSub r)
       @ concat (map nodeSub x)"
| "nodeSub (RangeSubselect q r) =
     (RangeSubselect q r) # case_option [] id (map_option nodeSub q) @ concat (map nodeSub r)"
| "nodeSub (CommonTableExpr n q r) =
     (CommonTableExpr n q r) # case_option [] id (map_option nodeSub q) @ concat (map nodeSub r)"
| "nodeSub (ListN l) =
     (ListN l) # concat (map nodeSub l)"
| "nodeSub (SelectN s) = selSub s"
| "nodeSub (InsertN i) =
     (InsertN i) # insSub i"
| "nodeSub (UpdateN u) =
     (UpdateN u) # updSub u"
| "nodeSub (DeleteN d) =
     (DeleteN d) # delSub d"
| "nodeSub (OtherN t c) =
     (OtherN t c) # concat (map nodeSub c)"
| "selSub (SelectStmt w l r f wh v t x) =
     SelectN (SelectStmt w l r f wh v t x) # concat (map nodeSub w)
       @ case_option [] id (map_option selSub l) @ case_option [] id (map_option selSub r)
       @ concat (map nodeSub f) @ case_option [] id (map_option nodeSub wh)
       @ concat (map nodeSub v) @ concat (map nodeSub t) @ concat (map nodeSub x)"
| "insSub (InsertStmt n c s r) =
     concat (map nodeSub c) @ case_option [] id (map_option nodeSub s)
       @ concat (map nodeSub r)"
| "updSub (UpdateStmt n t w r) =
     concat (map nodeSub t) @ case_option [] id (map_option nodeSub w)
       @ concat (map nodeSub r)"
| "delSub (DeleteStmt n w r) =
     case_option [] id (map_option nodeSub w) @ concat (map nodeSub r)"


definition nodeWeight :: "Node \<Rightarrow> nat" where
  "nodeWeight n = length (nodeSub n)"

definition selWeight :: "SelectStmt \<Rightarrow> nat" where
  "selWeight s = length (selSub s)"

definition paramsIn :: "Node list \<Rightarrow> int list" where
  "paramsIn ns = concat (map (\<lambda>n. case n of ParamRef i \<Rightarrow> [i] | _ \<Rightarrow> []) ns)"

definition cteNamesIn :: "Node list \<Rightarrow> string list" where
  "cteNamesIn ns = concat (map (\<lambda>n. case n of CommonTableExpr name _ _ \<Rightarrow> [name] | _ \<Rightarrow> []) ns)"

lemma nodeSub_self: "n \<in> set (nodeSub n)"
proof (cases n)
  case (SelectN s)
  then show ?thesis by (cases s) simp
qed simp_all

lemma selWeight_pos [simp]: "0 < selWeight s"
  by (cases s) (simp add: selWeight_def)

lemma nodeWeight_pos [simp]: "0 < nodeWeight n"
  using nodeSub_self [of n] by (auto simp: nodeWeight_def)

lemma paramsIn_append [simp]: "paramsIn (a @ b) = paramsIn a @ paramsIn b"
  by (simp add: paramsIn_def)

lemma cteNamesIn_append [simp]: "cteNamesIn (a @ b) = cteNamesIn a @ cteNamesIn b"
  by (simp add: cteNamesIn_def)

end
