(* ===== verification/Analyze.thy ===== *)
theory Analyze
  imports PgAst Strconv
begin

text \<open>
  \<^verbatim>\<open>internal/rewrite/analyze.go\<close>: the structural analysis of a parsed statement.
  The recursion that resolves CTE references (\<open>walkSelect\<close>, \<open>walkFromItem\<close>,
  \<open>addRelation\<close>) is not structural, so it takes fuel; \<open>selectTables\<close> supplies an
  amount computed from the tree, and \<open>selectTables_total\<close> below shows that it is enough.
\<close>

section \<open>Results\<close>

datatype StmtKind = KindOther | KindSelect | KindInsert | KindUpdate | KindDelete

fun StmtKind_String :: "StmtKind \<Rightarrow> string" where
  "StmtKind_String KindSelect = ''SELECT''"
| "StmtKind_String KindInsert = ''INSERT''"
| "StmtKind_String KindUpdate = ''UPDATE''"
| "StmtKind_String KindDelete = ''DELETE''"
| "StmtKind_String KindOther = ''OTHER''"

record ColumnParam =
  cpColumn :: string
  cpParam :: int

record Analysis =
  anKind :: StmtKind
  anSQL :: string
  anTable :: string
  FromTables :: "string list"
  WriteColumns :: "ColumnParam list"
  FilterColumns :: "ColumnParam list"
  LikeFilterColumns :: "ColumnParam list"

definition emptyAnalysis :: Analysis where
  "emptyAnalysis = \<lparr>anKind = KindOther, anSQL = [], anTable = [], FromTables = [],
     WriteColumns = [], FilterColumns = [], LikeFilterColumns = []\<rparr>"

section \<open>Operands\<close>

text \<open>The last element of a name list, when it is a string.\<close>

definition lastString :: "Node list \<Rightarrow> string option" where
  "lastString ns = (if ns = [] then None else GetString (last ns))"

definition isLikeEscape :: "Node list \<Rightarrow> bool" where
  "isLikeEscape funcname \<longleftrightarrow> lastString funcname = Some ''like_escape''"

definition funcCallName :: "Node list \<Rightarrow> string" where
  "funcCallName funcname = (case lastString funcname of Some s \<Rightarrow> s | None \<Rightarrow> [])"

fun paramNumberN :: "Node \<Rightarrow> int" where
  "paramNumberN (ParamRef number) = number"
| "paramNumberN (FuncCall funcname (a # args) _) =
     (if isLikeEscape funcname then paramNumberN a else 0)"
| "paramNumberN _ = 0"

definition paramNumber :: "Node option \<Rightarrow> int" where
  "paramNumber n = (case n of None \<Rightarrow> 0 | Some m \<Rightarrow> paramNumberN m)"

text \<open>The empty string is "no column", as in the source.\<close>

fun columnNameN :: "Node \<Rightarrow> string" where
  "columnNameN (ColumnRef fs) = (case lastString fs of Some s \<Rightarrow> s | None \<Rightarrow> [])"
| "columnNameN (FuncCall funcname [a] _) =
     (if EqualFold (funcCallName funcname) ''lower'' \<or> EqualFold (funcCallName funcname) ''upper''
      then columnNameN a else [])"
| "columnNameN _ = []"

definition columnName :: "Node option \<Rightarrow> string" where
  "columnName n = (case n of None \<Rightarrow> [] | Some m \<Rightarrow> columnNameN m)"

definition operatorName :: "Node list \<Rightarrow> string" where
  "operatorName name =
     (case name of [n] \<Rightarrow> (case GetString n of Some s \<Rightarrow> s | None \<Rightarrow> []) | _ \<Rightarrow> [])"

section \<open>WHERE clauses\<close>

datatype bucket = EqBucket | LikeBucket

definition bucketFor :: "Node list \<Rightarrow> bucket option" where
  "bucketFor name =
     (let op = operatorName name in
      if op = ''='' then Some EqBucket
      else if op = ''~~'' \<or> op = ''~~*'' then Some LikeBucket
      else None)"

text \<open>The pair is the two collectors \<^verbatim>\<open>(eq, like)\<close>.\<close>

primrec collectWhere ::
  "Node \<Rightarrow> ColumnParam list \<times> ColumnParam list \<Rightarrow> ColumnParam list \<times> ColumnParam list" where
  "collectWhere (BoolExpr op args) acc = foldl (\<lambda>a f. f a) acc (map collectWhere args)"
| "collectWhere (A_Expr kind name lexpr rexpr) acc =
     (if kind \<noteq> AEXPR_OP \<and> kind \<noteq> AEXPR_LIKE \<and> kind \<noteq> AEXPR_ILIKE then acc
      else (case bucketFor name of
        None \<Rightarrow> acc
      | Some target \<Rightarrow>
        let col = columnName lexpr; param = paramNumber rexpr;
            col' = (if col = [] then columnName rexpr else col);
            param' = (if col = [] then paramNumber lexpr else param);
            cp = \<lparr>cpColumn = col', cpParam = param'\<rparr>
        in if col' = [] then acc
           else (case target of
                   EqBucket \<Rightarrow> (fst acc @ [cp], snd acc)
                 | LikeBucket \<Rightarrow> (fst acc, snd acc @ [cp]))))"
| "collectWhere (ParamRef x) acc = acc"
| "collectWhere (FuncCall x y z) acc = acc"
| "collectWhere (ColumnRef x) acc = acc"
| "collectWhere (StringN x) acc = acc"
| "collectWhere (ResTarget x y z) acc = acc"
| "collectWhere (RangeVar x y) acc = acc"
| "collectWhere (JoinExpr x y z) acc = acc"
| "collectWhere (RangeSubselect x y) acc = acc"
| "collectWhere (CommonTableExpr x y z) acc = acc"
| "collectWhere (ListN x) acc = acc"
| "collectWhere (SelectN x) acc = acc"
| "collectWhere (InsertN x) acc = acc"
| "collectWhere (UpdateN x) acc = acc"
| "collectWhere (DeleteN x) acc = acc"
| "collectWhere (OtherN x y) acc = acc"

definition whereColumns :: "Node option \<Rightarrow> ColumnParam list \<times> ColumnParam list" where
  "whereColumns n = (case n of None \<Rightarrow> ([], []) | Some m \<Rightarrow> collectWhere m ([], []))"

section \<open>Relations a SELECT reads\<close>

type_synonym cteScope = "string \<rightharpoonup> SelectStmt"

record tableCollector =
  tcTables :: "string list"
  tcSeen :: "string \<Rightarrow> bool"
  tcActive :: "string \<Rightarrow> bool"

definition extendCTEScope :: "unicode \<Rightarrow> cteScope \<Rightarrow> Node list \<Rightarrow> cteScope" where
  "extendCTEScope U parent ctes =
     foldl (\<lambda>scope node.
       (case node of
          CommonTableExpr name q _ \<Rightarrow>
            (case GetSelectStmt q of None \<Rightarrow> scope | Some s \<Rightarrow> scope(ToUpper U name \<mapsto> s))
        | _ \<Rightarrow> scope)) parent ctes"

fun foldO :: "('s \<Rightarrow> 'a \<Rightarrow> 's option) \<Rightarrow> 's \<Rightarrow> 'a list \<Rightarrow> 's option" where
  "foldO f s [] = Some s"
| "foldO f s (x # xs) = Option.bind (f s x) (\<lambda>s'. foldO f s' xs)"

fun walkSelect ::
  "unicode \<Rightarrow> nat \<Rightarrow> SelectStmt option \<Rightarrow> cteScope \<Rightarrow> tableCollector \<Rightarrow> tableCollector option"
  and walkFromItem ::
  "unicode \<Rightarrow> nat \<Rightarrow> Node option \<Rightarrow> cteScope \<Rightarrow> tableCollector \<Rightarrow> tableCollector option"
  and addRelation ::
  "unicode \<Rightarrow> nat \<Rightarrow> string \<Rightarrow> cteScope \<Rightarrow> tableCollector \<Rightarrow> tableCollector option" where
  "walkSelect U 0 sel ctes c = None"
| "walkSelect U (Suc f) sel ctes c =
     (case sel of None \<Rightarrow> Some c
      | Some s \<Rightarrow>
        let ctes' = extendCTEScope U ctes (selWith s) in
        Option.bind (walkSelect U f (selLarg s) ctes' c) (\<lambda>c1.
        Option.bind (walkSelect U f (selRarg s) ctes' c1) (\<lambda>c2.
        foldO (\<lambda>c' item. walkFromItem U f (Some item) ctes' c') c2 (selFrom s))))"
| "walkFromItem U 0 n ctes c = None"
| "walkFromItem U (Suc f) n ctes c =
     (case n of
        Some (RangeVar relname _) \<Rightarrow> addRelation U f relname ctes c
      | Some (JoinExpr larg rarg _) \<Rightarrow>
          Option.bind (walkFromItem U f larg ctes c) (\<lambda>c1. walkFromItem U f rarg ctes c1)
      | Some (RangeSubselect q _) \<Rightarrow> walkSelect U f (GetSelectStmt q) ctes c
      | _ \<Rightarrow> Some c)"
| "addRelation U 0 name ctes c = None"
| "addRelation U (Suc f) name ctes c =
     (if name = [] then Some c
      else let key = ToUpper U name in
        (case ctes key of
           Some q \<Rightarrow>
             if tcActive c key then Some c
             else Option.bind (walkSelect U f (Some q) ctes (c\<lparr>tcActive := (tcActive c)(key := True)\<rparr>))
                    (\<lambda>c'. Some (c'\<lparr>tcActive := (tcActive c')(key := False)\<rparr>))
         | None \<Rightarrow>
             if tcSeen c key then Some c
             else Some (c\<lparr>tcSeen := (tcSeen c)(key := True), tcTables := tcTables c @ [name]\<rparr>)))"

definition emptyCollector :: tableCollector where
  "emptyCollector = \<lparr>tcTables = [], tcSeen = (\<lambda>_. False), tcActive = (\<lambda>_. False)\<rparr>"

text \<open>Fuel: (number of CTE names + 1) times (number of nodes + 4).\<close>

definition selectFuel :: "SelectStmt \<Rightarrow> nat" where
  "selectFuel s = (length (cteNamesIn (selSub s)) + 1) * (selWeight s + 4)"

text \<open>The branch without a result is never taken (\<open>selectTables_total\<close>).\<close>

definition selectTables :: "unicode \<Rightarrow> SelectStmt \<Rightarrow> string list" where
  "selectTables U sel =
     (case walkSelect U (selectFuel sel) (Some sel) Map.empty emptyCollector of
        Some c \<Rightarrow> tcTables c | None \<Rightarrow> [])"

section \<open>Statements\<close>

definition targetTables :: "string \<Rightarrow> string list" where
  "targetTables table = (if table = [] then [] else [table])"

definition insertParams :: "InsertStmt \<Rightarrow> int list" where
  "insertParams ins =
     (case GetSelectStmt (insSelect ins) of
        None \<Rightarrow> []
      | Some sel \<Rightarrow>
        (case selValues sel of [] \<Rightarrow> []
         | row # _ \<Rightarrow> map (\<lambda>item. paramNumber (Some item)) (GetListItems row)))"

definition analyzeInsert :: "InsertStmt \<Rightarrow> Analysis" where
  "analyzeInsert ins =
     (let params = insertParams ins; cols = insCols ins in
      emptyAnalysis\<lparr>anKind := KindInsert, anTable := insRelname ins,
        FromTables := targetTables (insRelname ins),
        WriteColumns := map (\<lambda>i. \<lparr>cpColumn = ResTargetName (cols ! i),
            cpParam = (if i < length params then params ! i else 0)\<rparr>) [0..<length cols]\<rparr>)"

definition analyzeUpdate :: "UpdateStmt \<Rightarrow> Analysis" where
  "analyzeUpdate upd =
     (let (eq, like) = whereColumns (updWhere upd) in
      emptyAnalysis\<lparr>anKind := KindUpdate, anTable := updRelname upd,
        FromTables := targetTables (updRelname upd),
        WriteColumns := map (\<lambda>t. \<lparr>cpColumn = ResTargetName t,
            cpParam = paramNumber (ResTargetVal t)\<rparr>) (updTargets upd),
        FilterColumns := eq, LikeFilterColumns := like\<rparr>)"

definition analyzeDelete :: "DeleteStmt \<Rightarrow> Analysis" where
  "analyzeDelete del =
     (let (eq, like) = whereColumns (delWhere del) in
      emptyAnalysis\<lparr>anKind := KindDelete, anTable := delRelname del,
        FromTables := targetTables (delRelname del),
        FilterColumns := eq, LikeFilterColumns := like\<rparr>)"

definition firstFromTable :: "Node list \<Rightarrow> string" where
  "firstFromTable from = (case from of RangeVar relname _ # _ \<Rightarrow> relname | _ \<Rightarrow> [])"

definition analyzeSelect :: "unicode \<Rightarrow> SelectStmt \<Rightarrow> Analysis" where
  "analyzeSelect U sel =
     (let (eq, like) = whereColumns (selWhere sel) in
      emptyAnalysis\<lparr>anKind := KindSelect, anTable := firstFromTable (selFrom sel),
        FromTables := selectTables U sel, FilterColumns := eq, LikeFilterColumns := like\<rparr>)"

definition analyzeNode :: "unicode \<Rightarrow> Node option \<Rightarrow> Analysis" where
  "analyzeNode U node =
     (case node of
        Some (InsertN ins) \<Rightarrow> analyzeInsert ins
      | Some (UpdateN upd) \<Rightarrow> analyzeUpdate upd
      | Some (SelectN sel) \<Rightarrow> analyzeSelect U sel
      | Some (DeleteN del) \<Rightarrow> analyzeDelete del
      | _ \<Rightarrow> emptyAnalysis)"

text \<open>The text of one statement of a multi-statement query string.\<close>

definition statementText :: "string \<Rightarrow> RawStmt \<Rightarrow> string" where
  "statementText sql st =
     (let start = rsLocation st; n = int (length sql); l = rsLen st in
      if start < 0 \<or> start > n then sql
      else let e = (if l > 0 \<and> start + l \<le> n then start + l else n) in
        TrimLeft (take (nat (e - start)) (drop (nat start) sql))
          [CHR '' '', CHR 0x09, CHR 0x0D, CHR 0x0A, CHR '';''])"

definition parseErr :: "goerror \<Rightarrow> goerror" where
  "parseErr e = wrapErr ''rewrite: parse: '' e []"

definition Analyze :: "unicode \<Rightarrow> pgquery \<Rightarrow> string \<Rightarrow> Analysis result" where
  "Analyze U P sql =
     (case pg_Parse P sql of
        Inl e \<Rightarrow> Inl (parseErr e)
      | Inr stmts \<Rightarrow>
          (case stmts of
             [st] \<Rightarrow> Inr (analyzeNode U (rsStmt st))
           | _ \<Rightarrow> Inl (errorsNew (''rewrite: expected exactly one statement, got ''
                     @ showNat (length stmts)))))"

definition AnalyzeAll :: "unicode \<Rightarrow> pgquery \<Rightarrow> string \<Rightarrow> Analysis list result" where
  "AnalyzeAll U P sql =
     (case pg_Parse P sql of
        Inl e \<Rightarrow> Inl (parseErr e)
      | Inr stmts \<Rightarrow>
          Inr (map (\<lambda>st. (analyzeNode U (rsStmt st))\<lparr>anSQL := statementText sql st\<rparr>) stmts))"

section \<open>The CTE walk ends\<close>

lemma nodeSub_item:
  assumes "n \<in> set xs"
  shows "set (nodeSub n) \<subseteq> set (concat (map nodeSub xs))"
    and "length (nodeSub n) \<le> length (concat (map nodeSub xs))"
  using assms by (induction xs) auto

text \<open>
  \<open>inTree R s\<close>: every sub-node of \<open>s\<close> is one of \<open>R\<close>, and there are at most as many.
  All scopes the walk builds hold SELECTs of the tree it started from.
\<close>

definition inTree :: "Node list \<Rightarrow> Node list \<Rightarrow> bool" where
  "inTree R ns \<longleftrightarrow> set ns \<subseteq> set R \<and> length ns \<le> length R"

definition scopeIn :: "unicode \<Rightarrow> Node list \<Rightarrow> cteScope \<Rightarrow> bool" where
  "scopeIn U R ctes \<longleftrightarrow>
     (\<forall>k q. ctes k = Some q \<longrightarrow> k \<in> ToUpper U ` set (cteNamesIn R) \<and> inTree R (selSub q))"

lemma inTree_subI: "inTree R (selSub s) \<Longrightarrow> inTree (selSub s) ns \<Longrightarrow> inTree R ns"
  by (auto simp: inTree_def)

lemma sel_parts:
  shows "n \<in> set (selFrom s) \<Longrightarrow> set (nodeSub n) \<subseteq> set (selSub s) \<and> length (nodeSub n) < length (selSub s)"
    and "n \<in> set (selWith s) \<Longrightarrow> set (nodeSub n) \<subseteq> set (selSub s) \<and> length (nodeSub n) < length (selSub s)"
    and "selLarg s = Some t \<Longrightarrow> set (selSub t) \<subseteq> set (selSub s) \<and> length (selSub t) < length (selSub s)"
    and "selRarg s = Some t \<Longrightarrow> set (selSub t) \<subseteq> set (selSub s) \<and> length (selSub t) < length (selSub s)"
  by (cases s; auto dest: nodeSub_item; fail)+

lemma GetSelectStmt_Some [simp]: "GetSelectStmt q = Some s \<longleftrightarrow> q = Some (SelectN s)"
  by (auto simp: GetSelectStmt_def split: option.splits Node.splits)

lemma cteNamesIn_mem: "CommonTableExpr name q r \<in> set R \<Longrightarrow> name \<in> set (cteNamesIn R)"
  by (force simp: cteNamesIn_def)

lemma scopeIn_extend:
  assumes "scopeIn U R ctes" "inTree R (selSub s)"
  shows "scopeIn U R (extendCTEScope U ctes (selWith s))"
proof -
  have "scopeIn U R (extendCTEScope U ctes ws)" if "set ws \<subseteq> set (selWith s)" for ws
    using that
  proof (induction ws rule: rev_induct)
    case Nil
    then show ?case using assms(1) by (simp add: extendCTEScope_def)
  next
    case (snoc w ws)
    have w: "inTree R (nodeSub w)"
      using snoc.prems sel_parts(2) [of w s] assms(2) by (auto simp: inTree_def)
    show ?case
    proof (cases "\<exists>name q r. w = CommonTableExpr name (Some (SelectN q)) r")
      case True
      then obtain name q r where eq: "w = CommonTableExpr name (Some (SelectN q)) r" by blast
      have "name \<in> set (cteNamesIn R)"
        using w eq by (intro cteNamesIn_mem [of name "Some (SelectN q)" r]) (auto simp: inTree_def)
      moreover have "inTree R (selSub q)" using w eq by (auto simp: inTree_def)
      ultimately show ?thesis
        using snoc eq by (auto simp: extendCTEScope_def scopeIn_def GetSelectStmt_def)
    next
      case False
      then have "extendCTEScope U ctes (ws @ [w]) = extendCTEScope U ctes ws"
        by (auto simp: extendCTEScope_def GetSelectStmt_def split: Node.splits option.splits)
      then show ?thesis using snoc by auto
    qed
  qed
  then show ?thesis by blast
qed

text \<open>The CTE names not being resolved, each of which the walk may still enter.\<close>

definition openNames :: "unicode \<Rightarrow> Node list \<Rightarrow> tableCollector \<Rightarrow> nat" where
  "openNames U R c = card (ToUpper U ` set (cteNamesIn R) - {k. tcActive c k})"

lemma openNames_enter:
  assumes "key \<in> ToUpper U ` set (cteNamesIn R)" "\<not> tcActive c key"
  shows "openNames U R c = Suc (openNames U R (c\<lparr>tcActive := (tcActive c)(key := True)\<rparr>))"
proof -
  have "ToUpper U ` set (cteNamesIn R) - {k. tcActive c k} =
      insert key (ToUpper U ` set (cteNamesIn R) - {k. ((tcActive c)(key := True)) k})"
    using assms by auto
  then show ?thesis by (simp add: openNames_def)
qed

definition need :: "unicode \<Rightarrow> Node list \<Rightarrow> tableCollector \<Rightarrow> nat \<Rightarrow> nat" where
  "need U R c w = openNames U R c * (length R + 4) + w + 1"

definition walks :: "tableCollector \<Rightarrow> tableCollector option \<Rightarrow> bool" where
  "walks c r \<longleftrightarrow> (\<exists>c'. r = Some c' \<and> tcActive c' = tcActive c)"

lemma walks_bind:
  assumes "walks c m" "\<And>c'. m = Some c' \<Longrightarrow> tcActive c' = tcActive c \<Longrightarrow> walks c' (k c')"
  shows "walks c (Option.bind m k)"
  using assms by (auto simp: walks_def)

lemma walks_foldO:
  assumes "\<And>x c'. x \<in> set xs \<Longrightarrow> tcActive c' = tcActive c \<Longrightarrow> walks c' (g c' x)"
  shows "walks c (foldO g c xs)"
  using assms
proof (induction xs arbitrary: c)
  case (Cons x xs)
  show ?case by (auto intro!: walks_bind Cons)
qed (simp add: walks_def)

lemma need_cong: "tcActive c' = tcActive c \<Longrightarrow> need U R c' w = need U R c w"
  by (simp add: need_def openNames_def)

lemma walk_enough:
  "(\<forall>s. scopeIn U R ctes \<longrightarrow> (\<forall>t. s = Some t \<longrightarrow> inTree R (selSub t) \<and> need U R c (length (selSub t)) \<le> f)
      \<longrightarrow> 1 \<le> f \<longrightarrow> walks c (walkSelect U f s ctes c))
   \<and> (\<forall>n. scopeIn U R ctes \<longrightarrow> (\<forall>m. n = Some m \<longrightarrow> inTree R (nodeSub m) \<and> need U R c (length (nodeSub m)) \<le> f)
      \<longrightarrow> 1 \<le> f \<longrightarrow> walks c (walkFromItem U f n ctes c))
   \<and> (\<forall>name. scopeIn U R ctes \<longrightarrow> need U R c 0 \<le> f \<longrightarrow> walks c (addRelation U f name ctes c))"
proof (induction f arbitrary: ctes c)
  case 0
  then show ?case by (simp add: need_def)
next
  case (Suc f)
  have sel: "walks c (walkSelect U f s ctes c)"
    if "scopeIn U R ctes" "\<And>t. s = Some t \<Longrightarrow> inTree R (selSub t) \<and> need U R c (length (selSub t)) \<le> f" "1 \<le> f"
    for s ctes c using Suc that by blast
  have item: "walks c (walkFromItem U f n ctes c)"
    if "scopeIn U R ctes" "\<And>m. n = Some m \<Longrightarrow> inTree R (nodeSub m) \<and> need U R c (length (nodeSub m)) \<le> f" "1 \<le> f"
    for n ctes c using Suc that by blast
  have rel: "walks c (addRelation U f name ctes c)" if "scopeIn U R ctes" "need U R c 0 \<le> f"
    for name ctes c using Suc that by blast
  have S: "walks c (walkSelect U (Suc f) (Some s) ctes c)"
    if sc: "scopeIn U R ctes" and s: "inTree R (selSub s)"
      and fuel: "need U R c (length (selSub s)) \<le> Suc f" for s
  proof -
    let ?ctes = "extendCTEScope U ctes (selWith s)"
    have sc': "scopeIn U R ?ctes" using sc s by (rule scopeIn_extend)
    have f: "1 \<le> f" using fuel selWeight_pos [of s] unfolding need_def selWeight_def by linarith
    have part: "inTree R ns \<and> need U R c' (length ns) \<le> f"
      if "set ns \<subseteq> set (selSub s) \<and> length ns < length (selSub s)" "tcActive c' = tcActive c" for ns c'
      using that s fuel by (auto simp: inTree_def need_def need_cong [of c' c] openNames_def)
    show ?thesis
      unfolding walkSelect.simps(2) option.case Let_def
    proof (intro walks_bind walks_foldO)
      show "walks c (walkSelect U f (selLarg s) ?ctes c)"
        using sc' f by (intro sel part sel_parts(3)) auto
    next
      fix c1 :: tableCollector assume "tcActive c1 = tcActive c"
      then show "walks c1 (walkSelect U f (selRarg s) ?ctes c1)"
        using sc' f by (intro sel part sel_parts(4)) auto
    next
      fix c1 c2 c3 :: tableCollector and x assume "tcActive c1 = tcActive c" "tcActive c2 = tcActive c1"
        and x: "x \<in> set (selFrom s)" "tcActive c3 = tcActive c2"
      then show "walks c3 (walkFromItem U f (Some x) ?ctes c3)"
        using sc' f sel_parts(1) [OF x(1)] by (intro item part) auto
    qed
  qed
  have I: "walks c (walkFromItem U (Suc f) (Some n) ctes c)"
    if sc: "scopeIn U R ctes" and n: "inTree R (nodeSub n)"
      and fuel: "need U R c (length (nodeSub n)) \<le> Suc f" for n
  proof -
    have f: "1 \<le> f" using fuel nodeWeight_pos [of n] unfolding need_def nodeWeight_def by linarith
    have part: "inTree R ns \<and> need U R c' (length ns) \<le> f"
      if "set ns \<subseteq> set (nodeSub n) \<and> length ns < length (nodeSub n)" "tcActive c' = tcActive c" for ns c'
      using that n fuel by (auto simp: inTree_def need_def need_cong [of c' c] openNames_def)
    show ?thesis
    proof (cases n)
      case (RangeVar relname r)
      have "need U R c 0 \<le> f" using fuel nodeWeight_pos [of n] unfolding need_def nodeWeight_def by linarith
      then show ?thesis using RangeVar sc by (simp add: rel)
    next
      case (JoinExpr l r x)
      show ?thesis using JoinExpr sc f
        by (auto intro!: walks_bind item part)
    next
      case (RangeSubselect q r)
      show ?thesis using RangeSubselect sc f by (auto intro!: sel part)
    qed (simp_all add: walks_def)
  qed
  have A: "walks c (addRelation U (Suc f) name ctes c)"
    if sc: "scopeIn U R ctes" and fuel: "need U R c 0 \<le> Suc f" for name
  proof (cases "ctes (ToUpper U name)")
    case None
    then show ?thesis by (simp add: walks_def Let_def)
  next
    case (Some q)
    let ?key = "ToUpper U name"
    let ?c = "c\<lparr>tcActive := (tcActive c)(?key := True)\<rparr>"
    have q: "?key \<in> ToUpper U ` set (cteNamesIn R)" "inTree R (selSub q)"
      using sc Some by (auto simp: scopeIn_def)
    have "walks ?c (walkSelect U f (Some q) ctes ?c)" if "\<not> tcActive c ?key"
      using openNames_enter [OF q(1) that] q fuel sc
      by (intro sel) (auto simp: need_def inTree_def)
    then show ?thesis
      using Some by (cases "tcActive c ?key") (auto simp: walks_def Let_def fun_eq_iff)
  qed
  show ?case using S I A
    by (auto simp: walks_def split: option.splits)
qed

lemma selectTables_total:
  "\<exists>c. walkSelect U (selectFuel sel) (Some sel) Map.empty emptyCollector = Some c
     \<and> tcActive c = (\<lambda>_. False) \<and> selectTables U sel = tcTables c"
proof -
  let ?R = "selSub sel"
  have "openNames U ?R emptyCollector \<le> length (cteNamesIn ?R)"
    unfolding openNames_def by (rule order.trans [OF card_mono card_image_le [THEN order.trans, OF _ card_length]]) auto
  then have "openNames U ?R emptyCollector * (length ?R + 4) \<le> length (cteNamesIn ?R) * (length ?R + 4)"
    by (rule mult_le_mono1)
  then have "need U ?R emptyCollector (length ?R) \<le> selectFuel sel"
    by (simp add: need_def selectFuel_def selWeight_def algebra_simps)
  then have "walks emptyCollector (walkSelect U (selectFuel sel) (Some sel) Map.empty emptyCollector)"
    by (intro walk_enough [THEN conjunct1, rule_format, where R = ?R])
       (auto simp: scopeIn_def inTree_def need_def)
  then show ?thesis by (auto simp: walks_def selectTables_def emptyCollector_def)
qed

end
