(* ===== verification/Plan.thy ===== *)
theory Plan
  imports FieldSet Analyze
begin

text \<open>
  \<^verbatim>\<open>internal/rewrite/plan.go\<close>: which bound parameters of a statement are
  encrypted, hashed, or refused. The planner is a record of the field set and the lenient
  switch; a sub-planner takes the plan built so far and returns it extended.

  \<open>PlanWrite_spec\<close> gives the planner in closed form: it fails exactly when a strict
  planner meets an assignment or comparison it cannot transform, and otherwise the plan is
  the concatenation of what each column contributes.
\<close>

section \<open>Plans\<close>

definition ErrUnencryptablePII :: goerror where
  "ErrUnencryptablePII = errorsNew ''rewrite: PII value is not a bound parameter''"

definition ErrUnsearchablePII :: goerror where
  "ErrUnsearchablePII = errorsNew ''rewrite: non-deterministic PII column cannot be equality-searched''"

record ParamRule =
  prParam :: int
  prTable :: string
  prColumn :: string
  prRule :: Rule

record AttributeCondition =
  acNameParam :: int
  acPrefix :: string
  acValueParams :: "ParamRule list"

record BlindIndexFilter =
  bfParam :: int
  bfTable :: string
  bfColumn :: string
  bfHashColumn :: string

record BlindIndexWrite =
  bwSourceParam :: int
  bwNewParam :: int
  bwTable :: string
  bwColumn :: string
  bwHashColumn :: string

record WritePlan =
  wpParams :: "ParamRule list"
  AttributeConditions :: "AttributeCondition list"
  LikeParams :: "ParamRule list"
  BlindIndexFilters :: "BlindIndexFilter list"
  BlindIndexWrites :: "BlindIndexWrite list"

definition emptyWritePlan :: WritePlan where
  "emptyWritePlan = \<lparr>wpParams = [], AttributeConditions = [], LikeParams = [],
     BlindIndexFilters = [], BlindIndexWrites = []\<rparr>"

definition WritePlan_IsEmpty :: "WritePlan \<Rightarrow> bool" where
  "WritePlan_IsEmpty wp \<longleftrightarrow>
     wpParams wp = [] \<and> AttributeConditions wp = [] \<and> LikeParams wp = []
     \<and> BlindIndexFilters wp = [] \<and> BlindIndexWrites wp = []"

record Planner =
  plannerFields :: FieldSet
  lenient :: bool

definition NewPlanner :: "FieldSet \<Rightarrow> Planner" where
  "NewPlanner fs = \<lparr>plannerFields = fs, lenient = False\<rparr>"

definition NewLenientPlanner :: "FieldSet \<Rightarrow> Planner" where
  "NewLenientPlanner fs = \<lparr>plannerFields = fs, lenient = True\<rparr>"

definition AAD :: "unicode \<Rightarrow> string \<Rightarrow> string \<Rightarrow> bytes" where
  "AAD U table column = ToUpper U table @ ''.'' @ ToUpper U column"

section \<open>The planner\<close>

definition literalErr :: "string \<Rightarrow> string \<Rightarrow> string \<Rightarrow> goerror" where
  "literalErr table col what = wrapErr [] ErrUnencryptablePII ('': '' @ table @ ''.'' @ col @ what)"

definition planWrittenColumns ::
  "unicode \<Rightarrow> Planner \<Rightarrow> string \<Rightarrow> Analysis \<Rightarrow> WritePlan \<Rightarrow> WritePlan result" where
  "planWrittenColumns U p table a plan0 =
     foldR (\<lambda>plan wc.
       let col = ToUpper U (cpColumn wc) in
       (case ColumnRule (plannerFields p) table col of
          None \<Rightarrow> Inr plan
        | Some rule \<Rightarrow>
          if cpParam wc = 0
          then (if lenient p then Inr plan else Inl (literalErr table col '' written as a literal''))
          else
            let plan1 = plan\<lparr>wpParams := wpParams plan @
                  [\<lparr>prParam = cpParam wc, prTable = table, prColumn = col, prRule = rule\<rparr>]\<rparr> in
            Inr (if ruleBlindIndex rule \<noteq> []
                 then plan1\<lparr>BlindIndexWrites := BlindIndexWrites plan1 @
                        [\<lparr>bwSourceParam = cpParam wc, bwNewParam = 0, bwTable = table, bwColumn = col,
                          bwHashColumn = ruleBlindIndex rule\<rparr>]\<rparr>
                 else plan1)))
       plan0 (WriteColumns a)"

definition planFilteredColumns ::
  "unicode \<Rightarrow> Planner \<Rightarrow> string \<Rightarrow> Analysis \<Rightarrow> WritePlan \<Rightarrow> WritePlan result" where
  "planFilteredColumns U p table a plan0 =
     foldR (\<lambda>plan fc.
       let col = ToUpper U (cpColumn fc) in
       (case ColumnRule (plannerFields p) table col of
          None \<Rightarrow> Inr plan
        | Some rule \<Rightarrow>
          if ruleScheme rule \<noteq> SchemeDeterministic
          then (if lenient p then Inr plan
                else Inl (wrapErr [] ErrUnsearchablePII ('': '' @ table @ ''.'' @ col)))
          else if cpParam fc = 0
          then (if lenient p then Inr plan else Inl (literalErr table col '' filtered by a literal''))
          else Inr (plan\<lparr>wpParams := wpParams plan @
                  [\<lparr>prParam = cpParam fc, prTable = table, prColumn = col, prRule = rule\<rparr>]\<rparr>)))
       plan0 (FilterColumns a)"

definition planLikeFilteredColumns ::
  "unicode \<Rightarrow> Planner \<Rightarrow> string \<Rightarrow> Analysis \<Rightarrow> WritePlan \<Rightarrow> WritePlan" where
  "planLikeFilteredColumns U p table a plan0 =
     foldl (\<lambda>plan fc.
       let col = ToUpper U (cpColumn fc) in
       (case ColumnRule (plannerFields p) table col of
          None \<Rightarrow> plan
        | Some rule \<Rightarrow>
          if ruleScheme rule \<noteq> SchemeDeterministic \<or> cpParam fc = 0 then plan
          else if ruleBlindIndex rule \<noteq> []
          then plan\<lparr>BlindIndexFilters := BlindIndexFilters plan @
                 [\<lparr>bfParam = cpParam fc, bfTable = table, bfColumn = col,
                   bfHashColumn = ruleBlindIndex rule\<rparr>]\<rparr>
          else plan\<lparr>LikeParams := LikeParams plan @
                 [\<lparr>prParam = cpParam fc, prTable = table, prColumn = col, prRule = rule\<rparr>]\<rparr>))
       plan0 (LikeFilterColumns a)"

definition upperSet :: "unicode \<Rightarrow> string list \<Rightarrow> string set" where
  "upperSet U cols = set (map (ToUpper U) cols)"

definition firstParam :: "unicode \<Rightarrow> string \<Rightarrow> ColumnParam list \<Rightarrow> int option" where
  "firstParam U column cps =
     map_option cpParam (List.find (\<lambda>cp. ToUpper U (cpColumn cp) = column) cps)"

definition paramForColumn :: "unicode \<Rightarrow> Analysis \<Rightarrow> string \<Rightarrow> int" where
  "paramForColumn U a column =
     (case firstParam U column (WriteColumns a) of
        Some n \<Rightarrow> n
      | None \<Rightarrow> (case firstParam U column (FilterColumns a) of Some n \<Rightarrow> n | None \<Rightarrow> 0))"

definition attributeValueParams ::
  "unicode \<Rightarrow> Planner \<Rightarrow> string \<Rightarrow> attrPolicy \<Rightarrow> ColumnParam list \<Rightarrow> ParamRule list result" where
  "attributeValueParams U p table pol cps =
     foldR (\<lambda>acc wc.
       let col = ToUpper U (cpColumn wc) in
       if col \<notin> upperSet U (apValueColumns pol) then Inr acc
       else if cpParam wc = 0
       then (if lenient p then Inr acc else Inl (literalErr table col '' written as a literal''))
       else Inr (acc @ [\<lparr>prParam = cpParam wc, prTable = table, prColumn = col, prRule = apRule pol\<rparr>]))
       [] cps"

definition planAttributes ::
  "unicode \<Rightarrow> Planner \<Rightarrow> string \<Rightarrow> Analysis \<Rightarrow> WritePlan \<Rightarrow> WritePlan result" where
  "planAttributes U p table a plan =
     (case AttributePolicyFor (plannerFields p) table of
        None \<Rightarrow> Inr plan
      | Some pol \<Rightarrow>
        bindR (attributeValueParams U p table pol (WriteColumns a)) (\<lambda>valueParams.
          if valueParams = [] then Inr plan
          else let nameParam = paramForColumn U a (ToUpper U (apNameColumn pol)) in
            if nameParam = 0
            then (if lenient p then Inr plan
                  else Inl (wrapErr [] ErrUnencryptablePII
                         ('': attribute write to '' @ table @ '' without a bound name'')))
            else Inr (plan\<lparr>AttributeConditions := AttributeConditions plan @
                   [\<lparr>acNameParam = nameParam, acPrefix = apPrefix pol, acValueParams = valueParams\<rparr>]\<rparr>)))"

definition PlanWrite :: "unicode \<Rightarrow> Planner \<Rightarrow> Analysis \<Rightarrow> WritePlan result" where
  "PlanWrite U p a =
     (let table = ToUpper U (anTable a) in
      bindR (planWrittenColumns U p table a emptyWritePlan) (\<lambda>plan1.
      bindR (planFilteredColumns U p table a plan1) (\<lambda>plan2.
      planAttributes U p table a (planLikeFilteredColumns U p table a plan2))))"

section \<open>The plan in closed form\<close>

text \<open>What each occurrence of a column contributes, independent of the others.\<close>

definition ruleAt :: "unicode \<Rightarrow> Planner \<Rightarrow> string \<Rightarrow> ColumnParam \<Rightarrow> Rule option" where
  "ruleAt U p table cp = ColumnRule (plannerFields p) table (ToUpper U (cpColumn cp))"

definition paramRuleFor :: "unicode \<Rightarrow> string \<Rightarrow> ColumnParam \<Rightarrow> Rule \<Rightarrow> ParamRule" where
  "paramRuleFor U table cp rule =
     \<lparr>prParam = cpParam cp, prTable = table, prColumn = ToUpper U (cpColumn cp), prRule = rule\<rparr>"

definition writtenRules :: "unicode \<Rightarrow> Planner \<Rightarrow> string \<Rightarrow> ColumnParam \<Rightarrow> ParamRule list" where
  "writtenRules U p table cp =
     (case ruleAt U p table cp of
        Some rule \<Rightarrow> if cpParam cp = 0 then [] else [paramRuleFor U table cp rule] | None \<Rightarrow> [])"

definition writtenHashes :: "unicode \<Rightarrow> Planner \<Rightarrow> string \<Rightarrow> ColumnParam \<Rightarrow> BlindIndexWrite list" where
  "writtenHashes U p table cp =
     (case ruleAt U p table cp of
        Some rule \<Rightarrow> if cpParam cp = 0 \<or> ruleBlindIndex rule = [] then []
          else [\<lparr>bwSourceParam = cpParam cp, bwNewParam = 0, bwTable = table,
                 bwColumn = ToUpper U (cpColumn cp), bwHashColumn = ruleBlindIndex rule\<rparr>]
      | None \<Rightarrow> [])"

definition filterRules :: "unicode \<Rightarrow> Planner \<Rightarrow> string \<Rightarrow> ColumnParam \<Rightarrow> ParamRule list" where
  "filterRules U p table cp =
     (case ruleAt U p table cp of
        Some rule \<Rightarrow> if ruleScheme rule \<noteq> SchemeDeterministic \<or> cpParam cp = 0 then []
          else [paramRuleFor U table cp rule]
      | None \<Rightarrow> [])"

definition likeRules :: "unicode \<Rightarrow> Planner \<Rightarrow> string \<Rightarrow> ColumnParam \<Rightarrow> ParamRule list" where
  "likeRules U p table cp =
     (case ruleAt U p table cp of
        Some rule \<Rightarrow> if ruleScheme rule \<noteq> SchemeDeterministic \<or> cpParam cp = 0 \<or> ruleBlindIndex rule \<noteq> []
          then [] else [paramRuleFor U table cp rule]
      | None \<Rightarrow> [])"

definition likeHashes :: "unicode \<Rightarrow> Planner \<Rightarrow> string \<Rightarrow> ColumnParam \<Rightarrow> BlindIndexFilter list" where
  "likeHashes U p table cp =
     (case ruleAt U p table cp of
        Some rule \<Rightarrow> if ruleScheme rule \<noteq> SchemeDeterministic \<or> cpParam cp = 0 \<or> ruleBlindIndex rule = []
          then [] else [\<lparr>bfParam = cpParam cp, bfTable = table, bfColumn = ToUpper U (cpColumn cp),
                          bfHashColumn = ruleBlindIndex rule\<rparr>]
      | None \<Rightarrow> [])"

definition attrRules :: "unicode \<Rightarrow> string \<Rightarrow> attrPolicy \<Rightarrow> ColumnParam \<Rightarrow> ParamRule list" where
  "attrRules U table pol cp =
     (if ToUpper U (cpColumn cp) \<notin> upperSet U (apValueColumns pol) \<or> cpParam cp = 0 then []
      else [paramRuleFor U table cp (apRule pol)])"

definition attrConditions :: "unicode \<Rightarrow> Planner \<Rightarrow> string \<Rightarrow> Analysis \<Rightarrow> AttributeCondition list" where
  "attrConditions U p table a =
     (case AttributePolicyFor (plannerFields p) table of
        None \<Rightarrow> []
      | Some pol \<Rightarrow>
        let vs = concat (map (attrRules U table pol) (WriteColumns a));
            n = paramForColumn U a (ToUpper U (apNameColumn pol)) in
        if vs = [] \<or> n = 0 then []
        else [\<lparr>acNameParam = n, acPrefix = apPrefix pol, acValueParams = vs\<rparr>])"

definition planOf :: "unicode \<Rightarrow> Planner \<Rightarrow> Analysis \<Rightarrow> WritePlan" where
  "planOf U p a =
     (let t = ToUpper U (anTable a) in
      \<lparr>wpParams = concat (map (writtenRules U p t) (WriteColumns a))
                  @ concat (map (filterRules U p t) (FilterColumns a)),
       AttributeConditions = attrConditions U p t a,
       LikeParams = concat (map (likeRules U p t) (LikeFilterColumns a)),
       BlindIndexFilters = concat (map (likeHashes U p t) (LikeFilterColumns a)),
       BlindIndexWrites = concat (map (writtenHashes U p t) (WriteColumns a))\<rparr>)"

text \<open>What the planner refuses: a PII value it would have to leave as it is.\<close>

definition refusedWrite :: "unicode \<Rightarrow> Planner \<Rightarrow> string \<Rightarrow> ColumnParam \<Rightarrow> bool" where
  "refusedWrite U p table cp \<longleftrightarrow> ruleAt U p table cp \<noteq> None \<and> cpParam cp = 0"

definition refusedFilter :: "unicode \<Rightarrow> Planner \<Rightarrow> string \<Rightarrow> ColumnParam \<Rightarrow> bool" where
  "refusedFilter U p table cp \<longleftrightarrow>
     (\<exists>rule. ruleAt U p table cp = Some rule \<and> (ruleScheme rule \<noteq> SchemeDeterministic \<or> cpParam cp = 0))"

definition refusedAttribute :: "unicode \<Rightarrow> Planner \<Rightarrow> string \<Rightarrow> Analysis \<Rightarrow> bool" where
  "refusedAttribute U p table a \<longleftrightarrow>
     (\<exists>pol. AttributePolicyFor (plannerFields p) table = Some pol \<and>
        (\<exists>cp \<in> set (WriteColumns a). ToUpper U (cpColumn cp) \<in> upperSet U (apValueColumns pol) \<and>
           (cpParam cp = 0 \<or> paramForColumn U a (ToUpper U (apNameColumn pol)) = 0)))"

definition refused :: "unicode \<Rightarrow> Planner \<Rightarrow> Analysis \<Rightarrow> bool" where
  "refused U p a \<longleftrightarrow>
     (let t = ToUpper U (anTable a) in
      (\<exists>cp \<in> set (WriteColumns a). refusedWrite U p t cp)
      \<or> (\<exists>cp \<in> set (FilterColumns a). refusedFilter U p t cp)
      \<or> refusedAttribute U p t a)"

definition isRefusal :: "goerror \<Rightarrow> bool" where
  "isRefusal e \<longleftrightarrow> errorsIs e ErrUnencryptablePII \<or> errorsIs e ErrUnsearchablePII"

lemma isRefusal_simps [simp]:
  "isRefusal (literalErr t c w)" "isRefusal (wrapErr pre ErrUnencryptablePII post)"
  "isRefusal (wrapErr pre ErrUnsearchablePII post)"
  by (simp_all add: isRefusal_def literalErr_def)

lemma planWrittenColumns_Inr:
  "planWrittenColumns U p t a plan = Inr plan' \<longleftrightarrow>
     (lenient p \<or> (\<forall>cp \<in> set (WriteColumns a). \<not> refusedWrite U p t cp))
     \<and> plan' = plan\<lparr>wpParams := wpParams plan @ concat (map (writtenRules U p t) (WriteColumns a)),
         BlindIndexWrites := BlindIndexWrites plan @ concat (map (writtenHashes U p t) (WriteColumns a))\<rparr>"
  unfolding planWrittenColumns_def
proof (induction "WriteColumns a" arbitrary: a plan)
  case Nil
  then show ?case by auto
next
  case (Cons cp cps)
  show ?case
    using Cons(1) [of "a\<lparr>WriteColumns := cps\<rparr>"] Cons(2) [symmetric]
    by (auto simp: writtenRules_def writtenHashes_def refusedWrite_def ruleAt_def paramRuleFor_def
        bindR_eq_Inr Let_def split: option.splits if_splits)
qed

lemma planFilteredColumns_Inr:
  "planFilteredColumns U p t a plan = Inr plan' \<longleftrightarrow>
     (lenient p \<or> (\<forall>cp \<in> set (FilterColumns a). \<not> refusedFilter U p t cp))
     \<and> plan' = plan\<lparr>wpParams := wpParams plan @ concat (map (filterRules U p t) (FilterColumns a))\<rparr>"
  unfolding planFilteredColumns_def
proof (induction "FilterColumns a" arbitrary: a plan)
  case Nil
  then show ?case by auto
next
  case (Cons cp cps)
  show ?case
    using Cons(1) [of "a\<lparr>FilterColumns := cps\<rparr>"] Cons(2) [symmetric]
    by (auto simp: filterRules_def refusedFilter_def ruleAt_def paramRuleFor_def
        bindR_eq_Inr Let_def split: option.splits if_splits)
qed

lemma planLikeFilteredColumns_eq:
  "planLikeFilteredColumns U p t a plan =
     plan\<lparr>LikeParams := LikeParams plan @ concat (map (likeRules U p t) (LikeFilterColumns a)),
       BlindIndexFilters := BlindIndexFilters plan @ concat (map (likeHashes U p t) (LikeFilterColumns a))\<rparr>"
  unfolding planLikeFilteredColumns_def
proof (induction "LikeFilterColumns a" arbitrary: a plan)
  case Nil
  then show ?case by simp
next
  case (Cons cp cps)
  show ?case
    using Cons(1) [of "a\<lparr>LikeFilterColumns := cps\<rparr>"] Cons(2) [symmetric]
    by (auto simp: likeRules_def likeHashes_def ruleAt_def paramRuleFor_def Let_def
        split: option.splits)
qed

lemma attributeValueParams_Inr:
  "attributeValueParams U p t pol cps = Inr vs \<longleftrightarrow>
     (lenient p \<or> (\<forall>cp \<in> set cps. ToUpper U (cpColumn cp) \<in> upperSet U (apValueColumns pol) \<longrightarrow> cpParam cp \<noteq> 0))
     \<and> vs = concat (map (attrRules U t pol) cps)"
proof -
  have "foldR (\<lambda>acc wc.
       let col = ToUpper U (cpColumn wc) in
       if col \<notin> upperSet U (apValueColumns pol) then Inr acc
       else if cpParam wc = 0
       then (if lenient p then Inr acc else Inl (literalErr t col '' written as a literal''))
       else Inr (acc @ [\<lparr>prParam = cpParam wc, prTable = t, prColumn = col, prRule = apRule pol\<rparr>]))
       acc cps = Inr vs \<longleftrightarrow>
     (lenient p \<or> (\<forall>cp \<in> set cps. ToUpper U (cpColumn cp) \<in> upperSet U (apValueColumns pol) \<longrightarrow> cpParam cp \<noteq> 0))
     \<and> vs = acc @ concat (map (attrRules U t pol) cps)" for acc
    by (induction cps arbitrary: acc)
      (auto simp: attrRules_def paramRuleFor_def bindR_eq_Inr Let_def split: if_splits)
  then show ?thesis by (simp add: attributeValueParams_def)
qed

lemma attrRules_Nil:
  "concat (map (attrRules U t pol) cps) = [] \<longleftrightarrow>
     (\<forall>cp \<in> set cps. ToUpper U (cpColumn cp) \<in> upperSet U (apValueColumns pol) \<longrightarrow> cpParam cp = 0)"
  by (auto simp: attrRules_def)

lemma planAttributes_Inr:
  "planAttributes U p t a plan = Inr plan' \<longleftrightarrow>
     (lenient p \<or> \<not> refusedAttribute U p t a)
     \<and> plan' = plan\<lparr>AttributeConditions := AttributeConditions plan @ attrConditions U p t a\<rparr>"
proof (cases "AttributePolicyFor (plannerFields p) t")
  case None
  then show ?thesis by (auto simp: planAttributes_def attrConditions_def refusedAttribute_def)
next
  case (Some pol)
  let ?vs = "concat (map (attrRules U t pol) (WriteColumns a))"
  let ?n = "paramForColumn U a (ToUpper U (apNameColumn pol))"
  have "(lenient p \<or> \<not> refusedAttribute U p t a) \<longleftrightarrow>
      (\<exists>vs. attributeValueParams U p t pol (WriteColumns a) = Inr vs) \<and> (lenient p \<or> ?vs = [] \<or> ?n \<noteq> 0)"
    using Some by (auto simp: refusedAttribute_def attributeValueParams_Inr attrRules_Nil simp del: concat_eq_Nil_conv)
  then show ?thesis
    using Some
    by (auto simp: planAttributes_def attrConditions_def attributeValueParams_Inr bindR_eq_Inr Let_def
        simp del: concat_eq_Nil_conv split: if_splits)
qed

lemma foldR_Inl_step:
  "foldR f s xs = Inl e \<Longrightarrow> \<exists>s' x. x \<in> set xs \<and> f s' x = Inl e"
  by (induction xs arbitrary: s) (simp, fastforce simp: bindR_eq_Inl)

lemma planner_errors:
  "planWrittenColumns U p t a plan = Inl e \<Longrightarrow> isRefusal e"
  "planFilteredColumns U p t a plan = Inl e \<Longrightarrow> isRefusal e"
  "attributeValueParams U p t pol cps = Inl e \<Longrightarrow> isRefusal e"
  unfolding planWrittenColumns_def planFilteredColumns_def attributeValueParams_def
  by (drule foldR_Inl_step; auto simp: Let_def split: option.splits if_splits)+

lemma PlanWrite_Inr:
  "PlanWrite U p a = Inr plan \<longleftrightarrow> (lenient p \<or> \<not> refused U p a) \<and> plan = planOf U p a"
  by (auto simp: PlanWrite_def Let_def bindR_eq_Inr planWrittenColumns_Inr planFilteredColumns_Inr
      planLikeFilteredColumns_eq planAttributes_Inr refused_def planOf_def emptyWritePlan_def)

lemma PlanWrite_Inl: "PlanWrite U p a = Inl e \<Longrightarrow> isRefusal e"
  by (auto simp: PlanWrite_def Let_def bindR_eq_Inl planAttributes_def
      dest: planner_errors split: option.splits if_splits)

lemma lenient_total: "lenient p \<Longrightarrow> \<exists>plan. PlanWrite U p a = Inr plan"
  by (simp add: PlanWrite_Inr)

end
