(* ===== verification/ReadPlan.thy ===== *)
theory ReadPlan
  imports Plan
begin

text \<open>
  \<^verbatim>\<open>internal/rewrite/read.go\<close>: which result fields are decrypted, and under
  which table's associated data. \<open>columnOwner_cases\<close> relates the early-exit loop to the
  set of relations that claim the column.
\<close>

record ReadField =
  rfIndex :: nat
  rfTable :: string
  rfColumn :: string

record ReadPlan =
  rpFields :: "ReadField list"
  Ambiguous :: "ReadField list"

definition emptyReadPlan :: ReadPlan where
  "emptyReadPlan = \<lparr>rpFields = [], Ambiguous = []\<rparr>"

definition ReadPlan_IsEmpty :: "ReadPlan \<Rightarrow> bool" where
  "ReadPlan_IsEmpty rp \<longleftrightarrow> rpFields rp = [] \<and> Ambiguous rp = []"

definition isReadablePIIColumn :: "unicode \<Rightarrow> Planner \<Rightarrow> string \<Rightarrow> string \<Rightarrow> bool" where
  "isReadablePIIColumn U p table column \<longleftrightarrow>
     ColumnRule (plannerFields p) table column \<noteq> None
     \<or> (case AttributePolicyFor (plannerFields p) table of
          None \<Rightarrow> False
        | Some pol \<Rightarrow> list_ex (\<lambda>vc. ToUpper U vc = column) (apValueColumns pol))"

text \<open>The loop of \<^verbatim>\<open>columnOwner\<close>; \<open>owner\<close> is the named result it updates.\<close>

fun columnOwnerFrom :: "unicode \<Rightarrow> Planner \<Rightarrow> string \<Rightarrow> string \<Rightarrow> string list \<Rightarrow> string \<times> bool" where
  "columnOwnerFrom U p column owner [] = (owner, False)"
| "columnOwnerFrom U p column owner (t0 # ts) =
     (let t = ToUpper U t0 in
      if t = [] \<or> \<not> isReadablePIIColumn U p t column then columnOwnerFrom U p column owner ts
      else if owner \<noteq> [] \<and> owner \<noteq> t then ([], True)
      else columnOwnerFrom U p column t ts)"

definition columnOwner :: "unicode \<Rightarrow> Planner \<Rightarrow> string list \<Rightarrow> string \<Rightarrow> string \<times> bool" where
  "columnOwner U p tables column = columnOwnerFrom U p column [] tables"

definition planReadColumn ::
  "unicode \<Rightarrow> Planner \<Rightarrow> string list \<Rightarrow> ReadPlan \<Rightarrow> nat \<times> string \<Rightarrow> ReadPlan" where
  "planReadColumn U p tables plan ic =
     (let (i, col) = ic; c = ToUpper U col; (owner, ambiguous) = columnOwner U p tables c in
      if ambiguous
      then plan\<lparr>Ambiguous := Ambiguous plan @ [\<lparr>rfIndex = i, rfTable = [], rfColumn = c\<rparr>]\<rparr>
      else if owner \<noteq> []
      then plan\<lparr>rpFields := rpFields plan @ [\<lparr>rfIndex = i, rfTable = owner, rfColumn = c\<rparr>]\<rparr>
      else plan)"

definition PlanRead :: "unicode \<Rightarrow> Planner \<Rightarrow> string list \<Rightarrow> string list \<Rightarrow> ReadPlan" where
  "PlanRead U p tables columns =
     (if tables = [] then emptyReadPlan
      else foldl (planReadColumn U p tables) emptyReadPlan (enumerate 0 columns))"

section \<open>Owners\<close>

text \<open>The relations that claim a column: upper-cased, non-empty, and configured for it.\<close>

definition claimants :: "unicode \<Rightarrow> Planner \<Rightarrow> string list \<Rightarrow> string \<Rightarrow> string set" where
  "claimants U p tables column =
     {t \<in> ToUpper U ` set tables. t \<noteq> [] \<and> isReadablePIIColumn U p t column}"

lemma claimants_Cons:
  "claimants U p (t # ts) c =
     (if ToUpper U t = [] \<or> \<not> isReadablePIIColumn U p (ToUpper U t) c then claimants U p ts c
      else insert (ToUpper U t) (claimants U p ts c))"
  by (auto simp: claimants_def)

lemma columnOwnerFrom_spec:
  "columnOwnerFrom U p c owner ts =
     (let S = claimants U p ts c \<union> (if owner = [] then {} else {owner}) in
      if S = {} then ([], False)
      else if \<exists>t. S = {t} then (the_elem S, False) else ([], True))"
proof (induction ts arbitrary: owner)
  case Nil
  then show ?case by (auto simp: claimants_def)
next
  case (Cons t ts)
  show ?case
  proof (cases "ToUpper U t = [] \<or> \<not> isReadablePIIColumn U p (ToUpper U t) c")
    case True
    then show ?thesis using Cons by (simp add: claimants_Cons Let_def)
  next
    case False
    then show ?thesis
      using Cons by (auto simp: claimants_Cons Let_def insert_commute)
  qed
qed

lemma columnOwner_none: "claimants U p ts c = {} \<Longrightarrow> columnOwner U p ts c = ([], False)"
  by (simp add: columnOwner_def columnOwnerFrom_spec)

lemma columnOwner_one: "claimants U p ts c = {t} \<Longrightarrow> columnOwner U p ts c = (t, False)"
  by (simp add: columnOwner_def columnOwnerFrom_spec)

lemma columnOwner_many:
  assumes "s \<noteq> t" "s \<in> claimants U p ts c" "t \<in> claimants U p ts c"
  shows "columnOwner U p ts c = ([], True)"
proof -
  have "claimants U p ts c \<noteq> {}" "\<nexists>u. claimants U p ts c = {u}"
    using assms by (blast, metis singletonD)
  then show ?thesis by (simp add: columnOwner_def columnOwnerFrom_spec)
qed

text \<open>More than one relation claims the column.\<close>

definition contested :: "unicode \<Rightarrow> Planner \<Rightarrow> string list \<Rightarrow> string \<Rightarrow> bool" where
  "contested U p tables c \<longleftrightarrow> (\<exists>s t. s \<noteq> t \<and> s \<in> claimants U p tables c \<and> t \<in> claimants U p tables c)"

lemma contested_not_one: "contested U p ts c \<Longrightarrow> claimants U p ts c \<noteq> {t}"
  by (metis contested_def singletonD)

lemma columnOwner_cases:
  obtains (none) "claimants U p ts c = {}" "\<not> contested U p ts c" "columnOwner U p ts c = ([], False)"
  | (one) t where "claimants U p ts c = {t}" "t \<noteq> []" "\<not> contested U p ts c" "columnOwner U p ts c = (t, False)"
  | (many) "contested U p ts c" "columnOwner U p ts c = ([], True)"
proof (cases "contested U p ts c")
  case True
  then show ?thesis using many columnOwner_many unfolding contested_def by metis
next
  case False
  then consider "claimants U p ts c = {}" | t where "claimants U p ts c = {t}"
    unfolding contested_def by blast
  then show ?thesis
  proof cases
    case 1
    then show ?thesis using none columnOwner_none False by metis
  next
    case 2
    then have "t \<noteq> []" by (auto simp: claimants_def)
    then show ?thesis using one columnOwner_one False 2 by metis
  qed
qed

section \<open>The plan\<close>

definition readField :: "unicode \<Rightarrow> Planner \<Rightarrow> string list \<Rightarrow> nat \<times> string \<Rightarrow> ReadField list" where
  "readField U p tables ic =
     (let (i, col) = ic; (owner, amb) = columnOwner U p tables (ToUpper U col) in
      if amb \<or> owner = [] then [] else [\<lparr>rfIndex = i, rfTable = owner, rfColumn = ToUpper U col\<rparr>])"

definition ambiguousField :: "unicode \<Rightarrow> Planner \<Rightarrow> string list \<Rightarrow> nat \<times> string \<Rightarrow> ReadField list" where
  "ambiguousField U p tables ic =
     (let (i, col) = ic; (owner, amb) = columnOwner U p tables (ToUpper U col) in
      if amb then [\<lparr>rfIndex = i, rfTable = [], rfColumn = ToUpper U col\<rparr>] else [])"

lemma foldl_planReadColumn:
  "foldl (planReadColumn U p tables) plan ics =
     \<lparr>rpFields = rpFields plan @ concat (map (readField U p tables) ics),
      Ambiguous = Ambiguous plan @ concat (map (ambiguousField U p tables) ics)\<rparr>"
  by (induction ics arbitrary: plan)
    (auto simp: planReadColumn_def readField_def ambiguousField_def Let_def split: prod.splits)

lemma PlanRead_eq:
  "PlanRead U p tables columns =
     (if tables = [] then emptyReadPlan
      else \<lparr>rpFields = concat (map (readField U p tables) (enumerate 0 columns)),
            Ambiguous = concat (map (ambiguousField U p tables) (enumerate 0 columns))\<rparr>)"
  by (simp add: PlanRead_def foldl_planReadColumn emptyReadPlan_def)

lemma in_concat_enumerate:
  "x \<in> set (concat (map g (enumerate 0 xs))) \<longleftrightarrow> (\<exists>i < length xs. x \<in> set (g (i, xs ! i)))"
proof -
  have "enumerate 0 xs = map (\<lambda>i. (i, xs ! i)) [0..<length xs]"
    by (rule nth_equalityI) (simp_all add: nth_enumerate_eq)
  then show ?thesis by auto
qed

lemma PlanRead_field:
  "f \<in> set (rpFields (PlanRead U p tables columns)) \<longleftrightarrow>
     rfIndex f < length columns \<and> rfColumn f = ToUpper U (columns ! rfIndex f)
     \<and> claimants U p tables (rfColumn f) = {rfTable f}"
proof (cases "tables = []")
  case True
  then show ?thesis by (auto simp: PlanRead_eq emptyReadPlan_def claimants_def)
next
  case False
  have iff: "f \<in> set (readField U p tables (i, col)) \<longleftrightarrow>
      rfIndex f = i \<and> rfColumn f = ToUpper U col \<and> claimants U p tables (ToUpper U col) = {rfTable f}"
    for i col
    by (cases f, cases rule: columnOwner_cases [of U p tables "ToUpper U col"])
      (auto simp: readField_def contested_not_one)
  show ?thesis
    unfolding PlanRead_eq using False
    by (simp add: in_concat_enumerate iff del: set_concat cong: conj_cong)
qed

lemma PlanRead_ambiguous:
  "f \<in> set (Ambiguous (PlanRead U p tables columns)) \<longleftrightarrow>
     rfIndex f < length columns \<and> rfColumn f = ToUpper U (columns ! rfIndex f) \<and> rfTable f = []
     \<and> contested U p tables (rfColumn f)"
proof (cases "tables = []")
  case True
  then show ?thesis by (auto simp: PlanRead_eq emptyReadPlan_def claimants_def contested_def)
next
  case False
  have iff: "f \<in> set (ambiguousField U p tables (i, col)) \<longleftrightarrow>
      rfIndex f = i \<and> rfColumn f = ToUpper U col \<and> rfTable f = []
      \<and> contested U p tables (ToUpper U col)"
    for i col
    by (cases f, cases rule: columnOwner_cases [of U p tables "ToUpper U col"])
      (auto simp: ambiguousField_def)
  show ?thesis
    unfolding PlanRead_eq using False
    by (simp add: in_concat_enumerate iff del: set_concat cong: conj_cong)
qed

end
