(* ===== verification/BlindIndexSQL.thy ===== *)
theory BlindIndexSQL
  imports Plan
begin

text \<open>
  \<^verbatim>\<open>internal/rewrite/blindindex.go\<close>: the SQL rewrites that redirect a LIKE
  filter to a hash column and that add hash columns to a write. The code mutates the
  parsed tree in place; here a rewrite returns the new tree.
\<close>

section \<open>Filters\<close>

fun columnRefIdentN :: "Node \<Rightarrow> string" where
  "columnRefIdentN (ColumnRef fs) = (case lastString fs of Some s \<Rightarrow> s | None \<Rightarrow> [])"
| "columnRefIdentN (FuncCall funcname [a] _) =
     (if EqualFold (funcCallName funcname) ''lower'' \<or> EqualFold (funcCallName funcname) ''upper''
      then columnRefIdentN a else [])"
| "columnRefIdentN _ = []"

definition columnRefIdent :: "Node option \<Rightarrow> string" where
  "columnRefIdent n = (case n of None \<Rightarrow> [] | Some m \<Rightarrow> columnRefIdentN m)"

definition setColumnRef :: "unicode \<Rightarrow> Node option \<Rightarrow> string \<Rightarrow> Node option" where
  "setColumnRef U n hashCol = map_option (\<lambda>_. ColumnRef [StringN (ToLower U hashCol)]) n"

definition setOperatorEq :: "Node list \<Rightarrow> Node list" where
  "setOperatorEq name = (case name of StringN s # ns \<Rightarrow> StringN ''='' # ns | _ \<Rightarrow> name)"

definition unwrapLikeEscape :: "Node option \<Rightarrow> Node option" where
  "unwrapLikeEscape rexpr =
     (case rexpr of
        Some (FuncCall funcname (a # args) rest) \<Rightarrow> if isLikeEscape funcname then Some a else rexpr
      | _ \<Rightarrow> rexpr)"

definition mutateComparison ::
  "unicode \<Rightarrow> (string \<rightharpoonup> string) \<Rightarrow> AExprKind \<Rightarrow> Node list \<Rightarrow> Node option \<Rightarrow> Node option \<Rightarrow> Node" where
  "mutateComparison U mapping kind name lexpr rexpr =
     (if kind \<noteq> AEXPR_LIKE \<and> kind \<noteq> AEXPR_ILIKE then A_Expr kind name lexpr rexpr
      else let col = columnRefIdent lexpr in
        if col = [] then A_Expr kind name lexpr rexpr
        else (case mapping (ToLower U col) of
            None \<Rightarrow> A_Expr kind name lexpr rexpr
          | Some hashCol \<Rightarrow> A_Expr AEXPR_OP (setOperatorEq name) (setColumnRef U lexpr hashCol)
                              (unwrapLikeEscape rexpr)))"

fun mutateWhereClause :: "unicode \<Rightarrow> (string \<rightharpoonup> string) \<Rightarrow> Node \<Rightarrow> Node" where
  "mutateWhereClause U mapping (BoolExpr op args) = BoolExpr op (map (mutateWhereClause U mapping) args)"
| "mutateWhereClause U mapping (A_Expr kind name lexpr rexpr) =
     mutateComparison U mapping kind name lexpr rexpr"
| "mutateWhereClause U mapping n = n"

definition mutateWhere :: "unicode \<Rightarrow> (string \<rightharpoonup> string) \<Rightarrow> Node option \<Rightarrow> Node option" where
  "mutateWhere U mapping node =
     (let mw = map_option (mutateWhereClause U mapping) in
      (case node of
         Some (SelectN (SelectStmt w l r f wh v t x)) \<Rightarrow> Some (SelectN (SelectStmt w l r f (mw wh) v t x))
       | Some (UpdateN (UpdateStmt n t wh x)) \<Rightarrow> Some (UpdateN (UpdateStmt n t (mw wh) x))
       | Some (DeleteN (DeleteStmt n wh x)) \<Rightarrow> Some (DeleteN (DeleteStmt n (mw wh) x))
       | _ \<Rightarrow> node))"

definition deparseErr :: "goerror \<Rightarrow> goerror" where
  "deparseErr e = wrapErr ''rewrite: deparse: '' e []"

definition BlindIndexQuery ::
  "unicode \<Rightarrow> pgquery \<Rightarrow> string \<Rightarrow> (string \<times> string) list \<Rightarrow> string result" where
  "BlindIndexQuery U P sql mapping =
     (if mapping = [] then Inr sql
      else case pg_Parse P sql of
          Inl e \<Rightarrow> Inl (parseErr e)
        | Inr stmts \<Rightarrow>
          (case pg_Deparse P (map (\<lambda>st. st\<lparr>rsStmt := mutateWhere U (map_of mapping) (rsStmt st)\<rparr>) stmts) of
             Inl e \<Rightarrow> Inl (deparseErr e)
           | Inr out \<Rightarrow> Inr out))"

section \<open>Writes\<close>

text \<open>\<^verbatim>\<open>int32(n)\<close>: conversion of a Go int wraps.\<close>

definition toInt32 :: "int \<Rightarrow> int" where
  "toInt32 n = sint (word_of_int n :: 32 word)"

definition paramRefNode :: "int \<Rightarrow> Node" where
  "paramRefNode number = ParamRef number"

text \<open>
  \<open>walkParams\<close> lists the parameter numbers the closure \<^verbatim>\<open>walk\<close> of
  \<^verbatim>\<open>maxParamRef\<close> visits, in its order.
\<close>

function walkParams :: "Node option \<Rightarrow> int list" where
  "walkParams None = []"
| "walkParams (Some (ParamRef number)) = [number]"
| "walkParams (Some (InsertN ins)) = walkParams (insSelect ins)"
| "walkParams (Some (UpdateN upd)) =
     concat (map (\<lambda>t. walkParams (ResTargetVal t)) (updTargets upd)) @ walkParams (updWhere upd)"
| "walkParams (Some (SelectN sel)) =
     concat (map (\<lambda>vl. concat (map (\<lambda>item. walkParams (Some item)) (GetListItems vl))) (selValues sel))
     @ concat (map (\<lambda>t. walkParams (ResTargetVal t)) (selTargets sel)) @ walkParams (selWhere sel)"
| "walkParams (Some (BoolExpr op args)) = concat (map (\<lambda>arg. walkParams (Some arg)) args)"
| "walkParams (Some (A_Expr kind name lexpr rexpr)) = walkParams lexpr @ walkParams rexpr"
| "walkParams (Some (FuncCall a b c)) = []"
| "walkParams (Some (ColumnRef a)) = []"
| "walkParams (Some (StringN s)) = []"
| "walkParams (Some (ResTarget a b c)) = []"
| "walkParams (Some (RangeVar a b)) = []"
| "walkParams (Some (JoinExpr a b c)) = []"
| "walkParams (Some (RangeSubselect a b)) = []"
| "walkParams (Some (CommonTableExpr a b c)) = []"
| "walkParams (Some (ListN a)) = []"
| "walkParams (Some (DeleteN a)) = []"
| "walkParams (Some (OtherN a b)) = []"
  by pat_completeness auto

text \<open>The walk ends because every node it visits is a proper sub-node.\<close>

definition optWeight :: "Node option \<Rightarrow> nat" where
  "optWeight n = (case n of None \<Rightarrow> 0 | Some m \<Rightarrow> nodeWeight m)"

lemma optWeight_simps [simp]:
  "optWeight None = 0" "optWeight (Some n) = length (nodeSub n)"
  by (simp_all add: optWeight_def nodeWeight_def)

lemma optWeight_case: "length (case n of None \<Rightarrow> [] | Some x \<Rightarrow> (id \<circ> nodeSub) x) = optWeight n"
  by (simp split: option.split)

lemma nodeSub_item_length: "n \<in> set xs \<Longrightarrow> length (nodeSub n) \<le> length (concat (map nodeSub xs))"
  by (rule nodeSub_item(2))

lemma ResTargetVal_weight: "optWeight (ResTargetVal t) < length (nodeSub t)"
  using nodeWeight_pos [of t]
  by (cases t) (auto simp: ResTargetVal_def nodeWeight_def optWeight_case split: option.splits)

lemma GetListItems_weight: "item \<in> set (GetListItems vl) \<Longrightarrow> length (nodeSub item) < length (nodeSub vl)"
  by (cases vl) (auto simp: GetListItems_def less_Suc_eq_le intro!: nodeSub_item_length)

lemma part_weights:
  "optWeight (insSelect ins) < Suc (length (insSub ins))"
  "optWeight (updWhere upd) < Suc (length (updSub upd))"
  "t \<in> set (updTargets upd) \<Longrightarrow> length (nodeSub t) < Suc (length (updSub upd))"
  "optWeight (selWhere sel) < length (selSub sel)"
  "t \<in> set (selTargets sel) \<Longrightarrow> length (nodeSub t) < length (selSub sel)"
  "t \<in> set (selValues sel) \<Longrightarrow> length (nodeSub t) < length (selSub sel)"
proof -
  show "optWeight (insSelect ins) < Suc (length (insSub ins))"
    by (cases ins) (simp add: optWeight_case del: length_concat)
  show "optWeight (updWhere upd) < Suc (length (updSub upd))"
    by (cases upd) (simp add: optWeight_case del: length_concat)
  show "optWeight (selWhere sel) < length (selSub sel)"
    by (cases sel) (simp add: optWeight_case del: length_concat)
  show "t \<in> set (updTargets upd) \<Longrightarrow> length (nodeSub t) < Suc (length (updSub upd))"
    using nodeSub_item_length [of t "updTargets upd"] by (cases upd) (simp del: length_concat)
  show "t \<in> set (selTargets sel) \<Longrightarrow> length (nodeSub t) < length (selSub sel)"
    using nodeSub_item_length [of t "selTargets sel"] by (cases sel) (simp del: length_concat)
  show "t \<in> set (selValues sel) \<Longrightarrow> length (nodeSub t) < length (selSub sel)"
    using nodeSub_item_length [of t "selValues sel"] by (cases sel) (simp del: length_concat)
qed

lemma sub_weights:
  "a \<in> set args \<Longrightarrow> length (nodeSub a) < length (nodeSub (BoolExpr op args))"
  "optWeight l < length (nodeSub (A_Expr k n l r))" "optWeight r < length (nodeSub (A_Expr k n l r))"
  using nodeSub_item_length [of a args] by (auto simp: optWeight_case simp del: length_concat)

termination walkParams
proof (relation "measure optWeight"; simp only: in_measure optWeight_simps wf_measure)
  show "optWeight (ResTargetVal t) < length (nodeSub (UpdateN upd))" if "t \<in> set (updTargets upd)" for t upd
    using ResTargetVal_weight [of t] part_weights(3) [OF that] by simp
  show "optWeight (ResTargetVal t) < length (nodeSub (SelectN sel))" if "t \<in> set (selTargets sel)" for t sel
    using ResTargetVal_weight [of t] part_weights(5) [OF that] by simp
  show "length (nodeSub item) < length (nodeSub (SelectN sel))"
    if "vl \<in> set (selValues sel)" "item \<in> set (GetListItems vl)" for vl item sel
    using GetListItems_weight [OF that(2)] part_weights(6) [OF that(1)] by simp
qed (use part_weights sub_weights in simp_all)

definition maxParamRef :: "Node option \<Rightarrow> int" where
  "maxParamRef node = foldl (\<lambda>maxNum n. if n > maxNum then n else maxNum) 0 (walkParams node)"

text \<open>The loop that numbers the writes: a repeated source parameter keeps its last number.\<close>

fun allocate :: "int \<Rightarrow> BlindIndexWrite list \<Rightarrow> (int \<times> int) list \<Rightarrow> (int \<times> int) list" where
  "allocate maxParam [] allocs = allocs"
| "allocate maxParam (w # ws) allocs =
     allocate (maxParam + 1) ws (AList.update (bwSourceParam w) (maxParam + 1) allocs)"

text \<open>\<^verbatim>\<open>int32(allocs[src])\<close>; a missing key reads as zero.\<close>

definition allocParam :: "(int \<times> int) list \<Rightarrow> BlindIndexWrite \<Rightarrow> int" where
  "allocParam allocs w =
     toInt32 (case map_of allocs (bwSourceParam w) of Some n \<Rightarrow> n | None \<Rightarrow> 0)"

text \<open>
  A VALUES row is always a list node in the parser's output; for any other node the code
  would dereference nil, which the tree type does not exclude and the model leaves as is.
\<close>

definition addInsertHashColumns ::
  "unicode \<Rightarrow> BlindIndexWrite list \<Rightarrow> (int \<times> int) list \<Rightarrow> InsertStmt \<Rightarrow> InsertStmt" where
  "addInsertHashColumns U writes allocs ins =
     (case ins of InsertStmt rel cols sel rest \<Rightarrow>
        let cols' = cols @ map (\<lambda>w. ResTarget (ToLower U (bwHashColumn w)) None []) writes in
        (case sel of
           Some (SelectN (SelectStmt w l r f wh (ListN items # rows) t x)) \<Rightarrow>
             InsertStmt rel cols' (Some (SelectN (SelectStmt w l r f wh
               (ListN (items @ map (\<lambda>w. paramRefNode (allocParam allocs w)) writes) # rows) t x))) rest
         | _ \<Rightarrow> InsertStmt rel cols' sel rest))"

definition addUpdateHashAssignments ::
  "unicode \<Rightarrow> BlindIndexWrite list \<Rightarrow> (int \<times> int) list \<Rightarrow> UpdateStmt \<Rightarrow> UpdateStmt" where
  "addUpdateHashAssignments U writes allocs upd =
     (case upd of UpdateStmt rel targets wh rest \<Rightarrow>
        UpdateStmt rel (targets @ map (\<lambda>w. ResTarget (ToLower U (bwHashColumn w))
            (Some (paramRefNode (allocParam allocs w))) []) writes) wh rest)"

definition BlindIndexWriteSQL ::
  "unicode \<Rightarrow> pgquery \<Rightarrow> string \<Rightarrow> BlindIndexWrite list \<Rightarrow> (string \<times> (int \<times> int) list) result" where
  "BlindIndexWriteSQL U P sql writes =
     (if writes = [] then Inr (sql, [])
      else case pg_Parse P sql of
          Inl e \<Rightarrow> Inl (parseErr e)
        | Inr stmts \<Rightarrow>
          (case stmts of
             [st] \<Rightarrow>
               let stmt = rsStmt st;
                   allocs = allocate (maxParamRef stmt) writes [];
                   finish = (\<lambda>node. (case pg_Deparse P [st\<lparr>rsStmt := Some node\<rparr>] of
                        Inl e \<Rightarrow> Inl (deparseErr e) | Inr out \<Rightarrow> Inr (out, allocs)))
               in (case stmt of
                     Some (InsertN ins) \<Rightarrow> finish (InsertN (addInsertHashColumns U writes allocs ins))
                   | Some (UpdateN upd) \<Rightarrow> finish (UpdateN (addUpdateHashAssignments U writes allocs upd))
                   | _ \<Rightarrow> Inr (sql, []))
           | _ \<Rightarrow> Inl (errorsNew (''rewrite: expected one statement, got '' @ showNat (length stmts)))))"

section \<open>Allocation\<close>

lemma foldl_max: "foldl (\<lambda>m n. if n > m then n else m) (a :: int) xs = foldl max a xs"
  by (induction xs arbitrary: a) (simp_all add: max_def)

lemma maxParamRef_upper: "n \<in> set (walkParams node) \<Longrightarrow> n \<le> maxParamRef node"
proof -
  have "a \<le> foldl max a xs \<and> (\<forall>n \<in> set xs. n \<le> foldl max a xs)" for a :: int and xs
    by (induction xs arbitrary: a) (auto intro: order.trans [OF max.cobounded1] order.trans [OF max.cobounded2])
  then show "n \<in> set (walkParams node) \<Longrightarrow> n \<le> maxParamRef node"
    unfolding maxParamRef_def foldl_max by blast
qed

lemma maxParamRef_nonneg: "0 \<le> maxParamRef node"
proof -
  have "a \<le> foldl max a xs" for a :: int and xs
    by (induction xs arbitrary: a) (auto intro: order.trans [OF max.cobounded1])
  then show ?thesis unfolding maxParamRef_def foldl_max by blast
qed

lemma update_fresh: "k \<notin> fst ` set al \<Longrightarrow> AList.update k v al = al @ [(k, v)]"
  by (induction al) auto

lemma allocate_distinct:
  assumes "distinct (map bwSourceParam ws)" "\<forall>w \<in> set ws. bwSourceParam w \<notin> fst ` set allocs"
  shows "allocate m ws allocs = allocs @ zip (map bwSourceParam ws) (map (\<lambda>i. m + 1 + int i) [0..<length ws])"
  using assms
proof (induction m ws allocs rule: allocate.induct)
  case (2 m w ws allocs)
  have upd: "AList.update (bwSourceParam w) (m + 1) allocs = allocs @ [(bwSourceParam w, m + 1)]"
    using "2.prems"(2) by (simp add: update_fresh)
  have "allocate (m + 1) ws (allocs @ [(bwSourceParam w, m + 1)]) =
      (allocs @ [(bwSourceParam w, m + 1)]) @ zip (map bwSourceParam ws) (map (\<lambda>i. m + 1 + 1 + int i) [0..<length ws])"
    using "2.prems" by (intro "2.IH" [unfolded upd]) (auto simp: image_iff)
  moreover have "map (\<lambda>i. m + 1 + int i) [0..<Suc (length ws)] = (m + 1) # map (\<lambda>i. m + 1 + 1 + int i) [0..<length ws]"
    by (simp only: upt_conv_Cons [OF zero_less_Suc] list.map map_Suc_upt [symmetric] map_map)
       (simp add: algebra_simps)
  ultimately show ?case by (simp add: upd del: upt_Suc)
qed simp

end
