(* ===== verification/Observe.thy ===== *)
theory Observe
  imports Prelude
begin

text \<open>
  \<^verbatim>\<open>internal/observe/metrics.go\<close>: the Prometheus counters of the data path. A
  counter vector is a function from its label values to a count; the counters are
  process-wide and are threaded through the operations that increment them.
\<close>

record Metrics =
  DecryptTotal :: "string \<times> string \<Rightarrow> nat"
  DecryptFailures :: "string \<times> string \<times> string \<Rightarrow> nat"
  EncryptTotal :: "string \<times> string \<Rightarrow> nat"
  UnrecognizedPIISQL :: nat
  KMSCallTotal :: "string \<times> string \<Rightarrow> nat"
  CiphertextPassthrough :: "string \<Rightarrow> nat"
  DoubleEncrypted :: "string \<times> string \<Rightarrow> nat"

definition registeredMetrics :: Metrics where
  "registeredMetrics = \<lparr>DecryptTotal = (\<lambda>_. 0), DecryptFailures = (\<lambda>_. 0), EncryptTotal = (\<lambda>_. 0),
     UnrecognizedPIISQL = 0, KMSCallTotal = (\<lambda>_. 0), CiphertextPassthrough = (\<lambda>_. 0),
     DoubleEncrypted = (\<lambda>_. 0)\<rparr>"

definition Inc :: "'l \<Rightarrow> ('l \<Rightarrow> nat) \<Rightarrow> 'l \<Rightarrow> nat" where
  "Inc l c = c(l := Suc (c l))"

lemma Inc_same [simp]: "Inc l c l = Suc (c l)"
  by (simp add: Inc_def)

lemma Inc_other [simp]: "l' \<noteq> l \<Longrightarrow> Inc l c l' = c l'"
  by (simp add: Inc_def)

end
