(* ===== verification/Session.thy ===== *)
theory Session
  imports ReadPlan BlindIndexSQL Observe
begin

text \<open>
  \<^verbatim>\<open>internal/wire/session.go\<close>: the per-connection state machine of the extended
  protocol. Prepared statements and portals are shared by pointer (a portal keeps the
  statement it was bound to, the queues keep portals that may since have been rebound), so
  they live in two stores, \<open>stmtHeap\<close> and \<open>portalHeap\<close>, indexed by address.

  Everything an operation reaches beyond the connection is explicit: \<open>env\<close> holds the
  third-party parser, the Unicode tables and the random nonces; the session record carries
  the number of nonces drawn and the process-wide counters. Log lines change no state and are left out.
\<close>

section \<open>Messages and state\<close>

record env =
  envUnicode :: unicode
  envParser :: pgquery
  envRand :: "nat \<Rightarrow> bytes"

record ParseMsg =
  pmName :: string
  pmQuery :: string

text \<open>
  \<open>bmSpare\<close> is the part of the parameter slice's backing array between its length and
  its capacity, which a re-slice exposes. A nil parameter (SQL NULL) is \<open>None\<close>.
\<close>

record BindMsg =
  DestinationPortal :: string
  bmStatement :: string
  ParameterFormatCodes :: "16 word list"
  bmParameters :: "bytes option list"
  bmSpare :: "bytes option list"
  ResultFormatCodes :: "16 word list"

record PreparedStatement =
  psName :: string
  psSQL :: string
  psAnalysis :: "Analysis option"
  psWritePlan :: "WritePlan option"
  psColumns :: "string list"

type_synonym stmtAddr = nat
type_synonym portalAddr = nat

record Portal =
  poName :: string
  poStmt :: "stmtAddr option"
  ParameterFormats :: "16 word list"
  ResultFormats :: "16 word list"
  poReadPlan :: "ReadPlan option"

record pendingDescribe =
  pdStmt :: "stmtAddr option"
  pdPortal :: "portalAddr option"
  boundary :: bool

text \<open>The entries of the execute queue; the sentinel portal is \<open>syncBoundary\<close>.\<close>

datatype execEntry = syncBoundary | Executing portalAddr

record Session =
  planner :: Planner
  cipher :: "Cipher option"
  statements :: "string \<rightharpoonup> stmtAddr"
  portals :: "string \<rightharpoonup> portalAddr"
  execQueue :: "execEntry list"
  describes :: "pendingDescribe list"
  stmtHeap :: "PreparedStatement list"
  portalHeap :: "Portal list"
  drawn :: nat
  metrics :: Metrics

definition NewSession :: "Planner \<Rightarrow> Cipher option \<Rightarrow> nat \<Rightarrow> Metrics \<Rightarrow> Session" where
  "NewSession p c rnd m =
     \<lparr>planner = p, cipher = c, statements = Map.empty, portals = Map.empty, execQueue = [],
      describes = [], stmtHeap = [], portalHeap = [], drawn = rnd, metrics = m\<rparr>"

definition stmtAt :: "Session \<Rightarrow> stmtAddr \<Rightarrow> PreparedStatement" where
  "stmtAt s a = stmtHeap s ! a"

definition portalAt :: "Session \<Rightarrow> portalAddr \<Rightarrow> Portal" where
  "portalAt s a = portalHeap s ! a"

definition allocStmt :: "PreparedStatement \<Rightarrow> Session \<Rightarrow> Session" where
  "allocStmt ps s = s\<lparr>stmtHeap := stmtHeap s @ [ps]\<rparr>"

definition allocPortal :: "Portal \<Rightarrow> Session \<Rightarrow> Session" where
  "allocPortal po s = s\<lparr>portalHeap := portalHeap s @ [po]\<rparr>"

definition setStmt :: "stmtAddr \<Rightarrow> PreparedStatement \<Rightarrow> Session \<Rightarrow> Session" where
  "setStmt a ps s = s\<lparr>stmtHeap := (stmtHeap s)[a := ps]\<rparr>"

definition setPortal :: "portalAddr \<Rightarrow> Portal \<Rightarrow> Session \<Rightarrow> Session" where
  "setPortal a po s = s\<lparr>portalHeap := (portalHeap s)[a := po]\<rparr>"

section \<open>Frontend messages\<close>

text \<open>The map \<^verbatim>\<open>mapping\<close> of the blind-index filters: a repeated column keeps the last.\<close>

definition filterMapping :: "unicode \<Rightarrow> BlindIndexFilter list \<Rightarrow> (string \<times> string) list" where
  "filterMapping U fs =
     foldl (\<lambda>m f. AList.update (ToLower U (bfColumn f)) (bfHashColumn f) m) [] fs"

definition fillNewParams :: "(int \<times> int) list \<Rightarrow> WritePlan \<Rightarrow> WritePlan" where
  "fillNewParams allocs plan =
     plan\<lparr>BlindIndexWrites := map (\<lambda>w. w\<lparr>bwNewParam :=
        (case map_of allocs (bwSourceParam w) of Some n \<Rightarrow> n | None \<Rightarrow> 0)\<rparr>) (BlindIndexWrites plan)\<rparr>"

definition prepareErr :: "unicode \<Rightarrow> string \<Rightarrow> string \<Rightarrow> goerror \<Rightarrow> goerror" where
  "prepareErr U name what e = wrapErr (''wire: prepare '' @ Quote U name @ what) e []"

text \<open>
  What \<^verbatim>\<open>OnParse\<close> computes before it records the statement: the statement to
  record. Its \<open>psSQL\<close> is also the query text that is forwarded.
\<close>

definition prepare :: "env \<Rightarrow> Planner \<Rightarrow> ParseMsg \<Rightarrow> PreparedStatement result" where
  "prepare E pl p =
     (let U = envUnicode E; P = envParser E;
          ps = \<lparr>psName = pmName p, psSQL = pmQuery p, psAnalysis = None, psWritePlan = None, psColumns = []\<rparr> in
      (case Analyze U P (pmQuery p) of
         Inl err \<Rightarrow> Inr ps
       | Inr a \<Rightarrow>
         (case PlanWrite U pl a of
            Inl perr \<Rightarrow> Inl (prepareErr U (pmName p) '': '' perr)
          | Inr plan \<Rightarrow>
            bindR (if BlindIndexFilters plan = [] then Inr (pmQuery p)
                   else (case BlindIndexQuery U P (pmQuery p) (filterMapping U (BlindIndexFilters plan)) of
                           Inl rerr \<Rightarrow> Inl (prepareErr U (pmName p) '': blind-index rewrite: '' rerr)
                         | Inr rewritten \<Rightarrow> Inr rewritten)) (\<lambda>q1.
            if BlindIndexWrites plan = []
            then Inr (ps\<lparr>psSQL := q1, psAnalysis := Some a, psWritePlan := Some plan\<rparr>)
            else (case BlindIndexWriteSQL U P q1 (BlindIndexWrites plan) of
                    Inl rerr \<Rightarrow> Inl (prepareErr U (pmName p) '': blind-index write rewrite: '' rerr)
                  | Inr (rewritten, allocs) \<Rightarrow>
                      Inr (ps\<lparr>psSQL := rewritten, psAnalysis := Some a,
                              psWritePlan := Some (fillNewParams allocs plan)\<rparr>))))))"

text \<open>
  A refused message is never forwarded (the pump returns the error), so its text is left as
  it was received.
\<close>

definition OnParse :: "env \<Rightarrow> ParseMsg \<Rightarrow> Session \<Rightarrow> (Session \<times> ParseMsg) \<times> goerror option" where
  "OnParse E p s =
     (case prepare E (planner s) p of
        Inl e \<Rightarrow> ((s, p), Some e)
      | Inr ps \<Rightarrow>
          (((allocStmt ps s)\<lparr>statements := (statements s)(pmName p \<mapsto> length (stmtHeap s))\<rparr>,
            p\<lparr>pmQuery := psSQL ps\<rparr>), None))"

definition OnBind :: "BindMsg \<Rightarrow> Session \<Rightarrow> Session" where
  "OnBind b s =
     (allocPortal \<lparr>poName = DestinationPortal b, poStmt = statements s (bmStatement b),
        ParameterFormats = ParameterFormatCodes b, ResultFormats = ResultFormatCodes b,
        poReadPlan = None\<rparr> s)
     \<lparr>portals := (portals s)(DestinationPortal b \<mapsto> length (portalHeap s))\<rparr>"

definition OnExecute :: "string \<Rightarrow> Session \<Rightarrow> Session" where
  "OnExecute portal s =
     (case portals s portal of
        Some p \<Rightarrow> s\<lparr>execQueue := execQueue s @ [Executing p]\<rparr>
      | None \<Rightarrow> s)"

definition describeEntry :: "char \<Rightarrow> string \<Rightarrow> Session \<Rightarrow> pendingDescribe" where
  "describeEntry objectType name s =
     (if objectType = CHR ''S'' then \<lparr>pdStmt = statements s name, pdPortal = None, boundary = False\<rparr>
      else if objectType = CHR ''P'' then
        (case portals s name of
           Some p \<Rightarrow> \<lparr>pdStmt = poStmt (portalAt s p), pdPortal = Some p, boundary = False\<rparr>
         | None \<Rightarrow> \<lparr>pdStmt = None, pdPortal = None, boundary = False\<rparr>)
      else \<lparr>pdStmt = None, pdPortal = None, boundary = False\<rparr>)"

definition OnDescribe :: "char \<Rightarrow> string \<Rightarrow> Session \<Rightarrow> Session" where
  "OnDescribe objectType name s =
     s\<lparr>describes := describes s @ [describeEntry objectType name s]\<rparr>"

definition boundaryDescribe :: pendingDescribe where
  "boundaryDescribe = \<lparr>pdStmt = None, pdPortal = None, boundary = True\<rparr>"

definition OnSync :: "Session \<Rightarrow> Session" where
  "OnSync s = s\<lparr>execQueue := execQueue s @ [syncBoundary], describes := describes s @ [boundaryDescribe]\<rparr>"

definition simplePortalName :: string where "simplePortalName = ''(simple)''"

text \<open>Allocation of a synthetic statement and portal, and its place in the execute queue.\<close>

definition enqueueSimple :: "PreparedStatement \<Rightarrow> Session \<Rightarrow> Session" where
  "enqueueSimple ps s =
     (let s1 = allocPortal \<lparr>poName = simplePortalName, poStmt = Some (length (stmtHeap s)),
                 ParameterFormats = [], ResultFormats = [], poReadPlan = None\<rparr> (allocStmt ps s) in
      s1\<lparr>execQueue := execQueue s1 @ [Executing (length (portalHeap s))]\<rparr>)"

definition querySimple :: "env \<Rightarrow> Analysis \<Rightarrow> Session \<Rightarrow> Session \<times> goerror option" where
  "querySimple E a s =
     (case PlanWrite (envUnicode E) (planner s) a of
        Inl perr \<Rightarrow> (s, Some (wrapErr ''wire: simple query: '' perr []))
      | Inr plan \<Rightarrow>
          (enqueueSimple \<lparr>psName = [], psSQL = anSQL a, psAnalysis = Some a, psWritePlan = Some plan,
             psColumns = []\<rparr> s, None))"

definition passthroughStmt :: "string \<Rightarrow> PreparedStatement" where
  "passthroughStmt sql =
     \<lparr>psName = [], psSQL = sql, psAnalysis = None, psWritePlan = None, psColumns = []\<rparr>"

definition OnQuery :: "env \<Rightarrow> string \<Rightarrow> Session \<Rightarrow> Session \<times> goerror option" where
  "OnQuery E q s =
     (case AnalyzeAll (envUnicode E) (envParser E) q of
        Inr (a # as) \<Rightarrow> thenE (forE (querySimple E) (a # as) s) (\<lambda>s1. (OnSync s1, None))
      | _ \<Rightarrow> (OnSync (enqueueSimple (passthroughStmt q) s), None))"

definition OnClose :: "char \<Rightarrow> string \<Rightarrow> Session \<Rightarrow> Session" where
  "OnClose objectType name s =
     (if objectType = CHR ''S'' then s\<lparr>statements := (statements s)(name := None)\<rparr>
      else if objectType = CHR ''P'' then s\<lparr>portals := (portals s)(name := None)\<rparr>
      else s)"

section \<open>Backend messages\<close>

definition CurrentExecuting :: "Session \<Rightarrow> portalAddr option" where
  "CurrentExecuting s = (case execQueue s of Executing p # _ \<Rightarrow> Some p | _ \<Rightarrow> None)"

definition popDescribe :: "Session \<Rightarrow> Session" where
  "popDescribe s = s\<lparr>describes := tl (describes s)\<rparr>"

definition popExec :: "Session \<Rightarrow> Session" where
  "popExec s = s\<lparr>execQueue := tl (execQueue s)\<rparr>"

definition popExecuting :: "Session \<Rightarrow> Session" where
  "popExecuting s =
     (case execQueue s of Executing p # _ \<Rightarrow> popExec s | _ \<Rightarrow> s)"

definition planRead :: "env \<Rightarrow> Session \<Rightarrow> PreparedStatement \<Rightarrow> string list \<Rightarrow> ReadPlan option" where
  "planRead E s ps columns =
     map_option (\<lambda>a. PlanRead (envUnicode E) (planner s) (FromTables a) columns) (psAnalysis ps)"

definition isIdentChar :: "char \<Rightarrow> bool" where
  "isIdentChar c \<longleftrightarrow> c = CHR ''_'' \<or> (65 \<le> byteVal c \<and> byteVal c \<le> 90) \<or> (48 \<le> byteVal c \<and> byteVal c \<le> 57)"

definition identAt :: "string \<Rightarrow> string \<Rightarrow> nat \<Rightarrow> bool" where
  "identAt su ident i \<longleftrightarrow>
     (i = 0 \<or> \<not> isIdentChar (su ! (i - 1)))
     \<and> (HasSuffix ident ''_'' \<or> i + length ident = length su \<or> \<not> isIdentChar (su ! (i + length ident)))"

text \<open>
  The loop of \<^verbatim>\<open>containsIdent\<close>; for a non-empty identifier \<open>from\<close> never passes
  the end of the text.
\<close>

function containsIdentFrom :: "string \<Rightarrow> string \<Rightarrow> nat \<Rightarrow> bool" where
  "containsIdentFrom su ident from =
     (if from > length su then False
      else case strIndex (drop from su) ident of
          None \<Rightarrow> False
        | Some j \<Rightarrow> identAt su ident (j + from) \<or> containsIdentFrom su ident (Suc (j + from)))"
  by auto
termination
  by (relation "measure (\<lambda>(su, ident, from). Suc (length su) - from)") auto

declare containsIdentFrom.simps [simp del]

definition containsIdent :: "string \<Rightarrow> string \<Rightarrow> bool" where
  "containsIdent su ident = containsIdentFrom su ident 0"

definition piiTables :: "string list" where
  "piiTables = [''USER_ENTITY'', ''USER_ATTRIBUTE'', ''CREDENTIAL'', ''FED_USER_'', ''FEDERATED_IDENTITY'']"

definition piiColumns :: "string list" where
  "piiColumns = [''USERNAME'', ''EMAIL'', ''FIRST_NAME'', ''LAST_NAME'', ''SECRET_DATA'',
     ''CREDENTIAL_DATA'', ''VALUE'', ''LONG_VALUE'', ''FEDERATED_USERNAME'', ''FEDERATED_USER_ID'', ''TOKEN'']"

definition piiTouchedButNotPlanned :: "unicode \<Rightarrow> string \<Rightarrow> string list \<Rightarrow> bool" where
  "piiTouchedButNotPlanned U sql cols \<longleftrightarrow>
     list_ex (containsIdent (ToUpper U sql)) piiTables
     \<and> list_ex (\<lambda>c. ToUpper U c \<in> set piiColumns) cols"

definition planMissing :: "ReadPlan option \<Rightarrow> bool" where
  "planMissing rp \<longleftrightarrow> (case rp of None \<Rightarrow> True | Some plan \<Rightarrow> ReadPlan_IsEmpty plan)"

definition learnColumns :: "env \<Rightarrow> stmtAddr \<Rightarrow> string list \<Rightarrow> Session \<Rightarrow> Session" where
  "learnColumns E a columns s =
     (let ps = (stmtAt s a)\<lparr>psColumns := columns\<rparr>;
          s1 = setStmt a ps s in
      if planMissing (planRead E s ps columns) \<and> piiTouchedButNotPlanned (envUnicode E) (psSQL ps) columns
      then s1\<lparr>metrics := (metrics s1)\<lparr>UnrecognizedPIISQL := Suc (UnrecognizedPIISQL (metrics s1))\<rparr>\<rparr>
      else s1)"

definition setReadPlan :: "portalAddr \<Rightarrow> ReadPlan option \<Rightarrow> Session \<Rightarrow> Session" where
  "setReadPlan p rp s = setPortal p ((portalAt s p)\<lparr>poReadPlan := rp\<rparr>) s"

text \<open>The columns reach a statement and, when a portal is concerned, its read plan.\<close>

definition learnFor :: "env \<Rightarrow> stmtAddr \<Rightarrow> portalAddr option \<Rightarrow> string list \<Rightarrow> Session \<Rightarrow> Session" where
  "learnFor E a po columns s =
     (let s1 = learnColumns E a columns s in
      case po of
        None \<Rightarrow> s1
      | Some p \<Rightarrow> setReadPlan p (planRead E s1 (stmtAt s1 a) columns) s1)"

definition OnRowDescription :: "env \<Rightarrow> string list \<Rightarrow> Session \<Rightarrow> Session" where
  "OnRowDescription E columns s =
     (if describes s \<noteq> [] \<and> \<not> boundary (hd (describes s)) then
        let pd = hd (describes s); s1 = popDescribe s in
        (case pdStmt pd of
           None \<Rightarrow> s1
         | Some a \<Rightarrow> learnFor E a (pdPortal pd) columns s1)
      else
        (case CurrentExecuting s of
           None \<Rightarrow> s
         | Some p \<Rightarrow>
           (case poStmt (portalAt s p) of
              None \<Rightarrow> s
            | Some a \<Rightarrow> learnFor E a (Some p) columns s)))"

definition ensureReadPlan :: "env \<Rightarrow> portalAddr \<Rightarrow> Session \<Rightarrow> Session \<times> ReadPlan option" where
  "ensureReadPlan E p s =
     (let po = portalAt s p;
          s1 = (case (poReadPlan po, poStmt po) of
                  (None, Some a) \<Rightarrow>
                    if psColumns (stmtAt s a) \<noteq> []
                    then setReadPlan p (planRead E s (stmtAt s a) (psColumns (stmtAt s a))) s
                    else s
                | _ \<Rightarrow> s)
      in (s1, poReadPlan (portalAt s1 p)))"

definition OnNoData :: "Session \<Rightarrow> Session" where
  "OnNoData s =
     (if describes s \<noteq> [] \<and> \<not> boundary (hd (describes s)) then popDescribe s else s)"

definition OnCommandComplete :: "Session \<Rightarrow> Session" where
  "OnCommandComplete s = popExecuting s"

definition OnEmptyQueryResponse :: "Session \<Rightarrow> Session" where
  "OnEmptyQueryResponse s = popExecuting s"

definition OnPortalSuspended :: "Session \<Rightarrow> Session" where
  "OnPortalSuspended s = popExecuting s"

text \<open>The two loops of \<^verbatim>\<open>OnErrorResponse\<close> and of \<^verbatim>\<open>OnReadyForQuery\<close>.\<close>

fun dropExecs :: "execEntry list \<Rightarrow> execEntry list" where
  "dropExecs (Executing p # q) = dropExecs q"
| "dropExecs q = q"

fun dropDescribes :: "pendingDescribe list \<Rightarrow> pendingDescribe list" where
  "dropDescribes [] = []"
| "dropDescribes (pd # q) = (if boundary pd then pd # q else dropDescribes q)"

fun closeExecs :: "execEntry list \<Rightarrow> execEntry list" where
  "closeExecs [] = []"
| "closeExecs (e # q) = (if e = syncBoundary then q else closeExecs q)"

fun closeDescribes :: "pendingDescribe list \<Rightarrow> pendingDescribe list" where
  "closeDescribes [] = []"
| "closeDescribes (pd # q) = (if boundary pd then q else closeDescribes q)"

definition OnErrorResponse :: "Session \<Rightarrow> Session" where
  "OnErrorResponse s =
     s\<lparr>execQueue := dropExecs (execQueue s), describes := dropDescribes (describes s)\<rparr>"

definition OnReadyForQuery :: "Session \<Rightarrow> Session" where
  "OnReadyForQuery s =
     s\<lparr>execQueue := closeExecs (execQueue s), describes := closeDescribes (describes s)\<rparr>"

definition Statement :: "string \<Rightarrow> Session \<Rightarrow> PreparedStatement option" where
  "Statement name s = map_option (stmtAt s) (statements s name)"

definition PortalOf :: "string \<Rightarrow> Session \<Rightarrow> Portal option" where
  "PortalOf name s = map_option (portalAt s) (portals s name)"

end
