(* ===== verification/Transform.thy ===== *)
theory Transform
  imports Session
begin

text \<open>
  \<^verbatim>\<open>internal/wire/transform.go\<close>: encryption of bound parameters and decryption
  of result fields. The operations on a Bind message thread the pair of the session and
  the message; an error keeps what was done before it, as in the code.
\<close>

section \<open>Parameters\<close>

definition errNoCipher :: goerror where
  "errNoCipher = errorsNew ''wire: cipher not configured''"

definition paramErr :: "int \<Rightarrow> goerror" where
  "paramErr n = errorsNew (''wire: parameter $'' @ showInt n @ '' out of range'')"

text \<open>Slot \<^verbatim>\<open>$n\<close> exists.\<close>

definition inRange :: "int \<Rightarrow> 'a list \<Rightarrow> bool" where
  "inRange n xs \<longleftrightarrow> 0 \<le> n - 1 \<and> n - 1 < int (length xs)"

definition slot :: "int \<Rightarrow> nat" where
  "slot n = nat (n - 1)"

definition setParam :: "int \<Rightarrow> bytes option \<Rightarrow> BindMsg \<Rightarrow> BindMsg" where
  "setParam n v b = b\<lparr>bmParameters := (bmParameters b)[slot n := v]\<rparr>"

definition paramValue :: "BindMsg \<Rightarrow> int \<Rightarrow> bytes option" where
  "paramValue b param =
     (if inRange param (bmParameters b) then bmParameters b ! slot param else None)"

definition escapeParam :: "int \<Rightarrow> BindMsg \<Rightarrow> BindMsg" where
  "escapeParam param b =
     (case paramValue b param of None \<Rightarrow> b | Some v \<Rightarrow> setParam param (Some (Escape v)) b)"

text \<open>\<^verbatim>\<open>_, ok, _ := crypto.Parse(v)\<close>.\<close>

definition isEnvelope :: "unicode \<Rightarrow> bytes \<Rightarrow> bool" where
  "isEnvelope U v \<longleftrightarrow> (case Parse U v of Inr (Some _) \<Rightarrow> True | _ \<Rightarrow> False)"

text \<open>\<^verbatim>\<open>ok || err != nil\<close>.\<close>

definition looksEncrypted :: "unicode \<Rightarrow> bytes \<Rightarrow> bool" where
  "looksEncrypted U v \<longleftrightarrow> (case Parse U v of Inr None \<Rightarrow> False | _ \<Rightarrow> True)"

definition encrypting :: "Cipher \<Rightarrow> unicode \<Rightarrow> bytes \<Rightarrow> ParamRule \<Rightarrow> bytes \<Rightarrow> string result" where
  "encrypting c U rnd pr value =
     (let plaintext = (if LowercaseNormalize (prRule pr) then NormalizeLowercase U value else value) in
      Encrypt c rnd (ruleScheme (prRule pr)) plaintext (AAD U (prTable pr) (prColumn pr)))"

definition paramContext :: "ParamRule \<Rightarrow> string" where
  "paramContext pr = ''$'' @ showInt (prParam pr) @ '' ('' @ prTable pr @ ''.'' @ prColumn pr @ '')''"

definition doubleEncryptionErr :: "ParamRule \<Rightarrow> goerror" where
  "doubleEncryptionErr pr = errorsNew (''wire: refusing to encrypt '' @ paramContext pr
     @ '': value already carries a ciphertext envelope (double-encryption; a leaked ciphertext written back)'')"

text \<open>
  \<open>c\<close> is the session's cipher, which \<^verbatim>\<open>EncryptBind\<close> has checked. The draw
  of a nonce is counted for both schemes; the deterministic primitive ignores it.
\<close>

definition encryptParam ::
  "env \<Rightarrow> Cipher \<Rightarrow> ParamRule \<Rightarrow> Session \<times> BindMsg \<Rightarrow> (Session \<times> BindMsg) \<times> goerror option" where
  "encryptParam E c pr sb =
     (let (s, b) = sb; U = envUnicode E in
      if \<not> inRange (prParam pr) (bmParameters b) then (sb, Some (paramErr (prParam pr)))
      else case bmParameters b ! slot (prParam pr) of
          None \<Rightarrow> (sb, None)
        | Some value \<Rightarrow>
          if isEnvelope U value then (sb, Some (doubleEncryptionErr pr))
          else let s1 = s\<lparr>drawn := Suc (drawn s)\<rparr> in
            (case encrypting c U (envRand E (drawn s)) pr value of
               Inl err \<Rightarrow> ((s1, b), Some (wrapErr (''wire: encrypt '' @ paramContext pr @ '': '') err []))
             | Inr stored \<Rightarrow>
                 ((s1\<lparr>metrics := (metrics s1)\<lparr>EncryptTotal :=
                       Inc (prTable pr, prColumn pr) (EncryptTotal (metrics s1))\<rparr>\<rparr>,
                   setParam (prParam pr) (Some stored) b), None)))"

section \<open>LIKE patterns\<close>

fun hasLikeWildcards :: "bytes \<Rightarrow> bool" where
  "hasLikeWildcards [] = False"
| "hasLikeWildcards [c] = (c = CHR ''%'' \<or> c = CHR ''_'')"
| "hasLikeWildcards (c # d # cs) =
     (if c = CHR 0x5C then hasLikeWildcards cs
      else if c = CHR ''%'' \<or> c = CHR ''_'' then True
      else hasLikeWildcards (d # cs))"

definition stripLeading :: "bytes \<Rightarrow> bytes" where
  "stripLeading p = (if p \<noteq> [] \<and> hd p = CHR ''%'' then tl p else p)"

definition stripTrailing :: "bytes \<Rightarrow> bytes" where
  "stripTrailing p =
     (if p \<noteq> [] \<and> last p = CHR ''%'' \<and> (length p < 2 \<or> p ! (length p - 2) \<noteq> CHR 0x5C)
      then butlast p else p)"

definition stripOuterWildcards :: "bytes \<Rightarrow> bytes" where
  "stripOuterWildcards p = stripTrailing (stripLeading p)"

definition encryptLikeParam ::
  "env \<Rightarrow> Cipher \<Rightarrow> ParamRule \<Rightarrow> Session \<times> BindMsg \<Rightarrow> (Session \<times> BindMsg) \<times> goerror option" where
  "encryptLikeParam E c pr sb =
     (let b = snd sb in
      if \<not> inRange (prParam pr) (bmParameters b) then (sb, Some (paramErr (prParam pr)))
      else case bmParameters b ! slot (prParam pr) of
          None \<Rightarrow> (sb, None)
        | Some value \<Rightarrow> if hasLikeWildcards value then (sb, None) else encryptParam E c pr sb)"

definition applyAttributeCondition ::
  "env \<Rightarrow> Cipher \<Rightarrow> AttributeCondition \<Rightarrow> Session \<times> BindMsg \<Rightarrow> (Session \<times> BindMsg) \<times> goerror option" where
  "applyAttributeCondition E c cond sb =
     (let match = (case paramValue (snd sb) (acNameParam cond) of
                     None \<Rightarrow> False | Some name \<Rightarrow> HasPrefix name (acPrefix cond)) in
      forE (\<lambda>pr sb'. if match then encryptParam E c pr sb'
                     else ((fst sb', escapeParam (prParam pr) (snd sb')), None))
        (acValueParams cond) sb)"

section \<open>Blind index\<close>

definition hashValue :: "unicode \<Rightarrow> BlindIndex \<Rightarrow> string \<Rightarrow> string \<Rightarrow> bytes \<Rightarrow> string result" where
  "hashValue U bi table column value =
     Compute bi (NormalizeLowercase U value) (AAD U table column)"

definition hashBlindIndexParam ::
  "env \<Rightarrow> Cipher \<Rightarrow> BlindIndexFilter \<Rightarrow> Session \<times> BindMsg \<Rightarrow> (Session \<times> BindMsg) \<times> goerror option" where
  "hashBlindIndexParam E c f sb =
     (let (s, b) = sb; U = envUnicode E in
      if \<not> inRange (bfParam f) (bmParameters b) then (sb, Some (paramErr (bfParam f)))
      else case bmParameters b ! slot (bfParam f) of
          None \<Rightarrow> (sb, None)
        | Some value \<Rightarrow>
          let plaintext = stripOuterWildcards value in
          if hasLikeWildcards plaintext then (sb, None)
          else (case CipherBlindIndex c of
              None \<Rightarrow> (sb, Some (errorsNew (''wire: blind index requested for '' @ bfTable f @ ''.''
                          @ bfColumn f @ '' but cipher has no key'')))
            | Some bi \<Rightarrow>
              (case hashValue U bi (bfTable f) (bfColumn f) plaintext of
                 Inl err \<Rightarrow> (sb, Some (wrapErr (''wire: blind index $'' @ showInt (bfParam f) @ '': '') err []))
               | Inr hash \<Rightarrow> ((s, setParam (bfParam f) (Some hash) b), None))))"

text \<open>Growing the parameter slice: a new array, or a re-slice of the old one.\<close>

definition growParams :: "nat \<Rightarrow> BindMsg \<Rightarrow> BindMsg" where
  "growParams maxNew b =
     (let ps = bmParameters b; spare = bmSpare b in
      if length ps + length spare < maxNew
      then b\<lparr>bmParameters := ps @ replicate (maxNew - length ps) None, bmSpare := []\<rparr>
      else if length ps < maxNew
      then b\<lparr>bmParameters := ps @ take (maxNew - length ps) spare,
             bmSpare := drop (maxNew - length ps) spare\<rparr>
      else b)"

definition appendHash ::
  "env \<Rightarrow> BlindIndex \<Rightarrow> BlindIndexWrite \<Rightarrow> BindMsg \<Rightarrow> BindMsg \<times> goerror option" where
  "appendHash E bi w b =
     (let U = envUnicode E; ps = bmParameters b in
      if \<not> inRange (bwSourceParam w) ps \<or> \<not> inRange (bwNewParam w) ps
      then (b, Some (errorsNew (''wire: blind-index params out of range (source=$''
               @ showInt (bwSourceParam w) @ '', dest=$'' @ showInt (bwNewParam w) @ '')'')))
      else case ps ! slot (bwSourceParam w) of
          None \<Rightarrow> (setParam (bwNewParam w) None b, None)
        | Some value \<Rightarrow>
          (case hashValue U bi (bwTable w) (bwColumn w) value of
             Inl err \<Rightarrow> (b, Some (wrapErr (''wire: blind index for '' @ bwTable w @ ''.'' @ bwColumn w @ '': '') err []))
           | Inr hash \<Rightarrow> (setParam (bwNewParam w) (Some hash) b, None)))"

definition maxNewParam :: "BlindIndexWrite list \<Rightarrow> int" where
  "maxNewParam writes =
     foldl (\<lambda>maxNew w. if bwNewParam w > maxNew then bwNewParam w else maxNew) 0 writes"

definition extendFormats :: "nat \<Rightarrow> BindMsg \<Rightarrow> BindMsg" where
  "extendFormats maxNew b =
     (let fs = ParameterFormatCodes b in
      if length fs > 1 then b\<lparr>ParameterFormatCodes := fs @ replicate (maxNew - length fs) 0\<rparr> else b)"

definition appendBlindIndexWrites ::
  "env \<Rightarrow> Cipher \<Rightarrow> BlindIndexWrite list \<Rightarrow> BindMsg \<Rightarrow> BindMsg \<times> goerror option" where
  "appendBlindIndexWrites E c writes b =
     (if writes = [] then (b, None)
      else (case CipherBlindIndex c of
          None \<Rightarrow> (b, Some (errorsNew ''wire: blind-index write requested but cipher has no key''))
        | Some bi \<Rightarrow>
          let maxNew = nat (maxNewParam writes) in
          thenE (forE (appendHash E bi) writes (growParams maxNew b)) (\<lambda>b1.
            (extendFormats maxNew b1, None))))"

section \<open>Bind\<close>

definition transformBind ::
  "env \<Rightarrow> Cipher \<Rightarrow> WritePlan \<Rightarrow> Session \<times> BindMsg \<Rightarrow> (Session \<times> BindMsg) \<times> goerror option" where
  "transformBind E c plan sb =
     (let (b1, err) = appendBlindIndexWrites E c (BlindIndexWrites plan) (snd sb) in
      thenE ((fst sb, b1), err) (\<lambda>sb.
      thenE (forE (encryptParam E c) (wpParams plan) sb) (\<lambda>sb.
      thenE (forE (applyAttributeCondition E c) (AttributeConditions plan) sb) (\<lambda>sb.
      thenE (forE (encryptLikeParam E c) (LikeParams plan) sb) (\<lambda>sb.
      forE (hashBlindIndexParam E c) (BlindIndexFilters plan) sb)))))"

definition EncryptBind ::
  "env \<Rightarrow> BindMsg \<Rightarrow> Session \<Rightarrow> (Session \<times> BindMsg) \<times> goerror option" where
  "EncryptBind E b s =
     (case statements s (bmStatement b) of
        None \<Rightarrow> ((s, b), None)
      | Some a \<Rightarrow>
        (case psWritePlan (stmtAt s a) of
           None \<Rightarrow> ((s, b), None)
         | Some plan \<Rightarrow>
             if WritePlan_IsEmpty plan then ((s, b), None)
             else (case cipher s of
                     None \<Rightarrow> ((s, b), Some errNoCipher)
                   | Some c \<Rightarrow> transformBind E c plan (s, b))))"

section \<open>DataRow\<close>

definition classifyErr :: "goerror \<Rightarrow> string" where
  "classifyErr err =
     (let msg = errText err in
      if strContains msg ''marker'' then ''marker''
      else if strContains msg ''key version'' then ''key-version''
      else if strContains msg ''authentication'' \<or> strContains msg ''tag'' then ''auth-tag''
      else ''other'')"

definition countPassthrough :: "string \<Rightarrow> Session \<Rightarrow> Session" where
  "countPassthrough reason s =
     s\<lparr>metrics := (metrics s)\<lparr>CiphertextPassthrough := Inc reason (CiphertextPassthrough (metrics s))\<rparr>\<rparr>"

definition flagCiphertextLeak :: "env \<Rightarrow> string \<Rightarrow> bytes option list \<Rightarrow> Session \<Rightarrow> Session" where
  "flagCiphertextLeak E reason row s =
     (if list_ex (\<lambda>v. case v of None \<Rightarrow> False | Some x \<Rightarrow> looksEncrypted (envUnicode E) x) row
      then countPassthrough reason s else s)"

definition flagAmbiguousPassthrough :: "env \<Rightarrow> ReadField list \<Rightarrow> bytes option list \<Rightarrow> Session \<Rightarrow> Session" where
  "flagAmbiguousPassthrough E ambiguous row s =
     (if list_ex (\<lambda>f. rfIndex f < length row \<and>
           (case row ! rfIndex f of None \<Rightarrow> False | Some x \<Rightarrow> looksEncrypted (envUnicode E) x)) ambiguous
      then countPassthrough ''ambiguous-column'' s else s)"

definition decryptField ::
  "env \<Rightarrow> Cipher \<Rightarrow> ReadField \<Rightarrow> Session \<times> bytes option list \<Rightarrow> (Session \<times> bytes option list) \<times> goerror option" where
  "decryptField E c f sr =
     (let (s, row) = sr; U = envUnicode E; i = rfIndex f; label = (rfTable f, rfColumn f) in
      if \<not> i < length row then (sr, None)
      else case row ! i of
          None \<Rightarrow> (sr, None)
        | Some value \<Rightarrow>
          (case Decrypt U c value (AAD U (rfTable f) (rfColumn f)) of
             Inl err \<Rightarrow>
               ((s\<lparr>metrics := (metrics s)\<lparr>DecryptFailures :=
                    Inc (rfTable f, rfColumn f, classifyErr err) (DecryptFailures (metrics s))\<rparr>\<rparr>, row),
                Some (wrapErr (''wire: decrypt field '' @ showNat i @ '' ('' @ rfTable f @ ''.'' @ rfColumn f @ ''): '') err []))
           | Inr plaintext \<Rightarrow>
               let m = (metrics s)\<lparr>DecryptTotal := Inc label (DecryptTotal (metrics s))\<rparr>;
                   m' = (if isEnvelope U plaintext then m\<lparr>DoubleEncrypted := Inc label (DoubleEncrypted m)\<rparr> else m)
               in ((s\<lparr>metrics := m'\<rparr>, row[i := Some plaintext]), None)))"

definition DecryptDataRow ::
  "env \<Rightarrow> bytes option list \<Rightarrow> Session \<Rightarrow> (Session \<times> bytes option list) \<times> goerror option" where
  "DecryptDataRow E row s =
     (case CurrentExecuting s of
        None \<Rightarrow> ((flagCiphertextLeak E ''no-portal'' row s, row), None)
      | Some p \<Rightarrow>
        let (s1, rp) = ensureReadPlan E p s in
        (case rp of
           None \<Rightarrow> ((flagCiphertextLeak E ''no-plan'' row s1, row), None)
         | Some plan \<Rightarrow>
           if ReadPlan_IsEmpty plan then ((flagCiphertextLeak E ''empty-plan'' row s1, row), None)
           else let s2 = flagAmbiguousPassthrough E (Ambiguous plan) row s1 in
             if rpFields plan = [] then ((s2, row), None)
             else (case cipher s2 of
                     None \<Rightarrow> ((s2, row), Some errNoCipher)
                   | Some c \<Rightarrow> forE (decryptField E c) (rpFields plan) (s2, row))))"

end
