(* ===== verification/Relay.thy ===== *)
theory Relay
  imports Transform
begin

text \<open>
  \<^verbatim>\<open>internal/wire/relay.go\<close>: the message dispatch of both directions and the two
  pumps. The session lock makes each \<^verbatim>\<open>observe\<close> call atomic, so the concurrent
  pumps are an interleaving of whole calls: the step relation \<open>relayStep\<close>.
\<close>

section \<open>Messages\<close>

datatype FrontendMessage =
    FParse ParseMsg
  | FBind BindMsg
  | FDescribe char string
  | FExecute string
  | FSync
  | FQuery string
  | FClose char string
  | FTerminate
  | FOther string

datatype BackendMessage =
    BRowDescription "string list"
  | BNoData
  | BDataRow "bytes option list"
  | BCommandComplete
  | BPortalSuspended
  | BEmptyQueryResponse
  | BErrorResponse
  | BReadyForQuery
  | BOther string

definition observeFrontend ::
  "env \<Rightarrow> FrontendMessage \<Rightarrow> Session \<Rightarrow> (Session \<times> FrontendMessage) \<times> goerror option" where
  "observeFrontend E msg s =
     (case msg of
        FParse p \<Rightarrow> (let ((s', p'), err) = OnParse E p s in ((s', FParse p'), err))
      | FBind b \<Rightarrow> (let ((s', b'), err) = EncryptBind E b (OnBind b s) in ((s', FBind b'), err))
      | FDescribe t name \<Rightarrow> ((OnDescribe t name s, msg), None)
      | FExecute portal \<Rightarrow> ((OnExecute portal s, msg), None)
      | FSync \<Rightarrow> ((OnSync s, msg), None)
      | FQuery q \<Rightarrow> (let (s', err) = OnQuery E q s in ((s', msg), err))
      | FClose t name \<Rightarrow> ((OnClose t name s, msg), None)
      | _ \<Rightarrow> ((s, msg), None))"

definition observeBackend ::
  "env \<Rightarrow> BackendMessage \<Rightarrow> Session \<Rightarrow> (Session \<times> BackendMessage) \<times> goerror option" where
  "observeBackend E msg s =
     (case msg of
        BRowDescription columns \<Rightarrow> ((OnRowDescription E columns s, msg), None)
      | BNoData \<Rightarrow> ((OnNoData s, msg), None)
      | BDataRow row \<Rightarrow> (let ((s', row'), err) = DecryptDataRow E row s in ((s', BDataRow row'), err))
      | BCommandComplete \<Rightarrow> ((OnCommandComplete s, msg), None)
      | BPortalSuspended \<Rightarrow> ((OnPortalSuspended s, msg), None)
      | BEmptyQueryResponse \<Rightarrow> ((OnEmptyQueryResponse s, msg), None)
      | BErrorResponse \<Rightarrow> ((OnErrorResponse s, msg), None)
      | BReadyForQuery \<Rightarrow> ((OnReadyForQuery s, msg), None)
      | BOther t \<Rightarrow> ((s, msg), None))"

section \<open>Pumps\<close>

text \<open>
  One iteration of a pump: what \<^verbatim>\<open>Receive\<close> returned and what
  \<^verbatim>\<open>Send\<close> would return are the environment's choice. \<open>Stopped\<close> carries the
  pump's return value; \<open>Going\<close> is the next iteration.
\<close>

datatype pumpStatus = Going | Stopped "goerror option"

definition pumpClientStep ::
  "env \<Rightarrow> FrontendMessage result \<Rightarrow> goerror option \<Rightarrow> Session
   \<Rightarrow> Session \<times> FrontendMessage list \<times> pumpStatus" where
  "pumpClientStep E received sent s =
     (case received of
        Inl err \<Rightarrow> (s, [], Stopped (Some err))
      | Inr msg \<Rightarrow>
        (case observeFrontend E msg s of
           ((s', msg'), Some err) \<Rightarrow> (s', [], Stopped (Some err))
         | ((s', msg'), None) \<Rightarrow>
           (case sent of
              Some err \<Rightarrow> (s', [], Stopped (Some err))
            | None \<Rightarrow> (s', [msg'], if msg' = FTerminate then Stopped None else Going))))"

definition pumpBackendStep ::
  "env \<Rightarrow> BackendMessage result \<Rightarrow> goerror option \<Rightarrow> Session
   \<Rightarrow> Session \<times> BackendMessage list \<times> pumpStatus" where
  "pumpBackendStep E received sent s =
     (case received of
        Inl err \<Rightarrow> (s, [], Stopped (Some err))
      | Inr msg \<Rightarrow>
        (case observeBackend E msg s of
           ((s', msg'), Some err) \<Rightarrow> (s', [], Stopped (Some err))
         | ((s', msg'), None) \<Rightarrow>
           (case sent of
              Some err \<Rightarrow> (s', [], Stopped (Some err))
            | None \<Rightarrow> (s', [msg'], Going))))"

text \<open>The pump loops over a finite prefix of what the peer sends.\<close>

fun pumpClientToBackend ::
  "env \<Rightarrow> (FrontendMessage result \<times> goerror option) list \<Rightarrow> Session
   \<Rightarrow> Session \<times> FrontendMessage list \<times> pumpStatus" where
  "pumpClientToBackend E [] s = (s, [], Going)"
| "pumpClientToBackend E ((received, sent) # evs) s =
     (case pumpClientStep E received sent s of
        (s1, out, Stopped r) \<Rightarrow> (s1, out, Stopped r)
      | (s1, out, Going) \<Rightarrow>
          (let (s2, out', st) = pumpClientToBackend E evs s1 in (s2, out @ out', st)))"

fun pumpBackendToClient ::
  "env \<Rightarrow> (BackendMessage result \<times> goerror option) list \<Rightarrow> Session
   \<Rightarrow> Session \<times> BackendMessage list \<times> pumpStatus" where
  "pumpBackendToClient E [] s = (s, [], Going)"
| "pumpBackendToClient E ((received, sent) # evs) s =
     (case pumpBackendStep E received sent s of
        (s1, out, Stopped r) \<Rightarrow> (s1, out, Stopped r)
      | (s1, out, Going) \<Rightarrow>
          (let (s2, out', st) = pumpBackendToClient E evs s1 in (s2, out @ out', st)))"

text \<open>
  The relay: both pumps on one session. \<^verbatim>\<open>Relay\<close> itself returns the first
  value either pump delivers; the other pump runs on until its connection is closed.
\<close>

record relayState =
  rlSession :: Session
  rlToBackend :: "FrontendMessage list"
  rlToClient :: "BackendMessage list"
  rlClientPump :: pumpStatus
  rlBackendPump :: pumpStatus
  rlResult :: "goerror option option"

definition startRelay :: "Session \<Rightarrow> relayState" where
  "startRelay s = \<lparr>rlSession = s, rlToBackend = [], rlToClient = [], rlClientPump = Going,
     rlBackendPump = Going, rlResult = None\<rparr>"

definition deliver :: "pumpStatus \<Rightarrow> goerror option option \<Rightarrow> goerror option option" where
  "deliver st r = (case (r, st) of (None, Stopped e) \<Rightarrow> Some e | _ \<Rightarrow> r)"

inductive relayStep :: "env \<Rightarrow> relayState \<Rightarrow> relayState \<Rightarrow> bool" for E where
  client: "rlClientPump r = Going \<Longrightarrow> pumpClientStep E received sent (rlSession r) = (s', out, st) \<Longrightarrow>
     relayStep E r (r\<lparr>rlSession := s', rlToBackend := rlToBackend r @ out, rlClientPump := st,
       rlResult := deliver st (rlResult r)\<rparr>)"
| backend: "rlBackendPump r = Going \<Longrightarrow> pumpBackendStep E received sent (rlSession r) = (s', out, st) \<Longrightarrow>
     relayStep E r (r\<lparr>rlSession := s', rlToClient := rlToClient r @ out, rlBackendPump := st,
       rlResult := deliver st (rlResult r)\<rparr>)"

inductive relayReach :: "env \<Rightarrow> Session \<Rightarrow> relayState \<Rightarrow> bool" for E s0 where
  start: "relayReach E s0 (startRelay s0)"
| step: "relayReach E s0 r \<Longrightarrow> relayStep E r r' \<Longrightarrow> relayReach E s0 r'"

end
