(* ===== verification/SessionInv.thy ===== *)
theory SessionInv
  imports Relay
begin

text \<open>
  The invariant of a session: every pointer is valid, the two queues hold the same number
  of sync boundaries, and a portal's read plan was computed from the analysis of the
  statement the portal is bound to. Every handler keeps it, so it holds in every state the
  two pumps can reach in any interleaving.
\<close>

section \<open>The invariant\<close>

definition validStmt :: "Session \<Rightarrow> stmtAddr option \<Rightarrow> bool" where
  "validStmt s a \<longleftrightarrow> (\<forall>x. a = Some x \<longrightarrow> x < length (stmtHeap s))"

definition validPortal :: "Session \<Rightarrow> portalAddr option \<Rightarrow> bool" where
  "validPortal s p \<longleftrightarrow> (\<forall>x. p = Some x \<longrightarrow> x < length (portalHeap s))"

definition wfNames :: "Session \<Rightarrow> bool" where
  "wfNames s \<longleftrightarrow> (\<forall>n. validStmt s (statements s n)) \<and> (\<forall>n. validPortal s (portals s n))"

definition wfEntry :: "Session \<Rightarrow> execEntry \<Rightarrow> bool" where
  "wfEntry s e \<longleftrightarrow> (\<forall>p. e = Executing p \<longrightarrow> p < length (portalHeap s))"

definition wfDescribe :: "Session \<Rightarrow> pendingDescribe \<Rightarrow> bool" where
  "wfDescribe s d \<longleftrightarrow> validStmt s (pdStmt d) \<and> validPortal s (pdPortal d)
     \<and> (\<forall>p. pdPortal d = Some p \<longrightarrow> pdStmt d = poStmt (portalAt s p))"

definition wfQueues :: "Session \<Rightarrow> bool" where
  "wfQueues s \<longleftrightarrow> list_all (wfEntry s) (execQueue s) \<and> list_all (wfDescribe s) (describes s)"

definition balanced :: "Session \<Rightarrow> bool" where
  "balanced s \<longleftrightarrow>
     length (filter (\<lambda>e. e = syncBoundary) (execQueue s)) = length (filter boundary (describes s))"

text \<open>A portal's plan is the read plan of its statement, for some result columns.\<close>

definition planFor :: "env \<Rightarrow> Session \<Rightarrow> Portal \<Rightarrow> bool" where
  "planFor E s po \<longleftrightarrow>
     (\<forall>plan. poReadPlan po = Some plan \<longrightarrow>
        (\<exists>a cols. poStmt po = Some a \<and> planRead E s (stmtAt s a) cols = Some plan))"

definition wfHeap :: "env \<Rightarrow> Session \<Rightarrow> bool" where
  "wfHeap E s \<longleftrightarrow> list_all (\<lambda>po. validStmt s (poStmt po) \<and> planFor E s po) (portalHeap s)"

definition wfSession :: "env \<Rightarrow> Session \<Rightarrow> bool" where
  "wfSession E s \<longleftrightarrow> wfNames s \<and> wfQueues s \<and> balanced s \<and> wfHeap E s"

lemmas wf_defs = wfSession_def wfNames_def wfQueues_def wfHeap_def validStmt_def validPortal_def
  wfEntry_def wfDescribe_def list_all_iff

lemma validStmt_None [simp]: "validStmt s None" and validPortal_None [simp]: "validPortal s None"
  by (simp_all add: validStmt_def validPortal_def)

lemma NewSession_wf: "wfSession E (NewSession p c rnd m)"
  by (simp add: NewSession_def wf_defs balanced_def)

section \<open>Framing\<close>

text \<open>
  Handlers change a session in one of three ways: they shorten the queues, they extend the
  heaps, or they update a cell in place. \<open>sameHeap\<close> and \<open>grows\<close> say what each leaves.
\<close>

definition grows :: "Session \<Rightarrow> Session \<Rightarrow> bool" where
  "grows s s' \<longleftrightarrow>
     planner s' = planner s
     \<and> length (stmtHeap s) \<le> length (stmtHeap s') \<and> length (portalHeap s) \<le> length (portalHeap s')
     \<and> (\<forall>a < length (stmtHeap s). psAnalysis (stmtAt s' a) = psAnalysis (stmtAt s a))
     \<and> (\<forall>p < length (portalHeap s). poStmt (portalAt s' p) = poStmt (portalAt s p))"

lemma grows_refl [simp]: "grows s s"
  by (simp add: grows_def)

lemma grows_trans: "grows s t \<Longrightarrow> grows t u \<Longrightarrow> grows s u"
  by (auto simp: grows_def)

lemma grows_valid:
  assumes "grows s s'"
  shows "validStmt s a \<Longrightarrow> validStmt s' a" "validPortal s p \<Longrightarrow> validPortal s' p"
    "wfEntry s e \<Longrightarrow> wfEntry s' e" "wfDescribe s d \<Longrightarrow> wfDescribe s' d"
  using assms
  by (auto simp: grows_def validStmt_def validPortal_def wfEntry_def wfDescribe_def
      split: option.splits execEntry.splits)

lemma grows_planFor:
  assumes "grows s s'" "validStmt s (poStmt po)" "planFor E s po"
  shows "planFor E s' po"
  using assms by (fastforce simp: grows_def planFor_def planRead_def validStmt_def)

lemma frame_heaps:
  assumes "stmtHeap s' = stmtHeap s" "portalHeap s' = portalHeap s" "planner s' = planner s"
  shows "validStmt s' = validStmt s" "validPortal s' = validPortal s" "wfEntry s' = wfEntry s"
    "wfDescribe s' = wfDescribe s" "planFor E s' = planFor E s"
  using assms
  by (simp_all add: fun_eq_iff validStmt_def validPortal_def wfEntry_def wfDescribe_def planFor_def
      planRead_def stmtAt_def portalAt_def)

lemmas wf_parts = wfSession_def wfNames_def wfQueues_def balanced_def wfHeap_def

lemma wfSession_ghost [simp]:
  "wfSession E (s\<lparr>metrics := m\<rparr>) = wfSession E s"
  "wfSession E (s\<lparr>drawn := n\<rparr>) = wfSession E s"
  using frame_heaps [of "s\<lparr>metrics := m\<rparr>" s] frame_heaps [of "s\<lparr>drawn := n\<rparr>" s]
  by (simp_all add: wf_parts)

lemma wfSession_queues:
  assumes "wfSession E s" "list_all (wfEntry s) q" "list_all (wfDescribe s) d"
    "length (filter (\<lambda>e. e = syncBoundary) q) = length (filter boundary d)"
  shows "wfSession E (s\<lparr>execQueue := q, describes := d\<rparr>)"
  using assms frame_heaps [of "s\<lparr>execQueue := q, describes := d\<rparr>" s] by (simp add: wf_parts)

lemma wfSession_execQueue:
  assumes "wfSession E s" "list_all (wfEntry s) q"
    "length (filter (\<lambda>e. e = syncBoundary) q) = length (filter (\<lambda>e. e = syncBoundary) (execQueue s))"
  shows "wfSession E (s\<lparr>execQueue := q\<rparr>)"
  using wfSession_queues [of E s q "describes s"] assms by (simp add: wf_parts)

lemma wfSession_describes:
  assumes "wfSession E s" "list_all (wfDescribe s) d" "length (filter boundary d) = length (filter boundary (describes s))"
  shows "wfSession E (s\<lparr>describes := d\<rparr>)"
  using wfSession_queues [of E s "execQueue s" d] assms by (simp add: wf_parts)

lemma wfSession_names:
  assumes "wfSession E s" "\<And>n. validStmt s (st n)" "\<And>n. validPortal s (po n)"
  shows "wfSession E (s\<lparr>statements := st, portals := po\<rparr>)"
  using assms frame_heaps [of "s\<lparr>statements := st, portals := po\<rparr>" s] by (simp add: wf_parts)

lemma wf_portal:
  "wfSession E s \<Longrightarrow> i < length (portalHeap s) \<Longrightarrow>
   validStmt s (poStmt (portalAt s i)) \<and> planFor E s (portalAt s i)"
  by (auto simp: wf_parts list_all_iff portalAt_def)

lemma wf_names:
  "wfSession E s \<Longrightarrow> validStmt s (statements s n)" "wfSession E s \<Longrightarrow> validPortal s (portals s n)"
  by (auto simp: wf_parts)

text \<open>
  A change of the heaps alone: a portal cell is untouched, or it again points to a valid
  statement and has a plan computed from it.
\<close>

lemma wfSession_heaps:
  assumes wf: "wfSession E s" and g: "grows s s'"
    and eqs: "statements s' = statements s" "portals s' = portals s" "execQueue s' = execQueue s" "describes s' = describes s"
    and p: "\<And>i. i < length (portalHeap s') \<Longrightarrow> i < length (portalHeap s) \<and> portalAt s' i = portalAt s i \<or>
      validStmt s' (poStmt (portalAt s' i)) \<and> planFor E s' (portalAt s' i)"
  shows "wfSession E s'"
proof -
  have "validStmt s' (poStmt (portalAt s' i)) \<and> planFor E s' (portalAt s' i)" if "i < length (portalHeap s')" for i
    using p [OF that] wf_portal [OF wf, of i] grows_valid(1) [OF g] grows_planFor [OF g] by metis
  then have "wfHeap E s'" by (auto simp: wfHeap_def list_all_iff in_set_conv_nth portalAt_def)
  moreover have "wfNames s'"
    using wf by (auto simp: wf_parts eqs intro: grows_valid [OF g])
  moreover have "wfQueues s'" "balanced s'"
    using wf by (auto simp: wf_parts eqs list_all_iff intro: grows_valid [OF g])
  ultimately show ?thesis by (simp add: wfSession_def)
qed

lemma allocStmt_grows: "grows s (allocStmt ps s)"
  by (simp add: grows_def allocStmt_def stmtAt_def portalAt_def nth_append)

lemma allocPortal_grows: "grows s (allocPortal po s)"
  by (simp add: grows_def allocPortal_def stmtAt_def portalAt_def nth_append)

lemma allocStmt_wf: "wfSession E s \<Longrightarrow> wfSession E (allocStmt ps s)"
  by (erule wfSession_heaps [OF _ allocStmt_grows]) (simp_all add: allocStmt_def portalAt_def)

lemma allocPortal_wf:
  assumes "wfSession E s" "validStmt s (poStmt po)" "poReadPlan po = None"
  shows "wfSession E (allocPortal po s)"
proof (rule wfSession_heaps [OF assms(1) allocPortal_grows])
  fix i assume "i < length (portalHeap (allocPortal po s))"
  then consider "i < length (portalHeap s)" | "portalAt (allocPortal po s) i = po"
    by (auto simp: allocPortal_def portalAt_def less_Suc_eq)
  then show "i < length (portalHeap s) \<and> portalAt (allocPortal po s) i = portalAt s i \<or>
      validStmt (allocPortal po s) (poStmt (portalAt (allocPortal po s) i))
      \<and> planFor E (allocPortal po s) (portalAt (allocPortal po s) i)"
    using assms(2,3) grows_valid(1) [OF allocPortal_grows, of s "poStmt po" po]
    by cases (simp_all add: planFor_def, simp add: allocPortal_def portalAt_def nth_append)
qed (simp_all add: allocPortal_def)

lemma setStmt_wf:
  assumes "wfSession E s" "psAnalysis ps = psAnalysis (stmtAt s a)"
  shows "wfSession E (setStmt a ps s)"
proof -
  have g: "grows s (setStmt a ps s)"
    using assms(2) by (simp add: grows_def setStmt_def stmtAt_def portalAt_def nth_update_if split: if_split)
  show ?thesis
    using assms(1) g by (rule wfSession_heaps) (simp_all add: setStmt_def portalAt_def)
qed

lemma setReadPlan_wf:
  assumes wf: "wfSession E s" and a: "poStmt (portalAt s p) = Some a"
    and rp: "rp = planRead E s (stmtAt s a) cols"
  shows "wfSession E (setReadPlan p rp s)"
proof -
  have g: "grows s (setReadPlan p rp s)"
    by (simp add: grows_def setReadPlan_def setPortal_def stmtAt_def portalAt_def nth_update_if)
  show ?thesis
  proof (rule wfSession_heaps [OF wf g])
    fix i assume "i < length (portalHeap (setReadPlan p rp s))"
    then have i: "i < length (portalHeap s)" by (simp add: setReadPlan_def setPortal_def)
    have at: "portalAt (setReadPlan p rp s) i =
        (if i = p then (portalAt s p)\<lparr>poReadPlan := rp\<rparr> else portalAt s i)"
      using i by (simp add: setReadPlan_def setPortal_def portalAt_def nth_list_update)
    have "planRead E (setReadPlan p rp s) (stmtAt (setReadPlan p rp s) a) cols = rp"
      by (simp add: rp planRead_def setReadPlan_def setPortal_def stmtAt_def)
    then show "i < length (portalHeap s) \<and> portalAt (setReadPlan p rp s) i = portalAt s i \<or>
        validStmt (setReadPlan p rp s) (poStmt (portalAt (setReadPlan p rp s) i))
        \<and> planFor E (setReadPlan p rp s) (portalAt (setReadPlan p rp s) i)"
      using i wf_portal [OF wf i] a grows_valid(1) [OF g, of "Some a"]
      by (auto simp: at planFor_def)
  qed (simp_all add: setReadPlan_def setPortal_def)
qed

section \<open>Queues with sync boundaries\<close>

text \<open>
  Both queues obey the same discipline: an error drops the entries before the first
  boundary, and a ReadyForQuery also removes that boundary.
\<close>

locale boundary_queue =
  fixes isB :: "'e \<Rightarrow> bool"
    and dropBatch :: "'e list \<Rightarrow> 'e list"
    and closeBatch :: "'e list \<Rightarrow> 'e list"
  assumes dropBatch_Nil: "dropBatch [] = []"
    and dropBatch_Cons: "dropBatch (e # q) = (if isB e then e # q else dropBatch q)"
    and closeBatch_tl: "closeBatch q = tl (dropBatch q)"
begin

lemma dropBatch_dropWhile: "dropBatch q = dropWhile (\<lambda>e. \<not> isB e) q"
  by (induction q) (simp_all add: dropBatch_Nil dropBatch_Cons)

lemma dropBatch_split:
  "list_all (\<lambda>e. \<not> isB e) batch \<Longrightarrow> isB b \<Longrightarrow> dropBatch (batch @ b # later) = b # later"
  by (induction batch) (simp_all add: dropBatch_Cons)

lemma closeBatch_split:
  "list_all (\<lambda>e. \<not> isB e) batch \<Longrightarrow> isB b \<Longrightarrow> closeBatch (batch @ b # later) = later"
  by (simp add: closeBatch_tl dropBatch_split)

lemma dropBatch_set: "set (dropBatch q) \<subseteq> set q"
  by (auto simp: dropBatch_dropWhile dest: set_dropWhileD)

lemma closeBatch_set: "set (closeBatch q) \<subseteq> set q"
  using dropBatch_set [of q] by (cases "dropBatch q") (auto simp: closeBatch_tl)

lemma dropBatch_boundaries: "filter isB (dropBatch q) = filter isB q"
  by (induction q) (simp_all add: dropBatch_Nil dropBatch_Cons)

lemma closeBatch_boundaries: "filter isB (closeBatch q) = tl (filter isB q)"
proof (induction q)
  case (Cons e q)
  then show ?case by (cases "isB e") (simp_all add: closeBatch_tl dropBatch_Cons)
qed (simp add: closeBatch_tl dropBatch_Nil)

lemma list_all_kept: "list_all P q \<Longrightarrow> list_all P (dropBatch q) \<and> list_all P (closeBatch q)"
  using dropBatch_set [of q] closeBatch_set [of q] unfolding list_all_iff by blast

end

lemma closeExecs_tl: "closeExecs q = tl (dropExecs q)"
  by (induction q rule: dropExecs.induct) simp_all

lemma closeDescribes_tl: "closeDescribes q = tl (dropDescribes q)"
  by (induction q rule: dropDescribes.induct) simp_all

interpretation execq: boundary_queue "\<lambda>e. e = syncBoundary" dropExecs closeExecs
proof
  show "dropExecs (e # q) = (if e = syncBoundary then e # q else dropExecs q)" for e q
    by (cases e) simp_all
qed (simp_all add: closeExecs_tl)

interpretation descq: boundary_queue boundary dropDescribes closeDescribes
  by unfold_locales (simp_all add: closeDescribes_tl)

section \<open>Every handler keeps the invariant\<close>

lemma wf_queues:
  "wfSession E s \<Longrightarrow> list_all (wfEntry s) (execQueue s)" "wfSession E s \<Longrightarrow> list_all (wfDescribe s) (describes s)"
  "wfSession E s \<Longrightarrow> length (filter (\<lambda>e. e = syncBoundary) (execQueue s)) = length (filter boundary (describes s))"
  by (simp_all add: wf_parts)

lemma OnParse_wf:
  assumes wf: "wfSession E s"
  shows "wfSession E (fst (fst (OnParse E p s)))"
proof (cases "prepare E (planner s) p")
  case (Inl e)
  then show ?thesis using wf by (simp add: OnParse_def)
next
  case (Inr ps)
  let ?s = "allocStmt ps s"
  have wf': "wfSession E ?s" using wf by (rule allocStmt_wf)
  have "wfSession E (?s\<lparr>statements := (statements s)(pmName p \<mapsto> length (stmtHeap s)), portals := portals ?s\<rparr>)"
    using wf_names(1) [OF wf', unfolded validStmt_def] wf_names(2) [OF wf']
    by (intro wfSession_names [OF wf']) (auto simp: validStmt_def allocStmt_def)
  then show ?thesis using Inr by (simp add: OnParse_def)
qed

lemma OnBind_wf:
  assumes wf: "wfSession E s"
  shows "wfSession E (OnBind b s)"
proof -
  let ?po = "\<lparr>poName = DestinationPortal b, poStmt = statements s (bmStatement b),
        ParameterFormats = ParameterFormatCodes b, ResultFormats = ResultFormatCodes b, poReadPlan = None\<rparr>"
  let ?s = "allocPortal ?po s"
  have wf': "wfSession E ?s" using wf wf_names(1) [OF wf] by (intro allocPortal_wf) simp_all
  have "wfSession E (?s\<lparr>statements := statements ?s, portals := (portals s)(DestinationPortal b \<mapsto> length (portalHeap s))\<rparr>)"
    using wf_names(2) [OF wf', unfolded validPortal_def] wf_names(1) [OF wf']
    by (intro wfSession_names [OF wf']) (auto simp: validPortal_def allocPortal_def)
  then show ?thesis by (simp add: OnBind_def)
qed

lemma OnExecute_wf:
  assumes "wfSession E s"
  shows "wfSession E (OnExecute portal s)"
  using assms wf_queues(1) [OF assms] wf_names(2) [OF assms, of portal]
  by (auto simp: OnExecute_def wfEntry_def validPortal_def split: option.split
      intro!: wfSession_execQueue)

lemma OnDescribe_wf:
  assumes "wfSession E s"
  shows "wfSession E (OnDescribe t name s)"
proof -
  have "wfDescribe s (describeEntry t name s)"
    using wf_names [OF assms, of name] wf_portal [OF assms]
    by (auto simp: describeEntry_def wfDescribe_def validPortal_def split: option.split)
  moreover have "\<not> boundary (describeEntry t name s)"
    by (simp add: describeEntry_def split: option.split)
  ultimately show ?thesis
    using assms wf_queues(2) [OF assms] by (simp add: OnDescribe_def wfSession_describes)
qed

lemma OnSync_wf: "wfSession E s \<Longrightarrow> wfSession E (OnSync s)"
  using wf_queues [of E s]
  by (simp add: OnSync_def wfSession_queues wfEntry_def wfDescribe_def boundaryDescribe_def)

lemma enqueueSimple_wf:
  assumes wf: "wfSession E s"
  shows "wfSession E (enqueueSimple ps s)"
proof -
  let ?po = "\<lparr>poName = simplePortalName, poStmt = Some (length (stmtHeap s)),
                 ParameterFormats = [], ResultFormats = [], poReadPlan = None\<rparr>"
  let ?s = "allocPortal ?po (allocStmt ps s)"
  have wf': "wfSession E ?s"
    using allocStmt_wf [OF wf] by (intro allocPortal_wf) (simp_all add: validStmt_def allocStmt_def)
  show ?thesis
    unfolding enqueueSimple_def Let_def
    using wf_queues(1) [OF wf']
    by (intro wfSession_execQueue [OF wf']) (simp_all add: wfEntry_def allocPortal_def allocStmt_def)
qed

lemma querySimple_wf: "wfSession E s \<Longrightarrow> wfSession E (fst (querySimple E a s))"
  by (simp add: querySimple_def enqueueSimple_wf split: sum.split)

lemma OnQuery_wf:
  assumes "wfSession E s"
  shows "wfSession E (fst (OnQuery E q s))"
proof (cases "AnalyzeAll (envUnicode E) (envParser E) q")
  case (Inl e)
  then show ?thesis using assms by (simp add: OnQuery_def OnSync_wf enqueueSimple_wf)
next
  case (Inr as)
  have "wfSession E (fst (forE (querySimple E) as s))"
    using assms by (rule forE_inv) (rule querySimple_wf)
  then have "wfSession E (fst (thenE (forE (querySimple E) as s) (\<lambda>s1. (OnSync s1, None))))"
    by (rule thenE_inv) (simp add: OnSync_wf)
  then show ?thesis
    using assms Inr by (cases as) (simp_all add: OnQuery_def OnSync_wf enqueueSimple_wf del: forE.simps)
qed

lemma OnClose_wf:
  assumes "wfSession E s"
  shows "wfSession E (OnClose t name s)"
proof -
  have "wfSession E (s\<lparr>statements := st, portals := portals s\<rparr>)" if "st = (statements s)(name := None)" for st
    using that wf_names [OF assms] by (intro wfSession_names [OF assms]) auto
  moreover have "wfSession E (s\<lparr>statements := statements s, portals := po\<rparr>)" if "po = (portals s)(name := None)" for po
    using that wf_names [OF assms] by (intro wfSession_names [OF assms]) auto
  ultimately show ?thesis using assms by (simp add: OnClose_def)
qed

lemma learnColumns_wf: "wfSession E s \<Longrightarrow> wfSession E (learnColumns E a columns s)"
  by (simp add: learnColumns_def setStmt_wf Let_def)

lemma learnColumns_portal [simp]: "portalAt (learnColumns E a columns s) p = portalAt s p"
  by (simp add: learnColumns_def setStmt_def portalAt_def Let_def)

lemma learnFor_wf:
  assumes "wfSession E s" "\<And>p. po = Some p \<Longrightarrow> poStmt (portalAt s p) = Some a"
  shows "wfSession E (learnFor E a po columns s)"
  using assms learnColumns_wf [OF assms(1)]
  by (auto simp: learnFor_def Let_def split: option.split intro!: setReadPlan_wf)

lemma popDescribe_wf:
  assumes "wfSession E s" "describes s \<noteq> []" "\<not> boundary (hd (describes s))"
  shows "wfSession E (popDescribe s)"
  using assms wf_queues(2) [OF assms(1)]
  by (cases "describes s") (auto simp: popDescribe_def intro!: wfSession_describes)

lemma OnNoData_wf: "wfSession E s \<Longrightarrow> wfSession E (OnNoData s)"
  by (simp add: OnNoData_def popDescribe_wf)

lemma popDescribe_portal [simp]: "portalAt (popDescribe s) p = portalAt s p"
  by (simp add: popDescribe_def portalAt_def)

lemma OnRowDescription_wf:
  assumes wf: "wfSession E s"
  shows "wfSession E (OnRowDescription E columns s)"
proof (cases "describes s \<noteq> [] \<and> \<not> boundary (hd (describes s))")
  case True
  then have "wfDescribe s (hd (describes s))"
    using wf_queues(2) [OF wf] by (simp add: list_all_iff)
  then show ?thesis
    using True popDescribe_wf [OF wf]
    by (auto simp: OnRowDescription_def wfDescribe_def Let_def split: option.split intro!: learnFor_wf)
next
  case False
  then show ?thesis
    using wf by (auto simp: OnRowDescription_def split: option.split intro!: learnFor_wf)
qed

lemma popExecuting_wf: "wfSession E s \<Longrightarrow> wfSession E (popExecuting s)"
  using wf_queues(1) [of E s]
  by (auto simp: popExecuting_def popExec_def split: list.split execEntry.split intro!: wfSession_execQueue)

lemma OnErrorResponse_wf:
  assumes "wfSession E s"
  shows "wfSession E (OnErrorResponse s)"
  unfolding OnErrorResponse_def
  using wf_queues [OF assms] execq.list_all_kept descq.list_all_kept
  by (intro wfSession_queues [OF assms]) (simp_all add: execq.dropBatch_boundaries descq.dropBatch_boundaries)

lemma OnReadyForQuery_wf:
  assumes "wfSession E s"
  shows "wfSession E (OnReadyForQuery s)"
  unfolding OnReadyForQuery_def
  using wf_queues [OF assms] execq.list_all_kept descq.list_all_kept
  by (intro wfSession_queues [OF assms]) (simp_all add: execq.closeBatch_boundaries descq.closeBatch_boundaries)

lemma ensureReadPlan_wf:
  assumes "wfSession E s"
  shows "wfSession E (fst (ensureReadPlan E p s))"
  using assms by (auto simp: ensureReadPlan_def Let_def split: option.split intro!: setReadPlan_wf)

section \<open>Transformations keep everything but the counters\<close>

text \<open>\<open>onlyCounts s s'\<close>: nothing but the counters and the number of nonces changed.\<close>

definition onlyCounts :: "Session \<Rightarrow> Session \<Rightarrow> bool" where
  "onlyCounts s s' \<longleftrightarrow> s' = s\<lparr>drawn := drawn s', metrics := metrics s'\<rparr>"

lemma onlyCounts_refl [simp]: "onlyCounts s s"
  by (simp add: onlyCounts_def)

lemma onlyCounts_trans: "onlyCounts s t \<Longrightarrow> onlyCounts t u \<Longrightarrow> onlyCounts s u"
  unfolding onlyCounts_def by (cases s; cases t; cases u) simp

lemma onlyCounts_upd [simp]: "onlyCounts s (s\<lparr>drawn := n\<rparr>)" "onlyCounts s (s\<lparr>metrics := m\<rparr>)"
  "onlyCounts s (s\<lparr>drawn := n, metrics := m\<rparr>)"
  by (simp_all add: onlyCounts_def)

lemma onlyCounts_wf: "onlyCounts s s' \<Longrightarrow> wfSession E s \<Longrightarrow> wfSession E s'"
  by (metis onlyCounts_def wfSession_ghost)

lemma encryptParam_only: "onlyCounts (fst sb) (fst (fst (encryptParam E c pr sb)))"
  by (cases sb) (simp add: encryptParam_def Let_def split: option.split sum.split)

lemma encryptLikeParam_only: "onlyCounts (fst sb) (fst (fst (encryptLikeParam E c pr sb)))"
  by (simp add: encryptLikeParam_def encryptParam_only Let_def split: option.split)

lemma hashBlindIndexParam_only: "onlyCounts (fst sb) (fst (fst (hashBlindIndexParam E c f sb)))"
  by (cases sb) (simp add: hashBlindIndexParam_def Let_def split: option.split sum.split)

lemma forE_only:
  assumes "\<And>x sb. onlyCounts (fst sb) (fst (fst (f x sb)))"
  shows "onlyCounts (fst sb) (fst (fst (forE f xs sb)))"
  by (rule forE_inv [where I = "\<lambda>sb'. onlyCounts (fst sb) (fst sb')"])
    (auto intro: onlyCounts_trans assms)

lemma thenE_only:
  assumes "onlyCounts s (fst (fst m))" "\<And>sb. onlyCounts (fst sb) (fst (fst (k sb)))"
  shows "onlyCounts s (fst (fst (thenE m k)))"
  by (rule thenE_inv [where I = "\<lambda>sb'. onlyCounts s (fst sb')"]) (auto intro: onlyCounts_trans assms)

lemma applyAttributeCondition_only:
  "onlyCounts (fst sb) (fst (fst (applyAttributeCondition E c cond sb)))"
  unfolding applyAttributeCondition_def Let_def
  by (rule forE_only) (simp add: encryptParam_only)

lemma transformBind_only: "onlyCounts (fst sb) (fst (fst (transformBind E c plan sb)))"
  unfolding transformBind_def Let_def split_beta
  by (intro thenE_only forE_only encryptParam_only applyAttributeCondition_only
      encryptLikeParam_only hashBlindIndexParam_only) simp

lemma EncryptBind_only: "onlyCounts s (fst (fst (EncryptBind E b s)))"
  using transformBind_only [of "(s, b)"] by (simp add: EncryptBind_def split: option.split)

lemma decryptField_only: "onlyCounts (fst sr) (fst (fst (decryptField E c f sr)))"
  by (cases sr) (simp add: decryptField_def Let_def split: option.split sum.split)

lemma flag_only:
  "onlyCounts s (flagCiphertextLeak E reason row s)" "onlyCounts s (flagAmbiguousPassthrough E amb row s)"
  by (simp_all add: flagCiphertextLeak_def flagAmbiguousPassthrough_def countPassthrough_def)

lemma DecryptDataRow_only:
  "onlyCounts (case CurrentExecuting s of None \<Rightarrow> s | Some p \<Rightarrow> fst (ensureReadPlan E p s))
     (fst (fst (DecryptDataRow E row s)))"
proof -
  have "onlyCounts s1 (fst (fst (forE (decryptField E c) fs (flagAmbiguousPassthrough E amb row s1, row))))"
    for s1 c fs amb
    using forE_only [where f = "decryptField E c" and xs = fs
        and sb = "(flagAmbiguousPassthrough E amb row s1, row)", OF decryptField_only]
    by (intro onlyCounts_trans [OF flag_only(2) [of s1 E amb row]]) simp
  then have some: "onlyCounts s1 (fst (fst (case rp of
        None \<Rightarrow> ((flagCiphertextLeak E ''no-plan'' row s1, row), None)
      | Some plan \<Rightarrow>
        if ReadPlan_IsEmpty plan then ((flagCiphertextLeak E ''empty-plan'' row s1, row), None)
        else let s2 = flagAmbiguousPassthrough E (Ambiguous plan) row s1 in
          if rpFields plan = [] then ((s2, row), None)
          else (case cipher s2 of
                  None \<Rightarrow> ((s2, row), Some errNoCipher)
                | Some c \<Rightarrow> forE (decryptField E c) (rpFields plan) (s2, row)))))" for s1 rp
    by (cases rp) (auto simp: flag_only Let_def split: option.split)
  show ?thesis
  proof (cases "CurrentExecuting s")
    case None
    then show ?thesis by (simp add: DecryptDataRow_def flag_only)
  next
    case (Some p)
    obtain s1 rp where "ensureReadPlan E p s = (s1, rp)" by (cases "ensureReadPlan E p s")
    then show ?thesis using Some some [of s1 rp] by (simp add: DecryptDataRow_def)
  qed
qed

section \<open>The relay\<close>

lemma observeFrontend_wf:
  assumes "wfSession E s"
  shows "wfSession E (fst (fst (observeFrontend E msg s)))"
  using assms OnParse_wf [OF assms] OnQuery_wf [OF assms] onlyCounts_wf [OF EncryptBind_only OnBind_wf [OF assms]]
  by (cases msg) (auto simp: observeFrontend_def OnDescribe_wf OnExecute_wf OnSync_wf OnClose_wf split_beta Let_def)

lemma observeBackend_wf:
  assumes "wfSession E s"
  shows "wfSession E (fst (fst (observeBackend E msg s)))"
proof -
  have "wfSession E (case CurrentExecuting s of None \<Rightarrow> s | Some p \<Rightarrow> fst (ensureReadPlan E p s))"
    using assms by (simp add: ensureReadPlan_wf split: option.split)
  then have "wfSession E (fst (fst (DecryptDataRow E row s)))" for row
    using DecryptDataRow_only onlyCounts_wf by blast
  then show ?thesis
    using assms
    by (cases msg) (auto simp: observeBackend_def OnRowDescription_wf OnNoData_wf popExecuting_wf
        OnCommandComplete_def OnEmptyQueryResponse_def OnPortalSuspended_def OnErrorResponse_wf
        OnReadyForQuery_wf split_beta Let_def)
qed

lemma pumpClientStep_session:
  "pumpClientStep E received sent s = (s', out, st) \<Longrightarrow>
   s' = s \<or> (\<exists>msg. s' = fst (fst (observeFrontend E msg s)))"
  by (cases received; cases "observeFrontend E (projr received) s")
    (auto simp: pumpClientStep_def split: option.splits, (metis fst_conv)+)

lemma pumpBackendStep_session:
  "pumpBackendStep E received sent s = (s', out, st) \<Longrightarrow>
   s' = s \<or> (\<exists>msg. s' = fst (fst (observeBackend E msg s)))"
  by (cases received; cases "observeBackend E (projr received) s")
    (auto simp: pumpBackendStep_def split: option.splits, (metis fst_conv)+)

lemma relayStep_wf:
  assumes "relayStep E r r'" "wfSession E (rlSession r)"
  shows "wfSession E (rlSession r')"
  using assms
proof cases
  case (client received sent s' out st)
  then show ?thesis
    using pumpClientStep_session assms(2) observeFrontend_wf [OF assms(2)] by fastforce
next
  case (backend received sent s' out st)
  then show ?thesis
    using pumpBackendStep_session assms(2) observeBackend_wf [OF assms(2)] by fastforce
qed

lemma relayReach_wf:
  assumes "relayReach E (NewSession p c rnd m) r"
  shows "wfSession E (rlSession r)"
  using assms
  by induction (simp_all add: startRelay_def NewSession_wf relayStep_wf)

end
