(* ===== verification/Protocol.thy ===== *)
theory Protocol
  imports SessionInv
begin

text \<open>
  The contract of the session's two queues. The specification is a PostgreSQL backend that
  answers requests strictly in order: \<open>inflight\<close> is the list of requests that have
  passed the proxy and are not answered yet, and \<open>answer\<close> says which backend message
  may come next and what remains. After an error the backend discards everything up to the
  next Sync (\<open>prSkip\<close>), including requests that reach it later.

  The refinement: in every reachable state the execute queue and the describe queue are
  the images of \<open>inflight\<close> under two projections, whatever the interleaving, the
  pipelining and the errors. Hence every row and every row description is attributed to
  the portal or statement the backend is answering for.

  What the specification takes from the PostgreSQL protocol: an Execute of a portal that
  was never bound is answered by an error; a query string is split into as many
  statements as the parser splits it; a simple query is not sent inside an extended batch
  that has no Sync yet (\<open>mayQuery\<close>); the legacy function-call message is not used.
\<close>

section \<open>Requests and answers\<close>

datatype request =
    RExec "portalAddr option"
  | RSimple portalAddr
  | RDesc "stmtAddr option" "portalAddr option"
  | RSync
  | ROther

definition requests :: "FrontendMessage \<Rightarrow> Session \<Rightarrow> Session \<Rightarrow> request list" where
  "requests msg s s' =
     (case msg of
        FExecute portal \<Rightarrow> [RExec (portals s portal)]
      | FDescribe t name \<Rightarrow> [RDesc (pdStmt (describeEntry t name s)) (pdPortal (describeEntry t name s))]
      | FSync \<Rightarrow> [RSync]
      | FQuery q \<Rightarrow> map RSimple [length (portalHeap s)..<length (portalHeap s')] @ [RSync]
      | FParse p \<Rightarrow> [ROther]
      | FBind b \<Rightarrow> [ROther]
      | FClose t name \<Rightarrow> [ROther]
      | _ \<Rightarrow> [])"

definition completions :: "string list" where
  "completions = [''ParseComplete'', ''BindComplete'', ''CloseComplete'']"

definition afterError :: "request list \<Rightarrow> request list" where
  "afterError rs = dropWhile (\<lambda>r. r \<noteq> RSync) rs"

definition answer :: "bool \<Rightarrow> request list \<Rightarrow> BackendMessage \<Rightarrow> (bool \<times> request list) option" where
  "answer skip rs msg =
     (case msg of
        BErrorResponse \<Rightarrow> if skip then None else Some (True, afterError rs)
      | BReadyForQuery \<Rightarrow>
          (case (if skip then afterError rs else rs) of RSync # rs' \<Rightarrow> Some (False, rs') | _ \<Rightarrow> None)
      | BOther t \<Rightarrow>
          if \<not> skip \<and> t \<in> set completions then (case rs of ROther # rs' \<Rightarrow> Some (False, rs') | _ \<Rightarrow> None)
          else Some (skip, rs)
      | BRowDescription columns \<Rightarrow>
          if skip then None
          else (case rs of RDesc a p # rs' \<Rightarrow> Some (False, rs') | RSimple p # rs' \<Rightarrow> Some (False, rs) | _ \<Rightarrow> None)
      | BNoData \<Rightarrow> if skip then None else (case rs of RDesc a p # rs' \<Rightarrow> Some (False, rs') | _ \<Rightarrow> None)
      | BDataRow row \<Rightarrow>
          if skip then None
          else (case rs of RExec (Some p) # rs' \<Rightarrow> Some (False, rs) | RSimple p # rs' \<Rightarrow> Some (False, rs) | _ \<Rightarrow> None)
      | _ \<Rightarrow>
          if skip then None
          else (case rs of RExec (Some p) # rs' \<Rightarrow> Some (False, rs') | RSimple p # rs' \<Rightarrow> Some (False, rs') | _ \<Rightarrow> None))"

definition mayQuery :: "bool \<Rightarrow> request list \<Rightarrow> bool" where
  "mayQuery skip rs \<longleftrightarrow> (if rs = [] then \<not> skip else last rs = RSync)"

record proto =
  prSession :: Session
  inflight :: "request list"
  prSkip :: bool

inductive protoStep :: "env \<Rightarrow> proto \<Rightarrow> proto \<Rightarrow> bool" for E where
  request: "observeFrontend E msg (prSession P) = ((s', msg'), None) \<Longrightarrow>
     (\<forall>q. msg = FQuery q \<longrightarrow> mayQuery (prSkip P) (inflight P)) \<Longrightarrow>
     protoStep E P (P\<lparr>prSession := s', inflight := inflight P @ requests msg (prSession P) s'\<rparr>)"
| answer: "answer (prSkip P) (inflight P) msg = Some (skip', rs') \<Longrightarrow>
     observeBackend E msg (prSession P) = ((s', msg'), None) \<Longrightarrow>
     protoStep E P (P\<lparr>prSession := s', inflight := rs', prSkip := skip'\<rparr>)"

inductive protoReach :: "env \<Rightarrow> Planner \<Rightarrow> Cipher option \<Rightarrow> nat \<Rightarrow> Metrics \<Rightarrow> proto \<Rightarrow> bool" for E p c n m where
  start: "protoReach E p c n m \<lparr>prSession = NewSession p c n m, inflight = [], prSkip = False\<rparr>"
| step: "protoReach E p c n m P \<Longrightarrow> protoStep E P P' \<Longrightarrow> protoReach E p c n m P'"

section \<open>Projections\<close>

locale projected_queue = boundary_queue +
  fixes isSync :: "'r \<Rightarrow> bool"
    and proj :: "'r \<Rightarrow> 'a list"
  assumes proj_sync: "isSync r \<Longrightarrow> \<exists>b. proj r = [b] \<and> isB b"
    and proj_other: "\<not> isSync r \<Longrightarrow> list_all (\<lambda>e. \<not> isB e) (proj r)"
begin

lemma dropBatch_skip: "list_all (\<lambda>e. \<not> isB e) xs \<Longrightarrow> dropBatch (xs @ ys) = dropBatch ys"
  by (induction xs) (simp_all add: dropBatch_Cons)

lemma dropBatch_proj:
  "dropBatch (concat (map proj rs)) = concat (map proj (dropWhile (\<lambda>r. \<not> isSync r) rs))"
proof (induction rs)
  case (Cons r rs)
  then show ?case
    using proj_sync [of r] proj_other [of r]
    by (cases "isSync r") (auto simp: dropBatch_Cons dropBatch_skip)
qed (simp add: dropBatch_Nil)

lemma closeBatch_proj:
  "closeBatch (concat (map proj rs)) = concat (map proj (tl (dropWhile (\<lambda>r. \<not> isSync r) rs)))"
proof (cases "dropWhile (\<lambda>r. \<not> isSync r) rs")
  case (Cons r rs')
  then have "isSync r" by (metis dropWhile_eq_Cons_conv)
  then show ?thesis
    using Cons proj_sync [of r] by (auto simp: closeBatch_tl dropBatch_proj)
next
  case Nil
  then show ?thesis by (simp only: closeBatch_tl dropBatch_proj) simp
qed

end

definition execProj :: "request \<Rightarrow> execEntry list" where
  "execProj r =
     (case r of RExec (Some p) \<Rightarrow> [Executing p] | RSimple p \<Rightarrow> [Executing p] | RSync \<Rightarrow> [syncBoundary] | _ \<Rightarrow> [])"

definition descProj :: "request \<Rightarrow> pendingDescribe list" where
  "descProj r =
     (case r of RDesc a p \<Rightarrow> [\<lparr>pdStmt = a, pdPortal = p, boundary = False\<rparr>] | RSync \<Rightarrow> [boundaryDescribe] | _ \<Rightarrow> [])"

interpretation execp: projected_queue "\<lambda>e. e = syncBoundary" dropExecs closeExecs "\<lambda>r. r = RSync" execProj
  by unfold_locales (auto simp: execProj_def split: request.splits option.splits)

interpretation descp: projected_queue boundary dropDescribes closeDescribes "\<lambda>r. r = RSync" descProj
  by unfold_locales (auto simp: descProj_def boundaryDescribe_def split: request.splits)

section \<open>What the handlers do to the queues\<close>

lemma onlyCounts_queues:
  "onlyCounts s s' \<Longrightarrow> execQueue s' = execQueue s" "onlyCounts s s' \<Longrightarrow> describes s' = describes s"
  by (metis (no_types, lifting) Session.select_convs(5,6) Session.surjective Session.update_convs(9,10) onlyCounts_def,
      metis (no_types, lifting) Session.select_convs(5,6) Session.surjective Session.update_convs(9,10) onlyCounts_def)

lemma enqueueSimple_queues:
  "execQueue (enqueueSimple ps s) = execQueue s @ [Executing (length (portalHeap s))]"
  "describes (enqueueSimple ps s) = describes s"
  "length (portalHeap (enqueueSimple ps s)) = Suc (length (portalHeap s))"
  by (simp_all add: enqueueSimple_def allocPortal_def allocStmt_def Let_def)

definition simpleAdded :: "Session \<Rightarrow> Session \<Rightarrow> bool" where
  "simpleAdded s s' \<longleftrightarrow>
     length (portalHeap s) \<le> length (portalHeap s') \<and> describes s' = describes s
     \<and> execQueue s' = execQueue s @ map Executing [length (portalHeap s)..<length (portalHeap s')]"

lemma simpleAdded_refl [simp]: "simpleAdded s s"
  by (simp add: simpleAdded_def)

lemma simpleAdded_step: "simpleAdded s t \<Longrightarrow> simpleAdded s (enqueueSimple ps t)"
  by (simp add: simpleAdded_def enqueueSimple_queues)

lemma querySimple_added:
  assumes "simpleAdded s t"
  shows "simpleAdded s (fst (querySimple E a t))"
  using assms by (simp add: querySimple_def simpleAdded_step split: sum.split)

lemma OnQuery_queues:
  assumes "OnQuery E q s = (s', None)"
  shows "\<exists>t. simpleAdded s t \<and> s' = OnSync t"
proof (cases "AnalyzeAll (envUnicode E) (envParser E) q")
  case (Inl e)
  then show ?thesis
    using assms simpleAdded_step [OF simpleAdded_refl] by (auto simp: OnQuery_def)
next
  case (Inr as)
  show ?thesis
  proof (cases as)
    case Nil
    then show ?thesis
      using assms Inr simpleAdded_step [OF simpleAdded_refl] by (auto simp: OnQuery_def)
  next
    case (Cons a as')
    then obtain t where t: "forE (querySimple E) as s = (t, None)" "s' = OnSync t"
      using assms Inr by (auto simp: OnQuery_def thenE_None simp del: forE.simps)
    have "simpleAdded s (fst (forE (querySimple E) as s))"
      by (rule forE_inv) (simp_all add: querySimple_added)
    then show ?thesis using t by auto
  qed
qed

lemma describeEntry_boundary:
  "describeEntry t name s =
     \<lparr>pdStmt = pdStmt (describeEntry t name s), pdPortal = pdPortal (describeEntry t name s), boundary = False\<rparr>"
  by (simp add: describeEntry_def split: option.split)

lemma concat_singletons: "concat (map (\<lambda>x. [f x]) xs) = map f xs"
  by (induction xs) simp_all

lemma observeFrontend_queues:
  assumes "observeFrontend E msg s = ((s', msg'), None)"
  shows "execQueue s' = execQueue s @ concat (map execProj (requests msg s s'))"
    and "describes s' = describes s @ concat (map descProj (requests msg s s'))"
proof -
  have "execQueue s' = execQueue s @ concat (map execProj (requests msg s s'))
      \<and> describes s' = describes s @ concat (map descProj (requests msg s s'))"
  proof (cases msg)
    case (FParse p)
    then show ?thesis
      using assms by (auto simp: observeFrontend_def OnParse_def allocStmt_def requests_def execProj_def
          descProj_def split: sum.splits prod.splits)
  next
    case (FBind b)
    have "onlyCounts (OnBind b s) s'"
      using assms FBind EncryptBind_only [of "OnBind b s" E b] by (auto simp: observeFrontend_def split: prod.splits)
    then show ?thesis
      using FBind onlyCounts_queues
      by (simp add: OnBind_def allocPortal_def requests_def execProj_def descProj_def)
  next
    case (FDescribe t name)
    then show ?thesis
      using assms describeEntry_boundary [of t name s]
      by (auto simp: observeFrontend_def OnDescribe_def requests_def execProj_def descProj_def)
  next
    case (FExecute portal)
    then show ?thesis
      using assms by (auto simp: observeFrontend_def OnExecute_def requests_def execProj_def descProj_def
          split: option.splits)
  next
    case (FQuery q)
    then obtain t where t: "simpleAdded s t" "s' = OnSync t"
      using assms OnQuery_queues [of E q s s'] by (auto simp: observeFrontend_def split: prod.splits)
    then show ?thesis
      using FQuery
      by (simp add: simpleAdded_def OnSync_def requests_def execProj_def descProj_def comp_def concat_singletons)
  qed (use assms in \<open>auto simp: observeFrontend_def OnSync_def OnClose_def requests_def execProj_def descProj_def\<close>)
  then show "execQueue s' = execQueue s @ concat (map execProj (requests msg s s'))"
    and "describes s' = describes s @ concat (map descProj (requests msg s s'))" by blast+
qed

lemma learnFor_queues [simp]:
  "execQueue (learnFor E a po cols s) = execQueue s" "describes (learnFor E a po cols s) = describes s"
  by (simp_all add: learnFor_def learnColumns_def setReadPlan_def setPortal_def setStmt_def Let_def split: option.split)

lemma ensureReadPlan_queues [simp]:
  "execQueue (fst (ensureReadPlan E p s)) = execQueue s" "describes (fst (ensureReadPlan E p s)) = describes s"
  by (simp_all add: ensureReadPlan_def setReadPlan_def setPortal_def Let_def split: option.split)

lemma DecryptDataRow_queues:
  "execQueue (fst (fst (DecryptDataRow E row s))) = execQueue s"
  "describes (fst (fst (DecryptDataRow E row s))) = describes s"
  using onlyCounts_queues [OF DecryptDataRow_only [of s E row]] by (simp_all split: option.splits)

text \<open>The two queues after a backend message, as functions of the queues before it.\<close>

fun popExecs :: "execEntry list \<Rightarrow> execEntry list" where
  "popExecs (Executing p # q) = q"
| "popExecs q = q"

definition popDescs :: "pendingDescribe list \<Rightarrow> pendingDescribe list" where
  "popDescs q = (if q \<noteq> [] \<and> \<not> boundary (hd q) then tl q else q)"

lemma popExecuting_queues [simp]:
  "execQueue (popExecuting s) = popExecs (execQueue s)" "describes (popExecuting s) = describes s"
  by (simp_all add: popExecuting_def popExec_def split: list.split execEntry.split)

lemma OnRowDescription_queues [simp]:
  "execQueue (OnRowDescription E cols s) = execQueue s"
  "describes (OnRowDescription E cols s) = popDescs (describes s)"
  by (simp_all add: OnRowDescription_def popDescribe_def popDescs_def Let_def split: option.split)

lemma OnNoData_queues [simp]:
  "execQueue (OnNoData s) = execQueue s" "describes (OnNoData s) = popDescs (describes s)"
  by (simp_all add: OnNoData_def popDescribe_def popDescs_def)

section \<open>Alignment\<close>

text \<open>The statements of one query string are answered before its implicit Sync.\<close>

fun simpleClosed :: "request list \<Rightarrow> bool" where
  "simpleClosed (RSimple p # RSimple p' # rs) = simpleClosed (RSimple p' # rs)"
| "simpleClosed (RSimple p # RSync # rs) = simpleClosed rs"
| "simpleClosed (RSimple p # rs) = False"
| "simpleClosed (r # rs) = simpleClosed rs"
| "simpleClosed [] = True"

lemma simpleClosed_append: "simpleClosed xs \<Longrightarrow> simpleClosed ys \<Longrightarrow> simpleClosed (xs @ ys)"
  by (induction xs rule: simpleClosed.induct) simp_all

lemma simpleClosed_tl: "simpleClosed (r # rs) \<Longrightarrow> simpleClosed rs"
  by (cases "(r # rs)" rule: simpleClosed.cases) simp_all

lemma simpleClosed_rest: "simpleClosed rs \<Longrightarrow> simpleClosed (tl rs)"
  by (cases rs) (auto dest: simpleClosed_tl)

lemma simpleClosed_dropWhile: "simpleClosed rs \<Longrightarrow> simpleClosed (dropWhile P rs)"
  by (induction rs) (auto dest: simpleClosed_tl)

lemma simpleClosed_simples: "simpleClosed (map RSimple ps @ [RSync])"
  by (induction ps rule: induct_list012) simp_all

lemma simpleClosed_requests: "simpleClosed (requests msg s s')"
  by (cases msg) (simp_all add: requests_def simpleClosed_simples)

text \<open>While a simple statement is being answered no Describe of its batch is outstanding.\<close>

lemma simple_no_describe:
  "simpleClosed (RSimple p # rs) \<Longrightarrow> \<exists>d q. concat (map descProj rs) = d # q \<and> boundary d"
proof (induction rs arbitrary: p)
  case (Cons r rs)
  show ?case
  proof (cases r)
    case (RSimple p')
    then show ?thesis using Cons.IH [of p'] Cons.prems by (simp add: descProj_def)
  next
    case RSync
    then show ?thesis by (simp add: descProj_def boundaryDescribe_def)
  qed (use Cons.prems in simp_all)
qed simp

definition aligned :: "proto \<Rightarrow> bool" where
  "aligned P \<longleftrightarrow>
     execQueue (prSession P) = concat (map execProj (inflight P))
     \<and> describes (prSession P) = concat (map descProj (inflight P))
     \<and> simpleClosed (inflight P)"

lemma aligned_request:
  assumes "aligned P" "observeFrontend E msg (prSession P) = ((s', msg'), None)"
  shows "aligned (P\<lparr>prSession := s', inflight := inflight P @ requests msg (prSession P) s'\<rparr>)"
  using assms(1) observeFrontend_queues [OF assms(2)]
  by (simp add: aligned_def simpleClosed_append simpleClosed_requests)

lemma observeBackend_queues:
  assumes "observeBackend E msg s = ((s', msg'), None)"
  shows "execQueue s' =
      (case msg of BErrorResponse \<Rightarrow> dropExecs (execQueue s) | BReadyForQuery \<Rightarrow> closeExecs (execQueue s)
       | BCommandComplete \<Rightarrow> popExecs (execQueue s) | BPortalSuspended \<Rightarrow> popExecs (execQueue s)
       | BEmptyQueryResponse \<Rightarrow> popExecs (execQueue s) | _ \<Rightarrow> execQueue s)"
    and "describes s' =
      (case msg of BErrorResponse \<Rightarrow> dropDescribes (describes s) | BReadyForQuery \<Rightarrow> closeDescribes (describes s)
       | BRowDescription cols \<Rightarrow> popDescs (describes s) | BNoData \<Rightarrow> popDescs (describes s) | _ \<Rightarrow> describes s)"
proof -
  have row: "execQueue s' = execQueue s \<and> describes s' = describes s"
    if "DecryptDataRow E row s = ((s', row'), err)" for row row' err
    using that DecryptDataRow_queues [of E row s] by simp
  show "execQueue s' =
      (case msg of BErrorResponse \<Rightarrow> dropExecs (execQueue s) | BReadyForQuery \<Rightarrow> closeExecs (execQueue s)
       | BCommandComplete \<Rightarrow> popExecs (execQueue s) | BPortalSuspended \<Rightarrow> popExecs (execQueue s)
       | BEmptyQueryResponse \<Rightarrow> popExecs (execQueue s) | _ \<Rightarrow> execQueue s)"
    using assms row
    by (cases msg) (auto simp: observeBackend_def OnCommandComplete_def OnPortalSuspended_def
        OnEmptyQueryResponse_def OnErrorResponse_def OnReadyForQuery_def split: prod.splits)
  show "describes s' =
      (case msg of BErrorResponse \<Rightarrow> dropDescribes (describes s) | BReadyForQuery \<Rightarrow> closeDescribes (describes s)
       | BRowDescription cols \<Rightarrow> popDescs (describes s) | BNoData \<Rightarrow> popDescs (describes s) | _ \<Rightarrow> describes s)"
    using assms row
    by (cases msg) (auto simp: observeBackend_def OnCommandComplete_def OnPortalSuspended_def
        OnEmptyQueryResponse_def OnErrorResponse_def OnReadyForQuery_def split: prod.splits)
qed

lemma aligned_answer:
  assumes al: "aligned P" and an: "answer (prSkip P) (inflight P) msg = Some (skip', rs')"
    and ob: "observeBackend E msg (prSession P) = ((s', msg'), None)"
  shows "aligned (P\<lparr>prSession := s', inflight := rs', prSkip := skip'\<rparr>)"
proof -
  let ?rs = "inflight P"
  note q = observeBackend_queues [OF ob]
  have al': "execQueue (prSession P) = concat (map execProj ?rs)"
    "describes (prSession P) = concat (map descProj ?rs)" "simpleClosed ?rs"
    using al by (simp_all add: aligned_def)
  have "execQueue s' = concat (map execProj rs') \<and> describes s' = concat (map descProj rs') \<and> simpleClosed rs'"
  proof (cases msg)
    case BErrorResponse
    then show ?thesis
      using an al' q by (auto simp: answer_def afterError_def execp.dropBatch_proj descp.dropBatch_proj
          simpleClosed_dropWhile split: if_splits)
  next
    case BReadyForQuery
    have tl: "rs' = tl (dropWhile (\<lambda>r. r \<noteq> RSync) ?rs)"
      using an BReadyForQuery by (auto simp: answer_def afterError_def split: if_splits list.splits request.splits)
    have "simpleClosed rs'"
      unfolding tl by (rule simpleClosed_rest [OF simpleClosed_dropWhile [OF al'(3)]])
    then show ?thesis
      using BReadyForQuery al' q by (simp add: tl execp.closeBatch_proj descp.closeBatch_proj)
  next
    case (BRowDescription cols)
    then consider a p where "?rs = RDesc a p # rs'" | p rs where "?rs = RSimple p # rs" "rs' = ?rs"
      using an by (auto simp: answer_def split: if_splits list.splits request.splits)
    then show ?thesis
    proof cases
      case 1
      then show ?thesis
        using BRowDescription al' q by (simp add: execProj_def descProj_def popDescs_def)
    next
      case 2
      then show ?thesis
        using BRowDescription al' q simple_no_describe [of p rs]
        by (auto simp: execProj_def descProj_def popDescs_def)
    qed
  next
    case BNoData
    then obtain a p where "?rs = RDesc a p # rs'"
      using an by (auto simp: answer_def split: if_splits list.splits request.splits)
    then show ?thesis
      using BNoData al' q by (simp add: execProj_def descProj_def popDescs_def)
  next
    case (BOther t)
    then show ?thesis
      using an al' q by (auto simp: answer_def execProj_def descProj_def split: if_splits list.splits request.splits)
  next
    case (BDataRow row)
    then have "rs' = ?rs"
      using an by (auto simp: answer_def split: if_splits list.splits request.splits option.splits)
    then show ?thesis using BDataRow al' q by simp
  qed (use an al' q in \<open>auto simp: answer_def execProj_def descProj_def dest: simpleClosed_tl
      split: if_splits list.splits request.splits option.splits\<close>)
  then show ?thesis by (simp add: aligned_def)
qed

lemma protoReach_aligned: "protoReach E p c n m P \<Longrightarrow> aligned P"
proof (induction rule: protoReach.induct)
  case start
  then show ?case by (simp add: aligned_def NewSession_def)
next
  case (step P P')
  from step.hyps(2) step.IH show ?case
    by cases (auto intro: aligned_request aligned_answer)
qed

section \<open>Attribution\<close>

lemma aligned_executing:
  assumes "aligned P" "inflight P = RExec (Some p) # rs \<or> inflight P = RSimple p # rs"
  shows "CurrentExecuting (prSession P) = Some p"
  using assms by (auto simp: aligned_def CurrentExecuting_def execProj_def)

lemma aligned_describing:
  assumes "aligned P" "inflight P = RDesc a p # rs"
  shows "describes (prSession P) \<noteq> [] \<and> \<not> boundary (hd (describes (prSession P)))
     \<and> pdStmt (hd (describes (prSession P))) = a \<and> pdPortal (hd (describes (prSession P))) = p"
  using assms by (auto simp: aligned_def descProj_def)

lemma aligned_simple_rows:
  assumes "aligned P" "inflight P = RSimple p # rs"
  shows "\<not> (describes (prSession P) \<noteq> [] \<and> \<not> boundary (hd (describes (prSession P))))"
  using assms simple_no_describe [of p rs] by (auto simp: aligned_def descProj_def)

lemma aligned_idle:
  assumes "aligned P" "inflight P = []"
  shows "execQueue (prSession P) = [] \<and> describes (prSession P) = []"
  using assms by (simp add: aligned_def)

lemma protoReach_wf: "protoReach E p c n m P \<Longrightarrow> wfSession E (prSession P)"
proof (induction rule: protoReach.induct)
  case start
  then show ?case by (simp add: NewSession_wf)
next
  case (step P P')
  from step.hyps(2) show ?case
  proof cases
    case (request msg s' msg')
    then show ?thesis using observeFrontend_wf [OF step.IH, of msg] by simp
  next
    case (answer msg skip' rs' s' msg')
    then show ?thesis using observeBackend_wf [OF step.IH, of msg] by simp
  qed
qed

end
