(* ===== verification/TransformProps.thy ===== *)
theory TransformProps
  imports Protocol
begin

text \<open>
  What the transformations guarantee. Most of them are loops whose body changes one slot of
  a message; \<open>slot_loop\<close> is that contract, and its interpretations on the loop bodies of
  \<^verbatim>\<open>EncryptBind\<close> and \<^verbatim>\<open>DecryptDataRow\<close> give the behaviour of
  the whole loop when no slot is named twice.
\<close>

section \<open>Loops over slots\<close>

locale slot_loop =
  fixes body :: "'x \<Rightarrow> 's \<Rightarrow> 's \<times> goerror option"
    and key :: "'x \<Rightarrow> 'k"
    and get :: "'s \<Rightarrow> 'k \<Rightarrow> 'v"
    and post :: "'x \<Rightarrow> 'v \<Rightarrow> 'v \<Rightarrow> bool"
  assumes body_frame: "body x s = (s', None) \<Longrightarrow> k \<noteq> key x \<Longrightarrow> get s' k = get s k"
    and body_post: "body x s = (s', None) \<Longrightarrow> post x (get s (key x)) (get s' (key x))"
begin

lemma loop_frame:
  "forE body xs s = (s', None) \<Longrightarrow> k \<notin> key ` set xs \<Longrightarrow> get s' k = get s k"
proof (induction xs arbitrary: s)
  case (Cons x xs)
  then obtain t where t: "body x s = (t, None)" "forE body xs t = (s', None)"
    by (auto simp: thenE_None)
  then show ?case using Cons.IH [OF t(2)] Cons.prems(2) body_frame [OF t(1), of k] by auto
qed simp

lemma loop_post:
  "forE body xs s = (s', None) \<Longrightarrow> distinct (map key xs) \<Longrightarrow> x \<in> set xs \<Longrightarrow>
   post x (get s (key x)) (get s' (key x))"
proof (induction xs arbitrary: s)
  case (Cons y ys)
  then obtain t where t: "body y s = (t, None)" "forE body ys t = (s', None)"
    by (auto simp: thenE_None)
  show ?case
  proof (cases "x \<in> set ys")
    case True
    then have "key x \<noteq> key y" using Cons.prems(2) by (auto simp: image_iff)
    then show ?thesis
      using Cons.IH [OF t(2) _ True] Cons.prems(2) body_frame [OF t(1), of "key x"] by simp
  next
    case False
    then have "x = y" using Cons.prems(3) by simp
    then show ?thesis
      using body_post [OF t(1)] loop_frame [OF t(2), of "key y"] Cons.prems(2) by simp
  qed
qed simp

end

section \<open>Slots of a Bind message\<close>

definition bindSlot :: "Session \<times> BindMsg \<Rightarrow> int \<Rightarrow> bytes option" where
  "bindSlot sb n = paramValue (snd sb) n"

lemma paramValue_setParam:
  "inRange n (bmParameters b) \<Longrightarrow>
   paramValue (setParam n v b) k = (if k = n then v else paramValue b k)"
  by (auto simp: paramValue_def setParam_def inRange_def slot_def nth_list_update)

lemma inRange_setParam [simp]: "inRange k (bmParameters (setParam n v b)) = inRange k (bmParameters b)"
  by (simp add: inRange_def setParam_def)

lemma length_setParam [simp]: "length (bmParameters (setParam n v b)) = length (bmParameters b)"
  by (simp add: setParam_def)

lemma nth_setParam [simp]: "inRange n (bmParameters b) \<Longrightarrow> bmParameters (setParam n v b) ! slot n = v"
  by (auto simp: setParam_def inRange_def slot_def nth_list_update)

lemma paramValue_in: "inRange n (bmParameters b) \<Longrightarrow> paramValue b n = bmParameters b ! slot n"
  by (simp add: paramValue_def)

text \<open>What a successful encryption of one value establishes.\<close>

definition sealed :: "env \<Rightarrow> Cipher \<Rightarrow> ParamRule \<Rightarrow> bytes option \<Rightarrow> bytes option \<Rightarrow> bool" where
  "sealed E c pr old new \<longleftrightarrow>
     (case old of
        None \<Rightarrow> new = None
      | Some v \<Rightarrow> \<not> isEnvelope (envUnicode E) v \<and>
          (\<exists>rnd st. encrypting c (envUnicode E) rnd pr v = Inr st \<and> new = Some st))"

lemma encryptParam_Ok:
  assumes "encryptParam E c pr sb = (sb', None)"
  shows "inRange (prParam pr) (bmParameters (snd sb))"
    and "sealed E c pr (bindSlot sb (prParam pr)) (bindSlot sb' (prParam pr))"
    and "k \<noteq> prParam pr \<Longrightarrow> bindSlot sb' k = bindSlot sb k"
    and "length (bmParameters (snd sb')) = length (bmParameters (snd sb))"
proof -
  obtain s b where sb: "sb = (s, b)" by (cases sb)
  from assms show r: "inRange (prParam pr) (bmParameters (snd sb))"
    by (auto simp: encryptParam_def sb Let_def split: if_splits)
  then have r': "inRange (prParam pr) (bmParameters b)" by (simp add: sb)
  have "sealed E c pr (bindSlot sb (prParam pr)) (bindSlot sb' (prParam pr))
      \<and> (k \<noteq> prParam pr \<longrightarrow> bindSlot sb' k = bindSlot sb k)
      \<and> length (bmParameters (snd sb')) = length (bmParameters (snd sb))"
    using assms r'
    by (auto simp: encryptParam_def sb bindSlot_def sealed_def paramValue_in paramValue_setParam
        Let_def split: option.splits if_splits sum.splits)
  then show "sealed E c pr (bindSlot sb (prParam pr)) (bindSlot sb' (prParam pr))"
    and "k \<noteq> prParam pr \<Longrightarrow> bindSlot sb' k = bindSlot sb k"
    and "length (bmParameters (snd sb')) = length (bmParameters (snd sb))" by blast+
qed

interpretation encp: slot_loop "encryptParam E c" prParam bindSlot "sealed E c" for E c
  by unfold_locales (fact encryptParam_Ok(3), fact encryptParam_Ok(2))

text \<open>A value that was escaped instead, because its row is not a PII attribute.\<close>

definition escaped :: "bytes option \<Rightarrow> bytes option \<Rightarrow> bool" where
  "escaped old new \<longleftrightarrow> new = map_option Escape old"

lemma escapeParam_slot:
  "paramValue (escapeParam n b) k = (if k = n then map_option Escape (paramValue b n) else paramValue b k)"
proof (cases "paramValue b n")
  case None
  then show ?thesis by (simp add: escapeParam_def)
next
  case (Some v)
  then have "inRange n (bmParameters b)" by (auto simp: paramValue_def split: if_splits)
  then show ?thesis using Some by (simp add: escapeParam_def paramValue_setParam)
qed

definition attrBody ::
  "env \<Rightarrow> Cipher \<Rightarrow> bool \<Rightarrow> ParamRule \<Rightarrow> Session \<times> BindMsg \<Rightarrow> (Session \<times> BindMsg) \<times> goerror option" where
  "attrBody E c match pr sb =
     (if match then encryptParam E c pr sb else ((fst sb, escapeParam (prParam pr) (snd sb)), None))"

definition attrPost :: "env \<Rightarrow> Cipher \<Rightarrow> bool \<Rightarrow> ParamRule \<Rightarrow> bytes option \<Rightarrow> bytes option \<Rightarrow> bool" where
  "attrPost E c match pr old new \<longleftrightarrow> (if match then sealed E c pr old new else escaped old new)"

interpretation attrp: slot_loop "attrBody E c match" prParam bindSlot "attrPost E c match" for E c match
proof
  fix pr sb sb' k
  assume ok: "attrBody E c match pr sb = (sb', None)"
  show "attrPost E c match pr (bindSlot sb (prParam pr)) (bindSlot sb' (prParam pr))"
    using ok encryptParam_Ok(2)
    by (auto simp: attrBody_def attrPost_def escaped_def bindSlot_def escapeParam_slot split: if_splits)
  show "bindSlot sb' k = bindSlot sb k" if "k \<noteq> prParam pr"
    using ok that encryptParam_Ok(3) [of E c pr sb sb' k]
    by (auto simp: attrBody_def bindSlot_def escapeParam_slot split: if_splits)
qed

text \<open>Whether the attribute name bound with the row has the PII prefix.\<close>

definition piiName :: "AttributeCondition \<Rightarrow> BindMsg \<Rightarrow> bool" where
  "piiName cond b =
     (case paramValue b (acNameParam cond) of None \<Rightarrow> False | Some name \<Rightarrow> HasPrefix name (acPrefix cond))"

lemma applyAttributeCondition_eq:
  "applyAttributeCondition E c cond sb = forE (attrBody E c (piiName cond (snd sb))) (acValueParams cond) sb"
proof -
  have "attrBody E c m = (\<lambda>pr sb'. if m then encryptParam E c pr sb'
      else ((fst sb', escapeParam (prParam pr) (snd sb')), None))" for m
    by (simp add: fun_eq_iff attrBody_def)
  then show ?thesis by (simp add: applyAttributeCondition_def piiName_def Let_def)
qed

definition likePost :: "env \<Rightarrow> Cipher \<Rightarrow> ParamRule \<Rightarrow> bytes option \<Rightarrow> bytes option \<Rightarrow> bool" where
  "likePost E c pr old new \<longleftrightarrow>
     (if \<exists>v. old = Some v \<and> hasLikeWildcards v then new = old else sealed E c pr old new)"

interpretation likep: slot_loop "encryptLikeParam E c" prParam bindSlot "likePost E c" for E c
proof
  fix pr sb sb' k
  assume ok: "encryptLikeParam E c pr sb = (sb', None)"
  then have r: "inRange (prParam pr) (bmParameters (snd sb))"
    by (auto simp: encryptLikeParam_def Let_def split: if_splits)
  show "likePost E c pr (bindSlot sb (prParam pr)) (bindSlot sb' (prParam pr))"
    using ok r encryptParam_Ok(2) [of E c pr sb sb']
    by (auto simp: encryptLikeParam_def likePost_def sealed_def bindSlot_def paramValue_in Let_def
        split: if_splits option.splits)
  show "bindSlot sb' k = bindSlot sb k" if "k \<noteq> prParam pr"
    using ok r that encryptParam_Ok(3) [of E c pr sb sb' k]
    by (auto simp: encryptLikeParam_def Let_def split: if_splits option.splits)
qed

text \<open>What the hashing of a LIKE filter leaves in its slot.\<close>

definition hashPost :: "env \<Rightarrow> Cipher \<Rightarrow> BlindIndexFilter \<Rightarrow> bytes option \<Rightarrow> bytes option \<Rightarrow> bool" where
  "hashPost E c f old new \<longleftrightarrow>
     (case old of
        None \<Rightarrow> new = None
      | Some v \<Rightarrow>
        if hasLikeWildcards (stripOuterWildcards v) then new = old
        else (\<exists>bi h. CipherBlindIndex c = Some bi \<and> new = Some h \<and>
               hashValue (envUnicode E) bi (bfTable f) (bfColumn f) (stripOuterWildcards v) = Inr h))"

interpretation hashp: slot_loop "hashBlindIndexParam E c" bfParam bindSlot "hashPost E c" for E c
proof
  fix f sb sb' k
  assume ok: "hashBlindIndexParam E c f sb = (sb', None)"
  then have r: "inRange (bfParam f) (bmParameters (snd sb))"
    by (auto simp: hashBlindIndexParam_def Let_def split: if_splits prod.splits)
  show "hashPost E c f (bindSlot sb (bfParam f)) (bindSlot sb' (bfParam f))"
    using ok r
    by (auto simp: hashBlindIndexParam_def hashPost_def bindSlot_def paramValue_in paramValue_setParam Let_def
        split: if_splits option.splits sum.splits prod.splits)
  show "bindSlot sb' k = bindSlot sb k" if "k \<noteq> bfParam f"
    using ok r that
    by (auto simp: hashBlindIndexParam_def bindSlot_def paramValue_setParam Let_def
        split: if_splits option.splits sum.splits prod.splits)
qed

section \<open>A whole Bind\<close>

text \<open>
  The parameters a plan rewrites. The analysis yields each \<^verbatim>\<open>$n\<close> once
  when the client numbers its parameters separately; \<open>separate\<close> says so.
\<close>

definition touchedParams :: "WritePlan \<Rightarrow> int list" where
  "touchedParams plan =
     map bwNewParam (BlindIndexWrites plan) @ map prParam (wpParams plan)
     @ concat (map (\<lambda>cond. map prParam (acValueParams cond)) (AttributeConditions plan))
     @ map prParam (LikeParams plan) @ map bfParam (BlindIndexFilters plan)"

definition separate :: "WritePlan \<Rightarrow> bool" where
  "separate plan \<longleftrightarrow> distinct (touchedParams plan)"

definition attrKeys :: "WritePlan \<Rightarrow> int set" where
  "attrKeys plan = (\<Union>cond \<in> set (AttributeConditions plan). prParam ` set (acValueParams cond))"

lemma attrLoop_frame:
  "forE (applyAttributeCondition E c) conds sb = (sb', None) \<Longrightarrow>
   k \<notin> (\<Union>cond \<in> set conds. prParam ` set (acValueParams cond)) \<Longrightarrow> bindSlot sb' k = bindSlot sb k"
proof (induction conds arbitrary: sb)
  case (Cons cond conds)
  then obtain t where t: "applyAttributeCondition E c cond sb = (t, None)"
    "forE (applyAttributeCondition E c) conds t = (sb', None)"
    by (auto simp: thenE_None)
  then show ?case
    using Cons.IH [OF t(2)] Cons.prems(2) attrp.loop_frame [OF t(1) [unfolded applyAttributeCondition_eq], of k]
    by auto
qed simp

lemma growParams_value:
  assumes "bmSpare b = []"
  shows "paramValue (growParams n b) k = paramValue b k"
  using assms by (auto simp: growParams_def paramValue_def inRange_def slot_def nth_append Let_def)

definition writePost :: "env \<Rightarrow> BlindIndex \<Rightarrow> BlindIndexWrite \<Rightarrow> bytes option \<Rightarrow> bytes option \<Rightarrow> bool" where
  "writePost E bi w src new \<longleftrightarrow>
     (case src of
        None \<Rightarrow> new = None
      | Some v \<Rightarrow> \<exists>h. hashValue (envUnicode E) bi (bwTable w) (bwColumn w) v = Inr h \<and> new = Some h)"

lemma appendHash_Ok:
  assumes "appendHash E bi w b = (b', None)"
  shows "writePost E bi w (paramValue b (bwSourceParam w)) (paramValue b' (bwNewParam w))"
    and "k \<noteq> bwNewParam w \<Longrightarrow> paramValue b' k = paramValue b k"
proof -
  from assms have r: "inRange (bwSourceParam w) (bmParameters b)" "inRange (bwNewParam w) (bmParameters b)"
    by (auto simp: appendHash_def Let_def split: if_splits)
  show "writePost E bi w (paramValue b (bwSourceParam w)) (paramValue b' (bwNewParam w))"
    using assms r by (auto simp: appendHash_def writePost_def paramValue_in Let_def
        split: option.splits sum.splits)
  show "k \<noteq> bwNewParam w \<Longrightarrow> paramValue b' k = paramValue b k"
    using assms r by (auto simp: appendHash_def paramValue_setParam Let_def split: option.splits sum.splits)
qed

lemma appendLoop_frame:
  "forE (appendHash E bi) ws b = (b', None) \<Longrightarrow> k \<notin> bwNewParam ` set ws \<Longrightarrow> paramValue b' k = paramValue b k"
proof (induction ws arbitrary: b)
  case (Cons w ws)
  then obtain t where t: "appendHash E bi w b = (t, None)" "forE (appendHash E bi) ws t = (b', None)"
    by (auto simp: thenE_None)
  then show ?case using Cons.IH [OF t(2)] Cons.prems(2) appendHash_Ok(2) [OF t(1), of k] by auto
qed simp

lemma appendLoop_post:
  "forE (appendHash E bi) ws b = (b', None) \<Longrightarrow> distinct (map bwNewParam ws) \<Longrightarrow>
   bwSourceParam ` set ws \<inter> bwNewParam ` set ws = {} \<Longrightarrow> w \<in> set ws \<Longrightarrow>
   writePost E bi w (paramValue b (bwSourceParam w)) (paramValue b' (bwNewParam w))"
proof (induction ws arbitrary: b)
  case (Cons y ys)
  then obtain t where t: "appendHash E bi y b = (t, None)" "forE (appendHash E bi) ys t = (b', None)"
    by (auto simp: thenE_None)
  show ?case
  proof (cases "w \<in> set ys")
    case True
    then have "paramValue t (bwSourceParam w) = paramValue b (bwSourceParam w)"
      using Cons.prems(3) by (intro appendHash_Ok(2) [OF t(1)]) (auto simp: image_iff)
    then show ?thesis using Cons.IH [OF t(2) _ _ True] Cons.prems(2,3) by auto
  next
    case False
    then have "w = y" using Cons.prems(4) by simp
    then show ?thesis
      using appendHash_Ok(1) [OF t(1)] appendLoop_frame [OF t(2), of "bwNewParam y"] Cons.prems(2) by simp
  qed
qed simp

lemma extendFormats_value [simp]: "paramValue (extendFormats n b) k = paramValue b k"
  by (simp add: extendFormats_def paramValue_def Let_def)

lemma appendBlindIndexWrites_frame:
  assumes "appendBlindIndexWrites E c ws b = (b', None)" "bmSpare b = []" "k \<notin> bwNewParam ` set ws"
  shows "paramValue b' k = paramValue b k"
  using assms appendLoop_frame [OF _ assms(3)] growParams_value [OF assms(2)]
  by (auto simp: appendBlindIndexWrites_def thenE_None Let_def split: if_splits option.splits)

text \<open>A successful Bind, phase by phase.\<close>

lemma transformBind_phases:
  assumes "transformBind E c plan (s, b) = (sb', None)"
  obtains b1 sb2 sb3 sb4 where
    "appendBlindIndexWrites E c (BlindIndexWrites plan) b = (b1, None)"
    "forE (encryptParam E c) (wpParams plan) (s, b1) = (sb2, None)"
    "forE (applyAttributeCondition E c) (AttributeConditions plan) sb2 = (sb3, None)"
    "forE (encryptLikeParam E c) (LikeParams plan) sb3 = (sb4, None)"
    "forE (hashBlindIndexParam E c) (BlindIndexFilters plan) sb4 = (sb', None)"
proof -
  obtain b1 err where a: "appendBlindIndexWrites E c (BlindIndexWrites plan) b = (b1, err)"
    by (cases "appendBlindIndexWrites E c (BlindIndexWrites plan) b")
  with assms have "err = None" by (cases err) (simp_all add: transformBind_def)
  with assms a that show ?thesis by (auto simp: transformBind_def thenE_None)
qed

text \<open>The groups of parameters of a separate plan are distinct and disjoint.\<close>

lemma touched_attr:
  "set (concat (map (\<lambda>cond. map prParam (acValueParams cond)) (AttributeConditions plan))) = attrKeys plan"
  by (simp add: attrKeys_def)

lemmas touched_parts = separate_def [unfolded touchedParams_def distinct_append set_append touched_attr, THEN iffD1]

lemma touched_disjoint:
  assumes "separate plan"
  shows "distinct (map prParam (wpParams plan))"
    and "\<And>pr. pr \<in> set (wpParams plan) \<Longrightarrow> prParam pr \<notin> bwNewParam ` set (BlindIndexWrites plan)
      \<and> prParam pr \<notin> attrKeys plan \<and> prParam pr \<notin> prParam ` set (LikeParams plan)
      \<and> prParam pr \<notin> bfParam ` set (BlindIndexFilters plan)"
    and "distinct (map bwNewParam (BlindIndexWrites plan))" and "distinct (map bfParam (BlindIndexFilters plan))"
    and "n \<in> bwNewParam ` set (BlindIndexWrites plan) \<Longrightarrow> n \<notin> prParam ` set (wpParams plan) \<and> n \<notin> attrKeys plan
      \<and> n \<notin> prParam ` set (LikeParams plan) \<and> n \<notin> bfParam ` set (BlindIndexFilters plan)"
    and "n \<in> bfParam ` set (BlindIndexFilters plan) \<Longrightarrow> n \<notin> bwNewParam ` set (BlindIndexWrites plan)
      \<and> n \<notin> prParam ` set (wpParams plan) \<and> n \<notin> attrKeys plan \<and> n \<notin> prParam ` set (LikeParams plan)"
proof -
  note parts = touched_parts [OF assms]
  show "distinct (map prParam (wpParams plan))" "distinct (map bwNewParam (BlindIndexWrites plan))"
    "distinct (map bfParam (BlindIndexFilters plan))"
    using parts by blast+
  show "prParam pr \<notin> bwNewParam ` set (BlindIndexWrites plan)
      \<and> prParam pr \<notin> attrKeys plan \<and> prParam pr \<notin> prParam ` set (LikeParams plan)
      \<and> prParam pr \<notin> bfParam ` set (BlindIndexFilters plan)" if "pr \<in> set (wpParams plan)" for pr
  proof -
    have "prParam pr \<in> set (map prParam (wpParams plan))" using that by simp
    then show ?thesis using parts unfolding set_map [symmetric] by blast
  qed
  show "n \<notin> prParam ` set (wpParams plan) \<and> n \<notin> attrKeys plan
      \<and> n \<notin> prParam ` set (LikeParams plan) \<and> n \<notin> bfParam ` set (BlindIndexFilters plan)"
    if "n \<in> bwNewParam ` set (BlindIndexWrites plan)"
    using parts that unfolding set_map [symmetric] by blast
  show "n \<notin> bwNewParam ` set (BlindIndexWrites plan)
      \<and> n \<notin> prParam ` set (wpParams plan) \<and> n \<notin> attrKeys plan \<and> n \<notin> prParam ` set (LikeParams plan)"
    if "n \<in> bfParam ` set (BlindIndexFilters plan)"
    using parts that unfolding set_map [symmetric] by blast
qed

lemma transformBind_sealed:
  assumes ok: "transformBind E c plan (s, b) = (sb', None)" and sep: "separate plan"
    and spare: "bmSpare b = []" and pr: "pr \<in> set (wpParams plan)"
  shows "sealed E c pr (paramValue b (prParam pr)) (bindSlot sb' (prParam pr))"
  using ok
proof (rule transformBind_phases)
  fix b1 sb2 sb3 sb4
  assume 1: "appendBlindIndexWrites E c (BlindIndexWrites plan) b = (b1, None)"
    and 2: "forE (encryptParam E c) (wpParams plan) (s, b1) = (sb2, None)"
    and 3: "forE (applyAttributeCondition E c) (AttributeConditions plan) sb2 = (sb3, None)"
    and 4: "forE (encryptLikeParam E c) (LikeParams plan) sb3 = (sb4, None)"
    and 5: "forE (hashBlindIndexParam E c) (BlindIndexFilters plan) sb4 = (sb', None)"
  note dis = touched_disjoint(2) [OF sep pr]
  have "bindSlot (s, b1) (prParam pr) = paramValue b (prParam pr)"
    using appendBlindIndexWrites_frame [OF 1 spare] dis by (simp add: bindSlot_def)
  moreover have "sealed E c pr (bindSlot (s, b1) (prParam pr)) (bindSlot sb2 (prParam pr))"
    by (rule encp.loop_post [OF 2 touched_disjoint(1) [OF sep] pr])
  moreover have "bindSlot sb3 (prParam pr) = bindSlot sb2 (prParam pr)"
    by (rule attrLoop_frame [OF 3]) (use dis in \<open>simp add: attrKeys_def\<close>)
  moreover have "bindSlot sb4 (prParam pr) = bindSlot sb3 (prParam pr)"
    by (rule likep.loop_frame [OF 4]) (use dis in simp)
  moreover have "bindSlot sb' (prParam pr) = bindSlot sb4 (prParam pr)"
    by (rule hashp.loop_frame [OF 5]) (use dis in simp)
  ultimately show ?thesis by simp
qed

text \<open>Slots a phase of the Bind does not touch keep their value.\<close>

lemma encryption_frame:
  assumes "forE (encryptParam E c) (wpParams plan) sb1 = (sb2, None)"
    and "forE (applyAttributeCondition E c) (AttributeConditions plan) sb2 = (sb3, None)"
    and "forE (encryptLikeParam E c) (LikeParams plan) sb3 = (sb4, None)"
    and "k \<notin> prParam ` set (wpParams plan)" "k \<notin> attrKeys plan" "k \<notin> prParam ` set (LikeParams plan)"
  shows "bindSlot sb4 k = bindSlot sb1 k"
  using encp.loop_frame [OF assms(1,4)] attrLoop_frame [OF assms(2), of k] assms(5) likep.loop_frame [OF assms(3,6)]
  by (simp add: attrKeys_def)

text \<open>
  The hash of a written value is computed from what the client bound, although the slot of the value is
  encrypted in the same message, and is what the hash slot holds in the end.
\<close>

lemma transformBind_hashed:
  assumes ok: "transformBind E c plan (s, b) = (sb', None)" and sep: "separate plan" and spare: "bmSpare b = []"
    and w: "w \<in> set (BlindIndexWrites plan)"
    and src: "bwSourceParam ` set (BlindIndexWrites plan) \<inter> bwNewParam ` set (BlindIndexWrites plan) = {}"
  shows "\<exists>bi. CipherBlindIndex c = Some bi \<and> writePost E bi w (paramValue b (bwSourceParam w)) (bindSlot sb' (bwNewParam w))"
  using ok
proof (rule transformBind_phases)
  fix b1 sb2 sb3 sb4
  assume 1: "appendBlindIndexWrites E c (BlindIndexWrites plan) b = (b1, None)"
    and 2: "forE (encryptParam E c) (wpParams plan) (s, b1) = (sb2, None)"
    and 3: "forE (applyAttributeCondition E c) (AttributeConditions plan) sb2 = (sb3, None)"
    and 4: "forE (encryptLikeParam E c) (LikeParams plan) sb3 = (sb4, None)"
    and 5: "forE (hashBlindIndexParam E c) (BlindIndexFilters plan) sb4 = (sb', None)"
  have ne: "BlindIndexWrites plan \<noteq> []" using w by auto
  then obtain bi b0 where bi: "CipherBlindIndex c = Some bi"
    and l: "forE (appendHash E bi) (BlindIndexWrites plan) (growParams (nat (maxNewParam (BlindIndexWrites plan))) b) = (b0, None)"
    and b1: "b1 = extendFormats (nat (maxNewParam (BlindIndexWrites plan))) b0"
    using 1 by (auto simp: appendBlindIndexWrites_def thenE_None Let_def split: option.splits)
  have "writePost E bi w (paramValue b (bwSourceParam w)) (paramValue b1 (bwNewParam w))"
    using appendLoop_post [OF l touched_disjoint(3) [OF sep] src w] by (simp add: growParams_value [OF spare] b1)
  moreover have "bindSlot sb' (bwNewParam w) = bindSlot sb4 (bwNewParam w)"
    using touched_disjoint(5) [OF sep, of "bwNewParam w"] w by (intro hashp.loop_frame [OF 5]) simp
  moreover have "bindSlot sb4 (bwNewParam w) = bindSlot (s, b1) (bwNewParam w)"
    using touched_disjoint(5) [OF sep, of "bwNewParam w"] w by (intro encryption_frame [OF 2 3 4]) simp_all
  ultimately show ?thesis using bi by (simp add: bindSlot_def)
qed

lemma transformBind_searched:
  assumes ok: "transformBind E c plan (s, b) = (sb', None)" and sep: "separate plan" and spare: "bmSpare b = []"
    and f: "f \<in> set (BlindIndexFilters plan)"
  shows "hashPost E c f (paramValue b (bfParam f)) (bindSlot sb' (bfParam f))"
  using ok
proof (rule transformBind_phases)
  fix b1 sb2 sb3 sb4
  assume 1: "appendBlindIndexWrites E c (BlindIndexWrites plan) b = (b1, None)"
    and 2: "forE (encryptParam E c) (wpParams plan) (s, b1) = (sb2, None)"
    and 3: "forE (applyAttributeCondition E c) (AttributeConditions plan) sb2 = (sb3, None)"
    and 4: "forE (encryptLikeParam E c) (LikeParams plan) sb3 = (sb4, None)"
    and 5: "forE (hashBlindIndexParam E c) (BlindIndexFilters plan) sb4 = (sb', None)"
  note dis = touched_disjoint(6) [OF sep, of "bfParam f"]
  have "paramValue b1 (bfParam f) = paramValue b (bfParam f)"
    using dis f by (intro appendBlindIndexWrites_frame [OF 1 spare]) simp
  moreover have "bindSlot sb4 (bfParam f) = bindSlot (s, b1) (bfParam f)"
    using dis f by (intro encryption_frame [OF 2 3 4]) simp_all
  ultimately show ?thesis
    using hashp.loop_post [OF 5 touched_disjoint(4) [OF sep] f] by (simp add: bindSlot_def)
qed

text \<open>What \<open>sealed\<close> means to a later reader: an envelope that opens to the value.\<close>

definition normalized :: "env \<Rightarrow> Rule \<Rightarrow> bytes \<Rightarrow> bytes" where
  "normalized E r v = (if LowercaseNormalize r then NormalizeLowercase (envUnicode E) v else v)"

lemma sealed_opens:
  assumes "sealed E c pr (Some v) new" "lawfulCipher c"
  shows "\<exists>st. new = Some st \<and> isEnvelope (envUnicode E) st
     \<and> Decrypt (envUnicode E) c st (AAD (envUnicode E) (prTable pr) (prColumn pr)) = Inr (normalized E (prRule pr) v)"
proof -
  from assms(1) obtain rnd st where st: "new = Some st"
    "Encrypt c rnd (ruleScheme (prRule pr)) (normalized E (prRule pr) v)
       (AAD (envUnicode E) (prTable pr) (prColumn pr)) = Inr st"
    by (auto simp: sealed_def encrypting_def normalized_def Let_def)
  obtain ct where "Parse (envUnicode E) st =
      Inr (Some \<lparr>envScheme = ruleScheme (prRule pr), envKeyVersion = keyVersion c, envCiphertext = ct\<rparr>)"
    using Parse_Encrypt [OF st(2)] by metis
  then have "isEnvelope (envUnicode E) st" by (simp add: isEnvelope_def)
  then show ?thesis using st Decrypt_Encrypt [OF assms(2) st(2)] by blast
qed

section \<open>A whole DataRow\<close>

definition rowSlot :: "Session \<times> bytes option list \<Rightarrow> nat \<Rightarrow> bytes option" where
  "rowSlot sr i = (if i < length (snd sr) then snd sr ! i else None)"

definition opened :: "env \<Rightarrow> Cipher \<Rightarrow> ReadField \<Rightarrow> bytes option \<Rightarrow> bytes option \<Rightarrow> bool" where
  "opened E c f old new \<longleftrightarrow>
     (case old of
        None \<Rightarrow> new = None
      | Some v \<Rightarrow> \<exists>pt. Decrypt (envUnicode E) c v (AAD (envUnicode E) (rfTable f) (rfColumn f)) = Inr pt \<and> new = Some pt)"

interpretation decp: slot_loop "decryptField E c" rfIndex rowSlot "opened E c" for E c
proof
  fix f sr sr' k
  assume ok: "decryptField E c f sr = (sr', None)"
  show "opened E c f (rowSlot sr (rfIndex f)) (rowSlot sr' (rfIndex f))"
    using ok by (auto simp: decryptField_def opened_def rowSlot_def Let_def
        split: if_splits option.splits sum.splits prod.splits)
  show "rowSlot sr' k = rowSlot sr k" if "k \<noteq> rfIndex f"
    using ok that by (auto simp: decryptField_def rowSlot_def Let_def
        split: if_splits option.splits sum.splits prod.splits)
qed

lemma decryptField_length: "length (snd (fst (decryptField E c f sr))) = length (snd sr)"
  by (cases sr) (simp add: decryptField_def Let_def split: option.split sum.split)

lemma decryptLoop_length:
  "forE (decryptField E c) fs sr = (sr', err) \<Longrightarrow> length (snd sr') = length (snd sr)"
  using forE_inv [of "\<lambda>x. length (snd x) = length (snd sr)" sr fs "decryptField E c"]
  by (simp add: decryptField_length)

lemma distinct_enumerated:
  assumes "\<And>i x. g (i, x) = [] \<or> (\<exists>f. g (i, x) = [f] \<and> idx f = i)"
  shows "distinct (map idx (concat (map g (enumerate n xs)))) \<and>
    (\<forall>f \<in> set (concat (map g (enumerate n xs))). n \<le> idx f)"
proof (induction xs arbitrary: n)
  case (Cons x xs)
  then show ?case
    using assms [of n x] Cons.IH [of "Suc n"] by (fastforce simp del: set_concat)
qed simp

lemma PlanRead_distinct: "distinct (map rfIndex (rpFields (PlanRead U p tables columns)))"
proof -
  have "readField U p tables (i, x) = [] \<or> (\<exists>f. readField U p tables (i, x) = [f] \<and> rfIndex f = i)" for i x
    by (simp add: readField_def Let_def split: prod.split)
  then show ?thesis
    using distinct_enumerated [of "readField U p tables" rfIndex 0 columns]
    by (simp add: PlanRead_eq emptyReadPlan_def)
qed

lemma ensureReadPlan_snd: "snd (ensureReadPlan E p s) = poReadPlan (portalAt (fst (ensureReadPlan E p s)) p)"
  by (simp add: ensureReadPlan_def Let_def)

lemma ensureReadPlan_distinct:
  assumes wf: "wfSession E s" and p: "p < length (portalHeap s)"
    and plan: "snd (ensureReadPlan E p s) = Some plan"
  shows "distinct (map rfIndex (rpFields plan))"
proof -
  let ?s = "fst (ensureReadPlan E p s)"
  have "p < length (portalHeap ?s)"
    using p by (simp add: ensureReadPlan_def setReadPlan_def setPortal_def Let_def split: option.split)
  then have "planFor E ?s (portalAt ?s p)"
    using wf_portal [OF ensureReadPlan_wf [OF wf]] by blast
  then obtain a cols where "planRead E ?s (stmtAt ?s a) cols = Some plan"
    using plan ensureReadPlan_snd by (auto simp: planFor_def)
  then show ?thesis by (auto simp: planRead_def PlanRead_distinct)
qed

lemma executing_valid: "wfSession E s \<Longrightarrow> CurrentExecuting s = Some p \<Longrightarrow> p < length (portalHeap s)"
  using wf_queues(1) [of E s]
  by (auto simp: CurrentExecuting_def wfEntry_def split: list.splits execEntry.splits)

lemma DecryptDataRow_fields:
  assumes wf: "wfSession E s" and ex: "CurrentExecuting s = Some p"
    and plan: "snd (ensureReadPlan E p s) = Some plan" and c: "cipher s = Some c"
    and ok: "DecryptDataRow E row s = ((s', row'), None)" and i: "i < length row"
  shows "length row' = length row"
    and "f \<in> set (rpFields plan) \<Longrightarrow> rfIndex f = i \<Longrightarrow> opened E c f (row ! i) (row' ! i)"
    and "i \<notin> rfIndex ` set (rpFields plan) \<Longrightarrow> row' ! i = row ! i"
proof -
  obtain s1 where e: "ensureReadPlan E p s = (s1, Some plan)" using plan by (cases "ensureReadPlan E p s") auto
  let ?s2 = "flagAmbiguousPassthrough E (Ambiguous plan) row s1"
  have "cipher s1 = cipher s"
    using e by (auto simp: ensureReadPlan_def setReadPlan_def setPortal_def Let_def split: option.splits if_splits)
  then have c2: "cipher ?s2 = Some c"
    using c by (simp add: flagAmbiguousPassthrough_def countPassthrough_def ensureReadPlan_def setReadPlan_def
        setPortal_def Let_def split: option.split)
  have empty: "row' = row" if "rpFields plan = []"
    using ok ex e that by (auto simp: DecryptDataRow_def Let_def split: if_splits)
  have loop: "forE (decryptField E c) (rpFields plan) (?s2, row) = ((s', row'), None)" if "rpFields plan \<noteq> []"
    using ok ex e c2 that by (auto simp: DecryptDataRow_def Let_def ReadPlan_IsEmpty_def split: if_splits)
  show len: "length row' = length row"
    using empty decryptLoop_length [OF loop] by (cases "rpFields plan = []") simp_all
  show "opened E c f (row ! i) (row' ! i)" if "f \<in> set (rpFields plan)" "rfIndex f = i"
    using that i len decp.loop_post [OF loop ensureReadPlan_distinct [OF wf executing_valid [OF wf ex] plan] that(1)]
    by (force simp: rowSlot_def)
  show "row' ! i = row ! i" if "i \<notin> rfIndex ` set (rpFields plan)"
    using that i len empty decp.loop_frame [OF loop that] by (cases "rpFields plan = []") (simp_all add: rowSlot_def)
qed

section \<open>Searches\<close>

lemma wildcard_ends:
  assumes "\<not> hasLikeWildcards t" and "t \<noteq> []"
  shows "hd t \<noteq> CHR ''%''" and "last t = CHR ''%'' \<Longrightarrow> 2 \<le> length t \<and> t ! (length t - 2) = CHR 0x5C"
proof -
  show "hd t \<noteq> CHR ''%''" using assms by (cases t rule: hasLikeWildcards.cases) (auto split: if_splits)
  have "t \<noteq> [] \<Longrightarrow> \<not> hasLikeWildcards t \<Longrightarrow> last t = CHR ''%'' \<Longrightarrow> 2 \<le> length t \<and> t ! (length t - 2) = CHR 0x5C"
  proof (induction t rule: hasLikeWildcards.induct)
    case (3 c d cs)
    show ?case
    proof (cases "c = CHR 0x5C")
      case True
      then show ?thesis using 3 by (cases "cs = []") (auto simp: nth_Cons' numeral_eq_Suc split: if_splits)
    next
      case False
      then show ?thesis using 3 by (auto simp: nth_Cons' split: if_splits)
    qed
  qed auto
  then show "last t = CHR ''%'' \<Longrightarrow> 2 \<le> length t \<and> t ! (length t - 2) = CHR 0x5C" using assms by blast
qed

text \<open>A search pattern for a term: the term, with a wildcard before it, after it, or on both sides.\<close>

definition searchPattern :: "bytes \<Rightarrow> bytes \<Rightarrow> bool" where
  "searchPattern pat t \<longleftrightarrow> pat \<in> {t, ''%'' @ t, t @ ''%'', ''%'' @ t @ ''%''}"

lemma stripOuterWildcards_pattern:
  assumes "searchPattern pat t" and "\<not> hasLikeWildcards t" and "t = [] \<or> last t \<noteq> CHR 0x5C"
  shows "stripOuterWildcards pat = t"
proof -
  have tr: "stripTrailing t = t"
    using wildcard_ends(2) [OF assms(2)] by (cases "t = []") (auto simp: stripTrailing_def)
  have tw: "stripTrailing (t @ ''%'') = t"
    using assms(3) by (cases "t = []") (auto simp: stripTrailing_def nth_append last_conv_nth)
  have "stripLeading (''%'' @ x) = x" for x by (simp add: stripLeading_def)
  moreover have "stripLeading t = t" using wildcard_ends(1) [OF assms(2)] by (auto simp: stripLeading_def)
  moreover have "stripOuterWildcards (t @ ''%'') = t"
    using wildcard_ends(1) [OF assms(2)] tw by (cases t) (simp_all add: stripOuterWildcards_def stripLeading_def stripTrailing_def)
  ultimately show ?thesis using assms(1) tr tw by (auto simp: searchPattern_def stripOuterWildcards_def)
qed

text \<open>The deterministic primitive ignores the nonce, so equal inputs give equal envelopes.\<close>

lemma Encrypt_deterministic:
  assumes "primitives c SchemeDeterministic = Some (DeterministicAEAD d)"
  shows "Encrypt c rnd SchemeDeterministic pt ad = Encrypt c rnd' SchemeDeterministic pt ad"
  using assms by (simp add: Encrypt_def DeterministicAEAD_def)

section \<open>Leak detection\<close>

lemma ensureReadPlan_metrics: "metrics (fst (ensureReadPlan E p s)) = metrics s"
  by (simp add: ensureReadPlan_def setReadPlan_def setPortal_def Let_def split: option.split)

text \<open>
  A row the proxy cannot open, with the label it is counted under and the values the detector looks at.
\<close>

inductive unopened :: "env \<Rightarrow> Session \<Rightarrow> bytes option list \<Rightarrow> string \<Rightarrow> bytes option list \<Rightarrow> bool" for E s row where
  noPortal: "CurrentExecuting s = None \<Longrightarrow> unopened E s row ''no-portal'' row"
| noPlan: "CurrentExecuting s = Some p \<Longrightarrow> snd (ensureReadPlan E p s) = None \<Longrightarrow> unopened E s row ''no-plan'' row"
| emptyPlan: "CurrentExecuting s = Some p \<Longrightarrow> snd (ensureReadPlan E p s) = Some plan \<Longrightarrow> rpFields plan = [] \<Longrightarrow>
     Ambiguous plan = [] \<Longrightarrow> unopened E s row ''empty-plan'' row"
| ambiguous: "CurrentExecuting s = Some p \<Longrightarrow> snd (ensureReadPlan E p s) = Some plan \<Longrightarrow> rpFields plan = [] \<Longrightarrow>
     Ambiguous plan \<noteq> [] \<Longrightarrow>
     unopened E s row ''ambiguous-column'' (map (\<lambda>f. row ! rfIndex f) (filter (\<lambda>f. rfIndex f < length row) (Ambiguous plan)))"

text \<open>Some value begins with the marker and is not an escaped plaintext.\<close>

definition marked :: "bytes option list \<Rightarrow> bool" where
  "marked vs \<longleftrightarrow> (\<exists>x \<in> set vs. case x of None \<Rightarrow> False | Some v \<Rightarrow> HasPrefix v sentinel \<and> \<not> HasPrefix v (sentinel @ escapeMarker))"

lemma looksEncrypted_marked: "looksEncrypted U v \<longleftrightarrow> HasPrefix v sentinel \<and> \<not> HasPrefix v (sentinel @ escapeMarker)"
  using Parse_plaintext_iff [of U v] by (auto simp: looksEncrypted_def isPlaintext_def split: sum.splits option.splits)

lemma flags_marked:
  "flagCiphertextLeak E reason row s = (if marked row then countPassthrough reason s else s)"
  "flagAmbiguousPassthrough E fs row s =
     (if marked (map (\<lambda>f. row ! rfIndex f) (filter (\<lambda>f. rfIndex f < length row) fs)) then countPassthrough ''ambiguous-column'' s else s)"
proof -
  have "list_ex (\<lambda>v. case v of None \<Rightarrow> False | Some x \<Rightarrow> looksEncrypted (envUnicode E) x) row = marked row"
    by (simp add: list_ex_iff marked_def looksEncrypted_marked cong: option.case_cong)
  then show "flagCiphertextLeak E reason row s = (if marked row then countPassthrough reason s else s)"
    by (simp add: flagCiphertextLeak_def)
  have "list_ex (\<lambda>f. rfIndex f < length row \<and> (case row ! rfIndex f of None \<Rightarrow> False | Some x \<Rightarrow> looksEncrypted (envUnicode E) x)) fs
      = marked (map (\<lambda>f. row ! rfIndex f) (filter (\<lambda>f. rfIndex f < length row) fs))"
    by (auto simp: list_ex_iff marked_def looksEncrypted_marked cong: option.case_cong)
  then show "flagAmbiguousPassthrough E fs row s =
     (if marked (map (\<lambda>f. row ! rfIndex f) (filter (\<lambda>f. rfIndex f < length row) fs)) then countPassthrough ''ambiguous-column'' s else s)"
    by (simp add: flagAmbiguousPassthrough_def)
qed

lemma unopened_row:
  assumes "unopened E s row reason vs"
  shows "\<exists>s0. metrics s0 = metrics s \<and> DecryptDataRow E row s = ((if marked vs then countPassthrough reason s0 else s0, row), None)"
proof -
  have m: "metrics (fst (ensureReadPlan E p s)) = metrics s" for p by (rule ensureReadPlan_metrics)
  show ?thesis
    using assms
  proof cases
    case noPortal
    then show ?thesis by (auto simp: DecryptDataRow_def flags_marked)
  next
    case (noPlan p)
    then show ?thesis using m [of p] by (auto simp: DecryptDataRow_def flags_marked prod_eq_iff split: prod.split)
  next
    case (emptyPlan p plan)
    then show ?thesis using m [of p] by (auto simp: DecryptDataRow_def flags_marked ReadPlan_IsEmpty_def prod_eq_iff split: prod.split)
  next
    case (ambiguous p plan)
    then show ?thesis using m [of p] by (auto simp: DecryptDataRow_def flags_marked ReadPlan_IsEmpty_def prod_eq_iff Let_def split: prod.split)
  qed
qed

end
