(* ===== verification/Example.thy ===== *)
theory Example
  imports TransformProps
begin

text \<open>
  A concrete deployment on which the properties are exercised: an instance of every
  parameter (Unicode tables, parser, AEADs, random source) that meets the laws the
  properties assume, and a session with one prepared INSERT and one prepared SELECT.
  The AEADs here prefix one byte of the associated data; they stand for the interface, not for its security.
\<close>

section \<open>Parameters\<close>

definition plainUnicode :: unicode where
  "plainUnicode = \<lparr>uniToUpper = id, uniToLower = id, uniIsPrint = (\<lambda>_. True)\<rparr>"

definition toySeal :: "bytes \<Rightarrow> bytes \<Rightarrow> bytes" where
  "toySeal pt ad = (if ad = [] then CHR ''0'' else last ad) # pt"

definition toyOpen :: "bytes \<Rightarrow> bytes \<Rightarrow> bytes result" where
  "toyOpen ct ad =
     (if ct \<noteq> [] \<and> hd ct = (if ad = [] then CHR ''0'' else last ad) then Inr (tl ct)
      else Inl (errorsNew ''aead: tag''))"

definition toyAEAD :: tinkAEAD where
  "toyAEAD = \<lparr>aeadEncrypt = (\<lambda>r pt ad. Inr (toySeal pt ad)), aeadDecrypt = toyOpen\<rparr>"

definition toyDAEAD :: tinkDAEAD where
  "toyDAEAD = \<lparr>EncryptDeterministically = (\<lambda>pt ad. Inr (toySeal pt ad)), DecryptDeterministically = toyOpen\<rparr>"

lemma toy_lawful: "lawfulAEAD toyAEAD" "lawfulDAEAD toyDAEAD"
  by (simp_all add: lawfulAEAD_def lawfulDAEAD_def toyAEAD_def toyDAEAD_def toySeal_def toyOpen_def)

definition exampleIndex :: BlindIndex where
  "exampleIndex = NewBlindIndex ''0123456789abcdef0123456789abcdef''"

definition exampleCipher :: Cipher where
  "exampleCipher =
     \<lparr>primitives = [SchemeDeterministic \<mapsto> DeterministicAEAD toyDAEAD,
                    SchemeNonDeterministic \<mapsto> NonDeterministicAEAD toyAEAD],
      cipherIndex = Some exampleIndex, keyVersion = 1\<rparr>"

lemma exampleCipher_lawful: "lawfulCipher exampleCipher"
  using gcm.build_lawful [OF toy_lawful(1)] siv.build_lawful [OF toy_lawful(2)]
  by (auto simp: lawfulCipher_def exampleCipher_def ran_def split: if_splits)

definition exampleInsert :: string where "exampleInsert = ''insert''"
definition exampleSelect :: string where "exampleSelect = ''select''"
definition exampleLiteral :: string where "exampleLiteral = ''literal''"

definition columnTarget :: "string \<Rightarrow> Node" where
  "columnTarget name = ResTarget name None []"

definition valuesRow :: "Node list \<Rightarrow> SelectStmt" where
  "valuesRow items = SelectStmt [] None None [] None [ListN items] [] []"

text \<open>
  \<^verbatim>\<open>INSERT INTO user_entity (id, email) VALUES ($1, $2)\<close>, the same with a
  literal email, and \<^verbatim>\<open>SELECT id, email FROM user_entity\<close>.
\<close>

definition insertTree :: Node where
  "insertTree = InsertN (InsertStmt ''user_entity'' [columnTarget ''id'', columnTarget ''email'']
     (Some (SelectN (valuesRow [ParamRef 1, ParamRef 2]))) [])"

definition literalTree :: Node where
  "literalTree = InsertN (InsertStmt ''user_entity'' [columnTarget ''id'', columnTarget ''email'']
     (Some (SelectN (valuesRow [ParamRef 1, OtherN ''A_Const'' []]))) [])"

definition selectTree :: Node where
  "selectTree = SelectN (SelectStmt [] None None [RangeVar ''user_entity'' []] None []
     [ResTarget [] (Some (ColumnRef [StringN ''id''])) [], ResTarget [] (Some (ColumnRef [StringN ''email''])) []] [])"

definition exampleParser :: pgquery where
  "exampleParser =
     \<lparr>pg_Parse = (\<lambda>sql.
        if sql = exampleInsert then Inr [\<lparr>rsStmt = Some insertTree, rsLocation = 0, rsLen = 0\<rparr>]
        else if sql = exampleLiteral then Inr [\<lparr>rsStmt = Some literalTree, rsLocation = 0, rsLen = 0\<rparr>]
        else if sql = exampleSelect then Inr [\<lparr>rsStmt = Some selectTree, rsLocation = 0, rsLen = 0\<rparr>]
        else Inl (errorsNew ''syntax error'')),
      pg_Deparse = (\<lambda>stmts. Inr ''rewritten'')\<rparr>"

definition exampleEnv :: env where
  "exampleEnv = \<lparr>envUnicode = plainUnicode, envParser = exampleParser, envRand = (\<lambda>n. [])\<rparr>"

definition emailFields :: FieldSet where
  "emailFields = SetColumn TableUserEntity ''EMAIL'' detRule NewFieldSet"

definition examplePlanner :: Planner where
  "examplePlanner = NewPlanner emailFields"

section \<open>A session\<close>

definition session0 :: Session where
  "session0 = NewSession examplePlanner (Some exampleCipher) 0 registeredMetrics"

definition parseInsert :: ParseMsg where "parseInsert = \<lparr>pmName = ''i'', pmQuery = exampleInsert\<rparr>"
definition parseSelect :: ParseMsg where "parseSelect = \<lparr>pmName = ''s'', pmQuery = exampleSelect\<rparr>"

definition bindInsert :: BindMsg where
  "bindInsert = \<lparr>DestinationPortal = '''', bmStatement = ''i'', ParameterFormatCodes = [],
     bmParameters = [Some ''7'', Some ''A@x''], bmSpare = [], ResultFormatCodes = []\<rparr>"

definition bindSelect :: BindMsg where
  "bindSelect = \<lparr>DestinationPortal = '''', bmStatement = ''s'', ParameterFormatCodes = [],
     bmParameters = [], bmSpare = [], ResultFormatCodes = []\<rparr>"

text \<open>After both statements are prepared.\<close>

definition session1 :: Session where
  "session1 = fst (fst (OnParse exampleEnv parseSelect (fst (fst (OnParse exampleEnv parseInsert session0)))))"

text \<open>After the SELECT is bound, described and executed, with its result shape known.\<close>

definition session2 :: Session where
  "session2 = OnRowDescription exampleEnv [''id'', ''email'']
     (OnExecute '''' (OnDescribe (CHR ''P'') '''' (OnBind bindSelect session1)))"

lemma session_wf: "wfSession exampleEnv session1" "wfSession exampleEnv session2"
  unfolding session1_def session2_def session0_def
  by (intro OnRowDescription_wf OnExecute_wf OnDescribe_wf OnBind_wf OnParse_wf NewSession_wf)+

definition insertRule :: ParamRule where
  "insertRule = \<lparr>prParam = 2, prTable = ''USER_ENTITY'', prColumn = ''EMAIL'', prRule = detRule\<rparr>"

definition insertPlan :: WritePlan where
  "insertPlan = emptyWritePlan\<lparr>wpParams := [insertRule]\<rparr>"

lemma insert_planned: "statements session1 ''i'' = Some 0" "psWritePlan (stmtAt session1 0) = Some insertPlan"
  by code_simp+

lemma OnParse_cipher: "cipher (fst (fst (OnParse E p s))) = cipher s"
  by (simp add: OnParse_def allocStmt_def split: sum.split)

lemma handlers_cipher:
  "cipher (OnBind b s) = cipher s" "cipher (OnExecute n s) = cipher s" "cipher (OnDescribe t n s) = cipher s"
  "cipher (OnRowDescription E cols s) = cipher s"
  by (simp_all add: OnBind_def OnExecute_def OnDescribe_def OnRowDescription_def allocPortal_def popDescribe_def
      learnFor_def learnColumns_def setReadPlan_def setPortal_def setStmt_def Let_def split: option.split)

lemma session_cipher: "cipher session1 = Some exampleCipher" "cipher session2 = Some exampleCipher"
  by (simp_all add: session1_def session2_def session0_def NewSession_def OnParse_cipher handlers_cipher)

definition storedEmail :: bytes where "storedEmail = ''$KKP$1.d.1.TGFAeA''"

lemma bind_example:
  "snd (EncryptBind exampleEnv bindInsert session1) = None"
  "bmParameters (snd (fst (EncryptBind exampleEnv bindInsert session1))) = [Some ''7'', Some storedEmail]"
  by code_simp+

lemma insert_separate: "separate insertPlan"
  by (simp add: separate_def touchedParams_def insertPlan_def emptyWritePlan_def)

lemma insert_values:
  "statements session1 (bmStatement bindInsert) = Some 0"
  "insertRule \<in> set (wpParams insertPlan)" "bmSpare bindInsert = []"
  "paramValue bindInsert (prParam insertRule) = Some ''A@x''"
  "normalized exampleEnv (prRule insertRule) ''A@x'' = ''a@x''"
proof -
  show "statements session1 (bmStatement bindInsert) = Some 0" by (simp add: bindInsert_def insert_planned)
  show "insertRule \<in> set (wpParams insertPlan)" by (simp add: insertPlan_def)
  show "bmSpare bindInsert = []" by (simp add: bindInsert_def)
  show "paramValue bindInsert (prParam insertRule) = Some ''A@x''" by code_simp
  show "normalized exampleEnv (prRule insertRule) ''A@x'' = ''a@x''" by code_simp
qed

definition emailField :: ReadField where
  "emailField = \<lparr>rfIndex = 1, rfTable = ''USER_ENTITY'', rfColumn = ''EMAIL''\<rparr>"

lemma select_planned:
  "CurrentExecuting session2 = Some 0"
  "snd (ensureReadPlan exampleEnv 0 session2) = Some \<lparr>rpFields = [emailField], Ambiguous = []\<rparr>"
  by code_simp+

lemma stored_opens:
  "Decrypt plainUnicode exampleCipher storedEmail (AAD plainUnicode ''USER_ENTITY'' ''EMAIL'') = Inr ''a@x''"
  by (rule Decrypt_Encrypt [OF exampleCipher_lawful, of "[]" SchemeDeterministic]) code_simp

lemma row_example: "snd (DecryptDataRow exampleEnv [Some ''7'', Some storedEmail] session2) = None"
proof -
  obtain t where e: "ensureReadPlan exampleEnv 0 session2 = (t, Some \<lparr>rpFields = [emailField], Ambiguous = []\<rparr>)"
    using select_planned(2) by (cases "ensureReadPlan exampleEnv 0 session2") auto
  then have "cipher t = Some exampleCipher"
    using session_cipher(2) by (auto simp: ensureReadPlan_def setReadPlan_def setPortal_def Let_def split: option.splits if_splits)
  then show ?thesis
    using e select_planned(1) stored_opens
    by (simp add: DecryptDataRow_def ReadPlan_IsEmpty_def flagAmbiguousPassthrough_def decryptField_def
        emailField_def exampleEnv_def Let_def)
qed

end
