(* ===== verification/CryptoProps.thy ===== *)
theory CryptoProps
  imports Example
begin

text \<open>
  Properties of \<^verbatim>\<open>internal/crypto\<close> and of the field sets of
  \<^verbatim>\<open>internal/config\<close>: the envelope format, the cipher facade, the blind
  index and the configured rules.
\<close>

section \<open>Envelopes\<close>

text \<open>
  C28. Parsing inverts marshalling: whatever envelope the code can write, reading the text
  back yields the same scheme, key version and ciphertext, and every text the parser
  accepts as an envelope names one of the two known schemes.
\<close>

theorem envelope_roundtrip:
  "(Marshal e = Inr s \<longrightarrow> Parse U s = Inr (Some e))
   \<and> ((\<exists>s. Marshal e = Inr s) \<longleftrightarrow> knownScheme (envScheme e))
   \<and> (Parse U t = Inr (Some e') \<longrightarrow> knownScheme (envScheme e') \<and> HasPrefix t sentinel)"
proof (intro conjI)
  show "Marshal e = Inr s \<longrightarrow> Parse U s = Inr (Some e)" using Parse_Marshal by simp
  show "(\<exists>s. Marshal e = Inr s) \<longleftrightarrow> knownScheme (envScheme e)" unfolding Marshal_cases by simp
  show "Parse U t = Inr (Some e') \<longrightarrow> knownScheme (envScheme e') \<and> HasPrefix t sentinel"
    using Parse_scheme Parse_marked by simp
qed

definition exampleEnvelope :: Envelope where
  "exampleEnvelope = \<lparr>envScheme = SchemeDeterministic, envKeyVersion = 7, envCiphertext = ''abc''\<rparr>"

theorem envelope_roundtrip_witness:
  "Parse plainUnicode ''$KKP$1.d.7.YWJj'' = Inr (Some exampleEnvelope)"
proof -
  have "Marshal exampleEnvelope = Inr ''$KKP$1.d.7.YWJj''" by code_simp
  then show ?thesis using envelope_roundtrip [of exampleEnvelope "''$KKP$1.d.7.YWJj''" plainUnicode] by blast
qed

text \<open>
  User text is never taken for an envelope: an escaped value parses as plaintext, and
  unescaping or decrypting it returns the original bytes, whatever they are.
\<close>

theorem escape_roundtrip:
  "Parse U (Escape p) = Inr None \<and> Unescape (Escape p) = p \<and> Decrypt U c (Escape p) ad = Inr p"
  by (simp add: Parse_plaintext_iff isPlaintext_Escape Unescape_Escape Decrypt_Escape)

section \<open>The cipher\<close>

text \<open>
  A cipher built by the constructor from a deterministic and a non-deterministic
  primitive decrypts what it encrypts, under either scheme and for every associated data;
  the constructor accepts these two primitives.
\<close>

theorem cipher_roundtrip:
  assumes "lawfulDAEAD d" and "lawfulAEAD g"
    and "NewCipher kv idx [Some (DeterministicAEAD d), Some (NonDeterministicAEAD g)] = Inr c"
    and "Encrypt c rnd scheme pt ad = Inr s"
  shows "Decrypt U c s ad = Inr pt \<and> keyVersion c = kv \<and> knownScheme scheme"
proof -
  have "ran (primitives c) = {p. Some p \<in> set [Some (DeterministicAEAD d), Some (NonDeterministicAEAD g)]}"
    using NewCipher_Inr(4) [OF assms(3)] .
  then have "lawfulCipher c"
    using siv.build_lawful [OF assms(1)] gcm.build_lawful [OF assms(2)] by (auto simp: lawfulCipher_def)
  moreover have "knownScheme scheme" using assms(4) by (auto simp: Encrypt_Inr Marshal_cases)
  ultimately show ?thesis using Decrypt_Encrypt [OF _ assms(4)] NewCipher_Inr(2) [OF assms(3)] by simp
qed

theorem cipher_roundtrip_witness:
  "\<exists>c s. NewCipher 3 None [Some (DeterministicAEAD toyDAEAD), Some (NonDeterministicAEAD toyAEAD)] = Inr c
     \<and> Encrypt c [] SchemeNonDeterministic ''hi'' ''T.C'' = Inr s \<and> Decrypt plainUnicode c s ''T.C'' = Inr ''hi''"
proof -
  let ?ps = "[Some (DeterministicAEAD toyDAEAD), Some (NonDeterministicAEAD toyAEAD)]"
  obtain c where c: "NewCipher 3 None ?ps = Inr c"
    by (auto simp: NewCipher_def siv.build_scheme gcm.build_scheme SchemeDeterministic_def SchemeNonDeterministic_def)
  then have "primitives c SchemeNonDeterministic = Some (NonDeterministicAEAD toyAEAD)"
    by (auto simp: NewCipher_def siv.build_scheme gcm.build_scheme SchemeDeterministic_def SchemeNonDeterministic_def)
  then obtain s where s: "Encrypt c [] SchemeNonDeterministic ''hi'' ''T.C'' = Inr s"
    by (auto simp: Encrypt_Inr Marshal_cases knownScheme_def NonDeterministicAEAD_def toyAEAD_def)
  show ?thesis using cipher_roundtrip [OF toy_lawful(2,1) c s, of plainUnicode] c s by blast
qed

text \<open>
  C29. Decryption in full: it succeeds exactly on plaintext (no marker, or an escaped one), which it
  returns less its escape, and on a well-formed envelope of the cipher's key version that the primitive
  of its scheme opens; a marked text yields only what the primitive opens it to. Every failure says why: a marked text that
  is no envelope is a malformed envelope, an unsupported format or an unknown scheme; an envelope
  fails by key version, by a missing primitive, or with the primitive's own error. The grammar
  \<open>envelopeText\<close> of envelopes is independent of the parser.
\<close>

theorem decrypt_exact:
  "(Decrypt U c s ad = Inr pt \<longleftrightarrow>
      isPlaintext s \<and> pt = Unescape s
      \<or> (\<exists>env p. envelopeText s env \<and> envKeyVersion env = keyVersion c \<and> primitives c (envScheme env) = Some p
           \<and> primDecrypt p (envCiphertext env) ad = Inr pt))
   \<and> (Decrypt U c s ad = Inl e \<longrightarrow>
      \<not> isPlaintext s \<and> (\<nexists>env. envelopeText s env)
        \<and> (errorsIs e ErrMalformedEnvelope \<or> errorsIs e ErrUnsupportedFormat \<or> errorsIs e ErrUnknownScheme)
      \<or> (\<exists>env. envelopeText s env
           \<and> (if envKeyVersion env \<noteq> keyVersion c then errorsIs e ErrKeyVersionMismatch
              else case primitives c (envScheme env) of
                None \<Rightarrow> errorsIs e ErrUnknownScheme
              | Some p \<Rightarrow> \<exists>err. primDecrypt p (envCiphertext env) ad = Inl err \<and> errorsIs e err)))"
proof (cases "Parse U s")
  case (Inl err)
  then have "\<not> isPlaintext s" "\<nexists>env. envelopeText s env"
    using Parse_plaintext_iff [of U s] Parse_envelopeText [of U s] by auto
  then show ?thesis using Inl Parse_error [OF Inl] by (auto simp: Decrypt_def)
next
  case (Inr r)
  show ?thesis
  proof (cases r)
    case None
    then have "isPlaintext s" "\<nexists>env. envelopeText s env"
      using Inr Parse_plaintext_iff [of U s] Parse_envelopeText [of U s] by auto
    then show ?thesis using Decrypt_plaintext [of s U c ad] by auto
  next
    case (Some env)
    then have "\<not> isPlaintext s" and env: "envelopeText s env' \<longleftrightarrow> env' = env" for env'
      using Inr Parse_plaintext_iff [of U s] Parse_envelopeText [of U s env', symmetric] by auto
    then show ?thesis using Inr Some by (auto simp: Decrypt_def split: option.split sum.split)
  qed
qed

theorem decrypt_exact_witness:
  "(\<exists>e. Decrypt plainUnicode exampleCipher ''$KKP$1.d.7.YWJj'' [] = Inl e \<and> errorsIs e ErrKeyVersionMismatch)
   \<and> (\<exists>e. Decrypt plainUnicode exampleCipher ''$KKP$bad'' [] = Inl e
        \<and> (errorsIs e ErrMalformedEnvelope \<or> errorsIs e ErrUnsupportedFormat \<or> errorsIs e ErrUnknownScheme))"
proof -
  have "Marshal exampleEnvelope = Inr ''$KKP$1.d.7.YWJj''" by code_simp
  then have env: "envelopeText ''$KKP$1.d.7.YWJj'' env \<longleftrightarrow> env = exampleEnvelope" for env
    using Parse_Marshal [of exampleEnvelope "''$KKP$1.d.7.YWJj''" plainUnicode]
      Parse_envelopeText [of plainUnicode "''$KKP$1.d.7.YWJj''" env, symmetric] by auto
  have v: "envKeyVersion exampleEnvelope \<noteq> keyVersion exampleCipher" by (simp add: exampleEnvelope_def exampleCipher_def)
  have p: "\<not> isPlaintext ''$KKP$1.d.7.YWJj''" "\<not> isPlaintext ''$KKP$bad''" by code_simp+
  have b: "\<not> envelopeText ''$KKP$bad'' env" for env using envelopeText_dot [of "''$KKP$bad''" env] by auto
  let ?d = "Decrypt plainUnicode exampleCipher ''$KKP$1.d.7.YWJj'' []" and ?b = "Decrypt plainUnicode exampleCipher ''$KKP$bad'' []"
  have "?d \<noteq> Inr pt" "?b \<noteq> Inr pt" for pt
    using decrypt_exact [of plainUnicode exampleCipher "''$KKP$1.d.7.YWJj''" "[]" pt]
      decrypt_exact [of plainUnicode exampleCipher "''$KKP$bad''" "[]" pt] by (simp_all add: env v p b)
  then obtain e f where e: "?d = Inl e" "?b = Inl f" by (cases ?d; cases ?b) auto
  then show ?thesis
    using decrypt_exact [of plainUnicode exampleCipher "''$KKP$1.d.7.YWJj''" "[]" "[]" e]
      decrypt_exact [of plainUnicode exampleCipher "''$KKP$bad''" "[]" "[]" f] by (simp add: env v p b)
qed
section \<open>The blind index\<close>

text \<open>
  The blind index separates columns: the bytes that are MACed determine both the
  associated data and the value, so two columns cannot share an input by concatenation; a
  hash is always 64 hexadecimal digits.
\<close>

theorem blind_index_framing:
  assumes "length ad < 2 ^ 32" and "length ad' < 2 ^ 32"
  shows "(macInput ad pt = macInput ad' pt' \<longleftrightarrow> ad = ad' \<and> pt = pt')
     \<and> (\<exists>h. Compute bi pt ad = Inr h \<and> length h = 64)"
  using macInput_inject [OF _ assms] assms(1) by (auto simp: Compute_def hexEncode_length hmacSHA256_length)

theorem blind_index_framing_witness:
  "macInput ''T.CA'' ''x'' \<noteq> macInput ''T.C'' ''Ax''"
  using blind_index_framing [of "''T.CA''" "''T.C''" "''x''" "''Ax''"] by simp

section \<open>Field sets\<close>

text \<open>
  Every configuration value the proxy accepts yields a well-formed field set: one rule
  per column and table, known schemes only, and a blind index only on a deterministic,
  lower-cased column.
\<close>

lemma selectFields_pii:
  assumes "selectFields U value = Inr fs"
  shows "piiFieldSet fs"
proof -
  have known: "knownScheme SchemeDeterministic" "knownScheme SchemeNonDeterministic"
    by (simp_all add: knownScheme_def)
  have "fs \<in> {DefaultFields, NewFieldSet, SetColumn TableUserEntity ''EMAIL'' detRule NewFieldSet,
      SetColumn TableUserEntity ''EMAIL'' (detRule\<lparr>ruleBlindIndex := ''EMAIL_HASH''\<rparr>) NewFieldSet}"
    using assms by (auto simp: selectFields_def split: if_splits)
  then show ?thesis
    by (auto simp: piiFieldSet_def wfFieldSet_def DefaultFields_def NewFieldSet_def SetColumn_def
        SetAttributePolicy_def TableUserEntity_def TableCredential_def TableUserAttribute_def okRule_def
        detRule_def nondetRule_def known)
qed

lemma selectFields_accepts:
  "(\<exists>fs. selectFields U value = Inr fs) \<longleftrightarrow> value \<in> {[], FieldsDisabled, FieldsEmailOnly, FieldsEmailOnlyBlindIndex}"
  by (auto simp: selectFields_def)

text \<open>
  The enumeration of the configured columns, which drives the backfill, does not depend
  on map iteration order: it is sorted, lists exactly the configured rules, and two field
  sets with the same contents enumerate identically.
\<close>

theorem Columns_deterministic:
  assumes "wfFieldSet fs" and "wfFieldSet gs" and "\<And>t c. ColumnRule fs t c = ColumnRule gs t c"
  shows "Columns fs = Columns gs \<and> sorted (map fst (Columns fs))
     \<and> ((ColumnKey t c, r) \<in> set (Columns fs) \<longleftrightarrow> ColumnRule fs t c = Some r)"
  using Columns_cong [OF assms] Columns_sorted Columns_lookup [OF assms(1)] by blast

theorem Columns_deterministic_witness:
  "Columns (SetColumn ''A'' ''x'' detRule (SetColumn ''B'' ''y'' nondetRule NewFieldSet)) =
   Columns (SetColumn ''B'' ''y'' nondetRule (SetColumn ''A'' ''x'' detRule NewFieldSet))"
  using Columns_deterministic [of "SetColumn ''A'' ''x'' detRule (SetColumn ''B'' ''y'' nondetRule NewFieldSet)"
      "SetColumn ''B'' ''y'' nondetRule (SetColumn ''A'' ''x'' detRule NewFieldSet)"]
  by (simp add: SetColumn_wf ColumnRule_SetColumn)

end
