(* ===== verification/AnalyzeProps.thy ===== *)
theory AnalyzeProps
  imports BlindIndexSQL
begin

text \<open>
  What a statement says, read off its tree without the analysis: the relations named in the FROM
  clauses of a SELECT (\<open>selSources\<close>, through set-operation arms, joins and sub-selects in FROM), the
  assignments and the equality comparisons of a statement, and the rewriting of a condition as a
  relation. For a SELECT without CTEs the collector reports exactly the first occurrences of
  \<open>selSources\<close> up to case, and these are all the relations of the tree when none is named outside FROM;
  for every SELECT it reports only range variables of the tree, once each.
\<close>

section \<open>Relations named in FROM\<close>

text \<open>A node read as a FROM item, and read as a sub-query.\<close>

primrec nodeSources :: "Node \<Rightarrow> string list \<times> string list"
  and selSources :: "SelectStmt \<Rightarrow> string list"
  and insSources :: "InsertStmt \<Rightarrow> string list"
  and updSources :: "UpdateStmt \<Rightarrow> string list"
  and delSources :: "DeleteStmt \<Rightarrow> string list" where
  "nodeSources (ParamRef i) = ([], [])"
| "nodeSources (FuncCall f a r) = ([], [])"
| "nodeSources (ColumnRef f) = ([], [])"
| "nodeSources (StringN s) = ([], [])"
| "nodeSources (BoolExpr b a) = ([], [])"
| "nodeSources (A_Expr k n l r) = ([], [])"
| "nodeSources (ResTarget n v r) = ([], [])"
| "nodeSources (RangeVar n r) = ([n], [])"
| "nodeSources (JoinExpr l r x) =
     (case_option [] fst (map_option nodeSources l) @ case_option [] fst (map_option nodeSources r), [])"
| "nodeSources (RangeSubselect q r) = (case_option [] snd (map_option nodeSources q), [])"
| "nodeSources (CommonTableExpr n q r) = ([], [])"
| "nodeSources (ListN l) = ([], [])"
| "nodeSources (SelectN s) = ([], selSources s)"
| "nodeSources (InsertN i) = ([], [])"
| "nodeSources (UpdateN u) = ([], [])"
| "nodeSources (DeleteN d) = ([], [])"
| "nodeSources (OtherN t c) = ([], [])"
| "selSources (SelectStmt w l r f wh v t x) =
     case_option [] id (map_option selSources l) @ case_option [] id (map_option selSources r)
     @ concat (map fst (map nodeSources f))"
| "insSources (InsertStmt n c s r) = []"
| "updSources (UpdateStmt n t w r) = []"
| "delSources (DeleteStmt n w r) = []"

definition itemSources :: "Node option \<Rightarrow> string list" where
  "itemSources n = (case n of None \<Rightarrow> [] | Some m \<Rightarrow> fst (nodeSources m))"

definition optSources :: "SelectStmt option \<Rightarrow> string list" where
  "optSources s = (case s of None \<Rightarrow> [] | Some t \<Rightarrow> selSources t)"

definition addName :: "unicode \<Rightarrow> tableCollector \<Rightarrow> string \<Rightarrow> tableCollector" where
  "addName U c name =
     (if name = [] \<or> tcSeen c (ToUpper U name) then c
      else c\<lparr>tcSeen := (tcSeen c)(ToUpper U name := True), tcTables := tcTables c @ [name]\<rparr>)"

lemma selSources_eq:
  "selSources s = optSources (selLarg s) @ optSources (selRarg s) @ concat (map (\<lambda>n. itemSources (Some n)) (selFrom s))"
  by (cases s) (simp add: optSources_def itemSources_def comp_def split: option.split)

lemma itemSources_simps:
  "itemSources (Some (RangeVar n ns)) = [n]"
  "itemSources (Some (JoinExpr l r ns)) = itemSources l @ itemSources r"
  "itemSources (Some (RangeSubselect q ns)) = optSources (GetSelectStmt q)"
proof -
  show "itemSources (Some (RangeSubselect q ns)) = optSources (GetSelectStmt q)"
  proof (cases q)
    case (Some m)
    then show ?thesis by (cases m) (simp_all add: itemSources_def optSources_def GetSelectStmt_def)
  qed (simp add: itemSources_def optSources_def GetSelectStmt_def)
qed (simp_all add: itemSources_def split: option.split)

section \<open>Statements without CTEs\<close>

definition noCTE :: "Node list \<Rightarrow> bool" where
  "noCTE ns \<longleftrightarrow> cteNamesIn ns = []"

lemma noCTE_mono: "set ms \<subseteq> set ns \<Longrightarrow> noCTE ns \<Longrightarrow> noCTE ms"
  by (auto simp: noCTE_def cteNamesIn_def subset_iff)

lemma noCTE_scope:
  assumes "noCTE (selSub s)"
  shows "extendCTEScope U Map.empty (selWith s) = Map.empty"
proof -
  have "\<nexists>name q r. w = CommonTableExpr name q r" if "w \<in> set (selWith s)" for w
  proof
    assume "\<exists>name q r. w = CommonTableExpr name q r"
    then obtain name q r where w: "w = CommonTableExpr name q r" by blast
    have "w \<in> set (selSub s)" using sel_parts(2) [OF that] nodeSub_self [of w] by blast
    then show False using assms w cteNamesIn_mem [of name q r "selSub s"] by (simp add: noCTE_def)
  qed
  then have "foldl (\<lambda>scope node. case node of
          CommonTableExpr name q x \<Rightarrow> (case GetSelectStmt q of None \<Rightarrow> scope | Some s \<Rightarrow> scope(ToUpper U name \<mapsto> s))
        | _ \<Rightarrow> scope) m ws = m" if "set ws \<subseteq> set (selWith s)" for ws and m :: cteScope
    using that by (induction ws arbitrary: m) (auto split: Node.splits)
  then show ?thesis by (simp add: extendCTEScope_def)
qed

lemma addRelation_base: "addRelation U (Suc f) name Map.empty c = Some (addName U c name)"
  by (simp add: addName_def Let_def)

lemma foldO_foldl:
  assumes "\<And>x c c'. x \<in> set xs \<Longrightarrow> g c x = Some c' \<Longrightarrow> c' = foldl h c (r x)"
  shows "foldO g c xs = Some c' \<Longrightarrow> c' = foldl h c (concat (map r xs))"
  using assms
proof (induction xs arbitrary: c)
  case (Cons x xs)
  then obtain d where d: "g c x = Some d" "foldO g d xs = Some c'" by (auto simp: bind_eq_Some_conv)
  then show ?case using Cons.IH [OF d(2)] Cons.prems(2) by (metis concat.simps(2) foldl_append list.map(2) list.set_intros)
qed simp

text \<open>The walk, whenever its fuel suffices, adds the reference list name by name.\<close>

lemma walk_reads:
  "(\<forall>s. (\<forall>t. s = Some t \<longrightarrow> noCTE (selSub t)) \<longrightarrow> walkSelect U f s Map.empty c = Some c' \<longrightarrow>
      c' = foldl (addName U) c (optSources s))
   \<and> (\<forall>n. (\<forall>m. n = Some m \<longrightarrow> noCTE (nodeSub m)) \<longrightarrow> walkFromItem U f n Map.empty c = Some c' \<longrightarrow>
      c' = foldl (addName U) c (itemSources n))
   \<and> (\<forall>name. addRelation U f name Map.empty c = Some c' \<longrightarrow> c' = addName U c name)"
proof (induction f arbitrary: c c')
  case (Suc f)
  have sel: "c' = foldl (addName U) c (optSources s)"
    if "\<And>t. s = Some t \<Longrightarrow> noCTE (selSub t)" "walkSelect U f s Map.empty c = Some c'" for s c c'
    using Suc that by blast
  have item: "c' = foldl (addName U) c (itemSources n)"
    if "\<And>m. n = Some m \<Longrightarrow> noCTE (nodeSub m)" "walkFromItem U f n Map.empty c = Some c'" for n c c'
    using Suc that by blast
  have rel: "c' = addName U c name" if "addRelation U f name Map.empty c = Some c'" for name c c'
    using Suc that by blast
  have S: "c' = foldl (addName U) c (selSources s)"
    if no: "noCTE (selSub s)" and w: "walkSelect U (Suc f) (Some s) Map.empty c = Some c'" for s
  proof -
    from w noCTE_scope [OF no, of U] obtain c1 c2 where
      c1: "walkSelect U f (selLarg s) Map.empty c = Some c1" and
      c2: "walkSelect U f (selRarg s) Map.empty c1 = Some c2" and
      c3: "foldO (\<lambda>c' item. walkFromItem U f (Some item) Map.empty c') c2 (selFrom s) = Some c'"
      by (auto simp: bind_eq_Some_conv Let_def)
    have "c1 = foldl (addName U) c (optSources (selLarg s))"
      by (rule sel [OF _ c1]) (use no noCTE_mono sel_parts(3) in blast)
    moreover have "c2 = foldl (addName U) c1 (optSources (selRarg s))"
      by (rule sel [OF _ c2]) (use no noCTE_mono sel_parts(4) in blast)
    moreover have "c' = foldl (addName U) c2 (concat (map (\<lambda>n. itemSources (Some n)) (selFrom s)))"
    proof (rule foldO_foldl [OF _ c3])
      fix x d d' assume "x \<in> set (selFrom s)" "walkFromItem U f (Some x) Map.empty d = Some d'"
      then show "d' = foldl (addName U) d (itemSources (Some x))"
        using no noCTE_mono sel_parts(1) by (intro item) blast+
    qed
    ultimately show ?thesis by (simp add: selSources_eq)
  qed
  have I: "c' = foldl (addName U) c (itemSources (Some n))"
    if no: "noCTE (nodeSub n)" and w: "walkFromItem U (Suc f) (Some n) Map.empty c = Some c'" for n
  proof (cases n)
    case (RangeVar relname r)
    then show ?thesis using w rel by (simp add: itemSources_simps)
  next
    case (JoinExpr l r x)
    then obtain c1 where c1: "walkFromItem U f l Map.empty c = Some c1" "walkFromItem U f r Map.empty c1 = Some c'"
      using w by (auto simp: bind_eq_Some_conv)
    have sub: "noCTE (nodeSub m)" if "l = Some m \<or> r = Some m" for m
      using that by (intro noCTE_mono [OF _ no]) (auto simp: JoinExpr)
    have "c1 = foldl (addName U) c (itemSources l)" by (rule item [OF _ c1(1)]) (simp add: sub)
    moreover have "c' = foldl (addName U) c1 (itemSources r)" by (rule item [OF _ c1(2)]) (simp add: sub)
    ultimately show ?thesis by (simp add: JoinExpr itemSources_simps)
  next
    case (RangeSubselect q r)
    have "noCTE (selSub t)" if "GetSelectStmt q = Some t" for t
      using that by (intro noCTE_mono [OF _ no]) (auto simp: RangeSubselect)
    then show ?thesis using w sel [of "GetSelectStmt q" c c'] by (simp add: RangeSubselect itemSources_simps)
  qed (use w in \<open>simp_all add: itemSources_def\<close>)
  have A: "c' = addName U c name" if "addRelation U (Suc f) name Map.empty c = Some c'" for name
    using that addRelation_base by simp
  show ?case using S I A
    by (auto simp: optSources_def itemSources_def split: option.splits)
qed simp

lemma selectTables_reads:
  assumes "noCTE (selSub sel)"
  shows "selectTables U sel = tcTables (foldl (addName U) emptyCollector (selSources sel))"
proof -
  obtain c where c: "walkSelect U (selectFuel sel) (Some sel) Map.empty emptyCollector = Some c"
    "selectTables U sel = tcTables c"
    using selectTables_total [of U sel] by blast
  then have "c = foldl (addName U) emptyCollector (optSources (Some sel))"
    using walk_reads [of U "selectFuel sel" emptyCollector c] assms by blast
  then show ?thesis using c(2) by (simp add: optSources_def)
qed

section \<open>All statements\<close>

definition rangeNames :: "Node list \<Rightarrow> string set" where
  "rangeNames R = {n. \<exists>ns. RangeVar n ns \<in> set R}"

text \<open>What the collector holds at any time: range variables of the tree, each once.\<close>

definition collected :: "unicode \<Rightarrow> Node list \<Rightarrow> tableCollector \<Rightarrow> bool" where
  "collected U R c \<longleftrightarrow>
     distinct (map (ToUpper U) (tcTables c)) \<and> [] \<notin> set (tcTables c)
     \<and> (\<forall>k. tcSeen c k \<longleftrightarrow> k \<in> ToUpper U ` set (tcTables c))
     \<and> set (tcTables c) \<subseteq> rangeNames R"

lemma collected_active [simp]: "collected U R (c\<lparr>tcActive := a\<rparr>) = collected U R c"
  by (simp add: collected_def)

lemma collected_add:
  assumes "collected U R c" "name \<in> rangeNames R" "name \<noteq> []" "\<not> tcSeen c (ToUpper U name)"
  shows "collected U R (c\<lparr>tcSeen := (tcSeen c)(ToUpper U name := True), tcTables := tcTables c @ [name]\<rparr>)"
  using assms by (auto simp: collected_def)

lemma foldO_inv:
  assumes "\<And>x c c'. x \<in> set xs \<Longrightarrow> I c \<Longrightarrow> g c x = Some c' \<Longrightarrow> I c'"
  shows "foldO g c xs = Some c' \<Longrightarrow> I c \<Longrightarrow> I c'"
  using assms by (induction xs arbitrary: c) (auto simp: bind_eq_Some_conv)

lemma walk_collected:
  assumes "collected U R c" "scopeIn U R ctes"
  shows "(\<forall>s. (\<forall>t. s = Some t \<longrightarrow> inTree R (selSub t)) \<longrightarrow> walkSelect U f s ctes c = Some c' \<longrightarrow> collected U R c')
   \<and> (\<forall>n. (\<forall>m. n = Some m \<longrightarrow> inTree R (nodeSub m)) \<longrightarrow> walkFromItem U f n ctes c = Some c' \<longrightarrow> collected U R c')
   \<and> (\<forall>name \<in> rangeNames R. addRelation U f name ctes c = Some c' \<longrightarrow> collected U R c')"
  using assms
proof (induction f arbitrary: ctes c c')
  case (Suc f)
  have sel: "collected U R c'"
    if "collected U R c" "scopeIn U R ctes" "\<And>t. s = Some t \<Longrightarrow> inTree R (selSub t)" "walkSelect U f s ctes c = Some c'"
    for s ctes c c' using Suc.IH [OF that(1,2)] that(3,4) by blast
  have item: "collected U R c'"
    if "collected U R c" "scopeIn U R ctes" "\<And>m. n = Some m \<Longrightarrow> inTree R (nodeSub m)" "walkFromItem U f n ctes c = Some c'"
    for n ctes c c' using Suc.IH [OF that(1,2)] that(3,4) by blast
  have part: "inTree R ns" if "inTree R ms" "set ns \<subseteq> set ms" "length ns \<le> length ms" for ns ms
    using that by (auto simp: inTree_def)
  note c = Suc.prems(1) and sc = Suc.prems(2)
  have S: "collected U R c'" if s: "inTree R (selSub s)" and w: "walkSelect U (Suc f) (Some s) ctes c = Some c'" for s
  proof -
    let ?ctes = "extendCTEScope U ctes (selWith s)"
    have sc': "scopeIn U R ?ctes" using sc s by (rule scopeIn_extend)
    from w obtain c1 c2 where w1: "walkSelect U f (selLarg s) ?ctes c = Some c1"
      and w2: "walkSelect U f (selRarg s) ?ctes c1 = Some c2"
      and w3: "foldO (\<lambda>c' item. walkFromItem U f (Some item) ?ctes c') c2 (selFrom s) = Some c'"
      by (auto simp: bind_eq_Some_conv Let_def)
    have "collected U R c1" by (rule sel [OF c sc' _ w1]) (meson part s sel_parts(3) less_imp_le)
    then have "collected U R c2" by (rule sel [OF _ sc' _ w2]) (meson part s sel_parts(4) less_imp_le)
    then show ?thesis
      by (rule foldO_inv [OF _ w3, rotated]) (rule item [OF _ sc'], simp_all, meson part s sel_parts(1) less_imp_le)
  qed
  have I: "collected U R c'" if n: "inTree R (nodeSub n)" and w: "walkFromItem U (Suc f) (Some n) ctes c = Some c'" for n
  proof (cases n)
    case (RangeVar relname ns)
    then have "relname \<in> rangeNames R" using n by (auto simp: inTree_def rangeNames_def)
    moreover have "addRelation U f relname ctes c = Some c'" using w by (simp add: RangeVar)
    ultimately show ?thesis using Suc.IH [OF c sc] by blast
  next
    case (JoinExpr l r x)
    then obtain c1 where w1: "walkFromItem U f l ctes c = Some c1" and w2: "walkFromItem U f r ctes c1 = Some c'"
      using w by (auto simp: bind_eq_Some_conv)
    have sub: "inTree R (nodeSub m)" if "l = Some m \<or> r = Some m" for m
      using that by (intro part [OF n]) (auto simp: JoinExpr)
    have "collected U R c1" by (rule item [OF c sc _ w1]) (simp add: sub)
    then show ?thesis by (rule item [OF _ sc _ w2]) (simp add: sub)
  next
    case (RangeSubselect q r)
    have "inTree R (selSub t)" if "GetSelectStmt q = Some t" for t
      using that by (intro part [OF n]) (auto simp: RangeSubselect)
    then show ?thesis using w by (intro sel [OF c sc, of "GetSelectStmt q"]) (simp_all add: RangeSubselect)
  qed (use w c in simp_all)
  have A: "collected U R c'" if nm: "name \<in> rangeNames R" and w: "addRelation U (Suc f) name ctes c = Some c'" for name
  proof (cases "name = []")
    case True
    then show ?thesis using w c by simp
  next
    case False
    show ?thesis
    proof (cases "ctes (ToUpper U name)")
      case None
      then show ?thesis using w False c nm by (auto simp: Let_def collected_add split: if_splits)
    next
      case (Some q)
      then have q: "inTree R (selSub q)" using sc by (auto simp: scopeIn_def)
      from w Some False obtain d where "c' = c \<or>
          walkSelect U f (Some q) ctes (c\<lparr>tcActive := (tcActive c)(ToUpper U name := True)\<rparr>) = Some d
          \<and> c' = d\<lparr>tcActive := (tcActive d)(ToUpper U name := False)\<rparr>"
        by (auto simp: Let_def bind_eq_Some_conv split: if_splits)
      then show ?thesis using c q sel [OF _ sc, of "c\<lparr>tcActive := (tcActive c)(ToUpper U name := True)\<rparr>" "Some q" d] by auto
    qed
  qed
  show ?case using S I A c by (auto split: option.splits)
qed simp

lemma selectTables_collected:
  "distinct (map (ToUpper U) (selectTables U sel)) \<and> set (selectTables U sel) \<subseteq> rangeNames (selSub sel) - {[]}"
proof -
  obtain c where c: "walkSelect U (selectFuel sel) (Some sel) Map.empty emptyCollector = Some c"
    "selectTables U sel = tcTables c"
    using selectTables_total [of U sel] by blast
  have "collected U (selSub sel) emptyCollector" by (simp add: collected_def emptyCollector_def)
  moreover have "scopeIn U (selSub sel) Map.empty" by (simp add: scopeIn_def)
  moreover have "\<And>t. Some sel = Some t \<Longrightarrow> inTree (selSub sel) (selSub t)" by (simp add: inTree_def)
  ultimately have "collected U (selSub sel) c"
    using walk_collected [of U "selSub sel" emptyCollector Map.empty "selectFuel sel" c] c(1) by blast
  then show ?thesis using c(2) by (auto simp: collected_def)
qed

section \<open>Statements that name relations in FROM only\<close>

text \<open>
  A statement that names relations only where the walk looks: each FROM item is a relation, a join or a
  parenthesised SELECT, and no relation is named in a select list, a condition or another part.
\<close>

definition fromItem :: "Node \<Rightarrow> bool" where
  "fromItem n = (case n of RangeVar _ _ \<Rightarrow> True | JoinExpr _ _ _ \<Rightarrow> True | RangeSubselect (Some (SelectN _)) _ \<Rightarrow> True | _ \<Rightarrow> False)"

definition noRange :: "Node list \<Rightarrow> bool" where
  "noRange ns \<longleftrightarrow> list_all (\<lambda>m. case m of RangeVar _ _ \<Rightarrow> False | _ \<Rightarrow> True) (concat (map nodeSub ns))"

definition fromOnlyNode :: "Node \<Rightarrow> bool" where
  "fromOnlyNode n =
     (case n of
        SelectN (SelectStmt w l r f wh v t x) \<Rightarrow> list_all fromItem f \<and> noRange w \<and> noRange (case_option [] (\<lambda>c. [c]) wh) \<and> noRange v \<and> noRange t \<and> noRange x
      | JoinExpr l r x \<Rightarrow> pred_option fromItem l \<and> pred_option fromItem r \<and> noRange x
      | RangeVar _ x \<Rightarrow> noRange x
      | RangeSubselect _ x \<Rightarrow> noRange x
      | _ \<Rightarrow> True)"

definition fromOnly :: "SelectStmt \<Rightarrow> bool" where
  "fromOnly sel \<longleftrightarrow> list_all fromOnlyNode (selSub sel)"

lemma noRange_names: "noRange ns \<Longrightarrow> rangeNames (concat (map nodeSub ns)) = {}"
  by (fastforce simp: noRange_def rangeNames_def list_all_iff split: Node.splits)

lemma rangeNames_append: "rangeNames (xs @ ys) = rangeNames xs \<union> rangeNames ys"
  "rangeNames (RangeVar n r # xs) = insert n (rangeNames xs)" "rangeNames [] = {}"
  by (auto simp: rangeNames_def)

lemma rangeNames_concat: "rangeNames (concat xss) = (\<Union>xs \<in> set xss. rangeNames xs)"
  by (auto simp: rangeNames_def)

lemma rangeNames_other:
  "rangeNames (JoinExpr l r x # xs) = rangeNames xs" "rangeNames (RangeSubselect q x # xs) = rangeNames xs" "rangeNames (SelectN s # xs) = rangeNames xs"
  by (auto simp: rangeNames_def)

lemma sources_complete:
  "(\<forall>s. selWeight s < w \<longrightarrow> list_all fromOnlyNode (selSub s) \<longrightarrow> set (selSources s) = rangeNames (selSub s))
   \<and> (\<forall>n. nodeWeight n < w \<longrightarrow> fromItem n \<longrightarrow> list_all fromOnlyNode (nodeSub n) \<longrightarrow> set (itemSources (Some n)) = rangeNames (nodeSub n))"
proof (induction w)
  case (Suc w)
  have sel: "set (selSources s) = rangeNames (selSub s)" if "selWeight s < w" "list_all fromOnlyNode (selSub s)" for s
    using Suc that by blast
  have item: "set (itemSources (Some n)) = rangeNames (nodeSub n)" if "nodeWeight n < w" "fromItem n" "list_all fromOnlyNode (nodeSub n)" for n
    using Suc that by blast
  have S: "set (selSources s) = rangeNames (selSub s)" if less: "selWeight s < Suc w" and all: "list_all fromOnlyNode (selSub s)" for s
  proof -
    obtain wi l r f wh v t x where s: "s = SelectStmt wi l r f wh v t x" by (cases s)
    have plain: "noRange wi" "noRange v" "noRange t" "noRange x" "noRange (case_option [] (\<lambda>c. [c]) wh)" "list_all fromItem f"
      using all by (simp_all add: s fromOnlyNode_def)
    have arm: "set (optSources a) = rangeNames (case_option [] id (map_option selSub a))" if "a = l \<or> a = r" for a
    proof (cases a)
      case (Some b)
      then have "selWeight b < w" "list_all fromOnlyNode (selSub b)"
        using that less all by (auto simp: s selWeight_def simp del: length_concat)
      then show ?thesis using sel Some by (simp add: optSources_def)
    qed (simp add: optSources_def rangeNames_append)
    have "set (itemSources (Some n)) = rangeNames (nodeSub n)" if "n \<in> set f" for n
    proof -
      have "nodeWeight n < w" using less nodeSub_item(2) [OF that] by (simp add: s selWeight_def nodeWeight_def del: length_concat)
      moreover have "list_all fromOnlyNode (nodeSub n)" using all that by (auto simp: s list_all_iff)
      ultimately show ?thesis using item plain(6) that by (simp add: list_all_iff)
    qed
    moreover have "rangeNames (case_option [] id (map_option nodeSub wh)) = {}"
      using noRange_names [OF plain(5)] by (simp split: option.splits)
    ultimately show ?thesis
      using arm [of l] arm [of r] noRange_names [OF plain(1)] noRange_names [OF plain(2)] noRange_names [OF plain(3)] noRange_names [OF plain(4)]
      unfolding selSources_eq s by (auto simp: rangeNames_append(1) rangeNames_concat rangeNames_other)
  qed
  have I: "set (itemSources (Some n)) = rangeNames (nodeSub n)"
    if less: "nodeWeight n < Suc w" and it: "fromItem n" and all: "list_all fromOnlyNode (nodeSub n)" for n
  proof (cases n)
    case (RangeVar nm x)
    then show ?thesis using all by (simp add: itemSources_simps rangeNames_append fromOnlyNode_def noRange_names)
  next
    case (JoinExpr l r x)
    have side: "set (itemSources a) = rangeNames (case_option [] id (map_option nodeSub a))" if "a = l \<or> a = r" for a
    proof (cases a)
      case (Some b)
      then have "nodeWeight b < w" "list_all fromOnlyNode (nodeSub b)" "fromItem b"
        using that less all by (auto simp: JoinExpr nodeWeight_def fromOnlyNode_def simp del: length_concat)
      then show ?thesis using item Some by simp
    qed (simp add: itemSources_def rangeNames_append)
    show ?thesis
      using side [of l] side [of r] all
      by (simp add: JoinExpr itemSources_simps rangeNames_append(1) rangeNames_other fromOnlyNode_def noRange_names)
  next
    case (RangeSubselect q x)
    then obtain b where q: "q = Some (SelectN b)" using it by (auto simp: fromItem_def split: option.splits Node.splits)
    then have "selWeight b < w" "list_all fromOnlyNode (selSub b)"
      using less all by (simp_all add: RangeSubselect nodeWeight_def selWeight_def del: length_concat)
    then show ?thesis
      using sel all by (simp add: RangeSubselect q itemSources_simps optSources_def GetSelectStmt_def rangeNames_append(1) rangeNames_other
          fromOnlyNode_def noRange_names del: GetSelectStmt_Some)
  qed (use it in \<open>simp_all add: fromItem_def\<close>)
  show ?case using S I by blast
qed simp

lemma addNames_upper:
  assumes "\<forall>k. tcSeen c k \<longleftrightarrow> k \<in> ToUpper U ` set (tcTables c)"
  shows "ToUpper U ` set (tcTables (foldl (addName U) c ns)) = ToUpper U ` set (tcTables c) \<union> ToUpper U ` (set ns - {[]})"
  using assms
proof (induction ns arbitrary: c)
  case (Cons n ns)
  have "\<forall>k. tcSeen (addName U c n) k \<longleftrightarrow> k \<in> ToUpper U ` set (tcTables (addName U c n))"
    using Cons.prems by (auto simp: addName_def)
  from Cons.IH [OF this] show ?case using Cons.prems by (auto simp: addName_def)
qed simp

lemma selectTables_complete:
  assumes "noCTE (selSub sel)" and "fromOnly sel"
  shows "ToUpper U ` set (selectTables U sel) = ToUpper U ` (rangeNames (selSub sel) - {[]})"
  using sources_complete [of "Suc (selWeight sel)"] assms(2) addNames_upper [of emptyCollector U "selSources sel"]
  by (simp add: selectTables_reads [OF assms(1)] fromOnly_def emptyCollector_def)

section \<open>What a statement writes and compares\<close>

text \<open>
  The values a statement assigns to columns: a value for each column of the list and each row of VALUES
  of an INSERT (no value node where it is DEFAULT, short, or comes from a query), and the SET targets of an UPDATE.
\<close>

definition rowAssignments :: "Node list \<Rightarrow> Node list \<Rightarrow> (string \<times> Node option) list" where
  "rowAssignments cols items =
     map (\<lambda>i. (ResTargetName (cols ! i), if i < length items then Some (items ! i) else None)) [0..<length cols]"

definition valueRows :: "InsertStmt \<Rightarrow> Node list" where
  "valueRows ins = (case GetSelectStmt (insSelect ins) of None \<Rightarrow> [] | Some sel \<Rightarrow> selValues sel)"

definition assignments :: "Node \<Rightarrow> (string \<times> Node option) list" where
  "assignments stmt =
     (case stmt of
        InsertN ins \<Rightarrow>
          if valueRows ins = [] then rowAssignments (insCols ins) []
          else concat (map (\<lambda>row. rowAssignments (insCols ins) (GetListItems row)) (valueRows ins))
      | UpdateN upd \<Rightarrow> map (\<lambda>t. (ResTargetName t, ResTargetVal t)) (updTargets upd)
      | _ \<Rightarrow> [])"

definition singleRow :: "Node \<Rightarrow> bool" where
  "singleRow stmt = (case stmt of InsertN ins \<Rightarrow> length (valueRows ins) \<le> 1 | _ \<Rightarrow> True)"

lemma WriteColumns_assignments:
  assumes "singleRow stmt" and "(col, val) \<in> set (assignments stmt)"
  shows "\<lparr>cpColumn = col, cpParam = paramNumber val\<rparr> \<in> set (WriteColumns (analyzeNode U (Some stmt)))"
proof (cases stmt)
  case (InsertN ins)
  have "\<lparr>cpColumn = col, cpParam = paramNumber val\<rparr> \<in> set (WriteColumns (analyzeInsert ins))"
  proof (cases "valueRows ins")
    case Nil
    then have "insertParams ins = []" by (auto simp: valueRows_def insertParams_def simp del: GetSelectStmt_Some split: option.splits)
    then show ?thesis
      using assms(2) Nil InsertN by (auto simp: assignments_def rowAssignments_def analyzeInsert_def paramNumber_def Let_def)
  next
    case (Cons row rows)
    then have "insertParams ins = map (\<lambda>item. paramNumber (Some item)) (GetListItems row)"
      by (auto simp: valueRows_def insertParams_def simp del: GetSelectStmt_Some split: option.splits)
    moreover have "(col, val) \<in> set (rowAssignments (insCols ins) (GetListItems row))"
      using assms InsertN Cons by (auto simp: assignments_def singleRow_def)
    ultimately show ?thesis
      by (auto simp: rowAssignments_def analyzeInsert_def paramNumber_def Let_def)
  qed
  then show ?thesis by (simp add: InsertN analyzeNode_def)
next
  case (UpdateN upd)
  then show ?thesis
    using assms(2) by (auto simp: assignments_def analyzeNode_def analyzeUpdate_def split: prod.splits)
qed (use assms(2) in \<open>simp_all add: assignments_def\<close>)

text \<open>The comparisons of a condition: its leaves below AND, OR and NOT.\<close>

primrec leaves :: "Node \<Rightarrow> Node list" where
  "leaves (BoolExpr op args) = concat (map leaves args)"
| "leaves (A_Expr k n l r) = [A_Expr k n l r]"
| "leaves (ParamRef x) = [ParamRef x]"
| "leaves (FuncCall x y z) = [FuncCall x y z]"
| "leaves (ColumnRef x) = [ColumnRef x]"
| "leaves (StringN x) = [StringN x]"
| "leaves (ResTarget x y z) = [ResTarget x y z]"
| "leaves (RangeVar x y) = [RangeVar x y]"
| "leaves (JoinExpr x y z) = [JoinExpr x y z]"
| "leaves (RangeSubselect x y) = [RangeSubselect x y]"
| "leaves (CommonTableExpr x y z) = [CommonTableExpr x y z]"
| "leaves (ListN x) = [ListN x]"
| "leaves (SelectN x) = [SelectN x]"
| "leaves (InsertN x) = [InsertN x]"
| "leaves (UpdateN x) = [UpdateN x]"
| "leaves (DeleteN x) = [DeleteN x]"
| "leaves (OtherN x y) = [OtherN x y]"

definition conditionOf :: "Node \<Rightarrow> Node option" where
  "conditionOf stmt =
     (case stmt of SelectN sel \<Rightarrow> selWhere sel | UpdateN upd \<Rightarrow> updWhere upd | DeleteN del \<Rightarrow> delWhere del | _ \<Rightarrow> None)"

text \<open>
  A statement compares a column for equality with an operand, in either order; the column may stand
  below \<^verbatim>\<open>LOWER\<close> or \<^verbatim>\<open>UPPER\<close>.
\<close>

definition comparesEq :: "Node \<Rightarrow> string \<Rightarrow> Node option \<Rightarrow> bool" where
  "comparesEq stmt col val \<longleftrightarrow> col \<noteq> [] \<and>
     (\<exists>cond l r. conditionOf stmt = Some cond \<and> A_Expr AEXPR_OP [StringN ''=''] l r \<in> set (leaves cond)
        \<and> (columnName l = col \<and> val = r \<or> columnName l = [] \<and> columnName r = col \<and> val = l))"

text \<open>The collector goes through the leaves from left to right.\<close>

lemma collectWhere_leaves: "collectWhere n acc = foldl (\<lambda>a m. collectWhere m a) acc (leaves n)"
proof (induction n arbitrary: acc rule: measure_induct_rule [where f = "\<lambda>n. length (nodeSub n)"])
  case (less n)
  show ?case
  proof (cases n)
    case (BoolExpr op args)
    have IH: "collectWhere x acc = foldl (\<lambda>a m. collectWhere m a) acc (leaves x)" if "x \<in> set args" for x acc
      using less [of x] nodeSub_item_length [OF that] by (simp add: BoolExpr del: length_concat)
    have "set xs \<subseteq> set args \<Longrightarrow> foldl (\<lambda>a f. f a) acc (map collectWhere xs) =
        foldl (\<lambda>a m. collectWhere m a) acc (concat (map leaves xs))" for xs acc
      by (induction xs arbitrary: acc) (simp_all add: IH)
    then show ?thesis by (simp add: BoolExpr)
  qed simp_all
qed

text \<open>A leaf removes nothing from the collectors.\<close>

lemma leaf_keeps: "m \<in> set (leaves n) \<Longrightarrow> set (fst acc) \<subseteq> set (fst (collectWhere m acc))"
proof (induction n arbitrary: m rule: measure_induct_rule [where f = "\<lambda>n. length (nodeSub n)"])
  case (less n)
  show ?case
  proof (cases n)
    case (BoolExpr op args)
    then obtain x where x: "x \<in> set args" "m \<in> set (leaves x)" using less.prems by auto
    then show ?thesis
      using less.IH [of x m] nodeSub_item_length [OF x(1)] by (simp add: BoolExpr del: length_concat)
  next
    case (A_Expr k nm l r)
    then show ?thesis using less.prems by (simp add: Let_def split: option.split bucket.split) blast
  qed (use less.prems in simp_all)
qed

lemma collected_leaf:
  assumes "m \<in> set (leaves cond)" and "\<And>acc. cp \<in> set (fst (collectWhere m acc))"
  shows "cp \<in> set (fst (whereColumns (Some cond)))"
proof -
  have keep: "set (fst acc) \<subseteq> set (fst (foldl (\<lambda>a m. collectWhere m a) acc ms))" if "set ms \<subseteq> set (leaves cond)" for ms acc
    using that
  proof (induction ms arbitrary: acc)
    case (Cons x ms)
    then show ?case using leaf_keeps [of x cond acc] subset_trans [OF _ Cons.IH [of "collectWhere x acc"]] by simp
  qed simp
  obtain ms ms' where "leaves cond = ms @ m # ms'" using assms(1) by (meson split_list)
  then show ?thesis
    using assms(2) keep [of ms'] by (fastforce simp: whereColumns_def collectWhere_leaves [of cond])
qed

lemma FilterColumns_equalities:
  assumes "comparesEq stmt col val"
  shows "\<lparr>cpColumn = col, cpParam = paramNumber val\<rparr> \<in> set (FilterColumns (analyzeNode U (Some stmt)))"
proof -
  obtain cond l r where c: "conditionOf stmt = Some cond" "A_Expr AEXPR_OP [StringN ''=''] l r \<in> set (leaves cond)" "col \<noteq> []"
    "columnName l = col \<and> val = r \<or> columnName l = [] \<and> columnName r = col \<and> val = l"
    using assms by (auto simp: comparesEq_def)
  have "\<lparr>cpColumn = col, cpParam = paramNumber val\<rparr> \<in> set (fst (whereColumns (Some cond)))"
    by (rule collected_leaf [OF c(2)]) (use c(3,4) in \<open>auto simp: bucketFor_def operatorName_def GetString_def Let_def\<close>)
  moreover have "FilterColumns (analyzeNode U (Some stmt)) = fst (whereColumns (Some cond))"
    using c(1) by (auto simp: conditionOf_def analyzeNode_def analyzeSelect_def analyzeUpdate_def analyzeDelete_def
        split: Node.splits prod.splits)
  ultimately show ?thesis by simp
qed

lemma analysed_table:
  "anTable (analyzeNode U (Some stmt)) =
     (case stmt of InsertN ins \<Rightarrow> insRelname ins | UpdateN upd \<Rightarrow> updRelname upd | DeleteN del \<Rightarrow> delRelname del
      | SelectN sel \<Rightarrow> firstFromTable (selFrom sel) | _ \<Rightarrow> [])"
  by (simp add: analyzeNode_def analyzeInsert_def analyzeUpdate_def analyzeDelete_def analyzeSelect_def emptyAnalysis_def
      Let_def split: Node.split prod.split)
section \<open>The rewriting of conditions\<close>

text \<open>
  What the filter rewrite has to do, as a relation on conditions. \<open>hashedColumn\<close>: the comparison is a LIKE or
  ILIKE whose left operand is a column with an entry in the mapping. Such a comparison becomes an equality between
  the hash column and the bare right operand; all others stay, and so does the shape of the condition.
\<close>

definition hashedColumn :: "unicode \<Rightarrow> (string \<rightharpoonup> string) \<Rightarrow> AExprKind \<Rightarrow> Node option \<Rightarrow> string option" where
  "hashedColumn U mapping kind lexpr =
     (if (kind = AEXPR_LIKE \<or> kind = AEXPR_ILIKE) \<and> columnRefIdent lexpr \<noteq> [] then mapping (ToLower U (columnRefIdent lexpr)) else None)"

inductive bareOperand :: "Node option \<Rightarrow> Node option \<Rightarrow> bool" where
  escaped: "lastString fn = Some ''like_escape'' \<Longrightarrow> bareOperand (Some (FuncCall fn (a # args) rest)) (Some a)"
| plain: "(\<And>fn a args rest. r = Some (FuncCall fn (a # args) rest) \<Longrightarrow> lastString fn \<noteq> Some ''like_escape'') \<Longrightarrow> bareOperand r r"

inductive hashRewrite :: "unicode \<Rightarrow> (string \<rightharpoonup> string) \<Rightarrow> Node \<Rightarrow> Node \<Rightarrow> bool" for U mapping where
  connective: "list_all2 (hashRewrite U mapping) args args' \<Longrightarrow> hashRewrite U mapping (BoolExpr op args) (BoolExpr op args')"
| hashed: "hashedColumn U mapping kind lexpr = Some hash \<Longrightarrow> bareOperand rexpr operand \<Longrightarrow>
     hashRewrite U mapping (A_Expr kind name lexpr rexpr)
       (A_Expr AEXPR_OP (case name of StringN op # ns \<Rightarrow> StringN ''='' # ns | _ \<Rightarrow> name) (Some (ColumnRef [StringN (ToLower U hash)])) operand)"
| other: "hashedColumn U mapping kind lexpr = None \<Longrightarrow>
     hashRewrite U mapping (A_Expr kind name lexpr rexpr) (A_Expr kind name lexpr rexpr)"
| leaf: "(\<And>op args. n \<noteq> BoolExpr op args) \<Longrightarrow> (\<And>k nm l r. n \<noteq> A_Expr k nm l r) \<Longrightarrow> hashRewrite U mapping n n"

inductive_cases hashRewrite_connective: "hashRewrite U mapping (BoolExpr op args) n"
inductive_cases hashRewrite_comparison: "hashRewrite U mapping (A_Expr kind name lexpr rexpr) n"
inductive_cases bareOperand_escaped: "bareOperand (Some (FuncCall fn (a # args) rest)) n"

lemma bareOperand_unwrap: "bareOperand r (unwrapLikeEscape r)"
proof (cases "\<exists>fn a args rest. r = Some (FuncCall fn (a # args) rest) \<and> lastString fn = Some ''like_escape''")
  case True
  then show ?thesis by (auto simp: unwrapLikeEscape_def isLikeEscape_def intro: bareOperand.escaped)
next
  case False
  then have "unwrapLikeEscape r = r"
    by (auto simp: unwrapLikeEscape_def isLikeEscape_def split: option.split Node.split list.split)
  then show ?thesis using False by (auto intro: bareOperand.plain)
qed

lemma mutateComparison_rewrites:
  "hashRewrite U mapping (A_Expr kind name lexpr rexpr) (mutateComparison U mapping kind name lexpr rexpr)"
proof (cases "hashedColumn U mapping kind lexpr")
  case None
  then have "mutateComparison U mapping kind name lexpr rexpr = A_Expr kind name lexpr rexpr"
    by (auto simp: mutateComparison_def hashedColumn_def Let_def split: if_splits)
  then show ?thesis using None by (auto intro: hashRewrite.other)
next
  case (Some hash)
  then obtain l where "lexpr = Some l" by (cases lexpr) (auto simp: hashedColumn_def columnRefIdent_def split: if_splits)
  then have "mutateComparison U mapping kind name lexpr rexpr =
      A_Expr AEXPR_OP (setOperatorEq name) (Some (ColumnRef [StringN (ToLower U hash)])) (unwrapLikeEscape rexpr)"
    using Some by (auto simp: mutateComparison_def hashedColumn_def setColumnRef_def Let_def split: if_splits)
  then show ?thesis using hashRewrite.hashed [OF Some bareOperand_unwrap] by (simp add: setOperatorEq_def)
qed

lemma mutateWhereClause_rewrites: "hashRewrite U mapping n (mutateWhereClause U mapping n)"
proof (induction U mapping n rule: mutateWhereClause.induct)
  case (1 U mapping op args)
  then have "list_all2 (hashRewrite U mapping) args (map (mutateWhereClause U mapping) args)"
    by (auto simp: list_all2_conv_all_nth)
  then show ?case by (simp add: hashRewrite.connective)
next
  case (2 U mapping kind name lexpr rexpr)
  then show ?case by (simp add: mutateComparison_rewrites)
qed (simp_all add: hashRewrite.leaf)

text \<open>A statement: its condition is rewritten, the rest stays.\<close>

definition statementRewrite :: "unicode \<Rightarrow> (string \<rightharpoonup> string) \<Rightarrow> RawStmt \<Rightarrow> RawStmt \<Rightarrow> bool" where
  "statementRewrite U mapping st st' \<longleftrightarrow>
     rsLocation st' = rsLocation st \<and> rsLen st' = rsLen st \<and>
     (case rsStmt st of
        Some (SelectN (SelectStmt w l r f wh v t x)) \<Rightarrow>
          (\<exists>wh'. rel_option (hashRewrite U mapping) wh wh' \<and> rsStmt st' = Some (SelectN (SelectStmt w l r f wh' v t x)))
      | Some (UpdateN (UpdateStmt n t wh x)) \<Rightarrow>
          (\<exists>wh'. rel_option (hashRewrite U mapping) wh wh' \<and> rsStmt st' = Some (UpdateN (UpdateStmt n t wh' x)))
      | Some (DeleteN (DeleteStmt n wh x)) \<Rightarrow>
          (\<exists>wh'. rel_option (hashRewrite U mapping) wh wh' \<and> rsStmt st' = Some (DeleteN (DeleteStmt n wh' x)))
      | other \<Rightarrow> rsStmt st' = other)"

lemma mutateWhere_rewrites: "statementRewrite U mapping st (st\<lparr>rsStmt := mutateWhere U mapping (rsStmt st)\<rparr>)"
proof -
  have "rel_option (hashRewrite U mapping) wh (map_option (mutateWhereClause U mapping) wh)" for wh
    by (cases wh) (simp_all add: mutateWhereClause_rewrites)
  then show ?thesis
    by (simp add: statementRewrite_def mutateWhere_def split: option.split Node.split SelectStmt.split UpdateStmt.split DeleteStmt.split)
qed

end
