(* ===== verification/RewriteProps.thy ===== *)
theory RewriteProps
  imports Example AnalyzeProps
begin

text \<open>
  Properties of \<^verbatim>\<open>internal/rewrite\<close> and of the configured field set: the
  planners against their closed forms and against the text of the statement, the relations of a
  SELECT, and the two SQL rewrites of the blind index.
\<close>

section \<open>Write plans\<close>

text \<open>
  C5. The write planner is exactly its specification: it succeeds iff it is lenient or no
  column of the statement is one it must refuse, the plan is then the concatenation of what
  each column contributes, and an error is one of the two fail-loud errors.
\<close>

theorem PlanWrite_exact:
  "(PlanWrite U p a = Inr plan \<longleftrightarrow> (lenient p \<or> \<not> refused U p a) \<and> plan = planOf U p a)
   \<and> (PlanWrite U p a = Inl e \<longrightarrow> \<not> lenient p \<and> refused U p a \<and> isRefusal e)"
  using PlanWrite_Inr [of U p a] PlanWrite_Inl [of U p a e] by (cases "PlanWrite U p a") auto

definition literalAnalysis :: Analysis where
  "literalAnalysis = analyzeNode plainUnicode (Some literalTree)"

definition insertAnalysis :: Analysis where
  "insertAnalysis = analyzeNode plainUnicode (Some insertTree)"

theorem PlanWrite_exact_witness:
  "\<exists>e. PlanWrite plainUnicode examplePlanner literalAnalysis = Inl e \<and> isRefusal e
     \<and> refused plainUnicode examplePlanner literalAnalysis"
proof -
  have "isl (PlanWrite plainUnicode examplePlanner literalAnalysis)" by code_simp
  then obtain e where "PlanWrite plainUnicode examplePlanner literalAnalysis = Inl e"
    by (cases "PlanWrite plainUnicode examplePlanner literalAnalysis") auto
  then show ?thesis
    using PlanWrite_exact [of plainUnicode examplePlanner literalAnalysis emptyWritePlan e] by blast
qed

lemma strict_accepts:
  assumes "PlanWrite U p a = Inr plan" and "\<not> lenient p"
  shows "plan = planOf U p a"
    and "wc \<in> set (WriteColumns a) \<Longrightarrow> \<not> refusedWrite U p (ToUpper U (anTable a)) wc"
    and "fc \<in> set (FilterColumns a) \<Longrightarrow> \<not> refusedFilter U p (ToUpper U (anTable a)) fc"
    and "\<not> refusedAttribute U p (ToUpper U (anTable a)) a"
  using assms by (auto simp: PlanWrite_Inr refused_def Let_def)

text \<open>The parameters of an accepted statement's protected columns are in the plan.\<close>

lemma strict_covers:
  assumes "PlanWrite U p a = Inr plan" and "\<not> lenient p" and "ruleAt U p (ToUpper U (anTable a)) cp = Some rule"
  shows "cp \<in> set (WriteColumns a) \<Longrightarrow>
      cpParam cp \<noteq> 0 \<and> paramRuleFor U (ToUpper U (anTable a)) cp rule \<in> set (wpParams plan)"
    and "cp \<in> set (FilterColumns a) \<Longrightarrow>
      ruleScheme rule = SchemeDeterministic \<and> cpParam cp \<noteq> 0
      \<and> paramRuleFor U (ToUpper U (anTable a)) cp rule \<in> set (wpParams plan)"
proof -
  note plan = strict_accepts(1) [OF assms(1,2)]
  show "cpParam cp \<noteq> 0 \<and> paramRuleFor U (ToUpper U (anTable a)) cp rule \<in> set (wpParams plan)"
    if "cp \<in> set (WriteColumns a)"
    using that assms(3) strict_accepts(2) [OF assms(1,2) that]
    by (force simp: plan planOf_def refusedWrite_def writtenRules_def Let_def)
  show "ruleScheme rule = SchemeDeterministic \<and> cpParam cp \<noteq> 0
      \<and> paramRuleFor U (ToUpper U (anTable a)) cp rule \<in> set (wpParams plan)"
    if "cp \<in> set (FilterColumns a)"
    using that assms(3) strict_accepts(3) [OF assms(1,2) that]
    by (force simp: plan planOf_def refusedFilter_def filterRules_def Let_def)
qed

text \<open>
  C12. An assignment the analysis sees does not slip through a strict planner. Take an UPDATE, or an
  INSERT with at most one row of VALUES, that a strict planner accepts: every value its SET list, or its
  column list, assigns to a column of its table with a rule is a bound parameter (bare or in
  \<^verbatim>\<open>like_escape\<close>), and the plan encrypts that parameter under that rule and
  hashes it when the rule has a blind index. Outside the statement: later rows of VALUES
  (\<open>insert_later_rows_ignored\<close>), an INSERT without a column list, the SET list of ON CONFLICT
  (\<open>insert_parts_ignored\<close>) and writes inside a WITH clause, which the analysis does not look at.
\<close>

theorem strict_plan_covers_writes:
  assumes "\<not> lenient p" and "a = analyzeNode U (Some stmt)" and "PlanWrite U p a = Inr plan"
    and "singleRow stmt" and "(col, val) \<in> set (assignments stmt)"
    and "ColumnRule (plannerFields p) (ToUpper U (anTable a)) (ToUpper U col) = Some rule"
  shows "paramNumber val \<noteq> 0
    \<and> \<lparr>prParam = paramNumber val, prTable = ToUpper U (anTable a), prColumn = ToUpper U col, prRule = rule\<rparr> \<in> set (wpParams plan)
    \<and> (ruleBlindIndex rule \<noteq> [] \<longrightarrow>
        \<lparr>bwSourceParam = paramNumber val, bwNewParam = 0, bwTable = ToUpper U (anTable a),
         bwColumn = ToUpper U col, bwHashColumn = ruleBlindIndex rule\<rparr> \<in> set (BlindIndexWrites plan))"
proof -
  let ?t = "ToUpper U (anTable a)" and ?wc = "\<lparr>cpColumn = col, cpParam = paramNumber val\<rparr>"
  have w: "?wc \<in> set (WriteColumns a)" using WriteColumns_assignments [OF assms(4,5)] assms(2) by simp
  have ne: "paramNumber val \<noteq> 0" and "paramRuleFor U ?t ?wc rule \<in> set (wpParams plan)"
    using strict_covers(1) [OF assms(3,1) _ w, of rule] assms(6) by (simp_all add: ruleAt_def)
  moreover have "\<lparr>bwSourceParam = paramNumber val, bwNewParam = 0, bwTable = ?t, bwColumn = ToUpper U col,
      bwHashColumn = ruleBlindIndex rule\<rparr> \<in> set (BlindIndexWrites plan)" if "ruleBlindIndex rule \<noteq> []"
    using ne that w assms(6) by (force simp: strict_accepts(1) [OF assms(3,1)] planOf_def writtenHashes_def ruleAt_def Let_def)
  ultimately show ?thesis using ne by (simp add: paramRuleFor_def)
qed

theorem strict_plan_covers_writes_witness:
  "\<exists>plan. PlanWrite plainUnicode examplePlanner (analyzeNode plainUnicode (Some insertTree)) = Inr plan \<and> insertRule \<in> set (wpParams plan)"
proof -
  have p: "PlanWrite plainUnicode examplePlanner insertAnalysis = Inr insertPlan" and s: "\<not> lenient examplePlanner"
    and o: "singleRow insertTree" by code_simp+
  have w: "(''email'', Some (ParamRef 2)) \<in> set (assignments insertTree)"
    by (simp add: insertTree_def assignments_def valueRows_def valuesRow_def GetSelectStmt_def rowAssignments_def
        GetListItems_def columnTarget_def ResTargetName_def)
  have r: "ColumnRule (plannerFields examplePlanner) (ToUpper plainUnicode (anTable insertAnalysis)) (ToUpper plainUnicode ''email'') = Some detRule"
    "ToUpper plainUnicode (anTable insertAnalysis) = ''USER_ENTITY''" "ToUpper plainUnicode ''email'' = ''EMAIL''" by code_simp+
  show ?thesis
    using strict_plan_covers_writes [OF s insertAnalysis_def p o w r(1)] p r(2,3)
    by (simp add: insertRule_def insertAnalysis_def paramNumber_def)
qed





text \<open>
  Attribute rows: when a strict planner accepts a write to a table with an attribute
  policy, every written value column is bound to a parameter and sits in a condition that
  reads the attribute name from a bound parameter and carries the policy's prefix and rule.
\<close>

theorem strict_plan_covers_attributes:
  assumes "PlanWrite U p a = Inr plan" and "\<not> lenient p" and "wc \<in> set (WriteColumns a)"
    and "AttributePolicyFor (plannerFields p) (ToUpper U (anTable a)) = Some pol"
    and "ToUpper U (cpColumn wc) \<in> upperSet U (apValueColumns pol)"
  shows "\<exists>cond \<in> set (AttributeConditions plan).
     acNameParam cond = paramForColumn U a (ToUpper U (apNameColumn pol)) \<and> acNameParam cond \<noteq> 0
     \<and> acPrefix cond = apPrefix pol \<and> cpParam wc \<noteq> 0
     \<and> \<lparr>prParam = cpParam wc, prTable = ToUpper U (anTable a), prColumn = ToUpper U (cpColumn wc),
        prRule = apRule pol\<rparr> \<in> set (acValueParams cond)"
proof -
  let ?t = "ToUpper U (anTable a)" and ?n = "paramForColumn U a (ToUpper U (apNameColumn pol))"
  let ?vs = "concat (map (attrRules U ?t pol) (WriteColumns a))"
  have ok: "cpParam wc \<noteq> 0" "?n \<noteq> 0"
    using strict_accepts(4) [OF assms(1,2)] assms(3-5) by (auto simp: refusedAttribute_def)
  have "paramRuleFor U ?t wc (apRule pol) \<in> set (attrRules U ?t pol wc)"
    using ok assms(5) by (simp add: attrRules_def)
  then have v: "paramRuleFor U ?t wc (apRule pol) \<in> set ?vs" using assms(3) by auto
  then have "?vs \<noteq> []" by (metis empty_iff list.set(1))
  then have "AttributeConditions plan = [\<lparr>acNameParam = ?n, acPrefix = apPrefix pol, acValueParams = ?vs\<rparr>]"
    using ok(2) assms(4) unfolding strict_accepts(1) [OF assms(1,2)] planOf_def attrConditions_def Let_def
    by (simp del: concat_eq_Nil_conv)
  then show ?thesis using ok v by (simp add: paramRuleFor_def del: set_concat)
qed

text \<open>\<^verbatim>\<open>INSERT INTO user_attribute (name, value) VALUES ($1, $2)\<close>.\<close>

definition attributeAnalysis :: Analysis where
  "attributeAnalysis = analyzeNode plainUnicode (Some (InsertN (InsertStmt ''user_attribute''
     [columnTarget ''name'', columnTarget ''value''] (Some (SelectN (valuesRow [ParamRef 1, ParamRef 2]))) [])))"

theorem strict_plan_covers_attributes_witness:
  "\<exists>plan cond. PlanWrite plainUnicode (NewPlanner DefaultFields) attributeAnalysis = Inr plan
     \<and> cond \<in> set (AttributeConditions plan) \<and> acNameParam cond \<noteq> 0"
proof -
  let ?wc = "\<lparr>cpColumn = ''value'', cpParam = 2\<rparr>"
  let ?pol = "\<lparr>apNameColumn = ''NAME'', apValueColumns = [''VALUE'', ''LONG_VALUE''],
      apPrefix = DefaultAttributePrefix, apRule = nondetRule\<rparr>"
  obtain plan where p: "PlanWrite plainUnicode (NewPlanner DefaultFields) attributeAnalysis = Inr plan"
  proof -
    have "\<not> isl (PlanWrite plainUnicode (NewPlanner DefaultFields) attributeAnalysis)" by code_simp
    then show ?thesis
      using that by (cases "PlanWrite plainUnicode (NewPlanner DefaultFields) attributeAnalysis") auto
  qed
  have s: "\<not> lenient (NewPlanner DefaultFields)" and w: "?wc \<in> set (WriteColumns attributeAnalysis)"
    and r: "AttributePolicyFor (plannerFields (NewPlanner DefaultFields)) (ToUpper plainUnicode (anTable attributeAnalysis)) = Some ?pol"
    and u: "ToUpper plainUnicode (cpColumn ?wc) \<in> upperSet plainUnicode (apValueColumns ?pol)" by code_simp+
  show ?thesis using strict_plan_covers_attributes [OF p s w r u] p by blast
qed

lemma planOf_fields:
  assumes "plannerFields p = plannerFields q"
  shows "planOf U p a = planOf U q a"
proof -
  have r: "ruleAt U p t = ruleAt U q t" for t by (rule ext) (simp add: ruleAt_def assms)
  have "writtenRules U p t = writtenRules U q t" "writtenHashes U p t = writtenHashes U q t"
    "filterRules U p t = filterRules U q t" "likeRules U p t = likeRules U q t" "likeHashes U p t = likeHashes U q t" for t
    by (rule ext, simp add: writtenRules_def writtenHashes_def filterRules_def likeRules_def likeHashes_def r)+
  then show ?thesis by (simp add: planOf_def attrConditions_def assms)
qed

text \<open>
  The bootstrap mode only removes refusals: a lenient planner never fails, and on every
  statement a strict planner accepts it produces the same plan.
\<close>

theorem lenient_extends_strict:
  "(\<exists>plan. PlanWrite U (NewLenientPlanner fs) a = Inr plan)
   \<and> (PlanWrite U (NewPlanner fs) a = Inr plan \<longrightarrow> PlanWrite U (NewLenientPlanner fs) a = Inr plan)"
  using planOf_fields [of "NewLenientPlanner fs" "NewPlanner fs" U a]
  by (simp add: PlanWrite_Inr NewLenientPlanner_def NewPlanner_def)

theorem lenient_extends_strict_witness:
  "PlanWrite plainUnicode (NewLenientPlanner emailFields) insertAnalysis = Inr insertPlan"
proof -
  have "PlanWrite plainUnicode (NewPlanner emailFields) insertAnalysis = Inr insertPlan" by code_simp
  then show ?thesis using lenient_extends_strict [of plainUnicode emailFields insertAnalysis insertPlan] by blast
qed

section \<open>Read plans\<close>

text \<open>
  C14. The read planner decrypts a result field exactly when one of the statement's relations
  claims its column, under that relation's name, and lists it as ambiguous exactly when
  several do; no other field is in the plan.
\<close>

theorem PlanRead_exact:
  "(f \<in> set (rpFields (PlanRead U p tables columns)) \<longleftrightarrow>
      rfIndex f < length columns \<and> rfColumn f = ToUpper U (columns ! rfIndex f)
      \<and> claimants U p tables (rfColumn f) = {rfTable f})
   \<and> (f \<in> set (Ambiguous (PlanRead U p tables columns)) \<longleftrightarrow>
      rfIndex f < length columns \<and> rfColumn f = ToUpper U (columns ! rfIndex f) \<and> rfTable f = []
      \<and> contested U p tables (rfColumn f))"
  using PlanRead_field PlanRead_ambiguous by blast

section \<open>Relations of a SELECT\<close>

text \<open>
  C34. The collection of base relations ends on every SELECT, cyclic CTEs included: the fuel
  computed from the tree is enough for the walk to return, with no CTE left marked as being
  resolved.
\<close>

theorem select_walk_ends:
  "\<exists>c. walkSelect U (selectFuel sel) (Some sel) Map.empty emptyCollector = Some c
     \<and> tcActive c = (\<lambda>_. False) \<and> selectTables U sel = tcTables c"
  by (rule selectTables_total)




section \<open>Blind-index rewrites\<close>

lemma toInt32_small: "0 \<le> n \<Longrightarrow> n < 2 ^ 31 \<Longrightarrow> toInt32 n = n"
  by (simp add: toInt32_def signed_of_int signed_take_bit_int_eq_self)

lemma map_of_zip_upt:
  assumes "distinct ks" "i < length ks"
  shows "map_of (zip ks (map g [0..<length ks])) (ks ! i) = Some (g i)"
  using assms by (simp add: map_of_zip_nth)

text \<open>
  The parameters allocated for hash columns are new: each source parameter gets its own
  number, above every parameter the rewriter's walk of the statement finds, within the
  number of writes, and the 32-bit number placed in the tree is that number.
\<close>

theorem hash_params_fresh:
  assumes "distinct (map bwSourceParam ws)" and "maxParamRef stmt + int (length ws) < 2 ^ 31"
    and "i < length ws"
  shows "allocParam (allocate (maxParamRef stmt) ws []) (ws ! i) = maxParamRef stmt + 1 + int i
     \<and> (\<forall>k \<in> set (walkParams stmt). k < allocParam (allocate (maxParamRef stmt) ws []) (ws ! i))"
proof -
  let ?m = "maxParamRef stmt"
  have "allocate ?m ws [] = zip (map bwSourceParam ws) (map (\<lambda>i. ?m + 1 + int i) [0..<length ws])"
    using allocate_distinct [OF assms(1), of "[]" ?m] by simp
  then have "map_of (allocate ?m ws []) (bwSourceParam (ws ! i)) = Some (?m + 1 + int i)"
    using map_of_zip_upt [OF assms(1), of i "\<lambda>i. ?m + 1 + int i"] assms(3) by simp
  then have "allocParam (allocate ?m ws []) (ws ! i) = ?m + 1 + int i"
    using assms(2,3) maxParamRef_nonneg [of stmt] by (simp add: allocParam_def toInt32_small)
  then show ?thesis using maxParamRef_upper [of _ stmt] by force
qed

definition emailWrite :: BlindIndexWrite where
  "emailWrite = \<lparr>bwSourceParam = 2, bwNewParam = 0, bwTable = ''USER_ENTITY'', bwColumn = ''EMAIL'',
     bwHashColumn = ''EMAIL_HASH''\<rparr>"

theorem hash_params_fresh_witness:
  "allocParam (allocate (maxParamRef (Some insertTree)) [emailWrite] []) emailWrite = 3"
proof -
  have m: "maxParamRef (Some insertTree) = 2"
    by (simp add: maxParamRef_def insertTree_def valuesRow_def GetListItems_def)
  show ?thesis
    using hash_params_fresh [of "[emailWrite]" "Some insertTree" 0] by (simp add: m)
qed






section \<open>Limits of the analysis\<close>

text \<open>
  The walk of \<^verbatim>\<open>maxParamRef\<close> does not enter function arguments: in
  \<^verbatim>\<open>UPDATE user_entity SET email = $1 WHERE id = lower($2)\<close> the parameter
  allocated for the hash column is \<^verbatim>\<open>$2\<close>, which the statement already uses.
\<close>

definition collidingUpdate :: Node where
  "collidingUpdate = UpdateN (UpdateStmt ''user_entity'' [ResTarget ''email'' (Some (ParamRef 1)) []]
     (Some (A_Expr AEXPR_OP [StringN ''=''] (Some (ColumnRef [StringN ''id'']))
        (Some (FuncCall [StringN ''lower''] [ParamRef 2] [])))) [])"

lemma hash_param_collides:
  "allocParam (allocate (maxParamRef (Some collidingUpdate)) [emailWrite\<lparr>bwSourceParam := 1\<rparr>] [])
     (emailWrite\<lparr>bwSourceParam := 1\<rparr>) \<in> set (paramsIn (nodeSub collidingUpdate))"
  by (simp add: collidingUpdate_def maxParamRef_def ResTargetVal_def allocParam_def toInt32_small paramsIn_def)

text \<open>
  Rows after the first of a multi-row INSERT do not reach the analysis, nor do an INSERT without a
  column list, the SET list of ON CONFLICT, and comparisons other than \<^verbatim>\<open>=\<close> and LIKE.
\<close>

lemma insert_later_rows_ignored:
  "analyzeInsert (InsertStmt rel cols (Some (SelectN (SelectStmt w l r f wh (row # rows) t x))) rest) =
   analyzeInsert (InsertStmt rel cols (Some (SelectN (SelectStmt w l r f wh [row] t x))) rest)"
  by (simp add: analyzeInsert_def insertParams_def GetSelectStmt_def)

lemma other_comparisons_ignored:
  "collectWhere (A_Expr (AEXPR_OTHER k) nm l r) acc = acc"
  "collectWhere (A_Expr AEXPR_OP [StringN ''<>''] l r) acc = acc"
  by (simp_all add: bucketFor_def operatorName_def GetString_def)

lemma insert_parts_ignored:
  "analyzeInsert (InsertStmt rel cols sel rest) = analyzeInsert (InsertStmt rel cols sel [])"
  "WriteColumns (analyzeInsert (InsertStmt rel [] sel rest)) = []"
  by (simp_all add: analyzeInsert_def insertParams_def Let_def)
text \<open>
  The columns of a condition are looked up in one table: when the first FROM item is a join there is
  none, and a strict planner accepts \<^verbatim>\<open>SELECT ... FROM user_entity JOIN m WHERE email = $1\<close>
  with an empty plan.
\<close>

definition joinFilter :: Node where
  "joinFilter = SelectN (SelectStmt [] None None
     [JoinExpr (Some (RangeVar ''user_entity'' [])) (Some (RangeVar ''m'' [])) []]
     (Some (A_Expr AEXPR_OP [StringN ''=''] (Some (ColumnRef [StringN ''email''])) (Some (ParamRef 1)))) [] [] [])"

lemma join_filter_unplanned:
  "comparesEq joinFilter ''email'' (Some (ParamRef 1))"
  "PlanWrite plainUnicode examplePlanner (analyzeNode plainUnicode (Some joinFilter)) = Inr emptyWritePlan"
proof -
  show "comparesEq joinFilter ''email'' (Some (ParamRef 1))"
    by (simp add: comparesEq_def conditionOf_def joinFilter_def columnName_def lastString_def GetString_def)
  show "PlanWrite plainUnicode examplePlanner (analyzeNode plainUnicode (Some joinFilter)) = Inr emptyWritePlan"
    by code_simp
qed

text \<open>
  A CTE named like the table it reads hides the table: for
  \<^verbatim>\<open>WITH user_entity AS (SELECT ... FROM user_entity) SELECT ... FROM user_entity\<close>
  no relation is reported, so its rows get an empty read plan.
\<close>

definition shadowingSelect :: SelectStmt where
  "shadowingSelect = SelectStmt
     [CommonTableExpr ''user_entity'' (Some (SelectN (SelectStmt [] None None [RangeVar ''user_entity'' []] None [] [] []))) []]
     None None [RangeVar ''user_entity'' []] None [] [] []"

lemma shadowing_cte_hides_table: "selectTables plainUnicode shadowingSelect = []"
  by code_simp

text \<open>
  A CTE nested in another of the same name is taken for a recursive reference to the outer one, and
  relations of a sub-select in the select list are not collected.
\<close>

definition nestedCTE :: SelectStmt where
  "nestedCTE = (let q = SelectStmt [] None None [RangeVar ''user_entity'' []] None [] [] [];
      inner = SelectStmt [CommonTableExpr ''u'' (Some (SelectN q)) []] None None [RangeVar ''u'' []] None [] [] [] in
      SelectStmt [CommonTableExpr ''u'' (Some (SelectN inner)) []] None None [RangeVar ''u'' []] None [] [] [])"

lemma nested_cte_hides_table: "selectTables plainUnicode nestedCTE = []"
  by code_simp

definition sublinkSelect :: SelectStmt where
  "sublinkSelect = SelectStmt [] None None [RangeVar ''realm'' []] None [] 
     [ResTarget [] (Some (OtherN ''SubLink'' [SelectN (SelectStmt [] None None [RangeVar ''user_entity'' []] None []
        [ResTarget [] (Some (ColumnRef [StringN ''email''])) []] [])])) []] []"

lemma sublink_not_collected: "selectTables plainUnicode sublinkSelect = [''realm'']"
  by code_simp

text \<open>
  \<^verbatim>\<open>$1 LIKE email\<close> is collected as a LIKE filter, so its value is hashed, but
  the comparison itself is not rewritten to the hash column.
\<close>

lemma reversed_like_not_rewritten:
  "collectWhere (A_Expr AEXPR_LIKE [StringN ''~~''] (Some (ParamRef 1)) (Some (ColumnRef [StringN ''email'']))) ([], []) =
     ([], [\<lparr>cpColumn = ''email'', cpParam = 1\<rparr>])
   \<and> mutateWhereClause plainUnicode [''email'' \<mapsto> ''EMAIL_HASH'']
       (A_Expr AEXPR_LIKE [StringN ''~~''] (Some (ParamRef 1)) (Some (ColumnRef [StringN ''email'']))) =
     A_Expr AEXPR_LIKE [StringN ''~~''] (Some (ParamRef 1)) (Some (ColumnRef [StringN ''email'']))"
  by (simp add: bucketFor_def operatorName_def GetString_def columnName_def lastString_def paramNumber_def
      mutateComparison_def columnRefIdent_def Let_def)

end
