(* ===== verification/WireProps.thy ===== *)
theory WireProps
  imports Example Protocol
begin

text \<open>
  The properties of the relay: what stops a message, what the session's queues mean, to
  which statement a row and a row description are attributed, how a failed batch is left,
  and what is counted when a ciphertext passes through undecrypted.
\<close>

section \<open>Runs of the protocol\<close>

text \<open>A client that sends a list of messages which the proxy forwards.\<close>

definition submit1 :: "env \<Rightarrow> FrontendMessage \<Rightarrow> proto \<Rightarrow> proto" where
  "submit1 E msg P =
     (let s' = fst (fst (observeFrontend E msg (prSession P))) in
      P\<lparr>prSession := s', inflight := inflight P @ requests msg (prSession P) s'\<rparr>)"

fun submit :: "env \<Rightarrow> FrontendMessage list \<Rightarrow> proto \<Rightarrow> proto" where
  "submit E [] P = P"
| "submit E (msg # msgs) P = submit E msgs (submit1 E msg P)"

fun accepted :: "env \<Rightarrow> FrontendMessage list \<Rightarrow> proto \<Rightarrow> bool" where
  "accepted E [] P = True"
| "accepted E (msg # msgs) P \<longleftrightarrow>
     (case snd (observeFrontend E msg (prSession P)) of None \<Rightarrow> True | _ \<Rightarrow> False)
     \<and> (case msg of FQuery q \<Rightarrow> mayQuery (prSkip P) (inflight P) | _ \<Rightarrow> True)
     \<and> accepted E msgs (submit1 E msg P)"

lemma submit_reach:
  "protoReach E p c n m P \<Longrightarrow> accepted E msgs P \<Longrightarrow> protoReach E p c n m (submit E msgs P)"
proof (induction msgs arbitrary: P)
  case (Cons msg msgs)
  have "observeFrontend E msg (prSession P) =
      ((fst (fst (observeFrontend E msg (prSession P))), snd (fst (observeFrontend E msg (prSession P)))), None)"
    using Cons.prems(2) by (auto simp: prod_eq_iff split: option.splits)
  from protoStep.request [OF this] have "protoStep E P (submit1 E msg P)"
    using Cons.prems(2) by (cases msg) (auto simp: submit1_def Let_def)
  then have "protoReach E p c n m (submit1 E msg P)" using Cons.prems(1) by (rule protoReach.step [rotated])
  then show ?case using Cons by simp
qed simp

definition freshProto :: proto where
  "freshProto = \<lparr>prSession = session0, inflight = [], prSkip = False\<rparr>"

definition selectBatch :: "FrontendMessage list" where
  "selectBatch = [FParse parseSelect, FBind bindSelect, FDescribe (CHR ''P'') '''', FExecute '''', FSync]"

definition pipelined :: proto where
  "pipelined = submit exampleEnv (selectBatch @ [FExecute '''', FSync]) freshProto"

definition executingProto :: proto where
  "executingProto = submit exampleEnv (selectBatch @ [FQuery exampleSelect]) freshProto"

abbreviation exampleReach :: "proto \<Rightarrow> bool" where
  "exampleReach \<equiv> protoReach exampleEnv examplePlanner (Some exampleCipher) 0 registeredMetrics"

lemma freshProto_reach: "exampleReach freshProto"
  unfolding freshProto_def session0_def by (rule protoReach.start)

lemma pipelined_accepted: "accepted exampleEnv (selectBatch @ [FExecute '''', FSync]) freshProto"
  by code_simp

lemma pipelined_reach: "exampleReach pipelined"
  unfolding pipelined_def by (rule submit_reach [OF freshProto_reach pipelined_accepted])

lemma pipelined_inflight:
  "inflight pipelined = [ROther, ROther, RDesc (Some 0) (Some 0), RExec (Some 0), RSync, RExec (Some 0), RSync]"
  "prSkip pipelined = False"
  by code_simp+

section \<open>What may pass\<close>

lemma thenE_fails: "snd m = Some e \<Longrightarrow> thenE m k = m"
  by (cases m) simp

lemma querySimple_refused:
  assumes "\<not> lenient (planner s)" "refused (envUnicode E) (planner s) a"
  shows "\<exists>e. snd (querySimple E a s) = Some e \<and> isRefusal e"
proof -
  have "\<nexists>plan. PlanWrite (envUnicode E) (planner s) a = Inr plan" using assms by (simp add: PlanWrite_Inr)
  then obtain perr where "PlanWrite (envUnicode E) (planner s) a = Inl perr"
    by (cases "PlanWrite (envUnicode E) (planner s) a") auto
  then show ?thesis using PlanWrite_Inl by (fastforce simp: querySimple_def isRefusal_def)
qed

lemma querySimple_error:
  "snd (querySimple E a s) = Some e \<Longrightarrow> isRefusal e"
  using PlanWrite_Inl by (fastforce simp: querySimple_def isRefusal_def split: sum.splits)

lemma querySimple_planner: "planner (fst (querySimple E a s)) = planner s"
  by (simp add: querySimple_def enqueueSimple_def allocPortal_def allocStmt_def Let_def split: sum.splits)

lemma queries_refused:
  assumes "\<not> lenient (planner s)" "a \<in> set as" "refused (envUnicode E) (planner s) a"
  shows "\<exists>e. snd (forE (querySimple E) as s) = Some e \<and> isRefusal e"
  using assms
proof (induction as arbitrary: s)
  case (Cons x xs)
  show ?case
  proof (cases "snd (querySimple E x s)")
    case None
    then have "a \<noteq> x" using Cons.prems querySimple_refused by fastforce
    moreover have "querySimple E x s = (fst (querySimple E x s), None)" using None by (simp add: prod_eq_iff)
    moreover have "planner (fst (querySimple E x s)) = planner s" by (rule querySimple_planner)
    ultimately show ?thesis
      using Cons.IH [of "fst (querySimple E x s)"] Cons.prems by (metis forE.simps(2) set_ConsD thenE_simps(1))
  next
    case (Some e)
    then show ?thesis using querySimple_error by (fastforce simp: thenE_fails)
  qed
qed simp

text \<open>
  C6. Fail loud: a statement a strict planner must refuse never reaches the backend. A Parse
  of it, or a simple query that contains it among any number of statements, stops the client
  pump with a refusal, and nothing is sent, whatever the connection would have accepted.
\<close>

theorem refused_never_sent:
  assumes "\<not> lenient (planner s)" and "refused (envUnicode E) (planner s) a"
    and "msg = FParse p \<and> Analyze (envUnicode E) (envParser E) (pmQuery p) = Inr a
       \<or> msg = FQuery q \<and> AnalyzeAll (envUnicode E) (envParser E) q = Inr as \<and> a \<in> set as"
  shows "\<exists>s' e. pumpClientStep E (Inr msg) sent s = (s', [], Stopped (Some e)) \<and> isRefusal e"
  using assms(3)
proof
  assume m: "msg = FParse p \<and> Analyze (envUnicode E) (envParser E) (pmQuery p) = Inr a"
  have "\<nexists>plan. PlanWrite (envUnicode E) (planner s) a = Inr plan" using assms(1,2) by (simp add: PlanWrite_Inr)
  then obtain perr where "PlanWrite (envUnicode E) (planner s) a = Inl perr"
    by (cases "PlanWrite (envUnicode E) (planner s) a") auto
  then show ?thesis
    using m PlanWrite_Inl
    by (fastforce simp: pumpClientStep_def observeFrontend_def OnParse_def prepare_def prepareErr_def isRefusal_def Let_def)
next
  assume m: "msg = FQuery q \<and> AnalyzeAll (envUnicode E) (envParser E) q = Inr as \<and> a \<in> set as"
  then obtain x xs where as: "as = x # xs" by (cases as) auto
  obtain e where e: "snd (forE (querySimple E) as s) = Some e" "isRefusal e"
    using queries_refused [OF assms(1) _ assms(2)] m by blast
  have "snd (OnQuery E q s) = Some e"
    using thenE_fails [OF e(1)] e(1) m as by (simp add: OnQuery_def)
  then show ?thesis
    using m e(2) by (auto simp: pumpClientStep_def observeFrontend_def split: prod.split)
qed

theorem refused_never_sent_witness:
  "\<exists>s' e. pumpClientStep exampleEnv (Inr (FQuery exampleLiteral)) None session0 = (s', [], Stopped (Some e)) \<and> isRefusal e"
proof -
  let ?as = "projr (AnalyzeAll plainUnicode exampleParser exampleLiteral)"
  have s: "\<not> lenient (planner session0)" by code_simp
  have a: "AnalyzeAll plainUnicode exampleParser exampleLiteral = Inr [hd ?as]" by code_simp
  have "PlanWrite plainUnicode examplePlanner (hd ?as) \<noteq> Inr (planOf plainUnicode examplePlanner (hd ?as))" by code_simp
  then have r: "refused (envUnicode exampleEnv) (planner session0) (hd ?as)"
    using s by (simp add: PlanWrite_Inr exampleEnv_def session0_def NewSession_def)
  show ?thesis
    using refused_never_sent [OF s r, of "FQuery exampleLiteral" _ exampleLiteral "[hd ?as]" None] a
    by (simp add: exampleEnv_def)
qed

section \<open>The session\<close>

text \<open>
  C7. In every state the two pumps can reach, in any interleaving and whatever the peers
  send, the session is well formed: names, queues and portals hold no dangling reference,
  both queues count the same synchronisation points, and a portal's read plan was computed
  for the statement the portal is bound to.
\<close>

theorem relay_invariant:
  assumes "relayReach E (NewSession p c rnd m) r"
  shows "wfSession E (rlSession r)"
  using assms by (rule relayReach_wf)

theorem relay_invariant_witness:
  "wfSession exampleEnv (fst (fst (observeFrontend exampleEnv (FParse parseSelect) session0)))"
proof -
  have "case snd (observeFrontend exampleEnv (FParse parseSelect) session0) of None \<Rightarrow> True | _ \<Rightarrow> False" by code_simp
  then obtain s' msg' where o: "observeFrontend exampleEnv (FParse parseSelect) session0 = ((s', msg'), None)"
    by (cases "observeFrontend exampleEnv (FParse parseSelect) session0") (auto split: option.splits)
  then have step: "pumpClientStep exampleEnv (Inr (FParse parseSelect)) (Some err) (rlSession (startRelay session0))
      = (s', [], Stopped (Some err))" for err
    by (simp add: pumpClientStep_def startRelay_def)
  have "relayReach exampleEnv session0 (startRelay session0)" by (rule relayReach.start)
  then show ?thesis
    using relay_invariant [OF relayReach.step [OF _ relayStep.client [OF _ step]]] o
    by (simp add: session0_def startRelay_def)
qed

text \<open>
  C3. The two queues are what the backend still owes: in every reachable state of the proxy
  in front of a backend that answers in order, skipping to the next Sync after an error,
  the execute queue and the describe queue are the images of the unanswered requests,
  whatever the pipelining and the interleaving of both directions.
\<close>

theorem queues_mirror_backend:
  assumes "protoReach E p c n m P"
  shows "execQueue (prSession P) = concat (map execProj (inflight P))
     \<and> describes (prSession P) = concat (map descProj (inflight P))"
  using protoReach_aligned [OF assms] by (simp add: aligned_def)

theorem queues_mirror_backend_witness:
  "execQueue (prSession pipelined) = [Executing 0, syncBoundary, Executing 0, syncBoundary]"
  using queues_mirror_backend [OF pipelined_reach] by (simp add: pipelined_inflight execProj_def)

text \<open>
  C4. Every row is attributed to the portal the backend is answering for: whenever a DataRow
  may arrive, the portal whose read plan the proxy applies is the one of the oldest
  unanswered Execute, or of the statement of the simple query being answered.
\<close>

theorem rows_attributed:
  assumes "protoReach E p c n m P" and "answer (prSkip P) (inflight P) (BDataRow row) = Some r"
  shows "\<exists>po rs. (inflight P = RExec (Some po) # rs \<or> inflight P = RSimple po # rs)
     \<and> CurrentExecuting (prSession P) = Some po"
proof -
  obtain po rs where "inflight P = RExec (Some po) # rs \<or> inflight P = RSimple po # rs"
    using assms(2) by (auto simp: answer_def split: if_splits list.splits request.splits option.splits)
  then show ?thesis using aligned_executing [OF protoReach_aligned [OF assms(1)]] by blast
qed

definition executingFirst :: proto where
  "executingFirst = submit exampleEnv [FQuery exampleSelect] freshProto"

lemma executingFirst_reach: "exampleReach executingFirst"
  unfolding executingFirst_def by (rule submit_reach [OF freshProto_reach]) code_simp

lemma executingFirst_inflight: "inflight executingFirst = [RSimple 0, RSync]" "prSkip executingFirst = False"
  by code_simp+

theorem rows_attributed_witness: "CurrentExecuting (prSession executingFirst) = Some 0"
  using rows_attributed [OF executingFirst_reach, of "[]"]
  by (auto simp: executingFirst_inflight answer_def)

text \<open>
  Every row description reaches the statement it describes: the columns are recorded for
  the statement of the oldest unanswered Describe, or of the simple statement being answered,
  and the portal concerned gets the read plan of that statement for exactly these columns.
\<close>

theorem descriptions_attributed:
  assumes "protoReach E p c n m P"
    and "inflight P = RDesc (Some a) (Some po) # rs
       \<or> inflight P = RSimple po # rs \<and> poStmt (portalAt (prSession P) po) = Some a"
  shows "let s' = OnRowDescription E columns (prSession P) in
     psColumns (stmtAt s' a) = columns \<and> poReadPlan (portalAt s' po) = planRead E s' (stmtAt s' a) columns"
proof -
  define s' where "s' = OnRowDescription E columns (prSession P)"
  let ?s = "prSession P"
  note al = protoReach_aligned [OF assms(1)] and wf = protoReach_wf [OF assms(1)]
  have learned: "psColumns (stmtAt (learnFor E a (Some po) columns t) a) = columns
      \<and> poReadPlan (portalAt (learnFor E a (Some po) columns t) po)
         = planRead E (learnFor E a (Some po) columns t) (stmtAt (learnFor E a (Some po) columns t) a) columns"
    if "a < length (stmtHeap t)" "po < length (portalHeap t)" for t
    using that by (auto simp: learnFor_def learnColumns_def setReadPlan_def setPortal_def setStmt_def stmtAt_def
        portalAt_def planRead_def Let_def)
  have "psColumns (stmtAt s' a) = columns \<and> poReadPlan (portalAt s' po) = planRead E s' (stmtAt s' a) columns"
  proof (cases "inflight P = RDesc (Some a) (Some po) # rs")
    case True
    note d = aligned_describing [OF al True]
    then have "s' = learnFor E a (Some po) columns (popDescribe ?s)"
      by (simp add: s'_def OnRowDescription_def Let_def)
    moreover have "wfDescribe ?s (hd (describes ?s))"
      using wf d by (cases "describes ?s") (auto simp: wf_defs)
    ultimately show ?thesis
      using learned [of "popDescribe ?s"] d by (simp add: wfDescribe_def validStmt_def validPortal_def popDescribe_def)
  next
    case False
    then have q: "inflight P = RSimple po # rs" "poStmt (portalAt ?s po) = Some a" using assms(2) by auto
    note c = aligned_executing [OF al, of po rs]
    have e: "execQueue ?s = Executing po # concat (map execProj rs)"
      using al q(1) by (simp add: aligned_def execProj_def)
    then have "po < length (portalHeap ?s)" using wf by (simp add: wf_defs wfEntry_def)
    moreover from this have "a < length (stmtHeap ?s)"
      using wf_portal [OF wf, of po] q(2) by (simp add: validStmt_def)
    moreover have "s' = learnFor E a (Some po) columns ?s"
      using aligned_simple_rows [OF al q(1)] c q by (auto simp: s'_def OnRowDescription_def)
    ultimately show ?thesis using learned [of ?s] by simp
  qed
  then show ?thesis by (simp add: s'_def Let_def)
qed

theorem descriptions_attributed_witness:
  "psColumns (stmtAt (OnRowDescription exampleEnv [''id'', ''email''] (prSession executingFirst)) 0) = [''id'', ''email'']"
proof -
  have "poStmt (portalAt (prSession executingFirst) 0) = Some 0" by code_simp
  then show ?thesis
    using descriptions_attributed [OF executingFirst_reach, of 0 0 "[RSync]" "[''id'', ''email'']"]
    by (simp add: executingFirst_inflight Let_def)
qed

text \<open>
  C20. A failed batch is left behind exactly: after the backend's error and the ReadyForQuery
  that ends the batch, both queues are the images of the requests behind the batch's Sync, so
  batches that were pipelined after a failing one are attributed as if it had not failed.
\<close>

theorem batch_recovery:
  assumes "protoReach E p c n m P" and "inflight P = batch @ RSync # later" and "RSync \<notin> set batch"
  shows "execQueue (OnReadyForQuery (OnErrorResponse (prSession P))) = concat (map execProj later)
     \<and> describes (OnReadyForQuery (OnErrorResponse (prSession P))) = concat (map descProj later)"
proof -
  have "dropWhile (\<lambda>r. r \<noteq> RSync) (inflight P) = RSync # later"
    using assms(2,3) by (auto simp: dropWhile_append)
  then show ?thesis
    using protoReach_aligned [OF assms(1)]
    by (simp add: OnReadyForQuery_def OnErrorResponse_def aligned_def execp.dropBatch_proj
        descp.dropBatch_proj closeExecs_tl closeDescribes_tl execProj_def descProj_def
        boundaryDescribe_def)
qed

theorem batch_recovery_witness:
  "execQueue (OnReadyForQuery (OnErrorResponse (prSession pipelined))) = [Executing 0, syncBoundary]"
  using batch_recovery [OF pipelined_reach, of "[ROther, ROther, RDesc (Some 0) (Some 0), RExec (Some 0)]" "[RExec (Some 0), RSync]"]
  by (simp add: pipelined_inflight execProj_def)

text \<open>
  A statement is described once: a portal bound later to a statement whose result columns
  are known gets the read plan of those columns at its first row, with no further Describe.
\<close>

theorem described_once:
  assumes "statements s (bmStatement b) = Some a" and "psColumns (stmtAt s a) \<noteq> []"
    and "psAnalysis (stmtAt s a) = Some an"
  shows "snd (ensureReadPlan E (length (portalHeap s)) (OnBind b s)) =
     Some (PlanRead (envUnicode E) (planner s) (FromTables an) (psColumns (stmtAt s a)))"
  using assms
  by (simp add: ensureReadPlan_def OnBind_def allocPortal_def portalAt_def stmtAt_def setReadPlan_def setPortal_def
      planRead_def Let_def)

theorem described_once_witness:
  "snd (ensureReadPlan exampleEnv 1 (OnBind bindSelect session2)) = Some \<lparr>rpFields = [emailField], Ambiguous = []\<rparr>"
proof -
  have "statements session2 (bmStatement bindSelect) = Some 1" "psColumns (stmtAt session2 1) \<noteq> []"
    "length (portalHeap session2) = 1" by code_simp+
  moreover have "psAnalysis (stmtAt session2 1) = Some (projr (Analyze plainUnicode exampleParser exampleSelect))"
    "PlanRead plainUnicode (planner session2) (FromTables (projr (Analyze plainUnicode exampleParser exampleSelect)))
       (psColumns (stmtAt session2 1)) = \<lparr>rpFields = [emailField], Ambiguous = []\<rparr>" by code_simp+
  ultimately show ?thesis using described_once [of session2 bindSelect 1 _ exampleEnv] by (simp add: exampleEnv_def)
qed

section \<open>What passes undecrypted\<close>

lemma stored_envelope: "isEnvelope plainUnicode storedEmail"
proof -
  have "Encrypt exampleCipher [] SchemeDeterministic ''a@x'' (AAD plainUnicode ''USER_ENTITY'' ''EMAIL'') = Inr storedEmail"
    by code_simp
  then show ?thesis by (rule Parse_Encrypt [of _ _ _ _ _ _ plainUnicode]) (simp add: isEnvelope_def)
qed

text \<open>
  C33. What may be a ciphertext does not reach the client unnoticed: a row the proxy cannot open is
  forwarded unchanged, and if one of the values the detector looks at begins with the marker and is not
  an escaped plaintext (a well-formed envelope or a damaged one), the passthrough counter of the reason
  goes up by one, and no other counter changes; otherwise nothing is counted. The reasons are no executing
  portal, no plan, an empty plan (all values of the row are looked at) and a plan with ambiguous columns
  only (the values of these columns are).
\<close>

theorem passthrough_counted:
  assumes "unopened E s row reason vs"
  shows "\<exists>s'. DecryptDataRow E row s = ((s', row), None)
     \<and> metrics s' = (if marked vs then (metrics s)\<lparr>CiphertextPassthrough := Inc reason (CiphertextPassthrough (metrics s))\<rparr> else metrics s)"
  using unopened_row [OF assms] by (auto simp: countPassthrough_def)

theorem passthrough_counted_witness:
  "\<exists>s'. DecryptDataRow exampleEnv [None, Some ''$KKP$bad''] session1 = ((s', [None, Some ''$KKP$bad'']), None)
     \<and> CiphertextPassthrough (metrics s') = Inc ''no-portal'' (CiphertextPassthrough (metrics session1))"
proof -
  have "CurrentExecuting session1 = None" by code_simp
  from passthrough_counted [OF unopened.noPortal [OF this, of exampleEnv "[None, Some ''$KKP$bad'']"]]
  obtain s' where "DecryptDataRow exampleEnv [None, Some ''$KKP$bad''] session1 = ((s', [None, Some ''$KKP$bad'']), None)"
    "metrics s' = (if marked [None, Some ''$KKP$bad''] then (metrics session1)\<lparr>CiphertextPassthrough :=
        Inc ''no-portal'' (CiphertextPassthrough (metrics session1))\<rparr> else metrics session1)" by blast
  moreover have "marked [None, Some ''$KKP$bad'']" by (simp add: marked_def HasPrefix_def sentinel_def escapeMarker_def)
  ultimately show ?thesis by simp
qed
lemma containsIdentFrom_iff:
  "ident \<noteq> [] \<Longrightarrow> containsIdentFrom su ident from \<longleftrightarrow>
     (\<exists>i \<ge> from. HasPrefix (drop i su) ident \<and> identAt su ident i)"
proof (induction su ident "from" rule: containsIdentFrom.induct)
  case (1 su ident "from")
  show ?case
  proof (cases "from > length su")
    case True
    then show ?thesis using 1(2) by (auto simp: containsIdentFrom.simps [of su ident "from"] HasPrefix_def)
  next
    case le: False
    show ?thesis
    proof (cases "strIndex (drop from su) ident")
      case None
      then have "\<not> HasPrefix (drop i su) ident" if "i \<ge> from" for i
        using strIndex_none [OF None, of "i - from"] that by simp
      then show ?thesis using None by (auto simp: containsIdentFrom.simps [of su ident "from"])
    next
      case (Some j)
      have hit: "HasPrefix (drop (j + from) su) ident" using strIndex_Some [OF Some] by simp
      have "j + from = i \<or> Suc (j + from) \<le> i" if "i \<ge> from" "HasPrefix (drop i su) ident" for i
        using strIndex_first [OF Some, of "i - from"] that by (cases "i - from < j") auto
      then have "(\<exists>i \<ge> from. HasPrefix (drop i su) ident \<and> identAt su ident i) \<longleftrightarrow>
          identAt su ident (j + from) \<or> (\<exists>i \<ge> Suc (j + from). HasPrefix (drop i su) ident \<and> identAt su ident i)"
        using hit by (metis Suc_leD le_add2 le_trans)
      then show ?thesis
        using 1(1) [OF le Some 1(2)] le Some by (simp add: containsIdentFrom.simps [of su ident "from"])
    qed
  qed
qed

text \<open>
  The lint that looks for PII tables in the SQL of an unplanned statement finds an
  identifier exactly when it occurs delimited: the search returns for every text, an
  occurrence hidden inside a longer word does not stop it, and a later one is still found.
\<close>

theorem containsIdent_exact:
  assumes "ident \<noteq> []"
  shows "containsIdent su ident \<longleftrightarrow> (\<exists>pre post. su = pre @ ident @ post
     \<and> (pre = [] \<or> \<not> isIdentChar (last pre))
     \<and> (HasSuffix ident ''_'' \<or> post = [] \<or> \<not> isIdentChar (hd post)))"
proof -
  have "identAt (pre @ ident @ post) ident (length pre) \<longleftrightarrow>
      (pre = [] \<or> \<not> isIdentChar (last pre)) \<and> (HasSuffix ident ''_'' \<or> post = [] \<or> \<not> isIdentChar (hd post))" for pre post
    by (cases pre rule: rev_cases; cases post) (auto simp: identAt_def nth_append)
  moreover have "(\<exists>i. HasPrefix (drop i su) ident \<and> identAt su ident i) \<longleftrightarrow>
      (\<exists>pre post. su = pre @ ident @ post \<and> identAt su ident (length pre))"
  proof
    assume "\<exists>i. HasPrefix (drop i su) ident \<and> identAt su ident i"
    then obtain i post where i: "drop i su = ident @ post" "identAt su ident i" by (auto simp: HasPrefix_iff)
    then have "i < length su" using assms by (cases "i < length su") simp_all
    then have "su = take i su @ ident @ post \<and> identAt su ident (length (take i su))"
      using i append_take_drop_id [of i su] by simp
    then show "\<exists>pre post. su = pre @ ident @ post \<and> identAt su ident (length pre)" by blast
  next
    assume "\<exists>pre post. su = pre @ ident @ post \<and> identAt su ident (length pre)"
    then obtain pre post where "su = pre @ ident @ post" "identAt su ident (length pre)" by blast
    then have "HasPrefix (drop (length pre) su) ident \<and> identAt su ident (length pre)" by simp
    then show "\<exists>i. HasPrefix (drop i su) ident \<and> identAt su ident i" by blast
  qed
  ultimately show ?thesis
    using containsIdentFrom_iff [OF assms, of su 0] by (auto simp: containsIdent_def)
qed

theorem containsIdent_exact_witness:
  "\<not> containsIdent ''SELECT * FROM MY_CREDENTIALS'' ''CREDENTIAL'' \<and> containsIdent ''XCREDENTIAL, CREDENTIAL'' ''CREDENTIAL''"
proof -
  have "containsIdent ''XCREDENTIAL, CREDENTIAL'' ''CREDENTIAL''"
    by (rule containsIdent_exact [THEN iffD2], simp)
       (rule exI [of _ "''XCREDENTIAL, ''"], rule exI [of _ "[]"], simp add: isIdentChar_def)
  moreover have "\<not> containsIdent ''SELECT * FROM MY_CREDENTIALS'' ''CREDENTIAL''" by code_simp
  ultimately show ?thesis by blast
qed

end
