(* ===== verification/Forwarding.thy ===== *)
theory Forwarding
  imports RewriteProps WireProps
begin

text \<open>
  The stream of messages the backend receives during a whole relay, against the messages the
  client sent: what the proxy remembers of the prepared statements is what the stream has
  prepared, and so each forwarded message is judged by the statement it belongs to.
\<close>

section \<open>Runs with the messages they forwarded\<close>

inductive relayRun :: "env \<Rightarrow> Session \<Rightarrow> FrontendMessage list \<Rightarrow> relayState \<Rightarrow> bool" for E s0 where
  start: "relayRun E s0 [] (startRelay s0)"
| forwards: "relayRun E s0 ins r \<Longrightarrow> rlClientPump r = Going \<Longrightarrow>
     pumpClientStep E (Inr msg) None (rlSession r) = (s', [msg'], st) \<Longrightarrow>
     relayRun E s0 (ins @ [msg]) (r\<lparr>rlSession := s', rlToBackend := rlToBackend r @ [msg'], rlClientPump := st,
       rlResult := deliver st (rlResult r)\<rparr>)"
| stops: "relayRun E s0 ins r \<Longrightarrow> rlClientPump r = Going \<Longrightarrow>
     pumpClientStep E received sent (rlSession r) = (s', [], st) \<Longrightarrow>
     relayRun E s0 ins (r\<lparr>rlSession := s', rlClientPump := st, rlResult := deliver st (rlResult r)\<rparr>)"
| answers: "relayRun E s0 ins r \<Longrightarrow> rlBackendPump r = Going \<Longrightarrow>
     pumpBackendStep E received' sent (rlSession r) = (s', out, st) \<Longrightarrow>
     relayRun E s0 ins (r\<lparr>rlSession := s', rlToClient := rlToClient r @ out, rlBackendPump := st,
       rlResult := deliver st (rlResult r)\<rparr>)"

text \<open>A client step sends the image of the message it received, or stops.\<close>

lemma pumpClientStep_cases:
  assumes "pumpClientStep E received sent s = (s', out, st)"
  obtains (sends) msg msg' where "received = Inr msg" "sent = None" "out = [msg']"
      "observeFrontend E msg s = ((s', msg'), None)"
  | (ends) e where "out = []" "st = Stopped (Some e)"
  using assms by (auto simp: pumpClientStep_def split: sum.splits option.splits prod.splits)

lemma relayRun_iff: "relayReach E s0 r \<longleftrightarrow> (\<exists>ins. relayRun E s0 ins r)"
proof
  assume "relayReach E s0 r"
  then show "\<exists>ins. relayRun E s0 ins r"
  proof (induction rule: relayReach.induct)
    case start
    then show ?case using relayRun.start by blast
  next
    case (step r r')
    then obtain ins where ins: "relayRun E s0 ins r" by blast
    from step(2) show ?case
    proof cases
      case (client received sent s' out st)
      then show ?thesis
        by (cases rule: pumpClientStep_cases [OF client(3)])
          (use relayRun.forwards [OF ins] relayRun.stops [OF ins] in fastforce)+
    next
      case (backend received sent s' out st)
      then show ?thesis using relayRun.answers [OF ins] by blast
    qed
  qed
next
  assume "\<exists>ins. relayRun E s0 ins r"
  then obtain ins where "relayRun E s0 ins r" ..
  then show "relayReach E s0 r"
  proof (induction rule: relayRun.induct)
    case start
    then show ?case by (rule relayReach.start)
  next
    case (forwards ins r msg s' msg' st)
    then show ?case by (blast intro: relayReach.step relayStep.client)
  next
    case (stops ins r received sent s' st)
    then show ?case using relayStep.client [OF stops(2,3)] relayReach.step by fastforce
  next
    case (answers ins r received' sent s' out st)
    then show ?case by (blast intro: relayReach.step relayStep.backend)
  qed
qed

section \<open>Names\<close>

text \<open>The statements a stream has prepared and not closed, by name.\<close>

fun nameStep :: "FrontendMessage \<Rightarrow> (string \<rightharpoonup> ParseMsg) \<Rightarrow> (string \<rightharpoonup> ParseMsg)" where
  "nameStep (FParse p) names = names(pmName p \<mapsto> p)"
| "nameStep (FClose t n) names = (if t = CHR ''S'' then names(n := None) else names)"
| "nameStep _ names = names"

definition prepared :: "FrontendMessage list \<Rightarrow> (string \<rightharpoonup> ParseMsg)" where
  "prepared ins = fold nameStep ins Map.empty"

lemma prepared_simps [simp]: "prepared [] = Map.empty" "prepared (ins @ [m]) = nameStep m (prepared ins)"
  by (simp_all add: prepared_def)

text \<open>What the session holds under a name is what preparing the named statement gives.\<close>

definition recorded :: "env \<Rightarrow> Planner \<Rightarrow> Session \<Rightarrow> string \<Rightarrow> ParseMsg option \<Rightarrow> bool" where
  "recorded E pl s n x \<longleftrightarrow>
     (case x of
        None \<Rightarrow> statements s n = None
      | Some p \<Rightarrow> \<exists>a ps. statements s n = Some a \<and> a < length (stmtHeap s) \<and> prepare E pl p = Inr ps
          \<and> psWritePlan (stmtAt s a) = psWritePlan ps)"

lemma recorded_cong:
  "statements s' n = statements s n \<Longrightarrow> stmtHeap s' = stmtHeap s \<Longrightarrow> recorded E pl s' n x = recorded E pl s n x"
  by (simp add: recorded_def stmtAt_def split: option.split)

definition agree :: "env \<Rightarrow> Planner \<Rightarrow> Cipher option \<Rightarrow> (string \<rightharpoonup> ParseMsg) \<Rightarrow> Session \<Rightarrow> bool" where
  "agree E pl c names s \<longleftrightarrow> planner s = pl \<and> cipher s = c \<and> (\<forall>n. recorded E pl s n (names n))"

text \<open>What all messages but Parse and Close leave alone.\<close>

definition keeps :: "Session \<Rightarrow> Session \<Rightarrow> bool" where
  "keeps s s' \<longleftrightarrow> planner s' = planner s \<and> cipher s' = cipher s \<and> statements s' = statements s
     \<and> length (stmtHeap s) \<le> length (stmtHeap s')
     \<and> (\<forall>a < length (stmtHeap s). psWritePlan (stmtAt s' a) = psWritePlan (stmtAt s a))"

lemma keeps_refl [simp]: "keeps s s"
  by (simp add: keeps_def)

lemma keeps_trans: "keeps s t \<Longrightarrow> keeps t u \<Longrightarrow> keeps s u"
  by (auto simp: keeps_def)

lemma agree_keeps: "agree E pl c names s \<Longrightarrow> keeps s s' \<Longrightarrow> agree E pl c names s'"
  unfolding agree_def keeps_def recorded_def by (fastforce split: option.splits)

lemma keeps_frame:
  "keeps s (s\<lparr>portals := ps\<rparr>)" "keeps s (s\<lparr>execQueue := q\<rparr>)" "keeps s (s\<lparr>describes := d\<rparr>)"
  "keeps s (s\<lparr>execQueue := q, describes := d\<rparr>)" "keeps s (s\<lparr>metrics := m\<rparr>)" "keeps s (s\<lparr>drawn := n\<rparr>)"
  "keeps s (setPortal p po s)" "keeps s (allocPortal po s)" "keeps s (allocStmt st s)"
  by (simp_all add: keeps_def stmtAt_def setPortal_def allocPortal_def allocStmt_def nth_append)

lemma keeps_onlyCounts: "onlyCounts s s' \<Longrightarrow> keeps s s'"
  unfolding onlyCounts_def by (metis keeps_frame(5,6) keeps_trans)

lemma keeps_setStmt: "psWritePlan ps = psWritePlan (stmtAt s a) \<Longrightarrow> keeps s (setStmt a ps s)"
  by (simp add: keeps_def setStmt_def stmtAt_def nth_update_if)

section \<open>Handlers\<close>

lemma keeps_frontend:
  "keeps s (OnBind b s)" "keeps s (OnExecute portal s)" "keeps s (OnDescribe t name s)" "keeps s (OnSync s)"
  "keeps s (enqueueSimple st s)" "keeps s (fst (querySimple E a s))"
proof -
  show simple: "keeps s (enqueueSimple st s)" for st
    by (simp add: enqueueSimple_def Let_def keeps_def stmtAt_def allocPortal_def allocStmt_def nth_append)
  show "keeps s (fst (querySimple E a s))" by (simp add: querySimple_def simple split: sum.split)
qed (simp_all add: OnBind_def OnExecute_def OnDescribe_def OnSync_def keeps_def stmtAt_def allocPortal_def split: option.split)

lemma keeps_OnQuery: "keeps s (fst (OnQuery E q s))"
proof -
  have "keeps s (fst (forE (querySimple E) as s))" for as
    by (rule forE_inv [where I = "keeps s"]) (auto intro: keeps_trans keeps_frontend)
  then have "keeps s (fst (thenE (forE (querySimple E) as s) (\<lambda>s1. (OnSync s1, None))))" for as
    by (intro thenE_inv [where I = "keeps s"]) (auto intro: keeps_trans keeps_frontend)
  then show ?thesis
    using keeps_trans [OF keeps_frontend(5) keeps_frontend(4)] by (simp add: OnQuery_def del: forE.simps split: sum.split list.split)
qed

lemma keeps_learnFor: "keeps s (learnFor E a po columns s)"
proof -
  have "keeps s (learnColumns E a columns s)"
    using keeps_trans [OF keeps_setStmt keeps_frame(5)] by (auto simp: learnColumns_def Let_def intro: keeps_setStmt)
  then show ?thesis
    by (auto simp: learnFor_def setReadPlan_def Let_def intro: keeps_trans keeps_frame split: option.split)
qed

lemma keeps_backend: "keeps s (fst (fst (observeBackend E msg s)))"
proof -
  have row: "keeps s (fst (fst (DecryptDataRow E row s)))" for row
  proof (rule keeps_trans [OF _ keeps_onlyCounts [OF DecryptDataRow_only]])
    show "keeps s (case CurrentExecuting s of None \<Rightarrow> s | Some p \<Rightarrow> fst (ensureReadPlan E p s))"
      by (simp add: ensureReadPlan_def setReadPlan_def keeps_frame Let_def split: option.split)
  qed
  have desc: "keeps s (OnRowDescription E columns s)" for columns
    using keeps_trans [OF keeps_frame(3) keeps_learnFor]
    by (simp add: OnRowDescription_def popDescribe_def keeps_frame keeps_learnFor Let_def split: option.split)
  show ?thesis
    using row desc
    by (cases msg) (auto simp: observeBackend_def case_prod_unfold OnNoData_def OnCommandComplete_def OnPortalSuspended_def
        OnEmptyQueryResponse_def OnErrorResponse_def OnReadyForQuery_def popExecuting_def popExec_def popDescribe_def
        keeps_frame Let_def split: execEntry.split list.split intro: keeps_trans)
qed

lemma agree_frontend:
  assumes "agree E pl c names s" "observeFrontend E msg s = ((s', msg'), None)"
  shows "agree E pl c (nameStep msg names) s'"
proof (cases msg)
  case (FParse p)
  then obtain ps where "prepare E pl p = Inr ps"
    and s': "s' = (allocStmt ps s)\<lparr>statements := (statements s)(pmName p \<mapsto> length (stmtHeap s))\<rparr>"
    using assms by (auto simp: observeFrontend_def OnParse_def agree_def split: sum.splits)
  moreover have old: "recorded E pl (allocStmt ps s) n (names n)" for n
    using agree_keeps [OF assms(1) keeps_frame(9)] by (simp add: agree_def)
  moreover have "recorded E pl s' n (names n)" if "n \<noteq> pmName p" for n
    using that old [of n] recorded_cong [of s' n "allocStmt ps s" E pl "names n"] by (simp add: s' allocStmt_def)
  ultimately have "recorded E pl s' n (nameStep msg names n)" for n
    using FParse s' by (cases "n = pmName p") (simp_all add: recorded_def allocStmt_def stmtAt_def nth_append)
  then show ?thesis using assms(1) s' by (simp add: agree_def allocStmt_def)
next
  case (FBind b)
  then have "s' = fst (fst (EncryptBind E b (OnBind b s)))" using assms(2) by (auto simp: observeFrontend_def split: prod.splits)
  then have "keeps s s'" using keeps_trans [OF keeps_frontend(1) keeps_onlyCounts [OF EncryptBind_only]] by simp
  then show ?thesis using agree_keeps [OF assms(1)] FBind by simp
next
  case (FQuery q)
  then have "s' = fst (OnQuery E q s)" using assms(2) by (auto simp: observeFrontend_def split: prod.splits)
  then show ?thesis using agree_keeps [OF assms(1) keeps_OnQuery] FQuery by simp
next
  case (FClose t n)
  show ?thesis
  proof (cases "t = CHR ''S''")
    case True
    then have s': "s' = s\<lparr>statements := (statements s)(n := None)\<rparr>"
      using assms(2) FClose by (simp add: observeFrontend_def OnClose_def)
    then have "recorded E pl s' k (nameStep msg names k)" for k
      using assms(1) FClose True recorded_cong [of s' k s E pl "names k"]
      by (cases "k = n") (auto simp: agree_def recorded_def)
    then show ?thesis using assms(1) s' by (simp add: agree_def)
  next
    case False
    then show ?thesis
      using assms FClose agree_keeps [OF assms(1) keeps_frame(1)] by (auto simp: observeFrontend_def OnClose_def split: if_splits)
  qed
qed (use assms agree_keeps [OF assms(1)] keeps_frontend in \<open>auto simp: observeFrontend_def\<close>)

section \<open>The stream\<close>

text \<open>
  \<open>judged\<close>: the forwarded message is what the handlers made of the received one in a session that
  agrees with the stream before it.
\<close>

definition judged ::
  "env \<Rightarrow> Planner \<Rightarrow> Cipher option \<Rightarrow> (string \<rightharpoonup> ParseMsg) \<Rightarrow> FrontendMessage \<Rightarrow> FrontendMessage \<Rightarrow> bool" where
  "judged E pl c names msg msg' \<longleftrightarrow> (\<exists>s s'. agree E pl c names s \<and> observeFrontend E msg s = ((s', msg'), None))"

definition streamInv :: "env \<Rightarrow> Planner \<Rightarrow> Cipher option \<Rightarrow> FrontendMessage list \<Rightarrow> relayState \<Rightarrow> bool" where
  "streamInv E pl c ins r \<longleftrightarrow> length (rlToBackend r) = length ins
     \<and> (rlClientPump r = Going \<longrightarrow> agree E pl c (prepared ins) (rlSession r))
     \<and> (\<forall>k < length ins. judged E pl c (prepared (take k ins)) (ins ! k) (rlToBackend r ! k))"

lemma stream_invariant: "relayRun E (NewSession pl c rnd m) ins r \<Longrightarrow> streamInv E pl c ins r"
proof (induction rule: relayRun.induct)
  case start
  then show ?case by (simp add: streamInv_def startRelay_def agree_def recorded_def NewSession_def)
next
  case (forwards ins r msg s' msg' st)
  then have ag: "agree E pl c (prepared ins) (rlSession r)" by (simp add: streamInv_def)
  have ob: "observeFrontend E msg (rlSession r) = ((s', msg'), None)"
    by (cases rule: pumpClientStep_cases [OF forwards(3)]) auto
  then have "judged E pl c (prepared ins) msg msg'" using ag by (auto simp: judged_def)
  then show ?case
    using forwards(4) agree_frontend [OF ag ob] by (auto simp: streamInv_def nth_append less_Suc_eq)
next
  case (stops ins r received sent s' st)
  then have "st \<noteq> Going" by (auto elim: pumpClientStep_cases)
  then show ?case using stops(4) by (simp add: streamInv_def)
next
  case (answers ins r received' sent s' out st)
  have "keeps (rlSession r) s'"
    using answers(3) keeps_backend [of "rlSession r" E]
    by (auto simp: pumpBackendStep_def split: sum.splits option.splits prod.splits) (metis fst_conv)+
  then show ?case using answers(4) agree_keeps by (auto simp: streamInv_def)
qed

section \<open>Bound values\<close>

text \<open>The write plan that preparing a statement records.\<close>

definition planned :: "env \<Rightarrow> Planner \<Rightarrow> ParseMsg \<Rightarrow> WritePlan option" where
  "planned E pl p = (case prepare E pl p of Inl e \<Rightarrow> None | Inr ps \<Rightarrow> psWritePlan ps)"

lemma planned_params:
  assumes "planned E pl p = Some plan" "Analyze (envUnicode E) (envParser E) (pmQuery p) = Inr a"
  shows "\<exists>plan0. PlanWrite (envUnicode E) pl a = Inr plan0 \<and> wpParams plan = wpParams plan0"
  using assms by (auto simp: planned_def prepare_def fillNewParams_def bindR_def Let_def split: sum.splits if_splits prod.splits)

text \<open>A forwarded Bind is the transformation of the Bind received, by the plan of the statement it names.\<close>

lemma judged_transformed:
  assumes "judged E pl (Some c) names (FBind b) msg'" and "names (bmStatement b) = Some p"
    and "planned E pl p = Some plan" and "\<not> WritePlan_IsEmpty plan"
  shows "\<exists>s s' b'. msg' = FBind b' \<and> transformBind E c plan (s, b) = ((s', b'), None)"
proof -
  obtain s s1 where s0: "agree E pl (Some c) names s" "observeFrontend E (FBind b) s = ((s1, msg'), None)"
    using assms(1) by (auto simp: judged_def)
  then obtain s' b' where s: "msg' = FBind b'" "EncryptBind E b (OnBind b s) = ((s', b'), None)"
    by (cases "EncryptBind E b (OnBind b s)") (auto simp: observeFrontend_def split: prod.splits)
  let ?s = "OnBind b s"
  have ag: "agree E pl (Some c) names ?s" by (rule agree_keeps [OF s0(1) keeps_frontend(1)])
  then have "recorded E pl ?s (bmStatement b) (Some p)" using assms(2) unfolding agree_def by metis
  then obtain a where a: "statements ?s (bmStatement b) = Some a" "psWritePlan (stmtAt ?s a) = Some plan"
    using assms(3) by (auto simp: recorded_def planned_def split: sum.splits)
  have "cipher ?s = Some c" using ag by (simp add: agree_def)
  then have "transformBind E c plan (?s, b) = ((s', b'), None)" using s(2) a assms(4) by (simp add: EncryptBind_def)
  then show ?thesis using s(1) by blast
qed

text \<open>What the backend receives for a bound value of a protected column.\<close>

lemma bind_judged:
  assumes "judged E pl (Some c) names (FBind b) msg'" and "names (bmStatement b) = Some p"
    and "planned E pl p = Some plan" "separate plan" "bmSpare b = []" "lawfulCipher c"
    and "pr \<in> set (wpParams plan)" "paramValue b (prParam pr) = Some v"
  shows "\<exists>b' st. msg' = FBind b' \<and> paramValue b' (prParam pr) = Some st \<and> isEnvelope (envUnicode E) st
     \<and> Decrypt (envUnicode E) c st (AAD (envUnicode E) (prTable pr) (prColumn pr)) = Inr (normalized E (prRule pr) v)"
proof -
  have "\<not> WritePlan_IsEmpty plan" using assms(7) by (auto simp: WritePlan_IsEmpty_def)
  from judged_transformed [OF assms(1-3) this] obtain s s' b' where
    "msg' = FBind b'" "transformBind E c plan (s, b) = ((s', b'), None)" by blast
  then show ?thesis
    using sealed_opens [of E c pr v "bindSlot (s', b') (prParam pr)"] transformBind_sealed [of E c plan s b _ pr] assms(4-8)
    by (simp add: bindSlot_def)
qed

text \<open>The Bind at a position of a run.\<close>

definition forwardedBind ::
  "env \<Rightarrow> Planner \<Rightarrow> Cipher \<Rightarrow> FrontendMessage list \<Rightarrow> relayState \<Rightarrow> nat \<Rightarrow> BindMsg \<Rightarrow> WritePlan \<Rightarrow> bool" where
  "forwardedBind E pl c ins r k b plan \<longleftrightarrow>
     (\<exists>rnd m. relayRun E (NewSession pl (Some c) rnd m) ins r) \<and> k < length ins \<and> ins ! k = FBind b \<and> bmSpare b = []
     \<and> (\<exists>p. prepared (take k ins) (bmStatement b) = Some p \<and> planned E pl p = Some plan)"

lemma forwarded_transformed:
  assumes "forwardedBind E pl c ins r k b plan" and "\<not> WritePlan_IsEmpty plan"
  shows "\<exists>s s' b'. rlToBackend r ! k = FBind b' \<and> transformBind E c plan (s, b) = ((s', b'), None)"
proof -
  obtain rnd m p where r: "relayRun E (NewSession pl (Some c) rnd m) ins r" "prepared (take k ins) (bmStatement b) = Some p"
    "planned E pl p = Some plan" "k < length ins" "ins ! k = FBind b"
    using assms(1) by (auto simp: forwardedBind_def)
  then have "judged E pl (Some c) (prepared (take k ins)) (FBind b) (rlToBackend r ! k)"
    using stream_invariant [OF r(1)] by (metis streamInv_def)
  from judged_transformed [OF this r(2,3) assms(2)] show ?thesis .
qed

lemma protected_param:
  assumes "planned E pl p = Some plan" "Analyze (envUnicode E) (envParser E) (pmQuery p) = Inr a" "\<not> lenient pl"
    and "cp \<in> set (WriteColumns a) \<union> set (FilterColumns a)"
    and "ColumnRule (plannerFields pl) (ToUpper (envUnicode E) (anTable a)) (ToUpper (envUnicode E) (cpColumn cp)) = Some rule"
  shows "\<lparr>prParam = cpParam cp, prTable = ToUpper (envUnicode E) (anTable a),
     prColumn = ToUpper (envUnicode E) (cpColumn cp), prRule = rule\<rparr> \<in> set (wpParams plan)"
  using planned_params [OF assms(1,2)] strict_covers [OF _ assms(3), of "envUnicode E" a _ cp rule] assms(4,5)
  by (auto simp: ruleAt_def paramRuleFor_def)

section \<open>What a relay never changes\<close>

lemma fixed_frontend:
  "planner (fst (fst (observeFrontend E msg s))) = planner s \<and> cipher (fst (fst (observeFrontend E msg s))) = cipher s"
proof (cases msg)
  case (FBind b)
  then show ?thesis
    using keeps_trans [OF keeps_frontend(1) keeps_onlyCounts [OF EncryptBind_only]]
    by (simp add: observeFrontend_def case_prod_unfold Let_def keeps_def)
next
  case (FQuery q)
  then show ?thesis using keeps_OnQuery [of s E q] by (simp add: observeFrontend_def case_prod_unfold Let_def keeps_def)
qed (use keeps_frontend [of s] in \<open>auto simp: observeFrontend_def OnParse_def OnClose_def allocStmt_def keeps_def split: sum.split\<close>)

lemma relay_fixed: "relayReach E s0 r \<Longrightarrow> planner (rlSession r) = planner s0 \<and> cipher (rlSession r) = cipher s0"
proof (induction rule: relayReach.induct)
  case (step r r')
  from step(2) show ?case
  proof cases
    case (client received sent s' out st)
    then show ?thesis
      using step(3) fixed_frontend [of E _ "rlSession r"]
      by (auto simp: pumpClientStep_def split: sum.splits option.splits prod.splits) (metis fst_conv)+
  next
    case (backend received sent s' out st)
    then show ?thesis
      using step(3) keeps_backend [of "rlSession r" E]
      by (auto simp: pumpBackendStep_def keeps_def split: sum.splits option.splits prod.splits) (metis fst_conv)+
  qed
qed (simp add: startRelay_def)

section \<open>Parameters used once\<close>

text \<open>
  A plan is \<open>separate\<close> when the statement uses each of its parameters once, as the statements of
  a JDBC client do, no column is under both a rule and an attribute policy, and no hash column is
  written besides.
\<close>

definition usedParams :: "ColumnParam list \<Rightarrow> int multiset" where
  "usedParams cps = mset (filter (\<lambda>n. n \<noteq> 0) (map cpParam cps))"

definition oneUse :: "Analysis \<Rightarrow> bool" where
  "oneUse a \<longleftrightarrow> distinct (filter (\<lambda>n. n \<noteq> 0) (map cpParam (WriteColumns a @ FilterColumns a @ LikeFilterColumns a)))"

text \<open>Columns under an attribute policy have no rule of their own.\<close>

definition policyApart :: "unicode \<Rightarrow> Planner \<Rightarrow> string \<Rightarrow> bool" where
  "policyApart U pl t \<longleftrightarrow>
     (case AttributePolicyFor (plannerFields pl) t of
        None \<Rightarrow> True
      | Some pol \<Rightarrow> \<forall>col \<in> upperSet U (apValueColumns pol). ColumnRule (plannerFields pl) t col = None)"

lemma distinct_sub:
  assumes "mset xs \<subseteq># mset ys" "distinct ys"
  shows "distinct xs"
proof -
  obtain zs where "mset ys = mset (xs @ zs)" using assms(1) by (metis ex_mset mset_append mset_subset_eq_exists_conv)
  then show ?thesis using assms(2) mset_eq_imp_distinct_iff by fastforce
qed

lemma written_used:
  "mset (map prParam (concat (map (writtenRules U pl t) cps))) \<subseteq># usedParams cps"
  "mset (map prParam (concat (map (filterRules U pl t) cps))) \<subseteq># usedParams cps"
proof (induction cps)
  case (Cons cp cps)
  have "mset (map prParam (writtenRules U pl t cp)) \<subseteq># usedParams [cp]" "mset (map prParam (filterRules U pl t cp)) \<subseteq># usedParams [cp]"
    by (auto simp: writtenRules_def filterRules_def paramRuleFor_def usedParams_def split: option.split)
  moreover have "usedParams (cp # cps) = usedParams [cp] + usedParams cps" by (simp add: usedParams_def)
  ultimately show "mset (map prParam (concat (map (writtenRules U pl t) (cp # cps)))) \<subseteq># usedParams (cp # cps)"
    "mset (map prParam (concat (map (filterRules U pl t) (cp # cps)))) \<subseteq># usedParams (cp # cps)"
    using Cons.IH by (auto intro: subset_mset.add_mono)
qed (simp_all add: usedParams_def)

lemma attr_used:
  assumes "\<forall>col \<in> upperSet U (apValueColumns pol). ColumnRule (plannerFields pl) t col = None"
  shows "mset (map prParam (concat (map (writtenRules U pl t) cps))) + mset (map prParam (concat (map (attrRules U t pol) cps)))
     \<subseteq># usedParams cps"
proof (induction cps)
  case (Cons cp cps)
  have "mset (map prParam (writtenRules U pl t cp)) + mset (map prParam (attrRules U t pol cp)) \<subseteq># usedParams [cp]"
    using assms by (auto simp: writtenRules_def attrRules_def ruleAt_def paramRuleFor_def usedParams_def split: option.split)
  moreover have "usedParams (cp # cps) = usedParams [cp] + usedParams cps" by (simp add: usedParams_def)
  ultimately have "(mset (map prParam (writtenRules U pl t cp)) + mset (map prParam (attrRules U t pol cp)))
     + (mset (map prParam (concat (map (writtenRules U pl t) cps))) + mset (map prParam (concat (map (attrRules U t pol) cps))))
     \<subseteq># usedParams (cp # cps)"
    using Cons.IH by (auto intro: subset_mset.add_mono)
  then show ?case by (simp add: ac_simps)
qed (simp add: usedParams_def)

lemma like_used:
  "mset (map prParam (concat (map (likeRules U pl t) cps))) + mset (map bfParam (concat (map (likeHashes U pl t) cps)))
     \<subseteq># usedParams cps"
proof (induction cps)
  case (Cons cp cps)
  have "mset (map prParam (likeRules U pl t cp)) + mset (map bfParam (likeHashes U pl t cp)) \<subseteq># usedParams [cp]"
    by (auto simp: likeRules_def likeHashes_def paramRuleFor_def usedParams_def split: option.split)
  moreover have "usedParams (cp # cps) = usedParams [cp] + usedParams cps" by (simp add: usedParams_def)
  ultimately have "(mset (map prParam (likeRules U pl t cp)) + mset (map bfParam (likeHashes U pl t cp)))
     + (mset (map prParam (concat (map (likeRules U pl t) cps))) + mset (map bfParam (concat (map (likeHashes U pl t) cps))))
     \<subseteq># usedParams (cp # cps)"
    using Cons.IH by (auto intro: subset_mset.add_mono)
  then show ?case by (simp add: ac_simps)
qed (simp add: usedParams_def)

lemma plan_separate:
  assumes "PlanWrite U pl a = Inr plan" "oneUse a" "policyApart U pl (ToUpper U (anTable a))" "BlindIndexWrites plan = []"
  shows "separate plan"
proof -
  let ?t = "ToUpper U (anTable a)"
  let ?ps = "map prParam (concat (map (writtenRules U pl ?t) (WriteColumns a)))"
  have plan: "plan = planOf U pl a" using assms(1) by (simp add: PlanWrite_Inr)
  define as where "as = concat (map (\<lambda>cond. map prParam (acValueParams cond)) (attrConditions U pl ?t a))"
  have attr: "mset ?ps + mset as \<subseteq># usedParams (WriteColumns a)"
  proof (cases "AttributePolicyFor (plannerFields pl) ?t")
    case None
    then show ?thesis using written_used(1) by (simp add: as_def attrConditions_def)
  next
    case (Some pol)
    then show ?thesis
      using written_used(1) [of U pl ?t "WriteColumns a"] attr_used [of U pol pl ?t "WriteColumns a"] assms(3)
      by (auto simp: as_def attrConditions_def policyApart_def Let_def)
  qed
  have "touchedParams plan = ?ps @ map prParam (concat (map (filterRules U pl ?t) (FilterColumns a))) @ as
      @ map prParam (concat (map (likeRules U pl ?t) (LikeFilterColumns a)))
      @ map bfParam (concat (map (likeHashes U pl ?t) (LikeFilterColumns a)))"
    using assms(4) by (simp add: touchedParams_def plan planOf_def as_def Let_def)
  then have "mset (touchedParams plan) \<subseteq># usedParams (WriteColumns a) + usedParams (FilterColumns a) + usedParams (LikeFilterColumns a)"
    using subset_mset.add_mono [OF subset_mset.add_mono [OF attr written_used(2) [of U pl ?t "FilterColumns a"]] like_used [of U pl ?t "LikeFilterColumns a"]]
    by (simp add: ac_simps)
  also have "\<dots> = mset (filter (\<lambda>n. n \<noteq> 0) (map cpParam (WriteColumns a @ FilterColumns a @ LikeFilterColumns a)))"
    by (simp add: usedParams_def)
  finally show ?thesis using distinct_sub assms(2) by (simp only: separate_def oneUse_def)
qed

section \<open>Rows\<close>

lemma row_opened:
  assumes "relayReach E (NewSession pl (Some c) rnd m) q" and "CurrentExecuting (rlSession q) = Some po"
    and "snd (ensureReadPlan E po (rlSession q)) = Some rp" and "f \<in> set (rpFields rp)" and "rfIndex f < length row"
    and "pumpBackendStep E (Inr (BDataRow row)) None (rlSession q) = (s', out, Going)"
  shows "\<exists>row'. out = [BDataRow row'] \<and> opened E c f (row ! rfIndex f) (row' ! rfIndex f)"
proof -
  have wf: "wfSession E (rlSession q)" by (rule relayReach_wf [OF assms(1)])
  have c: "cipher (rlSession q) = Some c" using relay_fixed [OF assms(1)] by (simp add: NewSession_def)
  obtain row' where d: "DecryptDataRow E row (rlSession q) = ((s', row'), None)" "out = [BDataRow row']"
    using assms(6) by (cases "DecryptDataRow E row (rlSession q)")
      (auto simp: pumpBackendStep_def observeBackend_def split: option.splits prod.splits)
  show ?thesis using DecryptDataRow_fields(2) [OF wf assms(2,3) c d(1) assms(5,4) refl] d(2) by blast
qed

section \<open>Feeding a run\<close>

lemma relayRun_sends:
  assumes "relayRun E s0 ins r" "rlClientPump r = Going" "snd (observeFrontend E msg (rlSession r)) = None"
    and "snd (fst (observeFrontend E msg (rlSession r))) \<noteq> FTerminate"
  shows "\<exists>r'. relayRun E s0 (ins @ [msg]) r' \<and> rlClientPump r' = Going \<and> rlBackendPump r' = rlBackendPump r
     \<and> rlSession r' = fst (fst (observeFrontend E msg (rlSession r)))
     \<and> rlToBackend r' = rlToBackend r @ [snd (fst (observeFrontend E msg (rlSession r)))]"
proof -
  obtain s' msg' where o: "observeFrontend E msg (rlSession r) = ((s', msg'), None)"
    using assms(3) by (metis prod.collapse)
  then have "pumpClientStep E (Inr msg) None (rlSession r) = (s', [msg'], Going)"
    using assms(4) by (simp add: pumpClientStep_def)
  note run = relayRun.forwards [OF assms(1,2) this]
  show ?thesis by (rule exI, rule conjI [OF run]) (simp add: o)
qed

section \<open>An example run\<close>

text \<open>Two statements are prepared, and the INSERT is bound; and a run that ends in the session of the SELECT.\<close>

definition writing :: "FrontendMessage list" where
  "writing = [FParse parseInsert, FParse parseSelect, FBind bindInsert]"

definition emailParam :: ColumnParam where "emailParam = \<lparr>cpColumn = ''email'', cpParam = 2\<rparr>"

lemma session1_run:
  "\<exists>r. relayRun exampleEnv session0 [FParse parseInsert, FParse parseSelect] r \<and> rlClientPump r = Going
     \<and> rlBackendPump r = Going \<and> rlSession r = session1 \<and> length (rlToBackend r) = 2"
proof -
  have ok: "case snd (OnParse exampleEnv parseInsert session0) of None \<Rightarrow> True | Some e \<Rightarrow> False"
    "case snd (OnParse exampleEnv parseSelect (fst (fst (OnParse exampleEnv parseInsert session0)))) of None \<Rightarrow> True | Some e \<Rightarrow> False"
    by code_simp+
  have p: "observeFrontend E (FParse p) s = ((fst (fst (OnParse E p s)), FParse (snd (fst (OnParse E p s)))), snd (OnParse E p s))" for E p s
    by (simp add: observeFrontend_def case_prod_unfold Let_def)
  have s0: "rlClientPump (startRelay session0) = Going" "rlBackendPump (startRelay session0) = Going" "rlSession (startRelay session0) = session0" "rlToBackend (startRelay session0) = []"
    by (simp_all add: startRelay_def)
  from ok obtain r1 where r1: "relayRun exampleEnv session0 [FParse parseInsert] r1" "rlClientPump r1 = Going" "rlBackendPump r1 = Going"
      "rlSession r1 = fst (fst (OnParse exampleEnv parseInsert session0))" "length (rlToBackend r1) = 1"
    using relayRun_sends [OF relayRun.start s0(1), of exampleEnv "FParse parseInsert"] s0
    by (auto simp: p split: option.splits)
  from ok obtain r2 where "relayRun exampleEnv session0 ([FParse parseInsert] @ [FParse parseSelect]) r2" "rlClientPump r2 = Going" "rlBackendPump r2 = Going"
      "rlSession r2 = session1" "length (rlToBackend r2) = 2"
    using relayRun_sends [OF r1(1,2), of "FParse parseSelect"] r1(3-)
    by (auto simp: p session1_def split: option.splits)
  then show ?thesis by auto
qed

lemma insert_analysed:
  "Analyze (envUnicode exampleEnv) (envParser exampleEnv) (pmQuery parseInsert) = Inr insertAnalysis"
  "planned exampleEnv examplePlanner parseInsert = Some insertPlan"
  by code_simp+

lemma email_protected:
  "emailParam \<in> set (WriteColumns insertAnalysis)" "ToUpper plainUnicode (anTable insertAnalysis) = ''USER_ENTITY''"
  "ToUpper plainUnicode (cpColumn emailParam) = ''EMAIL''"
  "ColumnRule (plannerFields examplePlanner) ''USER_ENTITY'' ''EMAIL'' = Some detRule"
  "\<not> lenient examplePlanner"
  by code_simp+

lemma writing_run:
  "\<exists>r b'. relayRun exampleEnv session0 writing r \<and> rlToBackend r ! 2 = FBind b' \<and> bmParameters b' = [Some ''7'', Some storedEmail]"
proof -
  let ?e = "EncryptBind exampleEnv bindInsert (OnBind bindInsert session1)"
  have ok: "case snd ?e of None \<Rightarrow> True | Some e \<Rightarrow> False" "bmParameters (snd (fst ?e)) = [Some ''7'', Some storedEmail]"
    by code_simp+
  have o: "observeFrontend exampleEnv (FBind bindInsert) session1 = ((fst (fst ?e), FBind (snd (fst ?e))), snd ?e)"
    by (simp add: observeFrontend_def case_prod_unfold Let_def)
  obtain r where r: "relayRun exampleEnv session0 [FParse parseInsert, FParse parseSelect] r" "rlClientPump r = Going"
      "rlSession r = session1" "length (rlToBackend r) = 2" using session1_run by blast
  then show ?thesis
    using relayRun_sends [OF r(1,2), of "FBind bindInsert"] o ok
    by (auto simp: writing_def nth_append split: option.splits)
qed

lemma writing_parts:
  "2 < length writing" "writing ! 2 = FBind bindInsert" "prepared (take 2 writing) (bmStatement bindInsert) = Some parseInsert"
  "paramValue bindInsert (cpParam emailParam) = Some ''A@x''" "normalized exampleEnv detRule ''A@x'' = ''a@x''"
proof -
  show "prepared (take 2 writing) (bmStatement bindInsert) = Some parseInsert"
    by (simp add: writing_def prepared_def parseInsert_def parseSelect_def bindInsert_def numeral_eq_Suc)
  show "paramValue bindInsert (cpParam emailParam) = Some ''A@x''" by code_simp
  show "normalized exampleEnv detRule ''A@x'' = ''a@x''" by code_simp
qed (simp_all add: writing_def)

lemma session2_reach: "\<exists>q. relayReach exampleEnv session0 q \<and> rlSession q = session2"
proof -
  have "statements (OnBind bindSelect session1) (bmStatement bindSelect) = Some 1"
    "map_option WritePlan_IsEmpty (psWritePlan (stmtAt (OnBind bindSelect session1) 1)) = Some True"
    by code_simp+
  then have e: "EncryptBind exampleEnv bindSelect (OnBind bindSelect session1) = ((OnBind bindSelect session1, bindSelect), None)"
    by (auto simp: EncryptBind_def)
  obtain r where r: "relayRun exampleEnv session0 [FParse parseInsert, FParse parseSelect] r" "rlClientPump r = Going"
      "rlBackendPump r = Going" "rlSession r = session1" using session1_run by blast
  obtain ins1 r1 where r1: "relayRun exampleEnv session0 ins1 r1" "rlClientPump r1 = Going" "rlBackendPump r1 = Going"
      "rlSession r1 = OnBind bindSelect session1"
    using relayRun_sends [OF r(1,2), of "FBind bindSelect"] e r(3,4) by (auto simp: observeFrontend_def)
  obtain ins2 r2 where r2: "relayRun exampleEnv session0 ins2 r2" "rlClientPump r2 = Going" "rlBackendPump r2 = Going"
      "rlSession r2 = OnDescribe (CHR ''P'') '''' (OnBind bindSelect session1)"
    using relayRun_sends [OF r1(1,2), of "FDescribe (CHR ''P'') ''''"] r1(3,4) by (auto simp: observeFrontend_def)
  obtain ins3 r3 where r3: "relayRun exampleEnv session0 ins3 r3" "rlBackendPump r3 = Going"
      "rlSession r3 = OnExecute '''' (OnDescribe (CHR ''P'') '''' (OnBind bindSelect session1))"
    using relayRun_sends [OF r2(1,2), of "FExecute ''''"] r2(3,4) by (auto simp: observeFrontend_def)
  have "pumpBackendStep exampleEnv (Inr (BRowDescription [''id'', ''email''])) None (rlSession r3)
      = (session2, [BRowDescription [''id'', ''email'']], Going)"
    by (simp add: pumpBackendStep_def observeBackend_def r3(3) session2_def)
  from relayRun.answers [OF r3(1,2) this] show ?thesis unfolding relayRun_iff by (intro exI conjI) auto
qed

section \<open>A run with a blind index\<close>

text \<open>The same INSERT, and a search \<^verbatim>\<open>email LIKE $1\<close>, where the email has a blind index.\<close>

definition blindRule :: Rule where
  "blindRule = detRule\<lparr>ruleBlindIndex := ''EMAIL_HASH''\<rparr>"
definition blindPlanner :: Planner where
  "blindPlanner = NewPlanner (SetColumn TableUserEntity ''EMAIL'' blindRule NewFieldSet)"

definition searchTree :: Node where
  "searchTree = SelectN (SelectStmt [] None None [RangeVar ''user_entity'' []] 
     (Some (A_Expr AEXPR_LIKE [StringN ''~~''] (Some (ColumnRef [StringN ''email''])) (Some (ParamRef 1)))) [] [] [])"

definition blindEnv :: env where
  "blindEnv = exampleEnv\<lparr>envParser := \<lparr>pg_Parse = (\<lambda>sql. Inr [
     \<lparr>rsStmt = Some (if sql = exampleInsert then insertTree else searchTree), rsLocation = 0, rsLen = 0\<rparr>]),
     pg_Deparse = (\<lambda>stmts. Inr ''rewritten'')\<rparr>\<rparr>"

definition blindWrite :: BlindIndexWrite where
  "blindWrite = emailWrite\<lparr>bwNewParam := 3\<rparr>"

definition blindFilter :: BlindIndexFilter where
  "blindFilter = \<lparr>bfParam = 1, bfTable = ''USER_ENTITY'', bfColumn = ''EMAIL'', bfHashColumn = ''EMAIL_HASH''\<rparr>"

definition writePlan :: WritePlan where
  "writePlan = emptyWritePlan\<lparr>wpParams := [insertRule\<lparr>prRule := blindRule\<rparr>],
     BlindIndexWrites := [blindWrite]\<rparr>"
definition searchPlan :: WritePlan where
  "searchPlan = emptyWritePlan\<lparr>BlindIndexFilters := [blindFilter]\<rparr>"

lemma blind_planned: "planned blindEnv blindPlanner parseInsert = Some writePlan" "planned blindEnv blindPlanner parseSelect = Some searchPlan"
  by code_simp+

definition searchBind :: BindMsg where "searchBind = bindSelect\<lparr>bmParameters := [Some ''%a@X%'']\<rparr>"

definition blindSession0 :: Session where "blindSession0 = NewSession blindPlanner (Some exampleCipher) 0 registeredMetrics"

definition blindSession1 :: Session where
  "blindSession1 = fst (fst (OnParse blindEnv parseSelect (fst (fst (OnParse blindEnv parseInsert blindSession0)))))"

lemma blind_transforms:
  "snd (transformBind blindEnv exampleCipher writePlan (s, bindInsert)) = None"
  "snd (transformBind blindEnv exampleCipher searchPlan (s, searchBind)) = None"
proof -
  have l: "length (AAD plainUnicode ''USER_ENTITY'' ''EMAIL'') = 17" by code_simp
  have e: "encrypting exampleCipher plainUnicode [] \<lparr>prParam = 2, prTable = ''USER_ENTITY'', prColumn = ''EMAIL'', prRule = blindRule\<rparr> ''A@x'' = Inr storedEmail" by code_simp
  have p: "\<not> isEnvelope plainUnicode ''A@x''" "stripOuterWildcards ''%a@X%'' = ''a@X''" by code_simp+
  have i: "CipherBlindIndex exampleCipher = Some exampleIndex" by (simp add: CipherBlindIndex_def exampleCipher_def)
  show "snd (transformBind blindEnv exampleCipher writePlan (s, bindInsert)) = None"
    by (simp add: transformBind_def appendBlindIndexWrites_def i writePlan_def emptyWritePlan_def maxNewParam_def blindWrite_def emailWrite_def
        bindInsert_def growParams_def appendHash_def inRange_def slot_def hashValue_def Compute_def blindEnv_def exampleEnv_def l
        setParam_def extendFormats_def encryptParam_def insertRule_def p e Let_def)
  show "snd (transformBind blindEnv exampleCipher searchPlan (s, searchBind)) = None"
    by (simp add: transformBind_def appendBlindIndexWrites_def searchPlan_def emptyWritePlan_def hashBlindIndexParam_def blindFilter_def
        searchBind_def bindSelect_def inRange_def slot_def p(2) i hashValue_def Compute_def l blindEnv_def exampleEnv_def Let_def)
qed

lemma blind_binds:
  "snd (EncryptBind blindEnv bindInsert (OnBind bindInsert blindSession1)) = None"
  "snd (EncryptBind blindEnv searchBind (OnBind searchBind blindSession1)) = None"
proof -
  have a: "statements (OnBind bindInsert blindSession1) (bmStatement bindInsert) = Some 0"
    "psWritePlan (stmtAt (OnBind bindInsert blindSession1) 0) = Some writePlan"
    "statements (OnBind searchBind blindSession1) (bmStatement searchBind) = Some 1"
    "psWritePlan (stmtAt (OnBind searchBind blindSession1) 1) = Some searchPlan" by code_simp+
  have "cipher (OnBind b blindSession1) = Some exampleCipher" for b
    by (simp add: handlers_cipher blindSession1_def blindSession0_def NewSession_def OnParse_cipher)
  then show "snd (EncryptBind blindEnv bindInsert (OnBind bindInsert blindSession1)) = None"
    "snd (EncryptBind blindEnv searchBind (OnBind searchBind blindSession1)) = None"
    using a blind_transforms by (simp_all add: EncryptBind_def)
qed

lemma blind_run:
  assumes "b \<in> {bindInsert, searchBind}"
  shows "\<exists>r. relayRun blindEnv blindSession0 [FParse parseInsert, FParse parseSelect, FBind b] r"
proof -
  have ok: "case snd (OnParse blindEnv parseInsert blindSession0) of None \<Rightarrow> True | Some e \<Rightarrow> False"
    "case snd (OnParse blindEnv parseSelect (fst (fst (OnParse blindEnv parseInsert blindSession0)))) of None \<Rightarrow> True | Some e \<Rightarrow> False"
    by code_simp+
  have p: "observeFrontend E (FParse p) s = ((fst (fst (OnParse E p s)), FParse (snd (fst (OnParse E p s)))), snd (OnParse E p s))" for E p s
    by (simp add: observeFrontend_def case_prod_unfold Let_def)
  have s0: "rlClientPump (startRelay blindSession0) = Going" "rlSession (startRelay blindSession0) = blindSession0"
    by (simp_all add: startRelay_def)
  from ok obtain r1 where r1: "relayRun blindEnv blindSession0 [FParse parseInsert] r1" "rlClientPump r1 = Going"
      "rlSession r1 = fst (fst (OnParse blindEnv parseInsert blindSession0))"
    using relayRun_sends [OF relayRun.start s0(1), of blindEnv "FParse parseInsert"] s0
    by (auto simp: p split: option.splits)
  from ok obtain r2 where r2: "relayRun blindEnv blindSession0 [FParse parseInsert, FParse parseSelect] r2" "rlClientPump r2 = Going"
      "rlSession r2 = blindSession1"
    using relayRun_sends [OF r1(1,2), of "FParse parseSelect"] r1(3)
    by (auto simp: p blindSession1_def split: option.splits)
  have "snd (EncryptBind blindEnv b (OnBind b blindSession1)) = None" using assms blind_binds by auto
  then show ?thesis
    using relayRun_sends [OF r2(1,2), of "FBind b"] r2(3) by (auto simp: observeFrontend_def case_prod_unfold Let_def)
qed

lemma blind_forwarded:
  assumes "b \<in> {bindInsert, searchBind}"
  obtains r where "forwardedBind blindEnv blindPlanner exampleCipher [FParse parseInsert, FParse parseSelect, FBind b] r 2 b
     (if b = bindInsert then writePlan else searchPlan)"
proof -
  obtain r where r: "relayRun blindEnv blindSession0 [FParse parseInsert, FParse parseSelect, FBind b] r" using blind_run [OF assms] by blast
  have "bmSpare b = [] \<and> (\<exists>p. prepared (take 2 [FParse parseInsert, FParse parseSelect, FBind b]) (bmStatement b) = Some p
      \<and> planned blindEnv blindPlanner p = Some (if b = bindInsert then writePlan else searchPlan))"
    using assms blind_planned by (auto simp: prepared_def parseInsert_def parseSelect_def bindInsert_def searchBind_def bindSelect_def)
  then show ?thesis using that r unfolding forwardedBind_def blindSession0_def by auto
qed

end
