(* ===== verification/GoRegexp.thy ===== *)
theory GoRegexp
  imports GoText
begin

text \<open>
  Go's \<^verbatim>\<open>regexp\<close>: expressions as a datatype, and a matcher that lists the ways
  to match in the order of preference of the library (leftmost-first: an alternative before
  the next, a greedy repetition before giving up), so that the head of the list is the match
  the library reports. Text is read rune by rune, as the library does. The relation
  \<open>matches\<close> says what it means to match at all; the list holds exactly its results.
\<close>

section \<open>Expressions\<close>

datatype rx =
    Empty
  | Class bool "(nat \<times> nat) list"   \<comment> \<open>ranges of runes; \<open>True\<close>: any other rune\<close>
  | Seq rx rx
  | Alt rx rx
  | Star rx
  | Group nat rx
  | BeginLine                       \<comment> \<open>\<^verbatim>\<open>(?m)^\<close>\<close>
  | EndText                         \<comment> \<open>\<^verbatim>\<open>$\<close>\<close>

definition runeIn :: "nat \<Rightarrow> (nat \<times> nat) list \<Rightarrow> bool" where
  "runeIn r rs = list_ex (\<lambda>(a, b). a \<le> r \<and> r \<le> b) rs"

definition Plus :: "rx \<Rightarrow> rx" where "Plus r = Seq r (Star r)"
definition Opt :: "rx \<Rightarrow> rx" where "Opt r = Alt r Empty"

text \<open>A literal, and the classes \<^verbatim>\<open>\s\<close>, \<^verbatim>\<open>\w\<close>, \<^verbatim>\<open>.\<close> and \<^verbatim>\<open>[^...]\<close>.\<close>

fun Lit :: "string \<Rightarrow> rx" where
  "Lit [] = Empty"
| "Lit (c # s) = Seq (Class False [(byteVal c, byteVal c)]) (Lit s)"

definition spaceRx :: rx where "spaceRx = Class False [(9, 10), (12, 13), (32, 32)]"
definition wordRanges :: "(nat \<times> nat) list" where "wordRanges = [(48, 57), (65, 90), (95, 95), (97, 122)]"
definition wordRx :: rx where "wordRx = Class False wordRanges"
definition anyRx :: rx where "anyRx = Class True [(10, 10)]"

definition noneOf :: "string \<Rightarrow> rx" where
  "noneOf s = Class True (map (\<lambda>c. (byteVal c, byteVal c)) s)"

fun seqs :: "rx list \<Rightarrow> rx" where
  "seqs [] = Empty"
| "seqs [r] = r"
| "seqs (r # rs) = Seq r (seqs rs)"

section \<open>The matcher\<close>

text \<open>A position in the text: whether a line begins here, what is left, the groups matched so far.\<close>

record cursor =
  atLine :: bool
  rest :: string
  caps :: "(nat \<times> string) list"

definition nextRune :: "cursor \<Rightarrow> (nat \<times> cursor) option" where
  "nextRune c =
     (if rest c = [] then None
      else let (r, w) = DecodeRune (rest c) in Some (r, c\<lparr>atLine := (r = 10), rest := drop w (rest c)\<rparr>))"

text \<open>
  A repetition takes as many rounds as there are bytes left at most, since a round that
  consumes nothing ends it.
\<close>

fun rounds :: "nat \<Rightarrow> (cursor \<Rightarrow> cursor list) \<Rightarrow> cursor \<Rightarrow> cursor list" where
  "rounds 0 f c = [c]"
| "rounds (Suc n) f c =
     concat (map (rounds n f) (filter (\<lambda>d. length (rest d) < length (rest c)) (f c))) @ [c]"

primrec run :: "rx \<Rightarrow> cursor \<Rightarrow> cursor list" where
  "run Empty c = [c]"
| "run (Class neg rs) c =
     (case nextRune c of
        None \<Rightarrow> []
      | Some (r, d) \<Rightarrow> if runeIn r rs \<noteq> neg then [d] else [])"
| "run (Seq a b) c = concat (map (run b) (run a c))"
| "run (Alt a b) c = run a c @ run b c"
| "run (Star a) c = rounds (length (rest c)) (run a) c"
| "run (Group i a) c =
     map (\<lambda>d. d\<lparr>caps := (i, take (length (rest c) - length (rest d)) (rest c)) # caps d\<rparr>) (run a c)"
| "run BeginLine c = (if atLine c then [c] else [])"
| "run EndText c = (if rest c = [] then [c] else [])"

definition atStart :: "string \<Rightarrow> cursor" where
  "atStart s = \<lparr>atLine = True, rest = s, caps = []\<rparr>"

definition group :: "cursor \<Rightarrow> nat \<Rightarrow> string" where
  "group e i = (case map_of (caps e) i of Some s \<Rightarrow> s | None \<Rightarrow> [])"

lemma nextRune_shorter: "nextRune c = Some (r, d) \<Longrightarrow> length (rest d) < length (rest c)"
  using DecodeRune_width [of "hd (rest c)" "tl (rest c)"]
  by (auto simp: nextRune_def split: prod.splits if_splits)

text \<open>The leftmost match from a position on: where it begins and where it ends.\<close>

function findFrom :: "rx \<Rightarrow> cursor \<Rightarrow> (cursor \<times> cursor) option" where
  "findFrom r c =
     (case run r (c\<lparr>caps := []\<rparr>) of
        e # _ \<Rightarrow> Some (c, e)
      | [] \<Rightarrow> (case nextRune c of None \<Rightarrow> None | Some (_, d) \<Rightarrow> findFrom r d))"
  by pat_completeness auto
termination
  by (relation "measure (\<lambda>(r, c). length (rest c))") (auto dest: nextRune_shorter)

declare findFrom.simps [simp del]

definition FindStringSubmatch :: "rx \<Rightarrow> string \<Rightarrow> cursor option" where
  "FindStringSubmatch r s = map_option snd (findFrom r (atStart s))"

section \<open>What matching means\<close>

inductive matches :: "rx \<Rightarrow> cursor \<Rightarrow> cursor \<Rightarrow> bool" where
  mEmpty: "matches Empty c c"
| mClass: "nextRune c = Some (r, d) \<Longrightarrow> runeIn r rs \<noteq> neg \<Longrightarrow> matches (Class neg rs) c d"
| mSeq: "matches a c d \<Longrightarrow> matches b d e \<Longrightarrow> matches (Seq a b) c e"
| mAlt1: "matches a c d \<Longrightarrow> matches (Alt a b) c d"
| mAlt2: "matches b c d \<Longrightarrow> matches (Alt a b) c d"
| mStar0: "matches (Star a) c c"
| mStar1: "matches a c d \<Longrightarrow> length (rest d) < length (rest c) \<Longrightarrow> matches (Star a) d e \<Longrightarrow> matches (Star a) c e"
| mGroup: "matches a c d \<Longrightarrow>
    matches (Group i a) c (d\<lparr>caps := (i, take (length (rest c) - length (rest d)) (rest c)) # caps d\<rparr>)"
| mBegin: "atLine c \<Longrightarrow> matches BeginLine c c"
| mEnd: "rest c = [] \<Longrightarrow> matches EndText c c"

inductive_simps matches_simps:
  "matches Empty c d" "matches (Class neg rs) c d" "matches (Seq a b) c d" "matches (Alt a b) c d"
  "matches (Group i a) c d" "matches BeginLine c d" "matches EndText c d"

inductive_cases matches_StarE: "matches (Star a) c d"

lemma rounds_matches:
  assumes "\<And>c d. d \<in> set (f c) \<longleftrightarrow> matches a c d"
  shows "length (rest c) \<le> n \<Longrightarrow> d \<in> set (rounds n f c) \<longleftrightarrow> matches (Star a) c d"
proof (induction n arbitrary: c d)
  case 0
  then show ?case by (auto intro: mStar0 elim: matches_StarE)
next
  case (Suc n)
  show ?case
  proof
    assume "d \<in> set (rounds (Suc n) f c)"
    then show "matches (Star a) c d" using Suc assms by (auto intro: mStar0 mStar1)
  next
    assume "matches (Star a) c d"
    then show "d \<in> set (rounds (Suc n) f c)"
    proof (rule matches_StarE)
      fix e assume e: "matches a c e" "length (rest e) < length (rest c)" "matches (Star a) e d"
      then have "d \<in> set (rounds n f e)" using Suc by simp
      then show ?thesis using e assms by auto
    qed simp
  qed
qed

theorem run_matches: "d \<in> set (run r c) \<longleftrightarrow> matches r c d"
proof (induction r arbitrary: c d)
  case (Star a)
  then show ?case using rounds_matches [of "run a" a c "length (rest c)" d] by simp
next
  case (Class neg rs)
  then show ?case by (cases "nextRune c") (auto simp: matches_simps)
qed (auto simp: matches_simps)

lemma matches_suffix: "matches r c d \<Longrightarrow> \<exists>p. rest c = p @ rest d"
proof (induction rule: matches.induct)
  case (mClass c r d rs neg)
  then have "rest d = drop (snd (DecodeRune (rest c))) (rest c)"
    by (auto simp: nextRune_def split: if_splits prod.splits)
  then show ?case by (metis append_take_drop_id)
qed auto

lemma findFrom_shorter:
  "findFrom r c = Some (b, e) \<Longrightarrow> length (rest b) \<le> length (rest c) \<and> length (rest e) \<le> length (rest b)"
proof (induction r c rule: findFrom.induct)
  case (1 r c)
  show ?case
  proof (cases "run r (c\<lparr>caps := []\<rparr>)")
    case Nil
    with 1(2) obtain q d where d: "nextRune c = Some (q, d)" "findFrom r d = Some (b, e)"
      by (auto simp: findFrom.simps [of r c] split: option.splits)
    with 1(1) [OF Nil d(1) refl] nextRune_shorter [OF d(1)] show ?thesis by simp
  next
    case (Cons x xs)
    then have "matches r (c\<lparr>caps := []\<rparr>) x" using run_matches [of x r "c\<lparr>caps := []\<rparr>"] by simp
    then show ?thesis
      using 1(2) Cons by (auto simp: findFrom.simps [of r c] dest!: matches_suffix)
  qed
qed

text \<open>
  \<^verbatim>\<open>FindAllString\<close>: the successive matches; \<open>prev\<close> is the length of the text left at the end
  of the previous one, next to which an empty match is not reported.
\<close>

function findAll :: "rx \<Rightarrow> nat option \<Rightarrow> cursor \<Rightarrow> cursor list" where
  "findAll r prev c =
     (case findFrom r c of
        None \<Rightarrow> []
      | Some (b, e) \<Rightarrow>
        if length (rest e) < length (rest c) then e # findAll r (Some (length (rest e))) e
        else (if prev = Some (length (rest b)) then [] else [e])
          @ (case nextRune c of None \<Rightarrow> [] | Some (_, d) \<Rightarrow> findAll r (Some (length (rest e))) d))"
  by pat_completeness auto
termination
  by (relation "measure (\<lambda>(r, p, c). length (rest c))") (auto dest: nextRune_shorter)

declare findAll.simps [simp del]

definition FindAllStringSubmatch :: "rx \<Rightarrow> string \<Rightarrow> cursor list" where
  "FindAllStringSubmatch r s = findAll r None (atStart s)"

text \<open>\<^verbatim>\<open>ReplaceAllString(s, "")\<close>: the text without its matches.\<close>

function deleteFrom :: "rx \<Rightarrow> cursor \<Rightarrow> string" where
  "deleteFrom r c =
     (case findFrom r c of
        None \<Rightarrow> rest c
      | Some (b, e) \<Rightarrow>
        if length (rest e) < length (rest c)
        then take (length (rest c) - length (rest b)) (rest c) @ deleteFrom r e
        else case nextRune c of
            None \<Rightarrow> []
          | Some (_, d) \<Rightarrow> take (length (rest c) - length (rest d)) (rest c) @ deleteFrom r d)"
  by pat_completeness auto
termination
  by (relation "measure (\<lambda>(r, c). length (rest c))") (auto dest: nextRune_shorter)

declare deleteFrom.simps [simp del]

definition deleteAll :: "rx \<Rightarrow> string \<Rightarrow> string" where
  "deleteAll r s = deleteFrom r (atStart s)"

section \<open>Matching bytes\<close>

lemma nextRune_ascii:
  "rest c = x # s \<Longrightarrow> byteVal x < 128 \<Longrightarrow>
   nextRune c = Some (byteVal x, c\<lparr>atLine := (byteVal x = (10::nat)), rest := s\<rparr>)"
  by (simp add: nextRune_def DecodeRune_def)

lemma nextRune_high:
  assumes "nextRune c = Some (r, d)" "\<not> byteVal (hd (rest c)) < 128"
  shows "128 \<le> r" "\<exists>p. rest c = p @ rest d \<and> list_all (\<lambda>b. 128 \<le> byteVal b) p" "caps d = caps c"
proof -
  obtain w where w: "DecodeRune (rest c) = (r, w)" "rest d = drop w (rest c)" "rest c \<noteq> []"
    using assms(1) by (auto simp: nextRune_def split: if_splits prod.splits)
  then show "128 \<le> r" "\<exists>p. rest c = p @ rest d \<and> list_all (\<lambda>b. 128 \<le> byteVal b) p"
    using DecodeRune_bytes [of "hd (rest c)" "tl (rest c)" r w] assms(2)
    by (auto intro: exI [of _ "take w (rest c)"])
  show "caps d = caps c" using assms(1) by (auto simp: nextRune_def split: if_splits prod.splits)
qed

text \<open>\<open>consumes c p d\<close>: from \<open>c\<close> to \<open>d\<close> the text \<open>p\<close> is read, and no group is set.\<close>

definition consumes :: "cursor \<Rightarrow> string \<Rightarrow> cursor \<Rightarrow> bool" where
  "consumes c p d \<longleftrightarrow> rest c = p @ rest d \<and> caps d = caps c"

lemma consumes_trans: "consumes c p d \<Longrightarrow> consumes d q e \<Longrightarrow> consumes c (p @ q) e"
  by (simp add: consumes_def)

lemma Lit_matches:
  assumes "isASCII s"
  shows "matches (Lit s) c d \<Longrightarrow> consumes c s d"
    and "rest c = s @ t \<Longrightarrow> \<exists>d. matches (Lit s) c d \<and> rest d = t \<and> consumes c s d"
proof -
  show "matches (Lit s) c d \<Longrightarrow> consumes c s d"
    using assms
  proof (induction s arbitrary: c)
    case Nil
    then show ?case by (simp add: matches_simps consumes_def)
  next
    case (Cons x s)
    from Cons.prems(1) obtain e where e: "nextRune c = Some (byteVal x, e)" "matches (Lit s) e d"
      by (auto simp: matches_simps runeIn_def)
    have x: "byteVal x < 128" using Cons.prems(2) by (simp add: isASCII_def)
    obtain y t where y: "rest c = y # t" using e(1) by (cases "rest c") (auto simp: nextRune_def)
    have "byteVal y < 128" using nextRune_high(1) [OF e(1)] x y by fastforce
    then have "y = x" "rest e = t" "caps e = caps c" using e(1) nextRune_ascii [OF y] by auto
    then show ?case using Cons.IH [OF e(2)] Cons.prems(2) y by (simp add: consumes_def isASCII_def)
  qed
  show "rest c = s @ t \<Longrightarrow> \<exists>d. matches (Lit s) c d \<and> rest d = t \<and> consumes c s d"
    using assms
  proof (induction s arbitrary: c)
    case Nil
    then show ?case by (auto simp: matches_simps consumes_def)
  next
    case (Cons x s)
    let ?e = "c\<lparr>atLine := (byteVal x = (10::nat)), rest := s @ t\<rparr>"
    have "nextRune c = Some (byteVal x, ?e)"
      using nextRune_ascii [of c x "s @ t"] Cons.prems by (simp add: isASCII_def)
    moreover obtain d where "matches (Lit s) ?e d" "rest d = t" "consumes ?e s d"
      using Cons.IH [of ?e] Cons.prems(2) by (auto simp: isASCII_def)
    ultimately show ?case
      using Cons.prems(1) by (auto simp: matches_simps runeIn_def consumes_def intro!: exI [of _ d])
  qed
qed

text \<open>A class that is decided on bytes: it takes all bytes from 128 on, or none of them.\<close>

definition byteClass :: "rx \<Rightarrow> (char \<Rightarrow> bool) \<Rightarrow> bool" where
  "byteClass r P \<longleftrightarrow>
     (\<exists>neg rs. r = Class neg rs
        \<and> (\<forall>x. byteVal x < 128 \<longrightarrow> P x = (runeIn (byteVal x) rs \<noteq> neg))
        \<and> (\<forall>n x. 128 \<le> n \<longrightarrow> 128 \<le> byteVal x \<longrightarrow> P x = (runeIn n rs \<noteq> neg)))"

lemma class_step:
  assumes "byteClass r P" "matches r c d"
  shows "\<exists>p. p \<noteq> [] \<and> consumes c p d \<and> list_all P p"
proof -
  obtain neg rs where rc: "r = Class neg rs"
    and P: "\<And>x. byteVal x < 128 \<Longrightarrow> P x = (runeIn (byteVal x) rs \<noteq> neg)"
      "\<And>n x. 128 \<le> n \<Longrightarrow> 128 \<le> byteVal x \<Longrightarrow> P x = (runeIn n rs \<noteq> neg)"
    using assms(1) unfolding byteClass_def by blast
  obtain n where n: "nextRune c = Some (n, d)" "runeIn n rs \<noteq> neg"
    using assms(2) unfolding rc matches_simps by blast
  obtain y t where y: "rest c = y # t" using n(1) by (cases "rest c") (auto simp: nextRune_def)
  show ?thesis
  proof (cases "byteVal y < 128")
    case True
    then have "n = byteVal y" "rest d = t" "caps d = caps c" using nextRune_ascii [OF y] n(1) by auto
    then show ?thesis using n(2) P(1) [OF True] y by (intro exI [of _ "[y]"]) (simp add: consumes_def)
  next
    case False
    then have "\<not> byteVal (hd (rest c)) < 128" using y by simp
    note h = nextRune_high [OF n(1) this]
    obtain p where p: "rest c = p @ rest d" "list_all (\<lambda>b. 128 \<le> byteVal b) p" using h(2) by blast
    have "list_all P p" using p(2) P(2) [OF h(1)] n(2) by (auto simp: list_all_iff)
    moreover have "p \<noteq> []" using p(1) nextRune_shorter [OF n(1)] by auto
    ultimately show ?thesis using p(1) h(3) by (auto simp: consumes_def)
  qed
qed

lemma star_consumes:
  assumes "byteClass r P"
  shows "matches (Star r) c d \<Longrightarrow> \<exists>p. consumes c p d \<and> list_all P p"
proof (induction "Star r" c d rule: matches.induct)
  case (mStar0 c)
  then show ?case by (intro exI [of _ "[]"]) (simp add: consumes_def)
next
  case (mStar1 c d e)
  obtain p where "consumes c p d" "list_all P p" using class_step [OF assms mStar1(1)] by blast
  moreover obtain q where "consumes d q e" "list_all P q" using mStar1 by blast
  ultimately show ?case by (intro exI [of _ "p @ q"]) (simp add: consumes_def)
qed

text \<open>The repetition can stop before any byte below 128, and at the end.\<close>

lemma star_reaches:
  assumes "byteClass r P" "list_all P p" "t = [] \<or> byteVal (hd t) < 128"
  shows "rest c = p @ t \<Longrightarrow> \<exists>d. matches (Star r) c d \<and> consumes c p d"
  using assms(2)
proof (induction "length p" arbitrary: c p rule: less_induct)
  case less
  show ?case
  proof (cases p)
    case Nil
    then show ?thesis using less.prems by (intro exI [of _ c]) (simp add: consumes_def mStar0)
  next
    case (Cons x q)
    obtain neg rs where r: "r = Class neg rs"
      and P: "\<And>x. byteVal x < 128 \<Longrightarrow> P x = (runeIn (byteVal x) rs \<noteq> neg)"
        "\<And>n x. 128 \<le> n \<Longrightarrow> 128 \<le> byteVal x \<Longrightarrow> P x = (runeIn n rs \<noteq> neg)"
      using assms(1) by (auto simp: byteClass_def)
    obtain n d where n: "nextRune c = Some (n, d)"
      using less.prems(1) Cons by (cases "nextRune c") (auto simp: nextRune_def Let_def split: prod.splits)
    have "\<exists>p1 p2. p = p1 @ p2 \<and> consumes c p1 d \<and> (runeIn n rs \<noteq> neg)"
    proof (cases "byteVal x < 128")
      case True
      then have "n = byteVal x" "rest d = q @ t" "caps d = caps c"
        using nextRune_ascii [of c x "q @ t"] n less.prems(1) Cons by auto
      then show ?thesis
        using P(1) [OF True] less.prems Cons by (intro exI [of _ "[x]"] exI [of _ q]) (simp add: consumes_def)
    next
      case False
      have hd: "\<not> byteVal (hd (rest c)) < 128" using False less.prems(1) Cons by simp
      obtain p1 where p1: "rest c = p1 @ rest d" "list_all (\<lambda>b. 128 \<le> byteVal b) p1"
        using nextRune_high(2) [OF n hd] by blast
      obtain us where "p = p1 @ us \<and> us @ t = rest d \<or> p @ us = p1 \<and> t = us @ rest d"
        using p1(1) less.prems(1) by (auto simp: append_eq_append_conv2)
      moreover have "us = [] \<or> \<not> p @ us = p1 \<or> \<not> t = us @ rest d"
        using p1(2) assms(3) by (cases us) (auto simp: list_all_iff)
      ultimately obtain p2 where "p = p1 @ p2" by auto
      moreover have "runeIn n rs \<noteq> neg" using P(2) [OF nextRune_high(1) [OF n hd], of x] False less.prems(2) Cons by simp
      ultimately show ?thesis using p1(1) nextRune_high(3) [OF n hd] by (auto simp: consumes_def)
    qed
    then obtain p1 p2 where s: "p = p1 @ p2" "consumes c p1 d" "runeIn n rs \<noteq> neg" by blast
    have l: "length (rest d) < length (rest c)" by (rule nextRune_shorter [OF n])
    moreover have "rest c = p1 @ rest d" "rest d = p2 @ t" using s(1,2) less.prems(1) by (simp_all add: consumes_def)
    ultimately have "length p2 < length p" "rest d = p2 @ t" "list_all P p2" using s(1) less.prems(2) by simp_all
    then obtain e where "matches (Star r) d e" "consumes d p2 e" using less.hyps by blast
    moreover have "matches r c d" unfolding r by (rule mClass [OF n s(3)])
    ultimately show ?thesis using s(1,2) l by (metis mStar1 consumes_trans)
  qed
qed


lemma byteClass_noneOf [simp]: "isASCII q \<Longrightarrow> byteClass (noneOf q) (\<lambda>x. x \<notin> set q)"
  unfolding byteClass_def noneOf_def
  by (intro exI [of _ True] exI conjI) (auto simp: runeIn_def list_ex_iff isASCII_def list_all_iff linorder_not_less [symmetric])

lemma byteClass_any [simp]: "byteClass anyRx (\<lambda>x. x \<noteq> CHR 0x0A)"
  using byteClass_noneOf [of "[CHR 0x0A]"] by (simp add: noneOf_def anyRx_def isASCII_def)

lemma byteClass_range [simp]:
  "b < 128 \<Longrightarrow> byteClass (Class False [(a, b)]) (\<lambda>x. a \<le> byteVal x \<and> byteVal x \<le> b)"
  unfolding byteClass_def by (intro exI [of _ False] exI conjI) (auto simp: runeIn_def)

text \<open>A group records what was read inside it.\<close>

lemma Group_consumes:
  assumes "matches (Group i r) c e" "\<And>d. matches r c d \<Longrightarrow> \<exists>p. consumes c p d \<and> P p"
  shows "\<exists>p. rest c = p @ rest e \<and> P p \<and> caps e = (i, p) # caps c"
proof -
  obtain d where d: "matches r c d"
    "e = d\<lparr>caps := (i, take (length (rest c) - length (rest d)) (rest c)) # caps d\<rparr>"
    using assms(1) by (auto simp: matches_simps)
  then show ?thesis using assms(2) [OF d(1)] by (auto simp: consumes_def)
qed

lemma Group_reaches:
  assumes "matches r c d" "consumes c p d"
  shows "\<exists>e. matches (Group i r) c e \<and> rest c = p @ rest e \<and> caps e = (i, p) # caps c"
  using mGroup [OF assms(1), of i] assms(2) by (fastforce simp: consumes_def)

lemma Plus_consumes:
  assumes "byteClass r P" "matches (Plus r) c d"
  shows "\<exists>p. consumes c p d \<and> (p \<noteq> [] \<and> list_all P p)"
proof -
  obtain e where e: "matches r c e" "matches (Star r) e d" using assms(2) by (auto simp: Plus_def matches_simps)
  obtain p where p: "p \<noteq> []" "consumes c p e" "list_all P p" using class_step [OF assms(1) e(1)] by blast
  obtain q where "consumes e q d" "list_all P q" using star_consumes [OF assms(1) e(2)] by blast
  then show ?thesis using p by (intro exI [of _ "p @ q"]) (simp add: consumes_def)
qed

lemma Plus_reaches:
  assumes "byteClass r P" "byteVal x < 128" "list_all P (x # p)" "t = [] \<or> byteVal (hd t) < 128"
    and "rest c = (x # p) @ t"
  shows "\<exists>d. matches (Plus r) c d \<and> consumes c (x # p) d"
proof -
  let ?e = "c\<lparr>atLine := (byteVal x = (10::nat)), rest := p @ t\<rparr>"
  obtain neg rs where r: "r = Class neg rs" "runeIn (byteVal x) rs \<noteq> neg"
    using assms(1-3) by (auto simp: byteClass_def)
  have "nextRune c = Some (byteVal x, ?e)" using nextRune_ascii [of c x "p @ t"] assms(2,5) by simp
  then have "matches r c ?e" using r mClass by blast
  moreover obtain d where "matches (Star r) ?e d" "consumes ?e p d"
    using star_reaches [OF assms(1), of p t ?e] assms(3,4) by auto
  ultimately show ?thesis using assms(5) unfolding Plus_def by (auto simp: consumes_def intro!: mSeq)
qed

section \<open>Finding\<close>

text \<open>A prefix none of whose bytes can begin a match is skipped.\<close>

lemma findFrom_skip:
  assumes "isASCII p" "\<And>c d. rest c \<noteq> [] \<Longrightarrow> hd (rest c) \<in> set p \<Longrightarrow> \<not> matches r c d" "rest c = p @ s"
  shows "\<exists>l. findFrom r c = findFrom r (c\<lparr>atLine := l, rest := s\<rparr>)"
  using assms
proof (induction p arbitrary: c)
  case Nil
  then show ?case by (cases c) auto
next
  case (Cons x p)
  let ?d = "c\<lparr>atLine := (byteVal x = (10::nat)), rest := p @ s\<rparr>"
  have "\<not> matches r (c\<lparr>caps := []\<rparr>) e" for e using Cons.prems(2) [of "c\<lparr>caps := []\<rparr>"] Cons.prems(3) by simp
  then have "run r (c\<lparr>caps := []\<rparr>) = []" by (metis run_matches list.set_intros(1) neq_Nil_conv)
  moreover have "nextRune c = Some (byteVal x, ?d)"
    using nextRune_ascii [of c x "p @ s"] Cons.prems(1,3) by (simp add: isASCII_def)
  ultimately have "findFrom r c = findFrom r ?d" by (simp add: findFrom.simps [of r c])
  moreover obtain l where "findFrom r ?d = findFrom r (?d\<lparr>atLine := l, rest := s\<rparr>)"
    using Cons.IH [of ?d] Cons.prems(1,2) by (auto simp: isASCII_def)
  ultimately show ?case by auto
qed

lemma findFrom_here:
  assumes "\<exists>d. matches r (c\<lparr>caps := []\<rparr>) d"
  shows "\<exists>e. findFrom r c = Some (c, e) \<and> matches r (c\<lparr>caps := []\<rparr>) e"
proof -
  obtain e es where "run r (c\<lparr>caps := []\<rparr>) = e # es"
    using assms run_matches [of _ r "c\<lparr>caps := []\<rparr>"] by (cases "run r (c\<lparr>caps := []\<rparr>)") auto
  then show ?thesis using run_matches [of e r "c\<lparr>caps := []\<rparr>"] by (simp add: findFrom.simps [of r c])
qed

text \<open>\<open>reads r p t\<close>: when \<open>p\<close> and then \<open>t\<close> is left, one way to match \<open>r\<close> reads \<open>p\<close>.\<close>

definition reads :: "rx \<Rightarrow> string \<Rightarrow> string \<Rightarrow> bool" where
  "reads r p t \<longleftrightarrow> (\<forall>c. rest c = p @ t \<longrightarrow> (\<exists>d. matches r c d \<and> rest d = t))"

lemma reads_Seq: "reads a p (q @ t) \<Longrightarrow> reads b q t \<Longrightarrow> reads (Seq a b) (p @ q) t"
  unfolding reads_def by (metis append_assoc mSeq)

lemma reads_Lit: "isASCII s \<Longrightarrow> reads (Lit s) s t"
  unfolding reads_def using Lit_matches(2) by blast

lemma reads_Star:
  "byteClass r P \<Longrightarrow> list_all P p \<Longrightarrow> t = [] \<or> byteVal (hd t) < 128 \<Longrightarrow> reads (Star r) p t"
  unfolding reads_def using star_reaches [of r P p t] by (force simp: consumes_def)

lemma reads_Plus:
  "byteClass r P \<Longrightarrow> p \<noteq> [] \<Longrightarrow> byteVal (hd p) < 128 \<Longrightarrow> list_all P p \<Longrightarrow> t = [] \<or> byteVal (hd t) < 128
   \<Longrightarrow> reads (Plus r) p t"
  unfolding reads_def using Plus_reaches [of r P "hd p" "tl p" t] by (force simp: consumes_def)

lemma reads_Group: "reads r p t \<Longrightarrow> reads (Group i r) p t"
  unfolding reads_def using mGroup by fastforce

lemma reads_EndText: "reads EndText [] []"
  unfolding reads_def using mEnd by fastforce

lemma findFrom_found:
  "findFrom r c = Some (b, e) \<Longrightarrow> (\<exists>p. rest c = p @ rest b) \<and> matches r (b\<lparr>caps := []\<rparr>) e"
proof (induction r c rule: findFrom.induct)
  case (1 r c)
  show ?case
  proof (cases "run r (c\<lparr>caps := []\<rparr>)")
    case Nil
    with 1(2) obtain q d where d: "nextRune c = Some (q, d)" "findFrom r d = Some (b, e)"
      by (auto simp: findFrom.simps [of r c] split: option.splits)
    have "\<exists>p. rest c = p @ rest d"
      using matches_suffix [of "Class True []" c d] mClass [OF d(1), of "[]" True] by (simp add: runeIn_def)
    with 1(1) [OF Nil d(1) refl d(2)] show ?thesis by (metis append.assoc)
  next
    case (Cons x xs)
    then show ?thesis using 1(2) run_matches [of x r "c\<lparr>caps := []\<rparr>"] by (auto simp: findFrom.simps [of r c])
  qed
qed

end
