(* ===== verification/HostIO.thy ===== *)
theory HostIO
  imports Prelude
begin

text \<open>
  Calls that reach outside the program (the random source, the clock, files, the network, a
  database) run on an abstract world \<open>'w\<close>: a call takes the world, returns a result or
  an error and the world it leaves. \<open>bindIO\<close> is Go's sequencing with
  \<^verbatim>\<open>if err != nil { return err }\<close> between the calls.
\<close>

type_synonym ('w, 'a) io = "'w \<Rightarrow> 'a result \<times> 'w"

definition returnIO :: "'a \<Rightarrow> ('w, 'a) io" where
  "returnIO a w = (Inr a, w)"

definition failIO :: "goerror \<Rightarrow> ('w, 'a) io" where
  "failIO e w = (Inl e, w)"

definition liftIO :: "'a result \<Rightarrow> ('w, 'a) io" where
  "liftIO r w = (r, w)"

definition bindIO :: "('w, 'a) io \<Rightarrow> ('a \<Rightarrow> ('w, 'b) io) \<Rightarrow> ('w, 'b) io" where
  "bindIO m k w = (case m w of (Inl e, w1) \<Rightarrow> (Inl e, w1) | (Inr a, w1) \<Rightarrow> k a w1)"

text \<open>\<^verbatim>\<open>if err != nil { return fmt.Errorf(pre + "%w", err) }\<close>.\<close>

definition contextIO :: "string \<Rightarrow> ('w, 'a) io \<Rightarrow> ('w, 'a) io" where
  "contextIO pre m w = (case m w of (Inl e, w1) \<Rightarrow> (Inl (wrapErr pre e []), w1) | r \<Rightarrow> r)"

lemma io_simps [simp]:
  "returnIO a w = (Inr a, w)" "failIO e w = (Inl e, w)" "liftIO r w = (r, w)"
  by (simp_all add: returnIO_def failIO_def liftIO_def)

lemma bindIO_unit [simp]: "bindIO (returnIO a) k = k a" "bindIO (failIO e) k = failIO e"
  by (simp_all add: fun_eq_iff bindIO_def)

lemma bindIO_Inr:
  "bindIO m k w = (Inr b, w') \<longleftrightarrow> (\<exists>a w1. m w = (Inr a, w1) \<and> k a w1 = (Inr b, w'))"
  by (auto simp: bindIO_def split: prod.splits sum.splits)

lemma contextIO_Inr: "contextIO pre m w = (Inr b, w') \<longleftrightarrow> m w = (Inr b, w')"
  by (auto simp: contextIO_def split: prod.splits sum.splits)

lemma liftIO_Inr: "liftIO r w = (Inr b, w') \<longleftrightarrow> r = Inr b \<and> w' = w"
  by auto

lemmas io_Inr = bindIO_Inr contextIO_Inr liftIO_Inr

lemma fst_bindIO_Inr:
  "fst (bindIO m k w) = Inr b \<longleftrightarrow> (\<exists>a w1. m w = (Inr a, w1) \<and> fst (k a w1) = Inr b)"
  by (auto simp: bindIO_def split: prod.splits sum.splits)

lemma fst_contextIO_Inr: "fst (contextIO pre m w) = Inr b \<longleftrightarrow> fst (m w) = Inr b"
  by (auto simp: contextIO_def split: prod.splits sum.splits)

lemmas fst_io_Inr = fst_bindIO_Inr fst_contextIO_Inr

lemma bindIO_assoc: "bindIO (bindIO m k) k' = bindIO m (\<lambda>a. bindIO (k a) k')"
  by (auto simp: fun_eq_iff bindIO_def split: prod.splits sum.splits)

text \<open>A range loop whose body may fail, and calls that touch one half of the world.\<close>

fun eachIO :: "('a \<Rightarrow> ('w, unit) io) \<Rightarrow> 'a list \<Rightarrow> ('w, unit) io" where
  "eachIO f [] = returnIO ()"
| "eachIO f (x # xs) = bindIO (f x) (\<lambda>_. eachIO f xs)"

definition onFst :: "('v, 'a) io \<Rightarrow> ('v \<times> 'w, 'a) io" where
  "onFst m vw = (case m (fst vw) of (r, v) \<Rightarrow> (r, (v, snd vw)))"

definition onSnd :: "('w, 'a) io \<Rightarrow> ('v \<times> 'w, 'a) io" where
  "onSnd m vw = (case m (snd vw) of (r, w) \<Rightarrow> (r, (fst vw, w)))"

lemma onFst_Inr: "onFst m vw = (Inr a, vw') \<longleftrightarrow> m (fst vw) = (Inr a, fst vw') \<and> snd vw' = snd vw"
  by (cases vw'; cases "m (fst vw)") (auto simp: onFst_def)

lemma onSnd_Inr: "onSnd m vw = (Inr a, vw') \<longleftrightarrow> m (snd vw) = (Inr a, snd vw') \<and> fst vw' = fst vw"
  by (cases vw'; cases "m (snd vw)") (auto simp: onSnd_def)

section \<open>The random source\<close>

text \<open>\<^verbatim>\<open>io.ReadFull(rand.Reader, b)\<close> fills the buffer or fails.\<close>

definition fullReads :: "(nat \<Rightarrow> ('w, bytes) io) \<Rightarrow> bool" where
  "fullReads rand \<longleftrightarrow> (\<forall>n w b. fst (rand n w) = Inr b \<longrightarrow> length b = n)"

lemma fullReadsD: "fullReads rand \<Longrightarrow> rand n w = (Inr b, w') \<Longrightarrow> length b = n"
  by (metis fst_conv fullReads_def)

end
