(* ===== verification/Disk.thy ===== *)
theory Disk
  imports HostIO
begin

text \<open>
  The file system as the two developer tools use it (\<^verbatim>\<open>os\<close>,
  \<^verbatim>\<open>bufio.Scanner\<close>): named files, directories, and calls that may fail. Every call takes
  the next entry of \<open>diskFaults\<close>; an entry \<open>Some (n, err)\<close> makes it fail with \<open>err\<close>, a
  read after \<open>n\<close> bytes.
\<close>

record disk =
  diskFiles :: "string \<rightharpoonup> bytes"
  diskDirs :: "string list"
  diskFaults :: "(nat \<times> goerror) option list"

definition popFault :: "disk \<Rightarrow> (nat \<times> goerror) option \<times> disk" where
  "popFault d =
     (case diskFaults d of
        [] \<Rightarrow> (None, d)
      | f # fs \<Rightarrow> (f, d\<lparr>diskFaults := fs\<rparr>))"

definition noFile :: goerror where "noFile = errorsNew ''no such file or directory''"

text \<open>Open, then read to the end: the bytes delivered and the read error, if any.\<close>

definition openRead :: "string \<Rightarrow> (disk, bytes \<times> goerror option) io" where
  "openRead path d0 =
     (let (f, d1) = popFault d0 in
      case f of
        Some (n, err) \<Rightarrow> (Inl err, d1)
      | None \<Rightarrow>
        (case diskFiles d1 path of
           None \<Rightarrow> (Inl noFile, d1)
         | Some b \<Rightarrow>
           (let (g, d2) = popFault d1 in
            case g of
              None \<Rightarrow> (Inr (b, None), d2)
            | Some (n, err) \<Rightarrow> (Inr (take n b, Some err), d2))))"

definition ReadFile :: "string \<Rightarrow> (disk, bytes) io" where
  "ReadFile path = bindIO (openRead path) (\<lambda>(b, err).
     case err of None \<Rightarrow> returnIO b | Some e \<Rightarrow> failIO e)"

definition StatPath :: "string \<Rightarrow> (disk, unit) io" where
  "StatPath path d0 =
     (let (f, d1) = popFault d0 in
      case f of
        Some (n, err) \<Rightarrow> (Inl err, d1)
      | None \<Rightarrow> (if diskFiles d1 path \<noteq> None \<or> path \<in> set (diskDirs d1) then Inr () else Inl noFile, d1))"

text \<open>A call that changes the disk when it succeeds.\<close>

definition diskCall :: "(disk \<Rightarrow> disk) \<Rightarrow> (disk, unit) io" where
  "diskCall change d0 =
     (let (f, d1) = popFault d0 in
      case f of Some (n, err) \<Rightarrow> (Inl err, d1) | None \<Rightarrow> (Inr (), change d1))"

definition MkdirAll :: "string \<Rightarrow> (disk, unit) io" where
  "MkdirAll path = diskCall (\<lambda>d. d\<lparr>diskDirs := List.insert path (diskDirs d)\<rparr>)"

definition CreateFile :: "string \<Rightarrow> (disk, unit) io" where
  "CreateFile path = diskCall (\<lambda>d. d\<lparr>diskFiles := (diskFiles d)(path \<mapsto> [])\<rparr>)"

definition WriteTo :: "string \<Rightarrow> bytes \<Rightarrow> (disk, unit) io" where
  "WriteTo path b = diskCall (\<lambda>d. d\<lparr>diskFiles := (diskFiles d)(path \<mapsto> the (diskFiles d path) @ b)\<rparr>)"

definition CloseFile :: "string \<Rightarrow> (disk, unit) io" where
  "CloseFile path = diskCall (\<lambda>d. d)"

section \<open>Lines\<close>

text \<open>
  \<^verbatim>\<open>bufio.Scanner\<close> with its line splitter: the lines without their ends, and whether
  the scan stopped at a line that does not fit the buffer.
\<close>

definition dropCR :: "string \<Rightarrow> string" where
  "dropCR s = (if s \<noteq> [] \<and> last s = CHR 0x0D then butlast s else s)"

definition ErrTooLong :: goerror where "ErrTooLong = errorsNew ''bufio.Scanner: token too long''"

function scanLines :: "nat \<Rightarrow> string \<Rightarrow> string list \<times> goerror option" where
  "scanLines limit s =
     (if s = [] then ([], None)
      else let line = takeWhile (\<lambda>c. c \<noteq> CHR 0x0A) s in
        if length line \<ge> limit then ([], Some ErrTooLong)
        else let (ls, e) = scanLines limit (drop (Suc (length line)) s) in (dropCR line # ls, e))"
  by pat_completeness auto
termination
  by (relation "measure (\<lambda>(n, s). length s)") auto

declare scanLines.simps [simp del]

text \<open>What was written line by line is scanned line by line.\<close>

definition lineable :: "nat \<Rightarrow> string \<Rightarrow> bool" where
  "lineable limit l \<longleftrightarrow> CHR 0x0A \<notin> set l \<and> length l < limit \<and> (l = [] \<or> last l \<noteq> CHR 0x0D)"

lemma scanLines_lines:
  "list_all (lineable limit) ls \<Longrightarrow> scanLines limit (concat (map (\<lambda>l. l @ [CHR 0x0A]) ls)) = (ls, None)"
proof (induction ls)
  case Nil
  then show ?case by (simp add: scanLines.simps)
next
  case (Cons l ls)
  have "takeWhile (\<lambda>c. c \<noteq> CHR 0x0A) (l @ CHR 0x0A # r) = l" for r
    using Cons.prems by (auto simp: lineable_def takeWhile_append)
  then show ?case
    using Cons by (auto simp: scanLines.simps [of limit "l @ CHR 0x0A # r" for r] lineable_def dropCR_def)
qed

lemma diskCall_Inr:
  "diskCall change d = (Inr x, d') \<Longrightarrow> \<exists>fs. d' = change (d\<lparr>diskFaults := fs\<rparr>)"
  by (auto simp: diskCall_def popFault_def Let_def split: list.splits option.splits prod.splits)
    (metis disk.surjective disk.update_convs(3))+

lemma scanLines_member:
  assumes "l \<in> set (fst (scanLines limit s))"
  shows "CHR 0x0A \<notin> set l" "length l < limit"
proof -
  have "CHR 0x0A \<notin> set l \<and> length l < limit"
    using assms
  proof (induction limit s rule: scanLines.induct)
    case (1 limit s)
    let ?l = "takeWhile (\<lambda>c. c \<noteq> CHR 0x0A) s"
    have "CHR 0x0A \<notin> set (dropCR ?l)" "length (dropCR ?l) \<le> length ?l"
      by (auto simp: dropCR_def dest: in_set_butlastD set_takeWhileD)
    then show ?case
      using 1 by (auto simp: scanLines.simps [of limit s] Let_def split: if_splits prod.splits)
  qed
  then show "CHR 0x0A \<notin> set l" "length l < limit" by simp_all
qed

lemma scanLines_append:
  assumes "s = [] \<or> last s = CHR 0x0A" "snd (scanLines limit s) = None"
  shows "scanLines limit (s @ t) = (fst (scanLines limit s) @ fst (scanLines limit t), snd (scanLines limit t))"
  using assms
proof (induction limit s rule: scanLines.induct)
  case (1 limit s)
  show ?case
  proof (cases "s = []")
    case True
    then show ?thesis by (simp add: scanLines.simps [of limit "[]"])
  next
    case False
    let ?l = "takeWhile (\<lambda>c. c \<noteq> CHR 0x0A) s" let ?r = "drop (Suc (length ?l)) s"
    have m: "CHR 0x0A \<in> set s" using 1(2) False by (metis last_in_set)
    then have tw: "takeWhile (\<lambda>c. c \<noteq> CHR 0x0A) (s @ t) = ?l" by (auto simp: takeWhile_append1)
    have "length ?l < length s" using m by (induction s) auto
    then have dr: "drop (Suc (length ?l)) (s @ t) = ?r @ t" by simp
    have lim: "\<not> limit \<le> length ?l" "snd (scanLines limit ?r) = None"
      using 1(3) False by (auto simp: scanLines.simps [of limit s] Let_def split: if_splits prod.splits)
    have "?r = [] \<or> last ?r = CHR 0x0A" using 1(2) False by (metis last_drop drop_eq_Nil not_le)
    then have "scanLines limit (?r @ t) = (fst (scanLines limit ?r) @ fst (scanLines limit t), snd (scanLines limit t))"
      using 1(1) [OF False refl lim(1)] lim(2) by simp
    then show ?thesis
      using False lim(1) tw dr by (simp add: scanLines.simps [of limit "s @ t"] scanLines.simps [of limit s] Let_def split: prod.splits)
  qed
qed

end
