(* ===== verification/Capture.thy ===== *)
theory Capture
  imports GoRegexp Disk Analyze FieldSet
begin

text \<open>
  \<^verbatim>\<open>cmd/capture-keycloak-sql\<close>: the tool that reads the proxy's debug log, keeps the
  statements of the lines that \<^verbatim>\<open>Parse\<close> logs, and writes them sorted and without
  duplicates as the golden SQL corpus. The line itself is written by \<^verbatim>\<open>OnParse\<close> in
  \<^verbatim>\<open>internal/wire/session.go\<close>.
\<close>

section \<open>The log line\<close>

definition truncateLimit :: nat where "truncateLimit = 4000"

definition truncateLog :: "string \<Rightarrow> string" where
  "truncateLog s0 =
     (let s = strJoin '' '' (Fields s0) in
      if length s > truncateLimit then take truncateLimit s @ ''...'' else s)"

text \<open>The lines of an accepted and of a refused statement.\<close>

definition parseLogLine :: "unicode \<Rightarrow> string \<Rightarrow> StmtKind \<Rightarrow> string \<Rightarrow> nat \<Rightarrow> string \<Rightarrow> string" where
  "parseLogLine U name kind table n sql =
     ''kkp: parse '' @ Quote U name @ '' kind='' @ StmtKind_String kind @ '' table='' @ Quote U table
     @ '' writeParams='' @ showNat n @ '' sql='' @ Quote U (truncateLog sql)"

definition failLogLine :: "unicode \<Rightarrow> string \<Rightarrow> StmtKind \<Rightarrow> string \<Rightarrow> goerror \<Rightarrow> string \<Rightarrow> string" where
  "failLogLine U name kind table err sql =
     ''kkp: parse '' @ Quote U name @ '' FAIL plan: kind='' @ StmtKind_String kind @ '' table='' @ Quote U table
     @ '' err='' @ errText err @ '' sql='' @ Quote U (truncateLog sql)"

section \<open>Reading lines\<close>

definition quoteStr :: string where "quoteStr = [CHR 0x22]"

definition parseLine :: rx where
  "parseLine = seqs
     [Lit (''kkp: parse '' @ quoteStr), Star (noneOf quoteStr), Lit (quoteStr @ '' kind=''),
      Group 1 (Plus (Class False [(65, 90)])), Lit ('' table='' @ quoteStr), Group 2 (Star (noneOf quoteStr)),
      Lit quoteStr, Star (noneOf quoteStr), Lit (''sql='' @ quoteStr), Group 3 (Star anyRx), Lit quoteStr, EndText]"

datatype stmt = Stmt (stKind: string) (stTable: string) (stSQL: string)

definition captureLine :: "string \<Rightarrow> stmt option" where
  "captureLine line =
     map_option (\<lambda>m. Stmt (group m 1) (group m 2) (TrimSpace (group m 3)))
       (FindStringSubmatch parseLine line)"

definition maxLine :: nat where "maxLine = 4 * 1024 * 1024"

section \<open>The tool\<close>

text \<open>A corpus line read back under \<^verbatim>\<open>-merge\<close>.\<close>

definition seedLine :: "string \<Rightarrow> stmt option" where
  "seedLine line =
     (case SplitN line (CHR 0x09) 3 of
        [k, t, q] \<Rightarrow> Some (Stmt k t q)
      | _ \<Rightarrow> None)"

definition someOf :: "'a option list \<Rightarrow> 'a list" where
  "someOf xs = map the (filter (\<lambda>x. x \<noteq> None) xs)"

text \<open>The comparator of the sort: by kind, then by table, then by text.\<close>

instantiation stmt :: linorder
begin

definition less_stmt :: "stmt \<Rightarrow> stmt \<Rightarrow> bool" where
  "less_stmt a b \<longleftrightarrow>
     (if stKind a \<noteq> stKind b then stKind a < stKind b
      else if stTable a \<noteq> stTable b then stTable a < stTable b
      else stSQL a < stSQL b)"

definition less_eq_stmt :: "stmt \<Rightarrow> stmt \<Rightarrow> bool" where
  "less_eq_stmt a b \<longleftrightarrow> a = b \<or> a < b"

instance
proof
  fix a b c :: stmt
  show "(a < b) = (a \<le> b \<and> \<not> b \<le> a)" "a \<le> a"
    by (auto simp: less_stmt_def less_eq_stmt_def split: if_splits)
  show "a \<le> b \<Longrightarrow> b \<le> c \<Longrightarrow> a \<le> c"
    by (auto simp: less_stmt_def less_eq_stmt_def split: if_splits)
  show "a \<le> b \<Longrightarrow> b \<le> a \<Longrightarrow> a = b"
    by (auto simp: less_stmt_def less_eq_stmt_def split: if_splits)
  show "a \<le> b \<or> b \<le> a"
    by (cases a; cases b) (auto simp: less_stmt_def less_eq_stmt_def)
qed

end

text \<open>The set \<^verbatim>\<open>seen\<close>, as a list without repetition in no particular order.\<close>

definition seeAll :: "stmt list \<Rightarrow> stmt list \<Rightarrow> stmt list" where
  "seeAll ss seen = fold List.insert ss seen"

definition corpusLine :: "stmt \<Rightarrow> string" where
  "corpusLine s = stKind s @ [CHR 0x09] @ stTable s @ [CHR 0x09] @ stSQL s"

definition seedFrom :: "string \<Rightarrow> (disk, stmt list) io" where
  "seedFrom out d0 =
     (case openRead out d0 of
        (Inl err, d1) \<Rightarrow> (Inr [], d1)
      | (Inr (b, err), d1) \<Rightarrow> (Inr (seeAll (someOf (map seedLine (fst (scanLines maxLine b)))) []), d1))"

definition openLog :: "bytes \<times> goerror option \<Rightarrow> string \<Rightarrow> (disk, bytes \<times> goerror option) io" where
  "openLog stdin inp =
     (if inp = ''-'' then returnIO stdin else contextIO (''open '' @ inp @ '': '') (openRead inp))"

definition runCapture ::
  "bytes \<times> goerror option \<Rightarrow> string \<Rightarrow> string \<Rightarrow> bool \<Rightarrow> (disk, nat) io" where
  "runCapture stdin inp out merge =
     (if out = [] then failIO (errorsNew ''-out is required'')
      else
        bindIO (openLog stdin inp) (\<lambda>(b, readErr).
        bindIO (if merge then seedFrom out else returnIO []) (\<lambda>seed.
        let (ls, long) = scanLines maxLine b;
            seen = seeAll (someOf (map captureLine ls)) seed;
            all = sort seen in
        case (case long of Some e \<Rightarrow> Some e | None \<Rightarrow> readErr) of
          Some e \<Rightarrow> failIO (wrapErr ''scan: '' e [])
        | None \<Rightarrow>
          bindIO (contextIO (''create '' @ out @ '': '') (CreateFile out)) (\<lambda>_.
          bindIO (eachIO (\<lambda>s. contextIO ''write: '' (WriteTo out (corpusLine s @ [CHR 0x0A]))) all) (\<lambda>_.
          returnIO (length all))))))"

end
