(* ===== verification/CaptureProps.thy ===== *)
theory CaptureProps
  imports Capture Example
begin

text \<open>
  The capture tool: it reads back what the proxy logged, its output is the sorted set of the
  statements seen, and merging loses nothing.
\<close>

section \<open>A log line is read as it was written\<close>

definition lineText :: "string \<Rightarrow> string \<Rightarrow> string \<Rightarrow> string \<Rightarrow> string \<Rightarrow> string" where
  "lineText n k t w q =
     (''kkp: parse '' @ quoteStr) @ n @ (quoteStr @ '' kind='') @ k @ ('' table='' @ quoteStr) @ t @ quoteStr
     @ w @ (''sql='' @ quoteStr) @ q @ quoteStr"

definition unquoted :: "string \<Rightarrow> bool" where
  "unquoted s \<longleftrightarrow> CHR 0x22 \<notin> set s"

definition upperWord :: "string \<Rightarrow> bool" where
  "upperWord k \<longleftrightarrow> k \<noteq> [] \<and> list_all (\<lambda>x. 65 \<le> byteVal x \<and> byteVal x \<le> 90) k"

lemma parts_ascii [simp]:
  "isASCII quoteStr" "isASCII (''kkp: parse '' @ quoteStr)" "isASCII (quoteStr @ '' kind='')"
  "isASCII ('' table='' @ quoteStr)" "isASCII (''sql='' @ quoteStr)"
  by (simp_all add: isASCII_def quoteStr_def)

lemma set_quoteStr [simp]: "list_all (\<lambda>x. x \<notin> set quoteStr) s = unquoted s"
  by (auto simp: quoteStr_def unquoted_def list_all_iff)

lemma parseLine_consumes:
  assumes "matches parseLine c e"
  obtains n k t w q where "rest c = lineText n k t w q" "unquoted n" "upperWord k" "unquoted t" "unquoted w"
    "CHR 0x0A \<notin> set q" "caps e = (3, q) # (2, t) # (1, k) # caps c" "rest e = []"
proof -
  note star = star_consumes [OF byteClass_noneOf, of quoteStr]
  obtain c1 c2 c3 c4 c5 c6 c7 c8 c9 c10 c11 where m:
    "matches (Lit (''kkp: parse '' @ quoteStr)) c c1" "matches (Star (noneOf quoteStr)) c1 c2"
    "matches (Lit (quoteStr @ '' kind='')) c2 c3" "matches (Group 1 (Plus (Class False [(65, 90)]))) c3 c4"
    "matches (Lit ('' table='' @ quoteStr)) c4 c5" "matches (Group 2 (Star (noneOf quoteStr))) c5 c6"
    "matches (Lit quoteStr) c6 c7" "matches (Star (noneOf quoteStr)) c7 c8"
    "matches (Lit (''sql='' @ quoteStr)) c8 c9" "matches (Group 3 (Star anyRx)) c9 c10"
    "matches (Lit quoteStr) c10 c11" "matches EndText c11 e"
    using assms unfolding parseLine_def seqs.simps matches_simps(3) by blast
  obtain n where n: "consumes c1 n c2" "unquoted n" using star [OF _ m(2)] by auto
  obtain k where k: "rest c3 = k @ rest c4" "upperWord k" "caps c4 = (1, k) # caps c3"
    using Group_consumes [OF m(4) Plus_consumes [OF byteClass_range [of 90 65]]] by (auto simp: upperWord_def)
  obtain t where t: "rest c5 = t @ rest c6" "unquoted t" "caps c6 = (2, t) # caps c5"
    using Group_consumes [OF m(6) star] by auto
  obtain w where w: "consumes c7 w c8" "unquoted w" using star [OF _ m(8)] by auto
  obtain q where q: "rest c9 = q @ rest c10" "CHR 0x0A \<notin> set q" "caps c10 = (3, q) # caps c9"
    using Group_consumes [OF m(10) star_consumes [OF byteClass_any]] by (auto simp: list_all_iff)
  have e: "e = c11" "rest e = []" using m(12) by (auto simp: matches_simps)
  note lits = Lit_matches(1) [OF parts_ascii(2) m(1)] Lit_matches(1) [OF parts_ascii(3) m(3)]
    Lit_matches(1) [OF parts_ascii(4) m(5)] Lit_matches(1) [OF parts_ascii(1) m(7)]
    Lit_matches(1) [OF parts_ascii(5) m(9)] Lit_matches(1) [OF parts_ascii(1) m(11)]
  show thesis
    using that [of n k t w q] n k t w q e lits by (simp add: consumes_def lineText_def)
qed

lemma quote_split:
  assumes "x @ CHR 0x22 # y = x' @ CHR 0x22 # y'" "unquoted x" "unquoted x'"
  shows "x = x'" "y = y'"
proof -
  have tw: "takeWhile (\<lambda>b. b \<noteq> CHR 0x22) (z @ CHR 0x22 # r) = z" if "unquoted z" for z r
    using that by (induction z) (auto simp: unquoted_def)
  show "x = x'" using tw [OF assms(2), of y] tw [OF assms(3), of y'] assms(1) by simp
  then show "y = y'" using assms(1) by simp
qed

lemma lineText_inj:
  assumes "lineText n k t w q = lineText n' k' t' w' q'"
    and "unquoted n" "unquoted n'" "upperWord k" "upperWord k'" "unquoted t" "unquoted t'" "unquoted w" "unquoted w'"
  shows "k = k'" "t = t'" "q = q'"
proof -
  let ?tail = "\<lambda>t w q. t @ CHR 0x22 # w @ ''sql='' @ CHR 0x22 # q @ quoteStr"
  have e0: "n @ CHR 0x22 # '' kind='' @ k @ '' table='' @ CHR 0x22 # ?tail t w q
      = n' @ CHR 0x22 # '' kind='' @ k' @ '' table='' @ CHR 0x22 # ?tail t' w' q'"
    using assms(1) by (simp add: lineText_def quoteStr_def)
  have e: "(k @ '' table='') @ CHR 0x22 # ?tail t w q = (k' @ '' table='') @ CHR 0x22 # ?tail t' w' q'"
    using quote_split(2) [OF e0 assms(2,3)] by simp
  have up: "unquoted (k @ '' table='')" if "upperWord k" for k
    using that by (auto simp: upperWord_def unquoted_def list_all_iff)
  have k: "k @ '' table='' = k' @ '' table=''"
    and e2: "?tail t w q = ?tail t' w' q'"
    using quote_split [OF e up up] assms(4,5) by simp_all
  show "k = k'" using k by simp
  have t: "t = t'" and e3: "(w @ ''sql='') @ CHR 0x22 # q @ quoteStr = (w' @ ''sql='') @ CHR 0x22 # q' @ quoteStr"
    using quote_split [OF e2 assms(6,7)] by simp_all
  show "t = t'" by (rule t)
  show "q = q'" using quote_split(2) [OF e3] assms(8,9) by (simp add: unquoted_def)
qed


lemma parseLine_reads:
  assumes "unquoted n" "upperWord k" "unquoted t" "unquoted w" "CHR 0x0A \<notin> set q"
  shows "reads parseLine (lineText n k t w q) []"
proof -
  have star: "unquoted p \<Longrightarrow> t = [] \<or> byteVal (hd t) < 128 \<Longrightarrow> reads (Star (noneOf quoteStr)) p t" for p t
    by (rule reads_Star [OF byteClass_noneOf [OF parts_ascii(1)]]) simp_all
  have word: "t = [] \<or> byteVal (hd t) < 128 \<Longrightarrow> reads (Plus (Class False [(65, 90)])) k t" for t
    using reads_Plus [OF byteClass_range [of 90 65], of k t] assms(2) by (cases k) (auto simp: upperWord_def)
  have any: "t = [] \<or> byteVal (hd t) < 128 \<Longrightarrow> reads (Star anyRx) q t" for t
    using reads_Star [OF byteClass_any, of q t] assms(5) by (auto simp: list_all_iff)
  have split: "lineText n k t w q = (''kkp: parse '' @ quoteStr) @ n @ (quoteStr @ '' kind='') @ k
     @ ('' table='' @ quoteStr) @ t @ quoteStr @ w @ (''sql='' @ quoteStr) @ q @ quoteStr @ []"
    by (simp add: lineText_def)
  show ?thesis
    unfolding split parseLine_def seqs.simps
    by (intro reads_Seq reads_Lit reads_Group star word any reads_EndText parts_ascii assms) (simp_all add: quoteStr_def)
qed


lemma FindStringSubmatch_line:
  assumes "isASCII pre" "CHR ''k'' \<notin> set pre"
    and "unquoted n" "upperWord k" "unquoted t" "unquoted w" "CHR 0x0A \<notin> set q"
  shows "\<exists>e. FindStringSubmatch parseLine (pre @ lineText n k t w q) = Some e \<and> caps e = [(3, q), (2, t), (1, k)]"
proof -
  have "\<not> matches parseLine c d" if "rest c \<noteq> []" "hd (rest c) \<in> set pre" for c d
  proof
    assume "matches parseLine c d"
    then have "hd (rest c) = CHR ''k''" by (rule parseLine_consumes) (simp add: lineText_def)
    then show False using that assms(2) by simp
  qed
  then obtain l where l: "findFrom parseLine (atStart (pre @ lineText n k t w q))
      = findFrom parseLine (atStart (pre @ lineText n k t w q)\<lparr>atLine := l, rest := lineText n k t w q\<rparr>)"
    using findFrom_skip [OF assms(1), of parseLine "atStart (pre @ lineText n k t w q)"] by (auto simp: atStart_def)
  let ?c = "\<lparr>atLine = l, rest = lineText n k t w q, caps = []\<rparr>"
  have "\<exists>d. matches parseLine (?c\<lparr>caps := []\<rparr>) d"
    using parseLine_reads [OF assms(3-7)] by (auto simp: reads_def dest!: spec [of _ ?c])
  then obtain e where e: "findFrom parseLine ?c = Some (?c, e)" "matches parseLine ?c e"
    using findFrom_here [of parseLine ?c] by auto
  from e(2) obtain n' k' t' w' q' where p: "lineText n k t w q = lineText n' k' t' w' q'" "unquoted n'" "upperWord k'"
    "unquoted t'" "unquoted w'" "caps e = [(3, q'), (2, t'), (1, k')]"
    by (rule parseLine_consumes) auto
  then show ?thesis
    using lineText_inj [OF p(1)] assms(3-6) e(1) l by (auto simp: FindStringSubmatch_def atStart_def)
qed

section \<open>What quoting and truncation keep out\<close>

declare byte_literals [simp]

definition marks :: "char set" where
  "marks = {CHR 0x22, CHR 0x0A}"

lemma hexChar_clean: "d < 16 \<Longrightarrow> hexChar d \<notin> marks"
proof -
  assume "d < 16"
  then have "byteVal (hexChar d) \<in> {48..57} \<union> {97..102::nat}"
    by (auto simp: hexChar_def of_char_of)
  then show ?thesis by (auto simp: marks_def)
qed

lemma hexDigits_clean: "set (hexDigits n k) \<inter> marks = {}"
  using hexChar_clean [of "k mod 16" for k] by (induction n arbitrary: k) auto

lemma escapedRune_clean:
  assumes "byteVal b \<noteq> r" "b \<in> marks" "r < 0x110000"
  shows "b \<notin> set (escapedRune U r)"
proof (cases "r < 128")
  case True
  have l: "''abtnvfr'' ! (r - 7) \<noteq> b" if "7 \<le> r" "r \<le> 13"
  proof -
    have "set ''abtnvfr'' \<inter> marks = {}" by (simp add: marks_def)
    moreover have "''abtnvfr'' ! (r - 7) \<in> set ''abtnvfr''" using that by (intro nth_mem) simp
    ultimately show ?thesis using assms(2) by auto
  qed
  have e: "EncodeRune r = [byteOf r]" using True by (rule EncodeRune_1)
  have r: "byteOf r \<noteq> b" using assms(1) True by (auto simp: byteVal_byteOf)
  show ?thesis
    using hexDigits_clean [of 2 r] hexDigits_clean [of 4 r] hexDigits_clean [of 4 runeError] hexDigits_clean [of 8 r] assms(2) l e r True
    unfolding escapedRune_def by (auto simp: marks_def)
next
  case False
  then have "b \<notin> set (EncodeRune r)" using EncodeRune_high [of r b] assms(2) by (auto simp: marks_def)
  then show ?thesis
    using hexDigits_clean [of 4 r] hexDigits_clean [of 4 runeError] hexDigits_clean [of 8 r] assms(2) False
    unfolding escapedRune_def by (auto simp: marks_def)
qed

lemma quoteBody_clean: "b \<in> marks \<Longrightarrow> b \<notin> set s \<Longrightarrow> b \<notin> set (quoteBody U s)"
proof (induction U s rule: quoteBody.induct)
  case (1 U s)
  have bs: "byteVal b < (128::nat)" "b \<noteq> CHR 0x5C" "b \<noteq> CHR ''x''" using 1(3) by (auto simp: marks_def)
  have tl: "b \<notin> set (tl s)" "b \<notin> set (drop k s)" for k using 1(4) by (cases s; auto dest: in_set_dropD)+
  have r: "fst (DecodeRune s) < 0x110000" using DecodeRune_valid [of s] by (auto simp: validRune_def)
  show ?case
    using 1 tl bs hexDigits_clean [of 2 "byteVal (hd s)"] escapedRune_clean [of b "fst (DecodeRune s)" U] r
      DecodeRune_head [of s b]
    by (auto simp: quoteBody.simps [of U s] split: if_splits)
qed

lemma fieldsFrom_clean: "CHR 0x0A \<notin> set w \<Longrightarrow> x \<in> set (fieldsFrom w s) \<Longrightarrow> CHR 0x0A \<notin> set x"
proof (induction w s rule: fieldsFrom.induct)
  case (1 w s)
  show ?case
  proof (cases "s = []")
    case True
    then show ?thesis using 1(3,4) by (auto simp: fieldsFrom.simps [of w "[]"] split: if_splits)
  next
    case False
    obtain r n where d: "DecodeRune s = (r, n)" by fastforce
    have t: "CHR 0x0A \<notin> set (take n s)" if "\<not> isSpace r"
      using DecodeRune_bytes [of "hd s" "tl s" r n] d False that
      by (cases s) (auto simp: isSpace_def list_all_iff split: if_splits)
    show ?thesis
      using 1(3,4) 1(1) [OF False d [symmetric] refl] 1(2) [OF False d [symmetric] refl] t False d
      by (auto simp: fieldsFrom.simps [of w s] split: if_splits)
  qed
qed

lemma strJoin_clean: "b \<notin> set sep \<Longrightarrow> (\<And>x. x \<in> set xs \<Longrightarrow> b \<notin> set x) \<Longrightarrow> b \<notin> set (strJoin sep xs)"
  by (induction sep xs rule: strJoin.induct) auto

lemma truncate_clean: "CHR 0x0A \<notin> set (truncateLog s)"
proof -
  have "CHR 0x0A \<notin> set (strJoin '' '' (Fields s))"
    by (rule strJoin_clean) (auto simp: Fields_def dest: fieldsFrom_clean [rotated])
  then show ?thesis by (auto simp: truncateLog_def Let_def dest: in_set_takeD)
qed

lemma StmtKind_String_upper: "upperWord (StmtKind_String k)"
  by (cases k) (simp_all add: upperWord_def)

lemma showNat_unquoted: "unquoted (showNat n)"
  using showNat_digits [of n] by (auto simp: unquoted_def list_all_iff isDigit_def)

lemma capture_line:
  assumes "isASCII pre" "CHR ''k'' \<notin> set pre" "CHR 0x22 \<notin> set name" "CHR 0x22 \<notin> set table"
  shows "captureLine (pre @ parseLogLine U name kind table n sql) =
     Some (Stmt (StmtKind_String kind) (quoteBody U table) (TrimSpace (quoteBody U (truncateLog sql))))"
proof -
  let ?w = "'' writeParams='' @ showNat n @ '' ''" and ?q = "quoteBody U (truncateLog sql)"
  have l: "parseLogLine U name kind table n sql =
      lineText (quoteBody U name) (StmtKind_String kind) (quoteBody U table) ?w ?q"
    by (simp add: parseLogLine_def lineText_def Quote_def quoteStr_def)
  have c: "unquoted (quoteBody U name)" "unquoted (quoteBody U table)" "CHR 0x0A \<notin> set ?q"
    using quoteBody_clean assms(3,4) truncate_clean [of sql] by (simp_all add: unquoted_def marks_def)
  have "unquoted ?w" using showNat_unquoted [of n] by (simp add: unquoted_def)
  then obtain e where "FindStringSubmatch parseLine (pre @ parseLogLine U name kind table n sql) = Some e"
    "caps e = [(3, ?q), (2, quoteBody U table), (1, StmtKind_String kind)]"
    using FindStringSubmatch_line [OF assms(1,2) c(1) StmtKind_String_upper c(2) _ c(3)] unfolding l by blast
  then show ?thesis by (simp add: captureLine_def group_def)
qed

section \<open>The corpus file\<close>

definition captured :: "bytes \<Rightarrow> stmt set" where
  "captured b = {s. \<exists>l \<in> set (fst (scanLines maxLine b)). captureLine l = Some s}"

definition seeds :: "bytes \<Rightarrow> stmt set" where
  "seeds b = {s. \<exists>l \<in> set (fst (scanLines maxLine b)). seedLine l = Some s}"

definition render :: "stmt list \<Rightarrow> bytes" where
  "render ss = concat (map (\<lambda>s. corpusLine s @ [CHR 0x0A]) ss)"

lemma set_someOf: "set (someOf (map f ls)) = {s. \<exists>l \<in> set ls. f l = Some s}"
  by (auto simp: someOf_def image_iff) (metis option.sel option.distinct(1))

lemma seeAll_set [simp]: "set (seeAll ss seen) = set ss \<union> set seen"
  unfolding seeAll_def by (induction ss arbitrary: seen) auto

lemma seeAll_distinct: "distinct seen \<Longrightarrow> distinct (seeAll ss seen)"
  unfolding seeAll_def by (induction ss arbitrary: seen) (auto simp: distinct_insert)

lemma sort_seeAll: "distinct seen \<Longrightarrow> sort (seeAll ss seen) = sorted_list_of_set (set ss \<union> set seen)"
  using sorted_list_of_set_sort_remdups [of "seeAll ss seen"] distinct_remdups_id [OF seeAll_distinct [of seen ss]]
  by simp

lemma write_all:
  assumes "diskFaults d = []" "diskFiles d out = Some c"
  shows "eachIO (\<lambda>s. contextIO ctx (WriteTo out (f s))) xs d =
     (Inr (), d\<lparr>diskFiles := (diskFiles d)(out \<mapsto> c @ concat (map f xs))\<rparr>)"
  using assms
proof (induction xs arbitrary: d c)
  case Nil
  then show ?case by (cases d) (simp add: fun_upd_idem)
next
  case (Cons x xs)
  have "contextIO ctx (WriteTo out (f x)) d = (Inr (), d\<lparr>diskFiles := (diskFiles d)(out \<mapsto> c @ f x)\<rparr>)"
    using Cons.prems by (simp add: contextIO_def WriteTo_def diskCall_def popFault_def)
  then show ?case using Cons.IH [of "d\<lparr>diskFiles := (diskFiles d)(out \<mapsto> c @ f x)\<rparr>" "c @ f x"] Cons.prems
    by (simp add: bindIO_def del: fun_upd_apply) (simp add: fun_upd_def)
qed

definition logIn :: "bytes \<times> goerror option \<Rightarrow> string \<Rightarrow> disk \<Rightarrow> bytes \<Rightarrow> bool" where
  "logIn stdin inp d b \<longleftrightarrow> (if inp = ''-'' then stdin = (b, None) else diskFiles d inp = Some b)"

definition corpusOf :: "bool \<Rightarrow> string \<Rightarrow> disk \<Rightarrow> bytes \<Rightarrow> stmt set" where
  "corpusOf merge out d b =
     captured b \<union> (if merge then (case diskFiles d out of None \<Rightarrow> {} | Some old \<Rightarrow> seeds old) else {})"

lemma openRead_ok:
  "diskFaults d = [] \<Longrightarrow> diskFiles d p = Some b \<Longrightarrow> openRead p d = (Inr (b, None), d)"
  "diskFaults d = [] \<Longrightarrow> diskFiles d p = None \<Longrightarrow> openRead p d = (Inl noFile, d)"
  by (simp_all add: openRead_def popFault_def)

lemma seedFrom_ok:
  assumes "diskFaults d = []"
  shows "\<exists>seed. seedFrom out d = (Inr seed, d) \<and> distinct seed
     \<and> set seed = (case diskFiles d out of None \<Rightarrow> {} | Some old \<Rightarrow> seeds old)"
  using assms
  by (cases "diskFiles d out") (auto simp: seedFrom_def openRead_ok seeAll_distinct set_someOf seeds_def)

lemma runCapture_exact:
  assumes "diskFaults d = []" "out \<noteq> []" "logIn stdin inp d b"
  shows "runCapture stdin inp out merge d =
     (case snd (scanLines maxLine b) of
        Some e \<Rightarrow> (Inl (wrapErr ''scan: '' e []), d)
      | None \<Rightarrow>
        (Inr (card (corpusOf merge out d b)),
         d\<lparr>diskFiles := (diskFiles d)(out \<mapsto> render (sorted_list_of_set (corpusOf merge out d b)))\<rparr>))"
proof -
  obtain ls e where sc: "scanLines maxLine b = (ls, e)" by fastforce
  have open': "openLog stdin inp d = (Inr (b, None), d)"
    using assms by (auto simp: openLog_def logIn_def contextIO_def openRead_ok split: if_splits)
  obtain seed where seed: "(if merge then seedFrom out else returnIO []) d = (Inr seed, d)" "distinct seed"
    and ss: "set seed = (if merge then (case diskFiles d out of None \<Rightarrow> {} | Some old \<Rightarrow> seeds old) else {})"
    using seedFrom_ok [OF assms(1), of out] by (cases merge) auto
  let ?all = "sort (seeAll (someOf (map captureLine ls)) seed)"
  have all: "?all = sorted_list_of_set (corpusOf merge out d b)"
    using sort_seeAll [OF seed(2)] ss sc by (simp add: corpusOf_def captured_def set_someOf)
  have "finite (corpusOf merge out d b)"
    unfolding corpusOf_def ss [symmetric] using sc by (simp add: captured_def flip: set_someOf)
  then have len: "length ?all = card (corpusOf merge out d b)" unfolding all by simp
  have create: "contextIO (''create '' @ out @ '': '') (CreateFile out) d = (Inr (), d\<lparr>diskFiles := (diskFiles d)(out \<mapsto> [])\<rparr>)"
    using assms(1) by (simp add: contextIO_def CreateFile_def diskCall_def popFault_def)
  have body: "eachIO (\<lambda>s. contextIO ''write: '' (WriteTo out (corpusLine s @ [CHR 0x0A]))) ?all (d\<lparr>diskFiles := (diskFiles d)(out \<mapsto> [])\<rparr>)
      = (Inr (), d\<lparr>diskFiles := (diskFiles d)(out \<mapsto> render ?all)\<rparr>)"
    using write_all [of "d\<lparr>diskFiles := (diskFiles d)(out \<mapsto> [])\<rparr>" out "[]"] assms(1) by (simp add: render_def)
  show ?thesis
    using assms(2) open' seed(1) create body len
    by (simp add: runCapture_def bindIO_def sc all [symmetric] del: set_someOf split: option.split)
qed

lemma captureLine_shape:
  assumes "captureLine l = Some s"
  obtains pre n k t w q where "l = pre @ lineText n k t w q" "upperWord k" "s = Stmt k t (TrimSpace q)"
proof -
  obtain b e where f: "findFrom parseLine (atStart l) = Some (b, e)"
    and s: "s = Stmt (group e 1) (group e 2) (TrimSpace (group e 3))"
    using assms by (auto simp: captureLine_def FindStringSubmatch_def)
  obtain pre where pre: "l = pre @ rest b" "matches parseLine (b\<lparr>caps := []\<rparr>) e"
    using findFrom_found [OF f] by (auto simp: atStart_def)
  from pre(2) show thesis
    by (rule parseLine_consumes) (use that pre(1) s in \<open>auto simp: group_def\<close>)
qed

definition fileable :: "stmt \<Rightarrow> bool" where
  "fileable s \<longleftrightarrow> lineable maxLine (corpusLine s) \<and> CHR 0x09 \<notin> set (stKind s) \<and> CHR 0x09 \<notin> set (stTable s)"

lemma captured_fileable:
  assumes "s \<in> captured b" "CHR 0x09 \<notin> set (stTable s)"
  shows "fileable s"
proof -
  obtain l where l: "l \<in> set (fst (scanLines maxLine b))" "captureLine l = Some s"
    using assms(1) by (auto simp: captured_def)
  obtain pre n k t w q where e: "l = pre @ lineText n k t w q" "upperWord k" "s = Stmt k t (TrimSpace q)"
    using captureLine_shape [OF l(2)] by blast
  obtain p r where q: "q = p @ TrimSpace q @ r" using TrimSpace_part by blast
  have lq: "length (TrimSpace q) \<le> length q" using arg_cong [OF q, of length] by simp
  have sq: "set (TrimSpace q) \<subseteq> set q" using arg_cong [OF q, of set] by auto
  have "CHR 0x0A \<notin> set (corpusLine s)"
    using scanLines_member(1) [OF l(1)] e sq by (auto simp: corpusLine_def lineText_def)
  moreover have "length (corpusLine s) < maxLine"
    using scanLines_member(2) [OF l(1)] e lq by (simp add: corpusLine_def lineText_def quoteStr_def)
  moreover have "last (corpusLine s) \<noteq> CHR 0x0D"
    using TrimSpace_last [of q] e by (cases "TrimSpace q = []") (auto simp: corpusLine_def)
  moreover have "CHR 0x09 \<notin> set (stKind s)" using e by (auto simp: upperWord_def list_all_iff)
  ultimately show ?thesis using assms(2) by (simp add: fileable_def lineable_def)
qed

lemma seedLine_corpusLine: "fileable s \<Longrightarrow> seedLine (corpusLine s) = Some s"
  by (cases s) (simp add: fileable_def seedLine_def corpusLine_def numeral_eq_Suc)

lemma seeds_render: "list_all fileable ss \<Longrightarrow> seeds (render ss) = set ss"
proof -
  assume f: "list_all fileable ss"
  have "render ss = concat (map (\<lambda>l. l @ [CHR 0x0A]) (map corpusLine ss))" by (simp add: render_def comp_def)
  moreover have "list_all (lineable maxLine) (map corpusLine ss)" using f by (auto simp: list_all_iff fileable_def)
  ultimately have "fst (scanLines maxLine (render ss)) = map corpusLine ss" by (metis scanLines_lines fst_conv)
  then show ?thesis using f seedLine_corpusLine by (fastforce simp: seeds_def list_all_iff)
qed

definition exampleSQL :: string where
  "exampleSQL = ''x='' @ [CHR 0x22] @ ''A'' @ [CHR 0x22]"

definition exampleStored :: string where
  "exampleStored = ''x='' @ [CHR 0x5C, CHR 0x22] @ ''A'' @ [CHR 0x5C, CHR 0x22]"

definition exampleLine :: string where
  "exampleLine = parseLogLine plainUnicode ''S_1'' KindSelect ''t'' 0 exampleSQL"

definition emptyDisk :: disk where
  "emptyDisk = \<lparr>diskFiles = (\<lambda>path. None), diskDirs = [], diskFaults = []\<rparr>"

lemma quoteBody_ascii:
  "byteVal x < 128 \<Longrightarrow> quoteBody U (x # s) = escapedRune U (byteVal x) @ quoteBody U s"
  "quoteBody U [] = []"
  by (simp_all add: quoteBody.simps [of U "x # s"] quoteBody.simps [of U "[]"] DecodeRune_def runeError_def)

lemma exampleLine_parts:
  "truncateLog exampleSQL = exampleSQL" "quoteBody plainUnicode exampleSQL = exampleStored"
  "TrimSpace exampleStored = exampleStored" "quoteBody plainUnicode ''t'' = ''t''" "quoteBody plainUnicode ''S_1'' = ''S_1''"
proof -
  show "truncateLog exampleSQL = exampleSQL"
    by (simp add: truncateLog_def truncateLimit_def exampleSQL_def Fields_def fieldsFrom.simps DecodeRune_def isSpace_def)
  show "TrimSpace exampleStored = exampleStored"
    by (rule TrimSpace_visible) (simp_all add: exampleStored_def visible_def)
  show "quoteBody plainUnicode exampleSQL = exampleStored" by (simp add: exampleSQL_def exampleStored_def quoteBody_ascii escapedRune_def plainUnicode_def EncodeRune_1) code_simp
  show "quoteBody plainUnicode ''t'' = ''t''" by (simp add: quoteBody_ascii escapedRune_def plainUnicode_def EncodeRune_1) code_simp
  show "quoteBody plainUnicode ''S_1'' = ''S_1''" by (simp add: quoteBody_ascii escapedRune_def plainUnicode_def EncodeRune_1) code_simp
qed

lemma exampleLine_captured: "captureLine exampleLine = Some (Stmt ''SELECT'' ''t'' exampleStored)"
  using capture_line [of "[]" "''S_1''" "''t''" plainUnicode KindSelect 0 exampleSQL]
  by (simp add: exampleLine_def exampleLine_parts isASCII_def)

lemma exampleLine_lineable: "lineable maxLine exampleLine"
  by (simp add: lineable_def maxLine_def exampleLine_def parseLogLine_def Quote_def exampleLine_parts exampleStored_def
      showNat.simps digitChar_def)

lemma exampleLog_scanned: "scanLines maxLine (exampleLine @ [CHR 0x0A]) = ([exampleLine], None)"
  using scanLines_lines [of maxLine "[exampleLine]"] exampleLine_lineable by simp

lemma exampleLog_captured: "captured (exampleLine @ [CHR 0x0A]) = {Stmt ''SELECT'' ''t'' exampleStored}"
  by (simp add: captured_def exampleLog_scanned exampleLine_captured)

section \<open>Properties\<close>

text \<open>
  The tool reads what the proxy logs: the line of an accepted statement, after any log
  prefix, is captured with its kind, its table and its text as the log quotes it. The text
  is the quoted, truncated one, not the statement itself (\<open>quotes_are_stored\<close>).
\<close>

theorem logged_statement_captured:
  assumes "isASCII pre" "CHR ''k'' \<notin> set pre" "CHR 0x22 \<notin> set name" "CHR 0x22 \<notin> set table"
  shows "captureLine (pre @ parseLogLine U name kind table n sql) =
     Some (Stmt (StmtKind_String kind) (quoteBody U table) (TrimSpace (quoteBody U (truncateLog sql))))"
  by (rule capture_line [OF assms])

lemma quotes_are_stored:
  "captureLine (parseLogLine plainUnicode ''S_1'' KindSelect ''t'' 0 exampleSQL) = Some (Stmt ''SELECT'' ''t'' exampleStored)"
  "exampleStored \<noteq> exampleSQL"
  using exampleLine_captured by (simp_all add: exampleLine_def exampleStored_def exampleSQL_def)

text \<open>
  C39. Captures add up: capturing one log and then another with \<^verbatim>\<open>-merge\<close> writes exactly
  the corpus that capturing both logs at once writes, whatever statements they share.
\<close>

theorem captures_merge:
  assumes "diskFaults d = []" "out \<noteq> []" "log1 = [] \<or> last log1 = CHR 0x0A"
    and "snd (scanLines maxLine log1) = None" "snd (scanLines maxLine log2) = None"
    and "\<And>s. s \<in> captured log1 \<Longrightarrow> CHR 0x09 \<notin> set (stTable s)"
  shows "runCapture (log2, None) ''-'' out True (snd (runCapture (log1, None) ''-'' out False d))
     = runCapture (log1 @ log2, None) ''-'' out False d"
proof -
  let ?ss = "sorted_list_of_set (captured log1)"
  let ?d1 = "d\<lparr>diskFiles := (diskFiles d)(out \<mapsto> render ?ss)\<rparr>"
  note exact = runCapture_exact [OF _ assms(2), of _ _ "''-''"]
  have r1: "snd (runCapture (log1, None) ''-'' out False d) = ?d1"
    using exact [of d "(log1, None)" log1 False] assms(1,4) by (simp add: logIn_def corpusOf_def)
  have fin: "finite (captured log1)" by (simp add: captured_def flip: set_someOf)
  have sd: "seeds (render ?ss) = captured log1"
    using seeds_render [of ?ss] captured_fileable [of _ log1] assms(6) fin by (auto simp: list_all_iff)
  have sc: "scanLines maxLine (log1 @ log2) = (fst (scanLines maxLine log1) @ fst (scanLines maxLine log2), None)"
    using scanLines_append [OF assms(3,4), of log2] assms(5) by simp
  then have cap: "captured (log1 @ log2) = captured log2 \<union> captured log1" by (auto simp: captured_def)
  have "runCapture (log2, None) ''-'' out True ?d1 =
      (Inr (card (captured log2 \<union> captured log1)),
       d\<lparr>diskFiles := (diskFiles d)(out \<mapsto> render (sorted_list_of_set (captured log2 \<union> captured log1)))\<rparr>)"
    using exact [of ?d1 "(log2, None)" log2 True] assms(1,5) sd
    by (simp add: logIn_def corpusOf_def)
  then show ?thesis
    using exact [of d "(log1 @ log2, None)" "log1 @ log2" False] assms(1) r1 cap sc
    by (simp add: logIn_def corpusOf_def)
qed

theorem captures_merge_witness:
  "runCapture (exampleLine @ [CHR 0x0A], None) ''-'' ''out'' True
     (snd (runCapture (exampleLine @ [CHR 0x0A], None) ''-'' ''out'' False emptyDisk))
   = runCapture ((exampleLine @ [CHR 0x0A]) @ exampleLine @ [CHR 0x0A], None) ''-'' ''out'' False emptyDisk"
proof -
  have "\<And>s. s \<in> captured (exampleLine @ [CHR 0x0A]) \<Longrightarrow> CHR 0x09 \<notin> set (stTable s)"
    by (simp add: exampleLog_captured)
  then show ?thesis
    by (intro captures_merge) (simp_all add: emptyDisk_def exampleLog_scanned)
qed

text \<open>
  With \<^verbatim>\<open>-merge\<close>, a corpus that exists but cannot be opened is taken for an empty one,
  and is then overwritten.
\<close>

lemma merge_drops_unreadable:
  "runCapture ([], None) ''-'' ''out'' True
     \<lparr>diskFiles = [''out'' \<mapsto> old], diskDirs = [], diskFaults = [Some (0, err)]\<rparr>
   = (Inr 0, \<lparr>diskFiles = [''out'' \<mapsto> []], diskDirs = [], diskFaults = []\<rparr>)"
  by (simp add: runCapture_def openLog_def bindIO_def seedFrom_def openRead_def popFault_def scanLines.simps seeAll_def
      someOf_def CreateFile_def diskCall_def contextIO_def)

end
