(* ===== verification/DebugLog.thy ===== *)
theory DebugLog
  imports CaptureProps Forwarding
begin

text \<open>
  The debug log of \<^verbatim>\<open>internal/wire/session.go\<close> where it has a reader: what \<^verbatim>\<open>OnParse\<close>
  logs when \<^verbatim>\<open>KKP_DEBUG_RELAY\<close> is set, and that the capture tool finds in it every statement
  a relay forwarded.
\<close>

section \<open>Logging\<close>

definition debugRelay :: "(string \<Rightarrow> string) \<Rightarrow> bool" where
  "debugRelay getenv \<longleftrightarrow> getenv ''KKP_DEBUG_RELAY'' = ''true''"

text \<open>The lines a call adds to the log.\<close>

definition debugf :: "bool \<Rightarrow> string \<Rightarrow> string list" where
  "debugf debug line = (if debug then [line] else [])"

definition parseLog :: "env \<Rightarrow> bool \<Rightarrow> Planner \<Rightarrow> ParseMsg \<Rightarrow> string list" where
  "parseLog E debug pl p =
     (let U = envUnicode E in
      case Analyze U (envParser E) (pmQuery p) of
        Inl err \<Rightarrow> []
      | Inr a \<Rightarrow>
        (case PlanWrite U pl a of
           Inl perr \<Rightarrow> debugf debug (failLogLine U (pmName p) (anKind a) (anTable a) perr (pmQuery p))
         | Inr plan \<Rightarrow>
             debugf debug (parseLogLine U (pmName p) (anKind a) (anTable a) (length (wpParams plan)) (pmQuery p))))"

text \<open>The log as the standard logger writes it: a stamp before, a line feed after each line.\<close>

definition logBytes :: "(string \<times> string) list \<Rightarrow> bytes" where
  "logBytes ls = concat (map (\<lambda>l. l @ [CHR 0x0A]) (map (\<lambda>(stamp, line). stamp @ line) ls))"

definition stampOK :: "string \<Rightarrow> bool" where
  "stampOK stamp \<longleftrightarrow> isASCII stamp \<and> CHR ''k'' \<notin> set stamp"

section \<open>Capturing a run\<close>

lemma forwarded_parse:
  assumes "judged E pl c names (FParse p) msg'" "Analyze (envUnicode E) (envParser E) (pmQuery p) = Inr a"
  shows "\<exists>plan. PlanWrite (envUnicode E) pl a = Inr plan"
  using assms by (cases "PlanWrite (envUnicode E) pl a")
    (auto simp: judged_def agree_def observeFrontend_def OnParse_def prepare_def Let_def)

text \<open>
  The golden corpus misses nothing: every Parse a relay forwarded, of a statement that could be
  analysed, is in the capture of the proxy's log, with its kind, its table and its text as quoted.
\<close>

theorem forwarded_parse_captured:
  assumes "relayRun E (NewSession pl c rnd m) ins r" "k < length ins" "ins ! k = FParse p"
    and "Analyze (envUnicode E) (envParser E) (pmQuery p) = Inr a"
    and "debugRelay getenv" "\<And>line. line \<in> set (parseLog E (debugRelay getenv) pl p) \<Longrightarrow> (stamp, line) \<in> set ls"
    and "stampOK stamp" "list_all (\<lambda>(stamp, line). lineable maxLine (stamp @ line)) ls"
    and "CHR 0x22 \<notin> set (pmName p)" "CHR 0x22 \<notin> set (anTable a)"
  shows "Stmt (StmtKind_String (anKind a)) (quoteBody (envUnicode E) (anTable a))
      (TrimSpace (quoteBody (envUnicode E) (truncateLog (pmQuery p)))) \<in> captured (logBytes ls)"
proof -
  let ?U = "envUnicode E"
  have "judged E pl c (prepared (take k ins)) (FParse p) (rlToBackend r ! k)"
    using stream_invariant [OF assms(1)] assms(2,3) by (metis streamInv_def)
  then obtain plan where "PlanWrite ?U pl a = Inr plan" using forwarded_parse assms(4) by blast
  then have mem: "(stamp, parseLogLine ?U (pmName p) (anKind a) (anTable a) (length (wpParams plan)) (pmQuery p)) \<in> set ls"
    using assms(4-6) by (simp add: parseLog_def debugf_def)
  have "fst (scanLines maxLine (logBytes ls)) = map (\<lambda>(stamp, line). stamp @ line) ls"
    using scanLines_lines [of maxLine "map (\<lambda>(stamp, line). stamp @ line) ls"] assms(8)
    by (simp add: logBytes_def list_all_iff case_prod_unfold)
  then have "stamp @ parseLogLine ?U (pmName p) (anKind a) (anTable a) (length (wpParams plan)) (pmQuery p)
      \<in> set (fst (scanLines maxLine (logBytes ls)))" using mem by force
  then show ?thesis
    using capture_line [OF _ _ assms(9,10), of stamp ?U "anKind a" "length (wpParams plan)" "pmQuery p"] assms(7)
    by (auto simp: captured_def stampOK_def)
qed

end
