(* ===== verification/AesGcm.thy ===== *)
theory AesGcm
  imports Sha256
begin

text \<open>
  Go's \<^verbatim>\<open>crypto/aes\<close> and \<^verbatim>\<open>crypto/cipher\<close>'s GCM, as
  \<^verbatim>\<open>internal/kms/static.go\<close> uses them: the AES block function for the three key
  sizes, counter mode and the GHASH tag, with the 12-byte nonce and the 16-byte tag of
  \<^verbatim>\<open>cipher.NewGCM\<close>. The S-box is computed (inversion in the field of 256
  elements, then the affine map) rather than tabulated.
\<close>

unbundle bit_operations_syntax

section \<open>The AES block function\<close>

type_synonym w8 = "8 word"

definition gfDouble :: "w8 \<Rightarrow> w8" where
  "gfDouble x = push_bit 1 x XOR (if bit x 7 then 0x1B else 0)"

fun gfMul :: "nat \<Rightarrow> w8 \<Rightarrow> w8 \<Rightarrow> w8" where
  "gfMul 0 x y = 0"
| "gfMul (Suc n) x y = (if bit x 0 then y else 0) XOR gfMul n (drop_bit 1 x) (gfDouble y)"

text \<open>The inverse is the 254th power.\<close>

fun gfPow :: "nat \<Rightarrow> w8 \<Rightarrow> w8" where
  "gfPow 0 x = 1"
| "gfPow (Suc n) x = gfMul 8 x (gfPow n x)"

definition sbox :: "w8 \<Rightarrow> w8" where
  "sbox x =
     (let b = gfPow 254 x in
      b XOR word_rotl 1 b XOR word_rotl 2 b XOR word_rotl 3 b XOR word_rotl 4 b XOR 0x63)"

definition xorWords :: "w8 list \<Rightarrow> w8 list \<Rightarrow> w8 list" where
  "xorWords a b = map2 (XOR) a b"

text \<open>The state is sixteen bytes, column by column.\<close>

definition shiftRows :: "w8 list \<Rightarrow> w8 list" where
  "shiftRows s = map (\<lambda>i. s ! (4 * ((i div 4 + i mod 4) mod 4) + i mod 4)) [0..<16]"

definition mixByte :: "w8 list \<Rightarrow> nat \<Rightarrow> w8" where
  "mixByte s i =
     (let at = (\<lambda>k. s ! (4 * (i div 4) + (i + k) mod 4)) in
      gfDouble (at 0) XOR gfDouble (at 1) XOR at 1 XOR at 2 XOR at 3)"

definition mixColumns :: "w8 list \<Rightarrow> w8 list" where
  "mixColumns s = map (mixByte s) [0..<16]"

definition nextKeyWord :: "nat \<Rightarrow> w8 list list \<Rightarrow> w8 list" where
  "nextKeyWord nk ws =
     (let i = length ws; t = ws ! (i - 1);
          t' = (if i mod nk = 0 then
                  xorWords (map sbox (tl t @ [hd t])) [(gfDouble ^^ (i div nk - 1)) 1, 0, 0, 0]
                else if nk > 6 \<and> i mod nk = 4 then map sbox t
                else t)
      in xorWords (ws ! (i - nk)) t')"

fun expandKey :: "nat \<Rightarrow> nat \<Rightarrow> w8 list list \<Rightarrow> w8 list list" where
  "expandKey nk 0 ws = ws"
| "expandKey nk (Suc n) ws = expandKey nk n (ws @ [nextKeyWord nk ws])"

fun groups :: "nat \<Rightarrow> nat \<Rightarrow> 'a list \<Rightarrow> 'a list list" where
  "groups k 0 xs = []"
| "groups k (Suc n) xs = take k xs # groups k n (drop k xs)"

definition roundKeys :: "w8 list \<Rightarrow> w8 list list" where
  "roundKeys key =
     (let nk = length key div 4; total = 4 * (nk + 7);
          ws = expandKey nk (total - nk) (groups 4 nk key)
      in map concat (groups 4 (nk + 7) ws))"

definition aesRound :: "w8 list \<Rightarrow> w8 list \<Rightarrow> w8 list" where
  "aesRound s k = xorWords (mixColumns (shiftRows (map sbox s))) k"

definition aesBlock :: "w8 list \<Rightarrow> w8 list \<Rightarrow> w8 list" where
  "aesBlock key block =
     (let ks = roundKeys key;
          s = foldl aesRound (xorWords block (hd ks)) (butlast (tl ks))
      in xorWords (shiftRows (map sbox s)) (last ks))"

section \<open>Galois counter mode\<close>

definition ghashMul :: "128 word \<Rightarrow> 128 word \<Rightarrow> 128 word" where
  "ghashMul x h =
     fst (foldl (\<lambda>(z, v) i. (if bit x (127 - i) then z XOR v else z,
                            drop_bit 1 v XOR (if bit v 0 then push_bit 120 0xE1 else 0)))
            (0, h) [0..<128])"

definition wordsNum :: "w8 list \<Rightarrow> 128 word" where
  "wordsNum bs = foldl (\<lambda>n b. push_bit 8 n OR ucast b) 0 bs"

definition numWords :: "nat \<Rightarrow> 128 word \<Rightarrow> w8 list" where
  "numWords n x = map (\<lambda>i. ucast (drop_bit (8 * (n - 1 - i)) x)) [0..<n]"

definition padBlock :: "w8 list \<Rightarrow> w8 list" where
  "padBlock b = b @ replicate (16 - length b) 0"

definition ghash :: "128 word \<Rightarrow> w8 list \<Rightarrow> 128 word" where
  "ghash h bs =
     foldl (\<lambda>y b. ghashMul (y XOR wordsNum (padBlock b)) h) 0 (groups 16 ((length bs + 15) div 16) bs)"

text \<open>The key stream starts at the counter after the one that masks the tag.\<close>

definition counterBlock :: "w8 list \<Rightarrow> nat \<Rightarrow> w8 list" where
  "counterBlock nonce i = nonce @ numWords 4 (of_nat (i mod 4294967296))"

definition keyStream :: "w8 list \<Rightarrow> w8 list \<Rightarrow> nat \<Rightarrow> w8 list" where
  "keyStream key nonce n =
     take n (concat (map (\<lambda>i. aesBlock key (counterBlock nonce (i + 2))) [0..<(n + 15) div 16]))"

definition gcmTag :: "w8 list \<Rightarrow> w8 list \<Rightarrow> w8 list \<Rightarrow> w8 list" where
  "gcmTag key nonce ct =
     (let h = wordsNum (aesBlock key (replicate 16 0));
          len = numWords 16 (of_nat (8 * length ct));
          padded = ct @ replicate ((16 - length ct mod 16) mod 16) 0
      in xorWords (aesBlock key (counterBlock nonce 1)) (numWords 16 (ghash h (padded @ len))))"

definition toWords :: "bytes \<Rightarrow> w8 list" where
  "toWords bs = map (\<lambda>c. of_nat (byteVal c)) bs"

definition fromWords :: "w8 list \<Rightarrow> bytes" where
  "fromWords ws = map (\<lambda>w. byteOf (unat w)) ws"

section \<open>The interface of \<^verbatim>\<open>cipher.AEAD\<close>\<close>

definition gcmNonceSize :: nat where "gcmNonceSize = 12"

definition gcmOverhead :: nat where "gcmOverhead = 16"

definition gcmMax :: nat where "gcmMax = (4294967296 - 2) * 16"

definition aesNewCipher :: "bytes \<Rightarrow> bytes result" where
  "aesNewCipher key =
     (if length key \<in> {16, 24, 32} then Inr key
      else Inl (errorsNew (''crypto/aes: invalid key size '' @ showNat (length key))))"

definition gcmCrypt :: "bytes \<Rightarrow> bytes \<Rightarrow> bytes \<Rightarrow> bytes" where
  "gcmCrypt key nonce data =
     fromWords (xorWords (toWords data) (keyStream (toWords key) (toWords nonce) (length data)))"

definition gcmTagOf :: "bytes \<Rightarrow> bytes \<Rightarrow> bytes \<Rightarrow> bytes" where
  "gcmTagOf key nonce ct = fromWords (gcmTag (toWords key) (toWords nonce) (toWords ct))"

text \<open>
  \<^verbatim>\<open>Seal\<close> and \<^verbatim>\<open>Open\<close> without additional data. \<^verbatim>\<open>Seal\<close>
  panics on a message over the GCM limit, which here is an error like the others.
\<close>

definition gcmSeal :: "bytes \<Rightarrow> bytes \<Rightarrow> bytes \<Rightarrow> bytes result" where
  "gcmSeal key nonce plaintext =
     (if length plaintext > gcmMax then Inl (errorsNew ''crypto/cipher: message too large for GCM'')
      else let ct = gcmCrypt key nonce plaintext in Inr (ct @ gcmTagOf key nonce ct))"

definition gcmOpen :: "bytes \<Rightarrow> bytes \<Rightarrow> bytes \<Rightarrow> bytes result" where
  "gcmOpen key nonce ciphertext =
     (let failed = Inl (errorsNew ''cipher: message authentication failed'') in
      if length ciphertext < gcmOverhead \<or> length ciphertext > gcmMax + gcmOverhead then failed
      else let n = length ciphertext - gcmOverhead; ct = take n ciphertext in
        if drop n ciphertext \<noteq> gcmTagOf key nonce ct then failed
        else Inr (gcmCrypt key nonce ct))"

section \<open>Lengths\<close>

lemma xorWords_length [simp]: "length (xorWords a b) = min (length a) (length b)"
  by (simp add: xorWords_def)

lemma groups_length [simp]: "length (groups k n xs) = n"
  by (induction n arbitrary: xs) simp_all

lemma groups_exact: "length xs = n * k \<Longrightarrow> list_all (\<lambda>g. length g = k) (groups k n xs)"
  by (induction n arbitrary: xs) simp_all

lemma groups_set: "g \<in> set (groups k n xs) \<Longrightarrow> set g \<subseteq> set xs"
  by (induction n arbitrary: xs) (auto dest: in_set_takeD in_set_dropD)

lemma nextKeyWord_length:
  assumes "list_all (\<lambda>w. length w = 4) ws" "0 < nk" "nk \<le> length ws"
  shows "length (nextKeyWord nk ws) = 4"
proof -
  have "length (ws ! (length ws - 1)) = 4" "length (ws ! (length ws - nk)) = 4"
    using assms by (auto simp: list_all_length)
  then show ?thesis by (simp add: nextKeyWord_def Let_def)
qed

lemma expandKey_words:
  assumes "list_all (\<lambda>w. length w = 4) ws" "0 < nk" "nk \<le> length ws"
  shows "list_all (\<lambda>w. length w = 4) (expandKey nk n ws) \<and> length (expandKey nk n ws) = n + length ws"
  using assms
proof (induction n arbitrary: ws)
  case (Suc n)
  then have "list_all (\<lambda>w. length w = 4) (ws @ [nextKeyWord nk ws])" by (simp add: nextKeyWord_length)
  then show ?case using Suc.IH [of "ws @ [nextKeyWord nk ws]"] Suc.prems by simp
qed simp

lemma roundKeys_last:
  assumes "length key \<in> {16, 24, 32}"
  shows "length (last (roundKeys key)) = 16"
proof -
  define nk where "nk = length key div 4"
  define ws where "ws = expandKey nk (4 * (nk + 7) - nk) (groups 4 nk key)"
  have nk: "0 < nk" "length key = nk * 4" using assms by (auto simp: nk_def)
  have "list_all (\<lambda>w. length w = 4) ws \<and> length ws = (nk + 7) * 4"
    unfolding ws_def using expandKey_words [OF groups_exact [OF nk(2)], of nk] nk by simp
  then have words: "\<forall>w \<in> set ws. length w = 4" and "length ws = (nk + 7) * 4" by (simp_all add: list_all_iff)
  then have "list_all (\<lambda>g. length g = 4) (groups 4 (nk + 7) ws)" by (blast intro: groups_exact)
  then have "length (concat g) = 16" if "g \<in> set (groups 4 (nk + 7) ws)" for g
  proof -
    have "length g = 4" "\<forall>w \<in> set g. length w = 4"
      using that \<open>list_all _ _\<close> words groups_set [OF that] by (auto simp: list_all_iff)
    then have "map length g = replicate 4 4" by (simp add: list_eq_iff_nth_eq)
    then show ?thesis by (simp add: length_concat eval_nat_numeral)
  qed
  moreover have "groups 4 (nk + 7) ws \<noteq> []" using groups_length [of 4 "nk + 7" ws] by (metis add_is_0 list.size(3) zero_neq_numeral)
  moreover have "roundKeys key = map concat (groups 4 (nk + 7) ws)"
    unfolding roundKeys_def Let_def nk_def ws_def ..
  ultimately show ?thesis by (simp add: last_map)
qed

lemma aesBlock_length:
  "length key \<in> {16, 24, 32} \<Longrightarrow> length (aesBlock key block) = 16"
  using roundKeys_last by (simp add: aesBlock_def shiftRows_def Let_def)

lemma keyStream_length:
  assumes "length key \<in> {16, 24, 32}"
  shows "length (keyStream key nonce n) = n"
proof -
  have "n \<le> 16 * ((n + 15) div 16)" by simp
  then show ?thesis
    using aesBlock_length [OF assms]
    by (simp add: keyStream_def length_concat comp_def sum_list_triv min_def)
qed

section \<open>What is sealed opens again\<close>

lemma words_lengths [simp]: "length (toWords bs) = length bs" "length (fromWords ws) = length ws"
  by (simp_all add: toWords_def fromWords_def)

lemma toWords_fromWords [simp]: "toWords (fromWords ws) = ws"
proof -
  have "byteVal (byteOf (unat w)) = unat w" for w :: w8
    using unsigned_less [of w, where ?'a = nat] by (simp add: byteVal_byteOf)
  then show ?thesis by (simp add: toWords_def fromWords_def comp_def)
qed

lemma fromWords_toWords [simp]: "fromWords (toWords bs) = bs"
  by (induction bs) (simp_all add: toWords_def fromWords_def unat_of_nat take_bit_eq_mod)

lemma xorWords_cancel: "length b = length a \<Longrightarrow> xorWords (xorWords a b) b = a"
  by (simp add: xorWords_def list_eq_iff_nth_eq xor.assoc)

lemma gcmCrypt_length:
  "length key \<in> {16, 24, 32} \<Longrightarrow> length (gcmCrypt key nonce d) = length d"
  by (simp add: gcmCrypt_def keyStream_length)

lemma gcmCrypt_gcmCrypt:
  "length key \<in> {16, 24, 32} \<Longrightarrow> gcmCrypt key nonce (gcmCrypt key nonce d) = d"
  by (simp add: gcmCrypt_def keyStream_length xorWords_cancel)

lemma gcmTagOf_length:
  "length key \<in> {16, 24, 32} \<Longrightarrow> length (gcmTagOf key nonce ct) = gcmOverhead"
  by (simp add: gcmTagOf_def gcmTag_def gcmOverhead_def aesBlock_length numWords_def Let_def)

lemma gcmOpen_gcmSeal [go_codec]:
  assumes "length key \<in> {16, 24, 32}" and "gcmSeal key nonce plaintext = Inr ct"
  shows "gcmOpen key nonce ct = Inr plaintext"
proof -
  note l = gcmCrypt_length [OF assms(1), of nonce plaintext] gcmTagOf_length [OF assms(1)]
  have "length plaintext \<le> gcmMax"
    and ct: "ct = gcmCrypt key nonce plaintext @ gcmTagOf key nonce (gcmCrypt key nonce plaintext)"
    using assms(2) by (simp_all add: gcmSeal_def Let_def split: if_splits)
  then show ?thesis using l by (simp add: gcmOpen_def Let_def gcmCrypt_gcmCrypt [OF assms(1)])
qed

text \<open>Only what was sealed under the same key and nonce opens.\<close>

lemma gcmOpen_Inr:
  assumes "gcmOpen key nonce ct = Inr pt" and "length key \<in> {16, 24, 32}"
  shows "gcmSeal key nonce pt = Inr ct"
proof -
  let ?n = "length ct - gcmOverhead"
  have o: "gcmOverhead \<le> length ct" "length ct \<le> gcmMax + gcmOverhead"
    "drop ?n ct = gcmTagOf key nonce (take ?n ct)" "pt = gcmCrypt key nonce (take ?n ct)"
    using assms(1) by (auto simp: gcmOpen_def Let_def split: if_splits)
  then have "length pt \<le> gcmMax" by (simp add: gcmCrypt_length [OF assms(2)])
  then show ?thesis
    using o(3) append_take_drop_id [of ?n ct] by (simp add: gcmSeal_def Let_def o(4) gcmCrypt_gcmCrypt [OF assms(2)])
qed

end
