(* ===== verification/Kms.thy ===== *)
theory Kms
  imports HostIO AesGcm Cipher
begin

text \<open>
  \<^verbatim>\<open>internal/kms\<close> without Vault, and the key material of
  \<^verbatim>\<open>internal/crypto\<close>: generation and serialisation of data encryption keys
  (\<^verbatim>\<open>keyset.go\<close>, \<^verbatim>\<open>dek.go\<close>), the \<^verbatim>\<open>KMS\<close> interface
  (\<^verbatim>\<open>kms.go\<close>), its static implementation (\<^verbatim>\<open>static.go\<close>) and the
  envelope scheme on top (\<^verbatim>\<open>envelope.go\<close>).

  Tink's key handles are third-party code: a record of functions over an abstract handle
  type. What the code relies on is \<open>lawfulTink\<close>.
\<close>

section \<open>Data encryption keys\<close>

record ('w, 'h) tink =
  tkNewHandle :: "string \<Rightarrow> ('w, 'h) io"
  tkWrite :: "'h \<Rightarrow> bytes result"
  tkRead :: "bytes \<Rightarrow> 'h result"
  tkAEAD :: "'h \<Rightarrow> tinkAEAD result"
  tkDAEAD :: "'h \<Rightarrow> tinkDAEAD result"

definition AESSIVKeyTemplate :: string where "AESSIVKeyTemplate = ''AES-SIV''"
definition AES256GCMKeyTemplate :: string where "AES256GCMKeyTemplate = ''AES256-GCM''"

text \<open>
  A serialised keyset reads back as the same keyset, and every primitive built from a
  keyset decrypts what it encrypts.
\<close>

definition lawfulTink :: "('w, 'h) tink \<Rightarrow> bool" where
  "lawfulTink T \<longleftrightarrow>
     (\<forall>h b. tkWrite T h = Inr b \<longrightarrow> tkRead T b = Inr h)
     \<and> (\<forall>h a. tkAEAD T h = Inr a \<longrightarrow> lawfulAEAD a)
     \<and> (\<forall>h d. tkDAEAD T h = Inr d \<longrightarrow> lawfulDAEAD d)"

definition GenerateDEK :: "('w, 'h) tink \<Rightarrow> Scheme \<Rightarrow> ('w, 'h) io" where
  "GenerateDEK T scheme =
     (if scheme = SchemeDeterministic then tkNewHandle T AESSIVKeyTemplate
      else if scheme = SchemeNonDeterministic then tkNewHandle T AES256GCMKeyTemplate
      else failIO (wrapErr [] ErrUnknownScheme ('': '' @ showNat (unat scheme))))"

definition MarshalDEK :: "('w, 'h) tink \<Rightarrow> 'h \<Rightarrow> bytes result" where
  "MarshalDEK T h =
     (case tkWrite T h of Inl err \<Rightarrow> Inl (wrapErr ''crypto: marshal DEK: '' err []) | Inr b \<Rightarrow> Inr b)"

definition UnmarshalDEK :: "('w, 'h) tink \<Rightarrow> bytes \<Rightarrow> 'h result" where
  "UnmarshalDEK T b =
     (case tkRead T b of Inl err \<Rightarrow> Inl (wrapErr ''crypto: unmarshal DEK: '' err []) | Inr h \<Rightarrow> Inr h)"

definition NewNonDeterministicAEAD :: "('w, 'h) tink \<Rightarrow> 'h \<Rightarrow> Primitive result" where
  "NewNonDeterministicAEAD T h =
     (case tkAEAD T h of
        Inl err \<Rightarrow> Inl (wrapErr ''crypto: build AES-GCM primitive: '' err [])
      | Inr a \<Rightarrow> Inr (NonDeterministicAEAD a))"

definition NewDeterministicAEAD :: "('w, 'h) tink \<Rightarrow> 'h \<Rightarrow> Primitive result" where
  "NewDeterministicAEAD T h =
     (case tkDAEAD T h of
        Inl err \<Rightarrow> Inl (wrapErr ''crypto: build AES-SIV primitive: '' err [])
      | Inr d \<Rightarrow> Inr (DeterministicAEAD d))"

definition GenerateBlindIndexKey :: "(nat \<Rightarrow> ('w, bytes) io) \<Rightarrow> ('w, bytes) io" where
  "GenerateBlindIndexKey rand = rand BlindIndexKeyBytes"

section \<open>The KMS interface\<close>

record 'w KMS =
  kmsWrap :: "bytes \<Rightarrow> ('w, bytes) io"
  kmsUnwrap :: "bytes \<Rightarrow> ('w, bytes) io"

text \<open>
  What the interface promises: a call may fail at any time, but an unwrapped key is the one
  that was wrapped, whatever happened in between, and a wrapped key is never empty.
\<close>

definition wrapsTo :: "'w KMS \<Rightarrow> bytes \<Rightarrow> bytes \<Rightarrow> bool" where
  "wrapsTo k pt ct \<longleftrightarrow> (\<exists>w. fst (kmsWrap k pt w) = Inr ct)"

definition unwrapsTo :: "'w KMS \<Rightarrow> bytes \<Rightarrow> bytes \<Rightarrow> bool" where
  "unwrapsTo k ct pt \<longleftrightarrow> (\<exists>w. fst (kmsUnwrap k ct w) = Inr pt)"

definition faithfulKMS :: "'w KMS \<Rightarrow> bool" where
  "faithfulKMS k \<longleftrightarrow>
     (\<forall>pt ct. wrapsTo k pt ct \<longrightarrow> ct \<noteq> [] \<and> (\<forall>pt'. unwrapsTo k ct pt' \<longrightarrow> pt' = pt))"

lemma wrapsToI: "kmsWrap k pt w = (Inr ct, w') \<Longrightarrow> wrapsTo k pt ct"
  by (auto simp: wrapsTo_def intro: exI [of _ w])

lemma unwrapsToI: "kmsUnwrap k ct w = (Inr pt, w') \<Longrightarrow> unwrapsTo k ct pt"
  by (auto simp: unwrapsTo_def intro: exI [of _ w])

section \<open>The static KMS\<close>

definition kekSize :: nat where "kekSize = 32"

definition ErrInvalidKEKSize :: goerror where
  "ErrInvalidKEKSize = errorsNew (''kms: KEK must be '' @ showNat kekSize @ '' bytes (AES-256)'')"

text \<open>The AEAD object is determined by the key it was built from.\<close>

record StaticKMS =
  skGCM :: bytes

definition NewStaticKMS :: "bytes \<Rightarrow> StaticKMS result" where
  "NewStaticKMS kek =
     (if length kek \<noteq> kekSize then Inl ErrInvalidKEKSize
      else (case aesNewCipher kek of
              Inl err \<Rightarrow> Inl (wrapErr ''kms: new cipher: '' err [])
            | Inr block \<Rightarrow> Inr \<lparr>skGCM = block\<rparr>))"

definition StaticWrap :: "(nat \<Rightarrow> ('w, bytes) io) \<Rightarrow> StaticKMS \<Rightarrow> bytes \<Rightarrow> ('w, bytes) io" where
  "StaticWrap rand k plaintextDEK =
     bindIO (contextIO ''kms: read nonce: '' (rand gcmNonceSize)) (\<lambda>nonce.
     bindIO (liftIO (gcmSeal (skGCM k) nonce plaintextDEK)) (\<lambda>sealed.
     returnIO (nonce @ sealed)))"

definition StaticUnwrap :: "StaticKMS \<Rightarrow> bytes \<Rightarrow> ('w, bytes) io" where
  "StaticUnwrap k wrappedDEK =
     (if length wrappedDEK < gcmNonceSize then failIO (errorsNew ''kms: wrapped DEK is too short'')
      else contextIO ''kms: unwrap: ''
        (liftIO (gcmOpen (skGCM k) (take gcmNonceSize wrappedDEK) (drop gcmNonceSize wrappedDEK))))"

definition GenerateKEK :: "(nat \<Rightarrow> ('w, bytes) io) \<Rightarrow> ('w, bytes) io" where
  "GenerateKEK rand = contextIO ''kms: generate KEK: '' (rand kekSize)"

definition staticKMS :: "(nat \<Rightarrow> ('w, bytes) io) \<Rightarrow> StaticKMS \<Rightarrow> 'w KMS" where
  "staticKMS rand k = \<lparr>kmsWrap = StaticWrap rand k, kmsUnwrap = StaticUnwrap k\<rparr>"

section \<open>Envelope encryption\<close>

record DEKSet =
  dsKeyVersion :: "32 word"
  dsDeterministic :: bytes
  dsNonDeterministic :: bytes
  dsBlindIndexKey :: bytes

definition wrapFreshDEK :: "('w, 'h) tink \<Rightarrow> 'w KMS \<Rightarrow> Scheme \<Rightarrow> ('w, bytes) io" where
  "wrapFreshDEK T k scheme =
     bindIO (GenerateDEK T scheme) (\<lambda>h.
     bindIO (liftIO (MarshalDEK T h)) (\<lambda>raw.
     kmsWrap k raw))"

definition GenerateDEKSet ::
  "('w, 'h) tink \<Rightarrow> (nat \<Rightarrow> ('w, bytes) io) \<Rightarrow> 'w KMS \<Rightarrow> 32 word \<Rightarrow> ('w, DEKSet) io" where
  "GenerateDEKSet T rand k kv =
     bindIO (wrapFreshDEK T k SchemeDeterministic) (\<lambda>det.
     bindIO (wrapFreshDEK T k SchemeNonDeterministic) (\<lambda>nondet.
     bindIO (GenerateBlindIndexKey rand) (\<lambda>indexKey.
     bindIO (kmsWrap k indexKey) (\<lambda>wrappedIndex.
     returnIO \<lparr>dsKeyVersion = kv, dsDeterministic = det, dsNonDeterministic = nondet,
               dsBlindIndexKey = wrappedIndex\<rparr>))))"

definition openDeterministic :: "('w, 'h) tink \<Rightarrow> 'w KMS \<Rightarrow> bytes \<Rightarrow> ('w, Primitive) io" where
  "openDeterministic T k wrapped =
     bindIO (kmsUnwrap k wrapped) (\<lambda>raw.
     bindIO (contextIO ''kms: open deterministic DEK: '' (liftIO (UnmarshalDEK T raw))) (\<lambda>h.
     liftIO (NewDeterministicAEAD T h)))"

definition openNonDeterministic :: "('w, 'h) tink \<Rightarrow> 'w KMS \<Rightarrow> bytes \<Rightarrow> ('w, Primitive) io" where
  "openNonDeterministic T k wrapped =
     bindIO (kmsUnwrap k wrapped) (\<lambda>raw.
     bindIO (contextIO ''kms: open non-deterministic DEK: '' (liftIO (UnmarshalDEK T raw))) (\<lambda>h.
     liftIO (NewNonDeterministicAEAD T h)))"

definition OpenCipher :: "('w, 'h) tink \<Rightarrow> 'w KMS \<Rightarrow> DEKSet \<Rightarrow> ('w, Cipher) io" where
  "OpenCipher T k st =
     bindIO (openDeterministic T k (dsDeterministic st)) (\<lambda>det.
     bindIO (openNonDeterministic T k (dsNonDeterministic st)) (\<lambda>nondet.
     bindIO (if dsBlindIndexKey st \<noteq> []
             then bindIO (contextIO ''kms: open blind-index key: '' (kmsUnwrap k (dsBlindIndexKey st))) (\<lambda>raw.
                  returnIO (Some (NewBlindIndex raw)))
             else returnIO None) (\<lambda>index.
     liftIO (NewCipher (dsKeyVersion st) index [Some det, Some nondet]))))"

definition rewrapDEK :: "'w KMS \<Rightarrow> 'w KMS \<Rightarrow> bytes \<Rightarrow> ('w, bytes) io" where
  "rewrapDEK old new wrapped =
     bindIO (contextIO ''kms: unwrap under old KEK: '' (kmsUnwrap old wrapped)) (\<lambda>raw.
     kmsWrap new raw)"

definition RotateKEK :: "'w KMS \<Rightarrow> 'w KMS \<Rightarrow> DEKSet \<Rightarrow> ('w, DEKSet) io" where
  "RotateKEK old new st =
     bindIO (rewrapDEK old new (dsDeterministic st)) (\<lambda>det.
     bindIO (rewrapDEK old new (dsNonDeterministic st)) (\<lambda>nondet.
     returnIO \<lparr>dsKeyVersion = dsKeyVersion st, dsDeterministic = det, dsNonDeterministic = nondet,
               dsBlindIndexKey = []\<rparr>))"

section \<open>What the operations return\<close>

text \<open>The cipher that a pair of raw keys and an optional index key determine.\<close>

definition cipherOf ::
  "('w, 'h) tink \<Rightarrow> 32 word \<Rightarrow> bytes \<Rightarrow> bytes \<Rightarrow> BlindIndex option \<Rightarrow> Cipher \<Rightarrow> bool" where
  "cipherOf T kv det nondet index c \<longleftrightarrow>
     (\<exists>hd hn d a. tkRead T det = Inr hd \<and> tkRead T nondet = Inr hn \<and> tkDAEAD T hd = Inr d \<and> tkAEAD T hn = Inr a
        \<and> c = \<lparr>primitives = [SchemeDeterministic \<mapsto> DeterministicAEAD d, SchemeNonDeterministic \<mapsto> NonDeterministicAEAD a],
               cipherIndex = index, keyVersion = kv\<rparr>)"

lemma NewCipher_pair:
  "NewCipher kv index [Some (DeterministicAEAD d), Some (NonDeterministicAEAD a)] =
     Inr \<lparr>primitives = [SchemeDeterministic \<mapsto> DeterministicAEAD d, SchemeNonDeterministic \<mapsto> NonDeterministicAEAD a],
          cipherIndex = index, keyVersion = kv\<rparr>"
  by (simp add: NewCipher_def siv.build_scheme gcm.build_scheme SchemeDeterministic_def SchemeNonDeterministic_def)

lemma tink_Inr:
  "MarshalDEK T h = Inr raw \<longleftrightarrow> tkWrite T h = Inr raw"
  "UnmarshalDEK T raw = Inr h \<longleftrightarrow> tkRead T raw = Inr h"
  "NewDeterministicAEAD T h = Inr p \<longleftrightarrow> (\<exists>d. tkDAEAD T h = Inr d \<and> p = DeterministicAEAD d)"
  "NewNonDeterministicAEAD T h = Inr p \<longleftrightarrow> (\<exists>a. tkAEAD T h = Inr a \<and> p = NonDeterministicAEAD a)"
  by (auto simp: MarshalDEK_def UnmarshalDEK_def NewDeterministicAEAD_def NewNonDeterministicAEAD_def split: sum.splits)

lemma open_primitives:
  "openDeterministic T k ct w = (Inr p, w') \<Longrightarrow>
     \<exists>raw h d. unwrapsTo k ct raw \<and> tkRead T raw = Inr h \<and> tkDAEAD T h = Inr d \<and> p = DeterministicAEAD d"
  "openNonDeterministic T k ct w = (Inr p, w') \<Longrightarrow>
     \<exists>raw h a. unwrapsTo k ct raw \<and> tkRead T raw = Inr h \<and> tkAEAD T h = Inr a \<and> p = NonDeterministicAEAD a"
  unfolding openDeterministic_def openNonDeterministic_def io_Inr tink_Inr by (blast dest: unwrapsToI)+

lemma OpenCipher_Inr:
  assumes "fst (OpenCipher T k st w) = Inr c"
  shows "\<exists>det nondet index. unwrapsTo k (dsDeterministic st) det \<and> unwrapsTo k (dsNonDeterministic st) nondet
     \<and> (if dsBlindIndexKey st = [] then index = None
        else \<exists>raw. unwrapsTo k (dsBlindIndexKey st) raw \<and> index = Some (NewBlindIndex raw))
     \<and> cipherOf T (dsKeyVersion st) det nondet index c"
proof -
  from assms obtain det w1 nondet w2 index w3 where
    o: "openDeterministic T k (dsDeterministic st) w = (Inr det, w1)"
      "openNonDeterministic T k (dsNonDeterministic st) w1 = (Inr nondet, w2)"
    and i: "(if dsBlindIndexKey st \<noteq> []
             then bindIO (contextIO ''kms: open blind-index key: '' (kmsUnwrap k (dsBlindIndexKey st))) (\<lambda>raw.
                  returnIO (Some (NewBlindIndex raw)))
             else returnIO None) w2 = (Inr index, w3)"
    and n: "NewCipher (dsKeyVersion st) index [Some det, Some nondet] = Inr c"
    by (auto simp: OpenCipher_def fst_bindIO_Inr)
  have "if dsBlindIndexKey st = [] then index = None
        else \<exists>raw. unwrapsTo k (dsBlindIndexKey st) raw \<and> index = Some (NewBlindIndex raw)"
    using i by (auto simp: io_Inr intro: unwrapsToI split: if_splits)
  moreover obtain rd hd d where d: "unwrapsTo k (dsDeterministic st) rd" "tkRead T rd = Inr hd" "tkDAEAD T hd = Inr d"
      "det = DeterministicAEAD d"
    using open_primitives(1) [OF o(1)] by blast
  moreover obtain rn hn a where a: "unwrapsTo k (dsNonDeterministic st) rn" "tkRead T rn = Inr hn" "tkAEAD T hn = Inr a"
      "nondet = NonDeterministicAEAD a"
    using open_primitives(2) [OF o(2)] by blast
  moreover have "cipherOf T (dsKeyVersion st) rd rn index c"
    using n d a by (simp add: cipherOf_def NewCipher_pair)
  ultimately show ?thesis by blast
qed

lemma cipherOf_lawful: "lawfulTink T \<Longrightarrow> cipherOf T kv det nondet index c \<Longrightarrow> lawfulCipher c"
  using gcm.build_lawful siv.build_lawful
  by (auto simp: cipherOf_def lawfulTink_def lawfulCipher_def ran_def split: if_splits)

lemma cipherOf_index:
  "cipherOf T kv det nondet index c \<Longrightarrow> cipherOf T kv det nondet index' c' \<Longrightarrow>
   c' = c\<lparr>cipherIndex := index'\<rparr> \<and> cipherIndex c = index \<and> keyVersion c = kv"
  by (auto simp: cipherOf_def)

lemma wrapFreshDEK_Inr:
  "wrapFreshDEK T k sch w = (Inr ct, w') \<Longrightarrow>
   \<exists>h raw v v'. GenerateDEK T sch v = (Inr h, v') \<and> tkWrite T h = Inr raw \<and> wrapsTo k raw ct"
  unfolding wrapFreshDEK_def io_Inr tink_Inr by (blast dest: wrapsToI)

lemma GenerateDEKSet_Inr:
  assumes "fst (GenerateDEKSet T rand k kv w) = Inr st"
  shows "dsKeyVersion st = kv
     \<and> (\<exists>h raw v v'. GenerateDEK T SchemeDeterministic v = (Inr h, v') \<and> tkWrite T h = Inr raw
          \<and> wrapsTo k raw (dsDeterministic st))
     \<and> (\<exists>h raw v v'. GenerateDEK T SchemeNonDeterministic v = (Inr h, v') \<and> tkWrite T h = Inr raw
          \<and> wrapsTo k raw (dsNonDeterministic st))
     \<and> (\<exists>key v v'. rand BlindIndexKeyBytes v = (Inr key, v') \<and> wrapsTo k key (dsBlindIndexKey st))"
proof -
  from assms obtain det w1 nondet w2 key w3 index w4 where
    "wrapFreshDEK T k SchemeDeterministic w = (Inr det, w1)"
    "wrapFreshDEK T k SchemeNonDeterministic w1 = (Inr nondet, w2)"
    "rand BlindIndexKeyBytes w2 = (Inr key, w3)" "kmsWrap k key w3 = (Inr index, w4)"
    "st = \<lparr>dsKeyVersion = kv, dsDeterministic = det, dsNonDeterministic = nondet, dsBlindIndexKey = index\<rparr>"
    by (auto simp: GenerateDEKSet_def GenerateBlindIndexKey_def fst_bindIO_Inr)
  then show ?thesis using wrapFreshDEK_Inr wrapsToI by (metis DEKSet.select_convs)
qed

lemma RotateKEK_Inr:
  assumes "fst (RotateKEK old new st w) = Inr st'"
  shows "dsKeyVersion st' = dsKeyVersion st \<and> dsBlindIndexKey st' = []
     \<and> (\<exists>raw. unwrapsTo old (dsDeterministic st) raw \<and> wrapsTo new raw (dsDeterministic st'))
     \<and> (\<exists>raw. unwrapsTo old (dsNonDeterministic st) raw \<and> wrapsTo new raw (dsNonDeterministic st'))"
  using assms by (fastforce simp: RotateKEK_def rewrapDEK_def fst_bindIO_Inr io_Inr intro: wrapsToI unwrapsToI)

section \<open>Providers\<close>

text \<open>
  The interface between the envelope scheme and a kind of KMS: lawful building material
  gives a KMS that keeps the promise of the interface.
\<close>

locale kms_provider =
  fixes build :: "'t \<Rightarrow> 'w KMS" and lawful :: "'t \<Rightarrow> bool"
  assumes build_faithful: "lawful t \<Longrightarrow> faithfulKMS (build t)"
begin

lemma unwrap_wrap:
  "lawful t \<Longrightarrow> wrapsTo (build t) pt ct \<Longrightarrow> unwrapsTo (build t) ct pt' \<Longrightarrow> pt' = pt"
  using build_faithful by (auto simp: faithfulKMS_def)

lemma wrapped_not_Nil: "lawful t \<Longrightarrow> wrapsTo (build t) pt ct \<Longrightarrow> ct \<noteq> []"
  using build_faithful by (auto simp: faithfulKMS_def)

lemma opens_as:
  assumes "lawful t" and "wrapsTo (build t) det (dsDeterministic st)"
    and "wrapsTo (build t) nondet (dsNonDeterministic st)"
    and "dsBlindIndexKey st = [] \<or> wrapsTo (build t) key (dsBlindIndexKey st)"
    and "fst (OpenCipher T (build t) st v) = Inr c"
  shows "cipherOf T (dsKeyVersion st) det nondet (if dsBlindIndexKey st = [] then None else Some (NewBlindIndex key)) c"
proof -
  obtain det' nondet' index where o: "unwrapsTo (build t) (dsDeterministic st) det'"
      "unwrapsTo (build t) (dsNonDeterministic st) nondet'" "cipherOf T (dsKeyVersion st) det' nondet' index c"
    and i: "if dsBlindIndexKey st = [] then index = None
        else \<exists>raw. unwrapsTo (build t) (dsBlindIndexKey st) raw \<and> index = Some (NewBlindIndex raw)"
    using OpenCipher_Inr [OF assms(5)] by blast
  have "det' = det" "nondet' = nondet" using unwrap_wrap [OF assms(1)] assms(2,3) o(1,2) by blast+
  moreover have "index = (if dsBlindIndexKey st = [] then None else Some (NewBlindIndex key))"
    using i assms(4) unwrap_wrap [OF assms(1)] by (auto split: if_splits)
  ultimately show ?thesis using o(3) by simp
qed

text \<open>Every opening of a generated set yields the cipher of the generated keys.\<close>

lemma generated_opens:
  assumes "lawful t" and "lawfulTink T" and "fst (GenerateDEKSet T rand (build t) kv w) = Inr st"
  shows "\<exists>det nondet key. \<forall>v c. fst (OpenCipher T (build t) st v) = Inr c \<longrightarrow>
     cipherOf T kv det nondet (Some (NewBlindIndex key)) c"
proof -
  obtain det nondet key where g: "dsKeyVersion st = kv" "wrapsTo (build t) det (dsDeterministic st)"
    "wrapsTo (build t) nondet (dsNonDeterministic st)" "wrapsTo (build t) key (dsBlindIndexKey st)"
    using GenerateDEKSet_Inr [OF assms(3)] by blast
  have "cipherOf T kv det nondet (Some (NewBlindIndex key)) c" if "fst (OpenCipher T (build t) st v) = Inr c" for v c
    using opens_as [OF assms(1) g(2,3) disjI2 [OF g(4)] that] wrapped_not_Nil [OF assms(1) g(4)] g(1) by simp
  then show ?thesis by blast
qed

lemma generated_opens_same:
  assumes "lawful t" and "lawfulTink T" and "fst (GenerateDEKSet T rand (build t) kv w) = Inr st"
    and "fst (OpenCipher T (build t) st v) = Inr c" and "fst (OpenCipher T (build t) st v') = Inr c'"
  shows "c' = c \<and> lawfulCipher c \<and> keyVersion c = kv \<and> cipherIndex c \<noteq> None"
proof -
  obtain det nondet key where
    o: "cipherOf T kv det nondet (Some (NewBlindIndex key)) c" "cipherOf T kv det nondet (Some (NewBlindIndex key)) c'"
    using generated_opens [OF assms(1-3)] assms(4,5) by blast
  then show ?thesis using cipherOf_index [OF o] cipherOf_lawful [OF assms(2) o(1)] by auto
qed

end

locale kms_rotation = old: kms_provider buildOld lawfulOld + new: kms_provider buildNew lawfulNew
  for buildOld :: "'o \<Rightarrow> 'w KMS" and lawfulOld and buildNew :: "'n \<Rightarrow> 'w KMS" and lawfulNew
begin

text \<open>A rotated set opens to the old cipher, less its blind index.\<close>

lemma rotated_opens:
  assumes "lawfulOld s" "lawfulNew t" and "lawfulTink T"
    and "fst (GenerateDEKSet T rand (buildOld s) kv w) = Inr st"
    and "fst (RotateKEK (buildOld s) (buildNew t) st v) = Inr st'"
    and "fst (OpenCipher T (buildOld s) st u) = Inr c" and "fst (OpenCipher T (buildNew t) st' u') = Inr c'"
  shows "c' = c\<lparr>cipherIndex := None\<rparr>"
proof -
  obtain det nondet key where g: "dsKeyVersion st = kv" "wrapsTo (buildOld s) det (dsDeterministic st)"
    "wrapsTo (buildOld s) nondet (dsNonDeterministic st)" "wrapsTo (buildOld s) key (dsBlindIndexKey st)"
    using GenerateDEKSet_Inr [OF assms(4)] by blast
  have r: "dsKeyVersion st' = kv" "dsBlindIndexKey st' = []" "wrapsTo (buildNew t) det (dsDeterministic st')"
    "wrapsTo (buildNew t) nondet (dsNonDeterministic st')"
    using RotateKEK_Inr [OF assms(5)] g old.unwrap_wrap [OF assms(1)] by metis+
  have "cipherOf T kv det nondet (Some (NewBlindIndex key)) c"
    using old.opens_as [OF assms(1) g(2,3) disjI2 [OF g(4)] assms(6)] old.wrapped_not_Nil [OF assms(1) g(4)] g(1) by simp
  moreover have "cipherOf T kv det nondet None c'"
    using new.opens_as [OF assms(2) r(3,4) disjI1 [OF r(2)] assms(7)] r by simp
  ultimately show ?thesis by (blast dest: cipherOf_index)
qed

end

definition lawfulStatic :: "(nat \<Rightarrow> ('w, bytes) io) \<times> StaticKMS \<Rightarrow> bool" where
  "lawfulStatic rk \<longleftrightarrow> fullReads (fst rk) \<and> length (skGCM (snd rk)) = kekSize"

lemma NewStaticKMS_Inr: "NewStaticKMS kek = Inr k \<longleftrightarrow> length kek = kekSize \<and> k = \<lparr>skGCM = kek\<rparr>"
  by (auto simp: NewStaticKMS_def aesNewCipher_def kekSize_def)

lemma StaticUnwrap_StaticWrap:
  assumes "fullReads rand" "length (skGCM k) = kekSize" "fst (StaticWrap rand k pt w) = Inr ct"
  shows "fst (StaticUnwrap k ct v) = Inr pt" "gcmNonceSize \<le> length ct"
proof -
  obtain nonce w1 ct' where n: "rand gcmNonceSize w = (Inr nonce, w1)" "gcmSeal (skGCM k) nonce pt = Inr ct'"
    "ct = nonce @ ct'"
    using assms(3) by (auto simp: StaticWrap_def fst_bindIO_Inr io_Inr)
  have l: "length nonce = gcmNonceSize" by (rule fullReadsD [OF assms(1) n(1)])
  then show "gcmNonceSize \<le> length ct" by (simp add: n(3))
  have "gcmOpen (skGCM k) nonce ct' = Inr pt"
    using gcmOpen_gcmSeal [OF _ n(2)] assms(2) by (simp add: kekSize_def)
  then show "fst (StaticUnwrap k ct v) = Inr pt" using l by (simp add: StaticUnwrap_def n(3) fst_contextIO_Inr)
qed

lemma static_faithful:
  fixes rk :: "(nat \<Rightarrow> ('w, bytes) io) \<times> StaticKMS"
  assumes "lawfulStatic rk"
  shows "faithfulKMS (staticKMS (fst rk) (snd rk))"
  unfolding faithfulKMS_def wrapsTo_def unwrapsTo_def staticKMS_def
proof (clarsimp, intro conjI allI impI)
  fix pt ct w
  assume w: "fst (StaticWrap (fst rk) (snd rk) pt w) = Inr ct"
  note r = StaticUnwrap_StaticWrap [OF assms [unfolded lawfulStatic_def, THEN conjunct1]
      assms [unfolded lawfulStatic_def, THEN conjunct2] w]
  show "ct \<noteq> []" using r(2) by (auto simp: gcmNonceSize_def)
  fix pt'
  assume "\<exists>v::'w. fst (StaticUnwrap (snd rk) ct v) = Inr pt'"
  then obtain v :: 'w where "fst (StaticUnwrap (snd rk) ct v) = Inr pt'" by blast
  then show "pt' = pt" using r(1) [of v] by simp
qed

interpretation static: kms_provider "\<lambda>rk. staticKMS (fst rk) (snd rk)" lawfulStatic
  by unfold_locales (rule static_faithful)

interpretation static_rotation: kms_rotation "\<lambda>rk. staticKMS (fst rk) (snd rk)" lawfulStatic
    "\<lambda>rk. staticKMS (fst rk) (snd rk)" lawfulStatic
  by unfold_locales

end
