(* ===== verification/KmsProps.thy ===== *)
theory KmsProps
  imports Kms Example
begin

text \<open>
  The properties of the key hierarchy: a wrapped key unwraps, a generated key set opens
  after every restart to the same cipher, and rotating the key encryption key changes
  nothing for the stored ciphertexts. The random source and Tink's handles are instantiated
  for the witnesses by constant functions that meet the laws.
\<close>

section \<open>Opening never fails\<close>

text \<open>The key templates the program asks for give keys of the right kind.\<close>

definition templatesFit :: "('w, 'h) tink \<Rightarrow> bool" where
  "templatesFit T \<longleftrightarrow>
     (\<forall>h w. fst (tkNewHandle T AESSIVKeyTemplate w) = Inr h \<longrightarrow> (\<exists>d. tkDAEAD T h = Inr d))
     \<and> (\<forall>h w. fst (tkNewHandle T AES256GCMKeyTemplate w) = Inr h \<longrightarrow> (\<exists>a. tkAEAD T h = Inr a))"

lemma GenerateDEK_fits:
  assumes "templatesFit T"
  shows "GenerateDEK T SchemeDeterministic w = (Inr h, w') \<Longrightarrow> \<exists>d. tkDAEAD T h = Inr d"
    and "GenerateDEK T SchemeNonDeterministic w = (Inr h, w') \<Longrightarrow> \<exists>a. tkAEAD T h = Inr a"
proof -
  have "GenerateDEK T SchemeDeterministic = tkNewHandle T AESSIVKeyTemplate"
    "GenerateDEK T SchemeNonDeterministic = tkNewHandle T AES256GCMKeyTemplate"
    by (simp_all add: GenerateDEK_def SchemeDeterministic_def SchemeNonDeterministic_def)
  then show "GenerateDEK T SchemeDeterministic w = (Inr h, w') \<Longrightarrow> \<exists>d. tkDAEAD T h = Inr d"
    and "GenerateDEK T SchemeNonDeterministic w = (Inr h, w') \<Longrightarrow> \<exists>a. tkAEAD T h = Inr a"
    using assms unfolding templatesFit_def by (metis fst_conv)+
qed

lemma fst_step: "fst p = Inr a \<Longrightarrow> \<exists>w'. p = (Inr a, w')"
  by (cases p) auto

text \<open>The index step of \<^verbatim>\<open>OpenCipher\<close>.\<close>

definition openIndex :: "'w KMS \<Rightarrow> DEKSet \<Rightarrow> ('w, BlindIndex option) io" where
  "openIndex k st =
     (if dsBlindIndexKey st \<noteq> []
      then bindIO (contextIO ''kms: open blind-index key: '' (kmsUnwrap k (dsBlindIndexKey st))) (\<lambda>raw.
           returnIO (Some (NewBlindIndex raw)))
      else returnIO None)"

lemma OpenCipher_opens:
  assumes "\<And>v. fst (kmsUnwrap k (dsDeterministic st) v) = Inr rd" "tkRead T rd = Inr h" "tkDAEAD T h = Inr d"
    and "\<And>v. fst (kmsUnwrap k (dsNonDeterministic st) v) = Inr rn" "tkRead T rn = Inr hn" "tkAEAD T hn = Inr a"
    and "\<And>v. dsBlindIndexKey st = [] \<or> fst (kmsUnwrap k (dsBlindIndexKey st) v) = Inr ri"
  shows "\<exists>c. fst (OpenCipher T k st v) = Inr c"
proof -
  have d: "\<exists>w'. openDeterministic T k (dsDeterministic st) w = (Inr (DeterministicAEAD d), w')" for w
    using fst_step [OF assms(1) [of w]] assms(2,3)
    by (auto simp: openDeterministic_def io_Inr UnmarshalDEK_def NewDeterministicAEAD_def)
  have n: "\<exists>w'. openNonDeterministic T k (dsNonDeterministic st) w = (Inr (NonDeterministicAEAD a), w')" for w
    using fst_step [OF assms(4) [of w]] assms(5,6)
    by (auto simp: openNonDeterministic_def io_Inr UnmarshalDEK_def NewNonDeterministicAEAD_def)
  have i: "\<exists>index w'. openIndex k st w = (Inr index, w')" for w
    using assms(7) [of w] fst_step [of "kmsUnwrap k (dsBlindIndexKey st) w" ri]
    by (auto simp: openIndex_def bindIO_def contextIO_def)
  obtain w1 w2 index w3 where "openDeterministic T k (dsDeterministic st) v = (Inr (DeterministicAEAD d), w1)"
    "openNonDeterministic T k (dsNonDeterministic st) w1 = (Inr (NonDeterministicAEAD a), w2)"
    "openIndex k st w2 = (Inr index, w3)"
    using d n i by blast
  then show ?thesis
    unfolding OpenCipher_def openIndex_def [symmetric] fst_bindIO_Inr by (auto simp: NewCipher_pair)
qed

lemma static_unwraps:
  assumes "lawfulStatic (rand, k)" "wrapsTo (staticKMS rand k) pt ct"
  shows "fst (kmsUnwrap (staticKMS rand k) ct v) = Inr pt"
  using assms StaticUnwrap_StaticWrap(1) by (fastforce simp: lawfulStatic_def wrapsTo_def staticKMS_def)

text \<open>What is known of a generated set: the raw keys behind it, and that they can be used.\<close>

lemma generated_keys:
  assumes "lawfulTink T" and "templatesFit T" and "fst (GenerateDEKSet T rand k kv w) = Inr st"
  obtains rd h d rn hn a ri where
    "wrapsTo k rd (dsDeterministic st)" "tkRead T rd = Inr h" "tkDAEAD T h = Inr d"
    "wrapsTo k rn (dsNonDeterministic st)" "tkRead T rn = Inr hn" "tkAEAD T hn = Inr a"
    "wrapsTo k ri (dsBlindIndexKey st)"
proof -
  note g = GenerateDEKSet_Inr [OF assms(3)]
  obtain h rd where "tkWrite T h = Inr rd" "wrapsTo k rd (dsDeterministic st)" "\<exists>d. tkDAEAD T h = Inr d"
    using g GenerateDEK_fits(1) [OF assms(2)] by blast
  moreover obtain hn rn where "tkWrite T hn = Inr rn" "wrapsTo k rn (dsNonDeterministic st)" "\<exists>a. tkAEAD T hn = Inr a"
    using g GenerateDEK_fits(2) [OF assms(2)] by blast
  moreover obtain ri where "wrapsTo k ri (dsBlindIndexKey st)" using g by blast
  ultimately show thesis using assms(1) that by (auto simp: lawfulTink_def)
qed

lemma static_set_opens:
  assumes "lawfulStatic (rand, k)" and "lawfulTink T" and "templatesFit T"
    and "fst (GenerateDEKSet T rand (staticKMS rand k) kv w) = Inr st"
  shows "\<exists>c. fst (OpenCipher T (staticKMS rand k) st v) = Inr c"
  by (rule generated_keys [OF assms(2-4)])
    (rule OpenCipher_opens [OF static_unwraps [OF assms(1)] _ _ static_unwraps [OF assms(1)] _ _
        disjI2 [OF static_unwraps [OF assms(1)]]])

lemma static_rotated_opens:
  assumes "lawfulStatic (rand, old)" and "lawfulStatic (rand, new)" and "lawfulTink T" and "templatesFit T"
    and "fst (GenerateDEKSet T rand (staticKMS rand old) kv w) = Inr st"
    and "fst (RotateKEK (staticKMS rand old) (staticKMS rand new) st u) = Inr st'"
  shows "\<exists>c. fst (OpenCipher T (staticKMS rand new) st' v) = Inr c"
proof (rule generated_keys [OF assms(3-5)])
  fix rd h d rn hn a ri
  assume d: "wrapsTo (staticKMS rand old) rd (dsDeterministic st)" and h: "tkRead T rd = Inr h" "tkDAEAD T h = Inr d"
    and n: "wrapsTo (staticKMS rand old) rn (dsNonDeterministic st)" and hn: "tkRead T rn = Inr hn" "tkAEAD T hn = Inr a"
  have r: "wrapsTo (staticKMS rand new) rd (dsDeterministic st')" "wrapsTo (staticKMS rand new) rn (dsNonDeterministic st')"
    "dsBlindIndexKey st' = []"
    using RotateKEK_Inr [OF assms(6)] static.unwrap_wrap [OF assms(1)] d n by (metis fst_conv snd_conv)+
  show ?thesis
    by (rule OpenCipher_opens [OF static_unwraps [OF assms(2) r(1)] h static_unwraps [OF assms(2) r(2)] hn disjI1 [OF r(3)]])
qed

section \<open>Instances\<close>

definition exampleRand :: "nat \<Rightarrow> ('w, bytes) io" where
  "exampleRand n w = (Inr (replicate n (CHR 0x2A)), w)"

definition exampleTink :: "('w, string) tink" where
  "exampleTink =
     \<lparr>tkNewHandle = (\<lambda>template. returnIO template), tkWrite = (\<lambda>h. Inr h), tkRead = (\<lambda>b. Inr b),
      tkAEAD = (\<lambda>h. if h = AES256GCMKeyTemplate then Inr toyAEAD else Inl (errorsNew ''aead: wrong key type'')),
      tkDAEAD = (\<lambda>h. if h = AESSIVKeyTemplate then Inr toyDAEAD else Inl (errorsNew ''daead: wrong key type''))\<rparr>"

definition exampleKEK :: bytes where "exampleKEK = ''0123456789abcdef0123456789abcdef''"

definition exampleStatic :: StaticKMS where "exampleStatic = \<lparr>skGCM = exampleKEK\<rparr>"

lemma exampleRand_full: "fullReads exampleRand"
  by (auto simp: fullReads_def exampleRand_def)

lemma exampleTink_lawful: "lawfulTink exampleTink" "templatesFit exampleTink"
  using toy_lawful by (auto simp: lawfulTink_def templatesFit_def exampleTink_def split: if_splits)

lemma exampleStatic_new: "NewStaticKMS exampleKEK = Inr exampleStatic"
  by (simp add: NewStaticKMS_Inr exampleKEK_def exampleStatic_def kekSize_def)

lemma gcmSeal_short: "length pt < 1000 \<Longrightarrow> \<exists>ct. gcmSeal key nonce pt = Inr ct"
  by (simp add: gcmSeal_def gcmMax_def Let_def)

lemma static_wraps_short:
  "length pt < 1000 \<Longrightarrow> \<exists>ct w'. kmsWrap (staticKMS exampleRand k) pt w = (Inr ct, w')"
  using gcmSeal_short [of pt "skGCM k"]
  by (fastforce simp: staticKMS_def StaticWrap_def io_Inr exampleRand_def)

lemma example_wraps_fresh:
  assumes "sch = SchemeDeterministic \<or> sch = SchemeNonDeterministic"
  shows "\<exists>ct w'. wrapFreshDEK exampleTink (staticKMS exampleRand k) sch w = (Inr ct, w')"
proof -
  obtain raw where g: "GenerateDEK exampleTink sch w = (Inr raw, w)" and r: "length raw < 1000"
    using assms by (auto simp: GenerateDEK_def exampleTink_def AESSIVKeyTemplate_def AES256GCMKeyTemplate_def
        SchemeDeterministic_def SchemeNonDeterministic_def)
  have m: "MarshalDEK exampleTink raw = Inr raw" by (simp add: MarshalDEK_def exampleTink_def)
  from static_wraps_short [OF r, of k w] show ?thesis
    by (auto simp: wrapFreshDEK_def bindIO_def g m)
qed

lemma example_generates:
  fixes w :: 'w
  shows "\<exists>st. fst (GenerateDEKSet exampleTink exampleRand (staticKMS exampleRand k) kv w) = Inr st"
proof -
  obtain det w1 where 1: "wrapFreshDEK exampleTink (staticKMS exampleRand k) SchemeDeterministic w = (Inr det, w1)"
    using example_wraps_fresh [of SchemeDeterministic k w] by blast
  obtain nondet w2 where 2: "wrapFreshDEK exampleTink (staticKMS exampleRand k) SchemeNonDeterministic w1 = (Inr nondet, w2)"
    using example_wraps_fresh [of SchemeNonDeterministic k w1] by blast
  obtain key w3 where 3: "exampleRand BlindIndexKeyBytes w2 = (Inr key, w3)" "length key < 1000"
    by (simp add: exampleRand_def BlindIndexKeyBytes_def)
  obtain index w4 where 4: "kmsWrap (staticKMS exampleRand k) key w3 = (Inr index, w4)"
    using static_wraps_short [OF 3(2), of k w3] by blast
  show ?thesis by (simp add: GenerateDEKSet_def GenerateBlindIndexKey_def bindIO_def 1 2 3 4)
qed

section \<open>Properties\<close>

text \<open>
  C30. The static KMS accepts exactly the 32-byte keys, and what it wraps it unwraps: for every
  key and every plaintext, whatever nonce was drawn, unwrapping returns the plaintext; a
  wrapped key is 28 bytes longer, and anything shorter than a nonce is refused.
\<close>

theorem static_kms_roundtrip:
  assumes "NewStaticKMS kek = Inr k" and "fullReads rand" and "fst (StaticWrap rand k pt w) = Inr ct"
  shows "length kek = 32 \<and> fst (StaticUnwrap k ct v) = Inr pt \<and> length ct = length pt + 28
     \<and> (length bad < 12 \<longrightarrow> (\<exists>e. fst (StaticUnwrap k bad v) = Inl e))"
proof -
  have k: "length kek = kekSize" "skGCM k = kek" using assms(1) by (auto simp: NewStaticKMS_Inr)
  then have key: "length (skGCM k) \<in> {16, 24, 32}" by (simp add: kekSize_def)
  obtain nonce w1 ct' where n: "rand gcmNonceSize w = (Inr nonce, w1)" "gcmSeal (skGCM k) nonce pt = Inr ct'" "ct = nonce @ ct'"
    using assms(3) by (auto simp: StaticWrap_def fst_bindIO_Inr io_Inr)
  have "length ct' = length pt + 16"
    using n(2) gcmCrypt_length [OF key] gcmTagOf_length [OF key]
    by (auto simp: gcmSeal_def Let_def gcmOverhead_def split: if_splits)
  then show ?thesis
    using StaticUnwrap_StaticWrap(1) [OF assms(2) _ assms(3)] k fullReadsD [OF assms(2) n(1)]
    by (simp add: n(3) kekSize_def gcmNonceSize_def StaticUnwrap_def)
qed

theorem static_kms_roundtrip_witness:
  "\<exists>ct. fst (StaticWrap exampleRand exampleStatic ''dek'' (0::nat)) = Inr ct
     \<and> fst (StaticUnwrap exampleStatic ct ()) = Inr ''dek'' \<and> length ct = 31"
proof -
  obtain ct where w: "fst (StaticWrap exampleRand exampleStatic ''dek'' (0::nat)) = Inr ct"
    using static_wraps_short [of "''dek''" exampleStatic "0::nat"] by (auto simp: staticKMS_def)
  then show ?thesis using static_kms_roundtrip [OF exampleStatic_new exampleRand_full w, of "()" "[]"] by simp
qed

text \<open>
  A generated key set keeps opening: with the static KMS, every later opening of the set
  succeeds and yields one and the same cipher, at the requested key version, with a blind
  index, and with primitives that decrypt what they encrypt.
\<close>

lemma dek_set_opens:
  assumes "NewStaticKMS kek = Inr k" and "fullReads rand" and "lawfulTink T" and "templatesFit T"
    and "fst (GenerateDEKSet T rand (staticKMS rand k) kv w) = Inr st"
  shows "\<exists>c. (\<forall>v. fst (OpenCipher T (staticKMS rand k) st v) = Inr c)
     \<and> lawfulCipher c \<and> keyVersion c = kv \<and> CipherBlindIndex c \<noteq> None"
proof -
  have l: "lawfulStatic (rand, k)" using assms(1,2) by (auto simp: lawfulStatic_def NewStaticKMS_Inr)
  note total = static_set_opens [OF l assms(3-5)]
  then obtain c where c: "fst (OpenCipher T (staticKMS rand k) st w) = Inr c" by blast
  have same: "c' = c \<and> lawfulCipher c \<and> keyVersion c = kv \<and> cipherIndex c \<noteq> None"
    if "fst (OpenCipher T (staticKMS rand k) st v) = Inr c'" for v c'
    using static.generated_opens_same [of "(rand, k)"] l assms(3,5) c that by simp
  have "fst (OpenCipher T (staticKMS rand k) st v) = Inr c" for v using total [of v] same by auto
  then show ?thesis using same [OF c] by (auto simp: CipherBlindIndex_def)
qed

definition rotatedKEK :: bytes where "rotatedKEK = ''fedcba9876543210fedcba9876543210''"
definition rotatedStatic :: StaticKMS where "rotatedStatic = \<lparr>skGCM = rotatedKEK\<rparr>"

lemma rotatedStatic_new: "NewStaticKMS rotatedKEK = Inr rotatedStatic"
  by (simp add: NewStaticKMS_Inr rotatedKEK_def rotatedStatic_def kekSize_def)

lemma exampleStatic_lawful: "lawfulStatic (exampleRand, exampleStatic)"
  using exampleRand_full by (simp add: lawfulStatic_def exampleStatic_def exampleKEK_def kekSize_def)

lemma example_rotates:
  fixes w v :: 'w
  assumes st: "fst (GenerateDEKSet exampleTink exampleRand (staticKMS exampleRand exampleStatic) kv w) = Inr st"
  shows "\<exists>st'. fst (RotateKEK (staticKMS exampleRand exampleStatic) (staticKMS exampleRand rotatedStatic) st v) = Inr st'"
proof -
  let ?old = "staticKMS exampleRand exampleStatic :: 'w KMS" and ?new = "staticKMS exampleRand rotatedStatic :: 'w KMS"
  have rewrap: "\<exists>ct' w'. rewrapDEK ?old ?new ct v = (Inr ct', w')" if "wrapsTo ?old raw ct" "length raw < 1000" for raw ct v
    using fst_step [OF static_unwraps [OF exampleStatic_lawful that(1), of v]] static_wraps_short [OF that(2), of rotatedStatic]
    by (fastforce simp: rewrapDEK_def io_Inr)
  have short: "length raw < 1000"
    if "GenerateDEK (exampleTink :: ('w, string) tink) sch v = (Inr h, v')" "tkWrite (exampleTink :: ('w, string) tink) h = Inr raw"
    for sch h raw v v'
    using that by (auto simp: GenerateDEK_def exampleTink_def AESSIVKeyTemplate_def AES256GCMKeyTemplate_def split: if_splits)
  obtain rd where d: "wrapsTo ?old rd (dsDeterministic st)" "length rd < 1000"
    using GenerateDEKSet_Inr [OF st] short by blast
  obtain rn where n: "wrapsTo ?old rn (dsNonDeterministic st)" "length rn < 1000"
    using GenerateDEKSet_Inr [OF st] short by blast
  obtain det w1 where 1: "rewrapDEK ?old ?new (dsDeterministic st) v = (Inr det, w1)" using rewrap [OF d] by blast
  obtain nondet w2 where 2: "rewrapDEK ?old ?new (dsNonDeterministic st) w1 = (Inr nondet, w2)" using rewrap [OF n] by blast
  show ?thesis by (simp add: RotateKEK_def bindIO_def 1 2)
qed

text \<open>
  C11. Rotating the key encryption key keeps every stored ciphertext: for any two static keys,
  the rotated set opens under the new key, and the cipher it opens to decrypts every stored
  value as the original cipher does and encrypts every value to the same envelope.
\<close>

theorem rotation_keeps_ciphertexts:
  assumes "NewStaticKMS kek = Inr old" and "NewStaticKMS kek' = Inr new" and "fullReads rand"
    and "lawfulTink T" and "templatesFit T"
    and "fst (GenerateDEKSet T rand (staticKMS rand old) kv w) = Inr st"
    and "fst (RotateKEK (staticKMS rand old) (staticKMS rand new) st v) = Inr st'"
    and "fst (OpenCipher T (staticKMS rand old) st u) = Inr c"
  shows "\<exists>c'. fst (OpenCipher T (staticKMS rand new) st' u') = Inr c'
     \<and> (\<forall>U stored ad. Decrypt U c' stored ad = Decrypt U c stored ad)
     \<and> (\<forall>rnd sch pt ad. Encrypt c' rnd sch pt ad = Encrypt c rnd sch pt ad)"
proof -
  have l: "lawfulStatic (rand, old)" "lawfulStatic (rand, new)"
    using assms(1-3) by (auto simp: lawfulStatic_def NewStaticKMS_Inr)
  obtain c' where c': "fst (OpenCipher T (staticKMS rand new) st' u') = Inr c'"
    using static_rotated_opens [OF l assms(4-7)] by blast
  then have "c' = c\<lparr>cipherIndex := None\<rparr>"
    using static_rotation.rotated_opens [of "(rand, old)" "(rand, new)" T rand kv w st v st' u c u' c'] l assms(4,6-8) by simp
  then have f: "primitives c' = primitives c" "keyVersion c' = keyVersion c" by simp_all
  have "Decrypt U c' stored ad = Decrypt U c stored ad" "Encrypt c' rnd sch pt ad = Encrypt c rnd sch pt ad"
    for U stored ad rnd sch pt unfolding Decrypt_def Encrypt_def f by (rule refl)+
  then show ?thesis using c' by blast
qed

theorem rotation_keeps_ciphertexts_witness:
  "\<exists>st st' c c'. fst (RotateKEK (staticKMS exampleRand exampleStatic) (staticKMS exampleRand rotatedStatic) st (5::nat)) = Inr st'
     \<and> fst (OpenCipher exampleTink (staticKMS exampleRand exampleStatic) st (8::nat)) = Inr c
     \<and> fst (OpenCipher exampleTink (staticKMS exampleRand rotatedStatic) st' (9::nat)) = Inr c'
     \<and> Decrypt plainUnicode c' storedEmail [] = Decrypt plainUnicode c storedEmail []"
proof -
  obtain st where st: "fst (GenerateDEKSet exampleTink exampleRand (staticKMS exampleRand exampleStatic) 7 (0::nat)) = Inr st"
    using example_generates [of exampleStatic 7 "0::nat"] by blast
  obtain st' where r: "fst (RotateKEK (staticKMS exampleRand exampleStatic) (staticKMS exampleRand rotatedStatic) st (5::nat)) = Inr st'"
    using example_rotates [OF st] by blast
  obtain c where c: "fst (OpenCipher exampleTink (staticKMS exampleRand exampleStatic) st (8::nat)) = Inr c"
    using static_set_opens [OF exampleStatic_lawful exampleTink_lawful st] by blast
  show ?thesis
    using rotation_keeps_ciphertexts [OF exampleStatic_new rotatedStatic_new exampleRand_full exampleTink_lawful st r c, of 9] r c
    by blast
qed

text \<open>
  The rotated set has lost the blind-index key: a proxy opened from it has no blind index,
  although the original one has.
\<close>

lemma rotation_drops_blind_index:
  assumes "NewStaticKMS kek = Inr old" and "NewStaticKMS kek' = Inr new" and "fullReads rand" and "lawfulTink T"
    and "fst (GenerateDEKSet T rand (staticKMS rand old) kv w) = Inr st"
    and "fst (RotateKEK (staticKMS rand old) (staticKMS rand new) st v) = Inr st'"
    and "fst (OpenCipher T (staticKMS rand old) st u) = Inr c"
    and "fst (OpenCipher T (staticKMS rand new) st' u') = Inr c'"
  shows "CipherBlindIndex c \<noteq> None \<and> CipherBlindIndex c' = None"
proof -
  have l: "lawfulStatic (rand, old)" "lawfulStatic (rand, new)"
    using assms(1-3) by (auto simp: lawfulStatic_def NewStaticKMS_Inr)
  then have "c' = c\<lparr>cipherIndex := None\<rparr>"
    using static_rotation.rotated_opens [of "(rand, old)" "(rand, new)" T rand kv w st v st' u c u' c'] assms(4-8) by simp
  then show ?thesis
    using static.generated_opens_same [of "(rand, old)" T rand kv w st u c u c] l assms(4,5,7) by (simp add: CipherBlindIndex_def)
qed

end
