(* ===== verification/Json.thy ===== *)
theory Json
  imports Base64
begin

text \<open>
  \<^verbatim>\<open>encoding/json\<close> as \<^verbatim>\<open>src/\<close> uses it: the syntax check and parse of a
  document, decoding into structs by field name, and the encoding of strings, of string
  maps and of the key-set file. Decoding keeps the library's rules: keys match exactly or up
  to case folding, later members overwrite earlier ones, unknown members are ignored,
  \<^verbatim>\<open>null\<close> changes nothing, a value of another type is an error. The texts of
  the library's errors are abbreviated.
\<close>

section \<open>Values and syntax\<close>

datatype json =
    JNull
  | JBool bool
  | JNum string
  | JStr string
  | JArr "json list"
  | JObj "(string \<times> json) list"

definition jsonSyntax :: goerror where "jsonSyntax = errorsNew ''json: syntax error''"
definition jsonType :: goerror where "jsonType = errorsNew ''json: cannot unmarshal''"

definition jsonSpace :: "char \<Rightarrow> bool" where
  "jsonSpace c \<longleftrightarrow> byteVal c \<in> {32, 9, 10, 13}"

definition skipWS :: "string \<Rightarrow> string" where
  "skipWS s = dropWhile jsonSpace s"

definition isHex :: "char \<Rightarrow> bool" where
  "isHex c \<longleftrightarrow> isDigit c \<or> (97 \<le> byteVal c \<and> byteVal c \<le> 102) \<or> (65 \<le> byteVal c \<and> byteVal c \<le> 70)"

definition hexDigitVal :: "char \<Rightarrow> nat" where
  "hexDigitVal c = (if isDigit c then byteVal c - 48 else if byteVal c \<ge> 97 then byteVal c - 87 else byteVal c - 55)"

definition hexVal :: "string \<Rightarrow> nat" where
  "hexVal s = foldl (\<lambda>n c. 16 * n + hexDigitVal c) 0 s"

definition fourHex :: "string \<Rightarrow> bool" where
  "fourHex s \<longleftrightarrow> length (take 4 s) = 4 \<and> list_all isHex (take 4 s)"

text \<open>The body of a string up to its closing quote, and what follows the quote.\<close>

function scanStr :: "string \<Rightarrow> (string \<times> string) option" where
  "scanStr s =
     (case s of
        [] \<Rightarrow> None
      | c # cs \<Rightarrow>
        if c = CHR 0x22 then Some ([], cs)
        else if c = CHR 0x5C then
          (case cs of
             [] \<Rightarrow> None
           | e # es \<Rightarrow>
             if e \<in> set (''bfnrt/'' @ [CHR 0x5C, CHR 0x22])
             then map_option (\<lambda>(b, r). (c # e # b, r)) (scanStr es)
             else if e = CHR ''u'' \<and> fourHex es
             then map_option (\<lambda>(b, r). (c # e # take 4 es @ b, r)) (scanStr (drop 4 es))
             else None)
        else if byteVal c < 32 then None
        else map_option (\<lambda>(b, r). (c # b, r)) (scanStr cs))"
  by pat_completeness auto
termination
  by (relation "measure length") auto

declare scanStr.simps [simp del]

definition escapeChar :: "char \<Rightarrow> char" where
  "escapeChar e =
     (if e = CHR ''b'' then CHR 0x08 else if e = CHR ''f'' then CHR 0x0C else if e = CHR ''n'' then CHR 0x0A
      else if e = CHR ''r'' then CHR 0x0D else if e = CHR ''t'' then CHR 0x09 else e)"

definition surrogate :: "nat \<Rightarrow> bool" where
  "surrogate r \<longleftrightarrow> 0xD800 \<le> r \<and> r < 0xE000"

text \<open>A pair of \<^verbatim>\<open>\u\<close> escapes that encodes one rune.\<close>

definition surrogatePair :: "nat \<Rightarrow> string \<Rightarrow> nat option" where
  "surrogatePair r rest =
     (let r2 = hexVal (take 4 (drop 2 rest)) in
      if take 2 rest = [CHR 0x5C, CHR ''u''] \<and> fourHex (drop 2 rest) \<and> r < 0xDC00 \<and> 0xDC00 \<le> r2 \<and> r2 < 0xE000
      then Some ((r - 0xD800) * 1024 + (r2 - 0xDC00) + 0x10000) else None)"

function unquoteBody :: "string \<Rightarrow> string" where
  "unquoteBody s =
     (case s of
        [] \<Rightarrow> []
      | c # cs \<Rightarrow>
        if c = CHR 0x5C then
          (case cs of
             [] \<Rightarrow> []
           | e # es \<Rightarrow>
             if e = CHR ''u'' then
               (let r = hexVal (take 4 es); rest = drop 4 es in
                if surrogate r then
                  (case surrogatePair r rest of
                     Some r' \<Rightarrow> EncodeRune r' @ unquoteBody (drop 6 rest)
                   | None \<Rightarrow> EncodeRune runeError @ unquoteBody rest)
                else EncodeRune r @ unquoteBody rest)
             else escapeChar e # unquoteBody es)
        else if byteVal c < 128 then c # unquoteBody cs
        else EncodeRune (fst (DecodeRune s)) @ unquoteBody (drop (max 1 (snd (DecodeRune s))) s))"
  by pat_completeness auto
termination
  by (relation "measure length") (auto simp: max_def)

declare unquoteBody.simps [simp del]

text \<open>A number literal and what follows it.\<close>

definition digitsThen :: "string \<Rightarrow> string \<times> string" where
  "digitsThen s = (takeWhile isDigit s, dropWhile isDigit s)"

definition scanFraction :: "string \<Rightarrow> (string \<times> string) option" where
  "scanFraction s =
     (if s \<noteq> [] \<and> hd s = CHR ''.'' then
        (let (ds, r) = digitsThen (tl s) in if ds = [] then None else Some (CHR ''.'' # ds, r))
      else Some ([], s))"

definition scanExponent :: "string \<Rightarrow> (string \<times> string) option" where
  "scanExponent s =
     (if s \<noteq> [] \<and> hd s \<in> {CHR ''e'', CHR ''E''} then
        (let sgn = (if tl s \<noteq> [] \<and> hd (tl s) \<in> {CHR ''+'', CHR ''-''} then [hd (tl s)] else []);
             (ds, r) = digitsThen (drop (length sgn) (tl s)) in
         if ds = [] then None else Some (hd s # sgn @ ds, r))
      else Some ([], s))"

definition scanNum :: "string \<Rightarrow> (string \<times> string) option" where
  "scanNum s =
     (let sgn = (if s \<noteq> [] \<and> hd s = CHR ''-'' then ''-'' else []); t = drop (length sgn) s;
          (ds, r) = (if t \<noteq> [] \<and> hd t = CHR ''0'' then (''0'', tl t) else digitsThen t) in
      if ds = [] then None
      else case scanFraction r of
          None \<Rightarrow> None
        | Some (fr, r1) \<Rightarrow>
          (case scanExponent r1 of None \<Rightarrow> None | Some (ex, r2) \<Rightarrow> Some (sgn @ ds @ fr @ ex, r2)))"

definition jsonMaxDepth :: nat where "jsonMaxDepth = 10000"

text \<open>
  The parser: the first number bounds the calls (each consumes a byte, so the length of the
  document is enough), the second is the nesting depth, which the library limits.
\<close>

fun jsonValue :: "nat \<Rightarrow> nat \<Rightarrow> string \<Rightarrow> (json \<times> string) option"
and jsonElems :: "nat \<Rightarrow> nat \<Rightarrow> string \<Rightarrow> (json list \<times> string) option"
and jsonMembers :: "nat \<Rightarrow> nat \<Rightarrow> string \<Rightarrow> ((string \<times> json) list \<times> string) option" where
  "jsonValue 0 d s = None"
| "jsonValue (Suc n) d s =
     (case skipWS s of
        [] \<Rightarrow> None
      | c # cs \<Rightarrow>
        if c = CHR 0x22 then map_option (\<lambda>(b, r). (JStr (unquoteBody b), r)) (scanStr cs)
        else if c = CHR ''{'' then
          (if d \<ge> jsonMaxDepth then None
           else if skipWS cs \<noteq> [] \<and> hd (skipWS cs) = CHR ''}'' then Some (JObj [], tl (skipWS cs))
           else map_option (\<lambda>(kvs, r). (JObj kvs, r)) (jsonMembers n (Suc d) cs))
        else if c = CHR ''['' then
          (if d \<ge> jsonMaxDepth then None
           else if skipWS cs \<noteq> [] \<and> hd (skipWS cs) = CHR '']'' then Some (JArr [], tl (skipWS cs))
           else map_option (\<lambda>(vs, r). (JArr vs, r)) (jsonElems n (Suc d) cs))
        else if HasPrefix (c # cs) ''true'' then Some (JBool True, drop 4 (c # cs))
        else if HasPrefix (c # cs) ''false'' then Some (JBool False, drop 5 (c # cs))
        else if HasPrefix (c # cs) ''null'' then Some (JNull, drop 4 (c # cs))
        else map_option (\<lambda>(lit, r). (JNum lit, r)) (scanNum (c # cs)))"
| "jsonElems 0 d s = None"
| "jsonElems (Suc n) d s =
     (case jsonValue n d s of
        None \<Rightarrow> None
      | Some (v, r) \<Rightarrow>
        (case skipWS r of
           [] \<Rightarrow> None
         | c # cs \<Rightarrow>
           if c = CHR '','' then map_option (\<lambda>(vs, r'). (v # vs, r')) (jsonElems n d cs)
           else if c = CHR '']'' then Some ([v], cs) else None))"
| "jsonMembers 0 d s = None"
| "jsonMembers (Suc n) d s =
     (case skipWS s of
        [] \<Rightarrow> None
      | q # qs \<Rightarrow>
        if q \<noteq> CHR 0x22 then None
        else case scanStr qs of
            None \<Rightarrow> None
          | Some (k, r) \<Rightarrow>
            (case skipWS r of
               [] \<Rightarrow> None
             | c # cs \<Rightarrow>
               if c \<noteq> CHR '':'' then None
               else case jsonValue n d cs of
                   None \<Rightarrow> None
                 | Some (v, r2) \<Rightarrow>
                   (case skipWS r2 of
                      [] \<Rightarrow> None
                    | e # es \<Rightarrow>
                      if e = CHR '','' then map_option (\<lambda>(kvs, r'). ((unquoteBody k, v) # kvs, r')) (jsonMembers n d es)
                      else if e = CHR ''}'' then Some ([(unquoteBody k, v)], es) else None)))"

definition jsonParse :: "string \<Rightarrow> json result" where
  "jsonParse s =
     (case jsonValue (Suc (length s)) 0 s of
        Some (v, r) \<Rightarrow> if skipWS r = [] then Inr v else Inl jsonSyntax
      | None \<Rightarrow> Inl jsonSyntax)"

section \<open>Decoding into structs\<close>

definition foldRune :: "nat \<Rightarrow> nat" where
  "foldRune r =
     (if 97 \<le> r \<and> r \<le> 122 then r - 32 else if r = 0x17F then 83 else if r = 0x212A then 75 else r)"

definition keyMatches :: "string \<Rightarrow> string \<Rightarrow> bool" where
  "keyMatches key field \<longleftrightarrow> map foldRune (utf8Runes key) = map foldRune (utf8Runes field)"

definition decodeObj :: "(string \<Rightarrow> json \<Rightarrow> 's \<Rightarrow> 's result) \<Rightarrow> json \<Rightarrow> 's \<Rightarrow> 's result" where
  "decodeObj f j s =
     (case j of
        JObj kvs \<Rightarrow> foldR (\<lambda>s (k, v). f k v s) s kvs
      | JNull \<Rightarrow> Inr s
      | _ \<Rightarrow> Inl jsonType)"

definition decodeString :: "json \<Rightarrow> string \<Rightarrow> string result" where
  "decodeString j s = (case j of JStr t \<Rightarrow> Inr t | JNull \<Rightarrow> Inr s | _ \<Rightarrow> Inl jsonType)"

definition decodeInt :: "json \<Rightarrow> int \<Rightarrow> int result" where
  "decodeInt j n =
     (case j of
        JNum lit \<Rightarrow> (case Atoi lit of Some i \<Rightarrow> Inr i | None \<Rightarrow> Inl jsonType)
      | JNull \<Rightarrow> Inr n
      | _ \<Rightarrow> Inl jsonType)"

definition decodeUint :: "nat \<Rightarrow> json \<Rightarrow> nat \<Rightarrow> nat result" where
  "decodeUint bits j n =
     (case j of
        JNum lit \<Rightarrow> (case ParseUint lit bits of Some i \<Rightarrow> Inr i | None \<Rightarrow> Inl jsonType)
      | JNull \<Rightarrow> Inr n
      | _ \<Rightarrow> Inl jsonType)"

fun decodeElems :: "json list \<Rightarrow> bytes \<Rightarrow> bytes result" where
  "decodeElems [] old = Inr []"
| "decodeElems (j # js) old =
     bindR (decodeUint 8 j (case old of [] \<Rightarrow> 0 | b # _ \<Rightarrow> byteVal b)) (\<lambda>n.
     bindR (decodeElems js (tl old)) (\<lambda>bs. Inr (byteOf n # bs)))"

text \<open>A byte slice is a base64 string; a nil slice is the empty one here.\<close>

definition decodeBytes :: "json \<Rightarrow> bytes \<Rightarrow> bytes result" where
  "decodeBytes j b =
     (case j of
        JStr t \<Rightarrow> StdDecode t
      | JNull \<Rightarrow> Inr []
      | JArr js \<Rightarrow> decodeElems js b
      | _ \<Rightarrow> Inl jsonType)"

section \<open>Encoding\<close>

text \<open>\<open>html\<close> is the encoder's \<^verbatim>\<open>escapeHTML\<close>, on by default.\<close>

definition jsonEscape :: "bool \<Rightarrow> char \<Rightarrow> string" where
  "jsonEscape html c =
     (if c = CHR 0x5C \<or> c = CHR 0x22 then [CHR 0x5C, c]
      else if byteVal c = 8 then [CHR 0x5C, CHR ''b''] else if byteVal c = 12 then [CHR 0x5C, CHR ''f'']
      else if byteVal c = 10 then [CHR 0x5C, CHR ''n''] else if byteVal c = 13 then [CHR 0x5C, CHR ''r'']
      else if byteVal c = 9 then [CHR 0x5C, CHR ''t'']
      else if byteVal c < 32 \<or> html \<and> c \<in> {CHR ''<'', CHR ''>'', CHR ''&''}
      then CHR 0x5C # CHR ''u'' # hexDigits 4 (byteVal c)
      else [c])"

function jsonChars :: "bool \<Rightarrow> string \<Rightarrow> string" where
  "jsonChars html s =
     (if s = [] then []
      else if byteVal (hd s) < 128 then jsonEscape html (hd s) @ jsonChars html (tl s)
      else if DecodeRune s = (runeError, 1) then CHR 0x5C # CHR ''u'' # hexDigits 4 runeError @ jsonChars html (tl s)
      else if fst (DecodeRune s) \<in> {0x2028, 0x2029}
      then CHR 0x5C # CHR ''u'' # hexDigits 4 (fst (DecodeRune s)) @ jsonChars html (drop (snd (DecodeRune s)) s)
      else take (snd (DecodeRune s)) s @ jsonChars html (drop (snd (DecodeRune s)) s))"
  by pat_completeness auto
termination
proof (relation "measure (\<lambda>(h, s). length s)")
  fix h and s :: string
  assume "s \<noteq> []"
  then show "((h, drop (snd (DecodeRune s)) s), h, s) \<in> measure (\<lambda>(h, s). length s)"
    by (cases s) (auto simp: DecodeRune_width)
  then show "((h, drop (snd (DecodeRune s)) s), h, s) \<in> measure (\<lambda>(h, s). length s)" .
qed auto

declare jsonChars.simps [simp del]

definition jsonString :: "bool \<Rightarrow> string \<Rightarrow> string" where
  "jsonString html s = [CHR 0x22] @ jsonChars html s @ [CHR 0x22]"

definition jsonQuote :: "string \<Rightarrow> string" where
  "jsonQuote s = jsonString True s"

text \<open>A map of strings is encoded with its keys in order; the callers' maps are given sorted.\<close>

definition jsonStringMap :: "(string \<times> string) list \<Rightarrow> string" where
  "jsonStringMap kvs =
     ''{'' @ (case map (\<lambda>(k, v). jsonQuote k @ '':'' @ jsonQuote v) kvs of
                [] \<Rightarrow> [] | x # xs \<Rightarrow> x @ concat (map (\<lambda>m. '','' @ m) xs)) @ ''}''"

end
