(* ===== verification/Vault.thy ===== *)
theory Vault
  imports Kms Json
begin

text \<open>
  \<^verbatim>\<open>internal/kms/vault.go\<close>: the KMS on Vault's Transit engine and its three login
  modes. The HTTP client, the clock and the file system are the environment's and enter as
  a record of functions over a world \<open>'w\<close>; the token cache that the Go code keeps
  behind its mutex is part of the state every call threads. Calls are modelled one at a
  time: the login lock is then always free.
\<close>

section \<open>Standard library\<close>

text \<open>64-bit wrap-around of \<^verbatim>\<open>time.Duration\<close> arithmetic.\<close>

definition wrap64 :: "int \<Rightarrow> int" where
  "wrap64 n = (n + 2 ^ 63) mod 2 ^ 64 - 2 ^ 63"

definition secondNs :: int where "secondNs = 1000000000"

section \<open>Configuration and environment\<close>

definition defaultTransitMount :: string where "defaultTransitMount = ''transit''"
definition defaultAppRoleMount :: string where "defaultAppRoleMount = ''approle''"
definition defaultKubernetesMount :: string where "defaultKubernetesMount = ''kubernetes''"
definition defaultKubernetesJWTFile :: string where
  "defaultKubernetesJWTFile = ''/var/run/secrets/kubernetes.io/serviceaccount/token''"
definition renewSkew :: int where "renewSkew = 30 * secondNs"
definition maxPostAttempts :: nat where "maxPostAttempts = 2"

record VaultConfig =
  vcAddress :: string
  vcToken :: string
  vcKeyName :: string
  vcMount :: string
  vcAppRoleMount :: string
  vcRoleID :: string
  vcSecretID :: string
  vcKubernetesRole :: string
  vcKubernetesMount :: string
  vcKubernetesJWTFile :: string

record httpRequest =
  rqURL :: string
  rqToken :: "string option"
  rqBody :: bytes

text \<open>
  \<open>veDo\<close> is one round trip: it fails, or yields a status and what reading the body
  yields. \<open>veBadURL\<close> is the error of building a request for a URL, if any.
\<close>

record 'w vaultEnv =
  veDo :: "httpRequest \<Rightarrow> ('w, nat \<times> bytes result) io"
  veBadURL :: "string \<Rightarrow> goerror option"
  veNow :: "'w \<Rightarrow> int"
  veReadFile :: "string \<Rightarrow> ('w, bytes) io"

section \<open>Authentication\<close>

datatype tokenLogin =
    approleLogin string string string
  | kubernetesLogin string string string

record vaultAuth =
  vaStatic :: string
  vaLoginFn :: "tokenLogin option"

text \<open>The cached token and its expiry; a zero time is \<open>None\<close>.\<close>

record tokenCache =
  tcToken :: string
  tcExpiry :: "int option"

definition emptyCache :: tokenCache where
  "emptyCache = \<lparr>tcToken = [], tcExpiry = None\<rparr>"

definition btoi :: "bool \<Rightarrow> nat" where
  "btoi b = (if b then 1 else 0)"

definition orDefault :: "string \<Rightarrow> string \<Rightarrow> string" where
  "orDefault v def = (if v = [] then def else v)"

definition loginURL :: "string \<Rightarrow> string \<Rightarrow> string" where
  "loginURL address mount = address @ ''/v1/auth/'' @ mount @ ''/login''"

definition newVaultAuth :: "VaultConfig \<Rightarrow> vaultAuth result" where
  "newVaultAuth cfg =
     (let hasToken = (vcToken cfg \<noteq> []);
          hasAppRole = (vcRoleID cfg \<noteq> [] \<or> vcSecretID cfg \<noteq> []);
          hasK8s = (vcKubernetesRole cfg \<noteq> []) in
      if btoi hasToken + btoi hasAppRole + btoi hasK8s > 1
      then Inl (errorsNew ''kms: configure exactly one Vault auth mode (token, AppRole, or Kubernetes)'')
      else if hasAppRole \<and> (vcRoleID cfg = [] \<or> vcSecretID cfg = [])
      then Inl (errorsNew ''kms: AppRole auth requires both a role id and a secret id'')
      else if \<not> hasToken \<and> \<not> hasAppRole \<and> \<not> hasK8s
      then Inl (errorsNew ''kms: a vault token, AppRole, or Kubernetes auth is required'')
      else if hasAppRole then
        Inr \<lparr>vaStatic = [], vaLoginFn = Some (approleLogin
               (loginURL (vcAddress cfg) (orDefault (vcAppRoleMount cfg) defaultAppRoleMount))
               (vcRoleID cfg) (vcSecretID cfg))\<rparr>
      else if hasK8s then
        Inr \<lparr>vaStatic = [], vaLoginFn = Some (kubernetesLogin
               (loginURL (vcAddress cfg) (orDefault (vcKubernetesMount cfg) defaultKubernetesMount))
               (vcKubernetesRole cfg) (orDefault (vcKubernetesJWTFile cfg) defaultKubernetesJWTFile))\<rparr>
      else Inr \<lparr>vaStatic = vcToken cfg, vaLoginFn = None\<rparr>)"

definition badStatus :: "nat \<Rightarrow> bool" where
  "badStatus status \<longleftrightarrow> status < 200 \<or> status \<ge> 300"

record loginReply =
  lrToken :: string
  lrLease :: int

definition decodeLogin :: "bytes \<Rightarrow> loginReply result" where
  "decodeLogin body =
     bindR (jsonParse body) (\<lambda>j.
       decodeObj (\<lambda>k v r.
         if keyMatches k ''auth'' then
           decodeObj (\<lambda>k v r.
             if keyMatches k ''client_token'' then bindR (decodeString v (lrToken r)) (\<lambda>t. Inr (r\<lparr>lrToken := t\<rparr>))
             else if keyMatches k ''lease_duration'' then bindR (decodeInt v (lrLease r)) (\<lambda>n. Inr (r\<lparr>lrLease := n\<rparr>))
             else Inr r) v r
         else Inr r) j \<lparr>lrToken = [], lrLease = 0\<rparr>)"

definition leaseExpiry :: "int \<Rightarrow> int \<Rightarrow> int option" where
  "leaseExpiry now lease = (if lease > 0 then Some (now + wrap64 (lease * secondNs)) else None)"

text \<open>The shape of both kinds of request: build, send, read the body.\<close>

definition roundTrip ::
  "'w vaultEnv \<Rightarrow> string \<Rightarrow> string \<Rightarrow> string \<Rightarrow> httpRequest \<Rightarrow> ('w, nat \<times> bytes) io" where
  "roundTrip E build request read rq =
     (case veBadURL E (rqURL rq) of
        Some err \<Rightarrow> failIO (wrapErr build err [])
      | None \<Rightarrow>
        bindIO (contextIO request (veDo E rq)) (\<lambda>(status, body).
        bindIO (contextIO read (liftIO body)) (\<lambda>b. returnIO (status, b))))"

definition vaultLogin ::
  "'w vaultEnv \<Rightarrow> string \<Rightarrow> (string \<times> string) list \<Rightarrow> ('w, tokenCache) io" where
  "vaultLogin E url params =
     bindIO (roundTrip E ''kms: build vault login: '' ''kms: vault login request: ''
         ''kms: read vault login response: ''
         \<lparr>rqURL = url, rqToken = None, rqBody = jsonStringMap params\<rparr>) (\<lambda>(status, body).
     if badStatus status
     then failIO (errorsNew (''kms: vault login returned status '' @ showNat status @ '': '' @ TrimSpace body))
     else
       bindIO (contextIO ''kms: decode vault login response: '' (liftIO (decodeLogin body))) (\<lambda>lr.
       if lrToken lr = [] then failIO (errorsNew ''kms: vault login returned an empty client token'')
       else (\<lambda>w. (Inr \<lparr>tcToken = lrToken lr, tcExpiry = leaseExpiry (veNow E w) (lrLease lr)\<rparr>, w))))"

fun login :: "'w vaultEnv \<Rightarrow> tokenLogin \<Rightarrow> ('w, tokenCache) io" where
  "login E (approleLogin url roleID secretID) =
     vaultLogin E url [(''role_id'', roleID), (''secret_id'', secretID)]"
| "login E (kubernetesLogin url role jwtFile) =
     bindIO (contextIO ''kms: read serviceaccount token: '' (veReadFile E jwtFile)) (\<lambda>jwt.
     vaultLogin E url [(''jwt'', TrimSpace jwt), (''role'', role)])"

definition freshToken :: "int \<Rightarrow> tokenCache \<Rightarrow> string option" where
  "freshToken now c =
     (if tcToken c \<noteq> [] \<and> (case tcExpiry c of None \<Rightarrow> True | Some e \<Rightarrow> e - now > renewSkew)
      then Some (tcToken c) else None)"

definition usableToken :: "int \<Rightarrow> tokenCache \<Rightarrow> string option" where
  "usableToken now c =
     (if tcToken c \<noteq> [] \<and> (case tcExpiry c of None \<Rightarrow> True | Some e \<Rightarrow> now < e)
      then Some (tcToken c) else None)"

definition currentToken :: "'w vaultEnv \<Rightarrow> vaultAuth \<Rightarrow> ('w \<times> tokenCache, string) io" where
  "currentToken E a wc =
     (case vaLoginFn a of
        None \<Rightarrow> (Inr (vaStatic a), wc)
      | Some loginFn \<Rightarrow>
        (case freshToken (veNow E (fst wc)) (snd wc) of
           Some tok \<Rightarrow> (Inr tok, wc)
         | None \<Rightarrow>
           (case login E loginFn (fst wc) of
              (Inr c, w) \<Rightarrow> (Inr (tcToken c), (w, c))
            | (Inl err, w) \<Rightarrow>
              (case usableToken (veNow E w) (snd wc) of
                 Some fallback \<Rightarrow> (Inr fallback, (w, snd wc))
               | None \<Rightarrow> (Inl err, (w, snd wc))))))"

definition reauth :: "vaultAuth \<Rightarrow> string \<Rightarrow> tokenCache \<Rightarrow> tokenCache \<times> bool" where
  "reauth a stale c =
     (if vaLoginFn a = None then (c, False)
      else (if tcToken c = stale then emptyCache else c, True))"

section \<open>Transit\<close>

record VaultKMS =
  vkEncryptURL :: string
  vkDecryptURL :: string
  vkAuth :: vaultAuth

definition NewVaultKMS :: "VaultConfig \<Rightarrow> VaultKMS result" where
  "NewVaultKMS cfg =
     (if vcAddress cfg = [] then Inl (errorsNew ''kms: vault address is required'')
      else if vcKeyName cfg = [] then Inl (errorsNew ''kms: vault transit key name is required'')
      else bindR (newVaultAuth cfg) (\<lambda>auth.
        let mount = (if vcMount cfg = [] then defaultTransitMount else vcMount cfg) in
        Inr \<lparr>vkEncryptURL = vcAddress cfg @ ''/v1/'' @ mount @ ''/encrypt/'' @ vcKeyName cfg,
             vkDecryptURL = vcAddress cfg @ ''/v1/'' @ mount @ ''/decrypt/'' @ vcKeyName cfg,
             vkAuth = auth\<rparr>))"

definition vaultDo :: "'w vaultEnv \<Rightarrow> string \<Rightarrow> bytes \<Rightarrow> string \<Rightarrow> ('w, nat \<times> bytes) io" where
  "vaultDo E url body token =
     roundTrip E ''kms: build request: '' ''kms: vault request: '' ''kms: read vault response: ''
       \<lparr>rqURL = url, rqToken = Some token, rqBody = body\<rparr>"

text \<open>
  One turn of the loop of \<^verbatim>\<open>post\<close>; \<open>retry\<close> is the next turn, if attempts remain.
\<close>

definition postOnce ::
  "'w vaultEnv \<Rightarrow> VaultKMS \<Rightarrow> string \<Rightarrow> bytes \<Rightarrow> (bytes \<Rightarrow> 'r result) \<Rightarrow> ('w \<times> tokenCache, 'r) io option
   \<Rightarrow> ('w \<times> tokenCache, 'r) io" where
  "postOnce E v url buf decode retry =
     bindIO (currentToken E (vkAuth v)) (\<lambda>token.
     bindIO (onFst (vaultDo E url buf token)) (\<lambda>(status, body) (w, cache).
       case (if status = 403 \<and> snd (reauth (vkAuth v) token cache) then retry else None) of
         Some again \<Rightarrow> again (w, fst (reauth (vkAuth v) token cache))
       | None \<Rightarrow>
         if badStatus status
         then (Inl (errorsNew (''kms: vault returned status '' @ showNat status @ '': '' @ TrimSpace body)), (w, cache))
         else contextIO ''kms: decode vault response: '' (liftIO (decode body)) (w, cache)))"

fun postAttempts ::
  "'w vaultEnv \<Rightarrow> VaultKMS \<Rightarrow> string \<Rightarrow> bytes \<Rightarrow> (bytes \<Rightarrow> 'r result) \<Rightarrow> nat \<Rightarrow> ('w \<times> tokenCache, 'r) io" where
  "postAttempts E v url buf decode 0 = postOnce E v url buf decode None"
| "postAttempts E v url buf decode (Suc n) =
     postOnce E v url buf decode (Some (postAttempts E v url buf decode n))"

definition post ::
  "'w vaultEnv \<Rightarrow> VaultKMS \<Rightarrow> string \<Rightarrow> (string \<times> string) list \<Rightarrow> (bytes \<Rightarrow> 'r result) \<Rightarrow> ('w \<times> tokenCache, 'r) io" where
  "post E v url reqBody decode = postAttempts E v url (jsonStringMap reqBody) decode (maxPostAttempts - 1)"

definition decodeData :: "string \<Rightarrow> bytes \<Rightarrow> string result" where
  "decodeData field body =
     bindR (jsonParse body) (\<lambda>j.
       decodeObj (\<lambda>k v s.
         if keyMatches k ''data'' then
           decodeObj (\<lambda>k v s. if keyMatches k field then decodeString v s else Inr s) v s
         else Inr s) j [])"

definition VaultWrap :: "'w vaultEnv \<Rightarrow> VaultKMS \<Rightarrow> bytes \<Rightarrow> ('w \<times> tokenCache, bytes) io" where
  "VaultWrap E v plaintextDEK =
     bindIO (post E v (vkEncryptURL v) [(''plaintext'', StdEncode plaintextDEK)] (decodeData ''ciphertext'')) (\<lambda>ct.
     if ct = [] then failIO (errorsNew ''kms: vault returned an empty ciphertext'') else returnIO ct)"

definition VaultUnwrap :: "'w vaultEnv \<Rightarrow> VaultKMS \<Rightarrow> bytes \<Rightarrow> ('w \<times> tokenCache, bytes) io" where
  "VaultUnwrap E v wrappedDEK =
     bindIO (post E v (vkDecryptURL v) [(''ciphertext'', wrappedDEK)] (decodeData ''plaintext'')) (\<lambda>pt.
     contextIO ''kms: decode vault plaintext: '' (liftIO (StdDecode pt)))"

definition vaultKMS :: "'w vaultEnv \<Rightarrow> VaultKMS \<Rightarrow> ('w \<times> tokenCache) KMS" where
  "vaultKMS E v = \<lparr>kmsWrap = VaultWrap E v, kmsUnwrap = VaultUnwrap E v\<rparr>"

section \<open>The promise of the interface\<close>

text \<open>What a Transit request came back with, in any world and under any token.\<close>

definition transitReply :: "'w vaultEnv \<Rightarrow> string \<Rightarrow> bytes \<Rightarrow> bytes \<Rightarrow> bool" where
  "transitReply E url body reply \<longleftrightarrow>
     (\<exists>token w status. fst (veDo E \<lparr>rqURL = url, rqToken = token, rqBody = body\<rparr> w) = Inr (status, Inr reply)
        \<and> \<not> badStatus status)"

text \<open>
  Vault's documented contract: decrypting a ciphertext that the engine issued returns the
  plaintext it was issued for.
\<close>

definition honestTransit :: "'w vaultEnv \<times> VaultKMS \<Rightarrow> bool" where
  "honestTransit Ev \<longleftrightarrow>
     (\<forall>pt r ct r' p. transitReply (fst Ev) (vkEncryptURL (snd Ev)) (jsonStringMap [(''plaintext'', pt)]) r
        \<longrightarrow> decodeData ''ciphertext'' r = Inr ct
        \<longrightarrow> transitReply (fst Ev) (vkDecryptURL (snd Ev)) (jsonStringMap [(''ciphertext'', ct)]) r'
        \<longrightarrow> decodeData ''plaintext'' r' = Inr p \<longrightarrow> p = pt)"

lemma roundTrip_Inr:
  "roundTrip E b q r rq w = (Inr (status, body), w') \<Longrightarrow> veDo E rq w = (Inr (status, Inr body), w')"
  by (auto simp: roundTrip_def io_Inr split: option.splits)

text \<open>A posted request that succeeds was answered, by the first or by a later attempt.\<close>

lemma postOnce_Inr:
  assumes "fst (postOnce E v url buf decode retry wc) = Inr x"
  shows "(\<exists>reply. transitReply E url buf reply \<and> decode reply = Inr x)
     \<or> (\<exists>again wc'. retry = Some again \<and> fst (again wc') = Inr x)"
proof -
  obtain token w1 c1 status body w2 c2 where
    d: "onFst (vaultDo E url buf token) (w1, c1) = (Inr (status, body), (w2, c2))"
    and r: "fst (case (if status = 403 \<and> snd (reauth (vkAuth v) token c2) then retry else None) of
         Some again \<Rightarrow> again (w2, fst (reauth (vkAuth v) token c2))
       | None \<Rightarrow>
         if badStatus status
         then (Inl (errorsNew (''kms: vault returned status '' @ showNat status @ '': '' @ TrimSpace body)), (w2, c2))
         else contextIO ''kms: decode vault response: '' (liftIO (decode body)) (w2, c2)) = Inr x"
    using assms by (auto simp: postOnce_def fst_bindIO_Inr)
  have "veDo E \<lparr>rqURL = url, rqToken = Some token, rqBody = buf\<rparr> w1 = (Inr (status, Inr body), w2)"
    using d by (auto simp: onFst_def vaultDo_def dest: roundTrip_Inr split: prod.splits)
  then have "\<not> badStatus status \<Longrightarrow> transitReply E url buf body"
    unfolding transitReply_def by (metis fst_conv)
  then show ?thesis using r by (auto simp: fst_contextIO_Inr split: option.splits if_splits)
qed

lemma postAttempts_Inr:
  "fst (postAttempts E v url buf decode n wc) = Inr x \<Longrightarrow> \<exists>reply. transitReply E url buf reply \<and> decode reply = Inr x"
proof (induction n arbitrary: wc)
  case 0
  then show ?case using postOnce_Inr by fastforce
next
  case (Suc n)
  show ?case using postOnce_Inr [OF Suc.prems [simplified]] Suc.IH by blast
qed

lemma vault_faithful:
  assumes "honestTransit Ev"
  shows "faithfulKMS (vaultKMS (fst Ev) (snd Ev))"
proof -
  let ?E = "fst Ev" and ?v = "snd Ev"
  have w: "ct \<noteq> [] \<and> (\<exists>r. transitReply ?E (vkEncryptURL ?v) (jsonStringMap [(''plaintext'', StdEncode pt)]) r
      \<and> decodeData ''ciphertext'' r = Inr ct)" if wrap: "fst (VaultWrap ?E ?v pt w) = Inr ct" for pt w ct
  proof -
    obtain w1 where "post ?E ?v (vkEncryptURL ?v) [(''plaintext'', StdEncode pt)] (decodeData ''ciphertext'') w = (Inr ct, w1)"
      and ct: "ct \<noteq> []"
      using wrap by (auto simp: VaultWrap_def fst_bindIO_Inr split: if_splits)
    then have "fst (post ?E ?v (vkEncryptURL ?v) [(''plaintext'', StdEncode pt)] (decodeData ''ciphertext'') w) = Inr ct" by simp
    from postAttempts_Inr [OF this [unfolded post_def]] ct show ?thesis by blast
  qed
  have u: "\<exists>r p. transitReply ?E (vkDecryptURL ?v) (jsonStringMap [(''ciphertext'', ct)]) r
      \<and> decodeData ''plaintext'' r = Inr p \<and> StdDecode p = Inr pt" if unwrap: "fst (VaultUnwrap ?E ?v ct w) = Inr pt" for pt w ct
  proof -
    obtain p w1 where "post ?E ?v (vkDecryptURL ?v) [(''ciphertext'', ct)] (decodeData ''plaintext'') w = (Inr p, w1)"
      and p: "StdDecode p = Inr pt"
      using unwrap by (auto simp: VaultUnwrap_def fst_bindIO_Inr fst_contextIO_Inr)
    then have "fst (post ?E ?v (vkDecryptURL ?v) [(''ciphertext'', ct)] (decodeData ''plaintext'') w) = Inr p" by simp
    from postAttempts_Inr [OF this [unfolded post_def]] p show ?thesis by blast
  qed
  have "pt' = pt" if a: "fst (VaultWrap ?E ?v pt wa) = Inr ct" and b: "fst (VaultUnwrap ?E ?v ct wb) = Inr pt'" for pt ct wa wb pt'
  proof -
    obtain r where r: "transitReply ?E (vkEncryptURL ?v) (jsonStringMap [(''plaintext'', StdEncode pt)]) r"
      "decodeData ''ciphertext'' r = Inr ct" using w [OF a] by blast
    obtain r' p where r': "transitReply ?E (vkDecryptURL ?v) (jsonStringMap [(''ciphertext'', ct)]) r'"
      "decodeData ''plaintext'' r' = Inr p" "StdDecode p = Inr pt'" using u [OF b] by blast
    have "p = StdEncode pt" using assms r r'(1,2) unfolding honestTransit_def by blast
    then show ?thesis using r'(3) by (simp add: b64.roundtrip)
  qed
  moreover have "ct \<noteq> []" if "fst (VaultWrap ?E ?v pt wa) = Inr ct" for pt ct wa using w [OF that] by blast
  ultimately show ?thesis
    unfolding faithfulKMS_def wrapsTo_def unwrapsTo_def vaultKMS_def KMS.select_convs by blast
qed

interpretation vault: kms_provider "\<lambda>Ev. vaultKMS (fst Ev) (snd Ev)" honestTransit
  by unfold_locales (rule vault_faithful)

text \<open>Moving the key set from a static key to Vault, in one process.\<close>

interpretation to_vault: kms_rotation "\<lambda>rk. staticKMS (fst rk) (snd rk)" lawfulStatic
    "\<lambda>Ev. vaultKMS (fst Ev) (snd Ev)" honestTransit
  by unfold_locales

end
