(* ===== verification/VaultProps.thy ===== *)
theory VaultProps
  imports Vault KmsProps
begin

text \<open>
  The Vault KMS: what it wraps it unwraps, a call costs a bounded number of requests, and a
  token that Vault no longer accepts is replaced within the call.
\<close>

section \<open>Counting requests\<close>

text \<open>The same environment, with every request that reaches the network recorded.\<close>

definition recording :: "'w vaultEnv \<Rightarrow> ('w \<times> httpRequest list) vaultEnv" where
  "recording E =
     \<lparr>veDo = (\<lambda>rq (w, log). let (r, w') = veDo E rq w in (r, (w', log @ [rq]))),
      veBadURL = veBadURL E, veNow = (\<lambda>wl. veNow E (fst wl)), veReadFile = (\<lambda>path. onFst (veReadFile E path))\<rparr>"

definition adds :: "nat \<Rightarrow> nat \<Rightarrow> httpRequest list \<Rightarrow> httpRequest list \<Rightarrow> bool" where
  "adds logins transits log log' \<longleftrightarrow>
     (\<exists>reqs. log' = log @ reqs \<and> length (filter (\<lambda>q. rqToken q = None) reqs) \<le> logins
        \<and> length (filter (\<lambda>q. rqToken q \<noteq> None) reqs) \<le> transits)"

lemma adds_refl [simp]: "adds m n log log"
  by (simp add: adds_def)

lemma adds_trans: "adds m n log log' \<Longrightarrow> adds m' n' log' log'' \<Longrightarrow> adds (m + m') (n + n') log log''"
  by (fastforce simp: adds_def)

lemma adds_mono: "adds m n log log' \<Longrightarrow> m \<le> m' \<Longrightarrow> n \<le> n' \<Longrightarrow> adds m' n' log log'"
  by (fastforce simp: adds_def)

lemma recorded_roundTrip:
  assumes "roundTrip (recording E) b q r rq (w, log) = (x, (w', log'))"
  shows "adds (if rqToken rq = None then 1 else 0) (if rqToken rq = None then 0 else 1) log log'"
proof -
  have "log' = log \<or> log' = log @ [rq]"
    using assms by (auto simp: roundTrip_def recording_def bindIO_def contextIO_def Let_def
        split: option.splits prod.splits sum.splits)
  then show ?thesis by (auto simp: adds_def)
qed

lemma recorded_vaultLogin:
  assumes "vaultLogin (recording E) url params (w, log) = (x, (w', log'))"
  shows "adds 1 0 log log'"
proof -
  obtain y w1 log1 where r: "roundTrip (recording E) ''kms: build vault login: '' ''kms: vault login request: ''
         ''kms: read vault login response: '' \<lparr>rqURL = url, rqToken = None, rqBody = jsonStringMap params\<rparr> (w, log)
        = (y, (w1, log1))"
    by (metis prod.collapse)
  have "log' = log1"
    using assms r by (auto simp: vaultLogin_def bindIO_def contextIO_def split: sum.splits prod.splits if_splits)
  then show ?thesis using recorded_roundTrip [OF r] by simp
qed

lemma recorded_login:
  assumes "login (recording E) fn (w, log) = (x, (w', log'))"
  shows "adds 1 0 log log'"
proof (cases fn)
  case (approleLogin url roleID secretID)
  then show ?thesis using assms recorded_vaultLogin by fastforce
next
  case (kubernetesLogin url role jwtFile)
  obtain y w1 where r: "veReadFile E jwtFile w = (y, w1)" by fastforce
  then have f: "contextIO pre (veReadFile (recording E) jwtFile) (w, log)
      = (case y of Inl e \<Rightarrow> Inl (wrapErr pre e []) | Inr b \<Rightarrow> Inr b, (w1, log))" for pre
    by (simp add: recording_def contextIO_def onFst_def split: sum.split)
  show ?thesis
  proof (cases y)
    case (Inl e)
    then show ?thesis using assms kubernetesLogin f by (simp add: bindIO_def)
  next
    case (Inr jwt)
    then show ?thesis
      using assms kubernetesLogin f recorded_vaultLogin [of E url _ w1 log x w' log'] by (simp add: bindIO_def)
  qed
qed

lemma recorded_currentToken:
  assumes "currentToken (recording E) a ((w, log), c) = (x, ((w', log'), c'))"
  shows "adds 1 0 log log'"
proof (cases "vaLoginFn a")
  case (Some fn)
  obtain y w1 log1 where l: "login (recording E) fn (w, log) = (y, (w1, log1))" by (metis prod.collapse)
  have "log' = log \<or> log' = log1"
    using assms Some l by (auto simp: currentToken_def split: option.splits sum.splits)
  then show ?thesis using recorded_login [OF l] by auto
qed (use assms in \<open>simp add: currentToken_def\<close>)

lemma recorded_postOnce:
  assumes "postOnce (recording E) v url buf decode retry ((w, log), c) = (x, ((w', log'), c'))"
    and "\<And>again w c log x w' log' c'. retry = Some again \<Longrightarrow> again ((w, log), c) = (x, ((w', log'), c')) \<Longrightarrow> adds m m log log'"
  shows "adds (Suc m) (Suc m) log log'"
proof -
  obtain t w1 log1 c1 where t: "currentToken (recording E) (vkAuth v) ((w, log), c) = (t, ((w1, log1), c1))"
    by (metis prod.collapse)
  note a1 = recorded_currentToken [OF t]
  show ?thesis
  proof (cases t)
    case (Inl e)
    then show ?thesis using assms(1) t adds_mono [OF a1] by (simp add: postOnce_def bindIO_def)
  next
    case (Inr token)
    obtain d w2 log2 where d: "vaultDo (recording E) url buf token (w1, log1) = (d, (w2, log2))" by (metis prod.collapse)
    have a2: "adds 1 1 log log2"
      using adds_trans [OF a1 recorded_roundTrip [OF d [unfolded vaultDo_def]]] by simp
    show ?thesis
    proof (cases d)
      case (Inl e)
      then show ?thesis using assms(1) t Inr d adds_mono [OF a2] by (simp add: postOnce_def bindIO_def onFst_def)
    next
      case (Inr sb)
      obtain status body where sb: "sb = (status, body)" by fastforce
      have "log' = log2 \<or> (\<exists>again. retry = Some again \<and> again ((w2, log2), fst (reauth (vkAuth v) token c1)) = (x, ((w', log'), c')))"
        using assms(1) t \<open>t = Inr token\<close> d Inr sb
        by (auto simp: postOnce_def bindIO_def onFst_def contextIO_def split: option.splits if_splits sum.splits)
      then show ?thesis
      proof
        assume "log' = log2"
        then show ?thesis using adds_mono [OF a2] by simp
      next
        assume "\<exists>again. retry = Some again \<and> again ((w2, log2), fst (reauth (vkAuth v) token c1)) = (x, ((w', log'), c'))"
        then have "adds m m log2 log'" using assms(2) by blast
        from adds_trans [OF a2 this] show ?thesis by simp
      qed
    qed
  qed
qed

lemma recorded_postAttempts:
  "postAttempts (recording E) v url buf decode n ((w, log), c) = (x, ((w', log'), c')) \<Longrightarrow> adds (Suc n) (Suc n) log log'"
proof (induction n arbitrary: w log c x w' log' c')
  case 0
  then show ?case using recorded_postOnce [where m = 0] by fastforce
next
  case (Suc n)
  show ?case by (rule recorded_postOnce [OF Suc.prems [simplified]]) (use Suc.IH in auto)
qed

text \<open>
  C24. A Vault call costs a bounded number of requests: wrapping or unwrapping a key sends at
  most two Transit requests and at most two logins, whatever Vault, the clock and the cached
  token are.
\<close>

theorem vault_calls_bounded:
  assumes "VaultWrap (recording E) v pt ((w, []), c) = (x, ((w1, log), c1))"
    and "VaultUnwrap (recording E) v ct ((w, []), c) = (y, ((w2, log'), c2))"
  shows "adds 2 2 [] log \<and> adds 2 2 [] log'"
proof -
  obtain r1 ww1 l1 cc1 where p1: "post (recording E) v (vkEncryptURL v) [(''plaintext'', StdEncode pt)] (decodeData ''ciphertext'') ((w, []), c)
      = (r1, ((ww1, l1), cc1))" by (metis prod.collapse)
  obtain r2 ww2 l2 cc2 where p2: "post (recording E) v (vkDecryptURL v) [(''ciphertext'', ct)] (decodeData ''plaintext'') ((w, []), c)
      = (r2, ((ww2, l2), cc2))" by (metis prod.collapse)
  have "log = l1" using assms(1) p1 by (auto simp: VaultWrap_def bindIO_def split: sum.splits if_splits)
  moreover have "log' = l2" using assms(2) p2 by (auto simp: VaultUnwrap_def bindIO_def contextIO_def split: sum.splits)
  moreover have "adds 2 2 [] l1" "adds 2 2 [] l2"
    using recorded_postAttempts [OF p1 [unfolded post_def]] recorded_postAttempts [OF p2 [unfolded post_def]]
    by (simp_all add: maxPostAttempts_def numeral_2_eq_2)
  ultimately show ?thesis by simp
qed

text \<open>A Vault that has revoked every token but the one its login hands out.\<close>

definition revokingVault :: "unit vaultEnv" where
  "revokingVault =
     \<lparr>veDo = (\<lambda>rq w.
        (Inr (if rqToken rq = None
              then (200, Inr (''{'' @ jsonQuote ''auth'' @ '':{'' @ jsonQuote ''client_token'' @ '':'' @ jsonQuote ''t2'' @ ''}}''))
              else if rqToken rq = Some ''t2''
              then (200, Inr (''{'' @ jsonQuote ''data'' @ '':{'' @ jsonQuote ''plaintext'' @ '':'' @ jsonQuote ''ZGVr'' @ ''}}''))
              else (403, Inr ''permission denied'')), w)),
      veBadURL = (\<lambda>_. None), veNow = (\<lambda>_. 0), veReadFile = (\<lambda>_. returnIO ''jwt'')\<rparr>"

definition approleKMS :: VaultKMS where
  "approleKMS = \<lparr>vkEncryptURL = ''http://vault/v1/transit/encrypt/kc'', vkDecryptURL = ''http://vault/v1/transit/decrypt/kc'',
     vkAuth = \<lparr>vaStatic = [], vaLoginFn = Some (approleLogin ''http://vault/v1/auth/approle/login'' ''role'' ''secret'')\<rparr>\<rparr>"

lemma revoking_login: "login revokingVault (approleLogin url role secret) () = (Inr \<lparr>tcToken = ''t2'', tcExpiry = None\<rparr>, ())"
proof -
  have "decodeLogin (''{'' @ jsonQuote ''auth'' @ '':{'' @ jsonQuote ''client_token'' @ '':'' @ jsonQuote ''t2'' @ ''}}'')
      = Inr \<lparr>lrToken = ''t2'', lrLease = 0\<rparr>" by code_simp
  then show ?thesis
    by (simp add: vaultLogin_def roundTrip_def revokingVault_def bindIO_def contextIO_def badStatus_def leaseExpiry_def)
qed

theorem vault_calls_bounded_witness:
  "\<exists>x y w1 w2 log log' c1 c2. VaultWrap (recording revokingVault) approleKMS ''dek'' (((), []), emptyCache) = (x, ((w1, log), c1))
     \<and> VaultUnwrap (recording revokingVault) approleKMS ''ct'' (((), []), emptyCache) = (y, ((w2, log'), c2))
     \<and> adds 2 2 [] log \<and> adds 2 2 [] log'"
  using vault_calls_bounded by (metis prod.collapse)

section \<open>Revoked tokens\<close>

text \<open>
  C25. A revoked token costs one retry, not an outage: if Vault answers 403 to a cached token
  that still looks fresh, a login succeeds and Vault answers the token it returned, then the
  unwrap itself succeeds, and the cache holds the new token afterwards.
\<close>

theorem revoked_token_replaced:
  assumes "vaLoginFn (vkAuth v) = Some fn" and "freshToken (veNow E w) c = Some old" and "veBadURL E (vkDecryptURL v) = None"
    and "veDo E \<lparr>rqURL = vkDecryptURL v, rqToken = Some old, rqBody = jsonStringMap [(''ciphertext'', ct)]\<rparr> w = (Inr (403, Inr b), w1)"
    and "login E fn w1 = (Inr c', w2)"
    and "veDo E \<lparr>rqURL = vkDecryptURL v, rqToken = Some (tcToken c'), rqBody = jsonStringMap [(''ciphertext'', ct)]\<rparr> w2
      = (Inr (status, Inr reply), w3)"
    and "\<not> badStatus status" and "decodeData ''plaintext'' reply = Inr p" and "StdDecode p = Inr pt"
  shows "VaultUnwrap E v ct (w, c) = (Inr pt, (w3, c'))"
proof -
  have old: "tcToken c = old" using assms(2) by (auto simp: freshToken_def split: if_splits)
  have t1: "currentToken E (vkAuth v) (w, c) = (Inr old, (w, c))" using assms(1,2) by (simp add: currentToken_def)
  have t2: "currentToken E (vkAuth v) (w1, emptyCache) = (Inr (tcToken c'), (w2, c'))"
    using assms(1,5) by (simp add: currentToken_def freshToken_def emptyCache_def)
  have d1: "vaultDo E (vkDecryptURL v) (jsonStringMap [(''ciphertext'', ct)]) old w = (Inr (403, b), w1)"
    and d2: "vaultDo E (vkDecryptURL v) (jsonStringMap [(''ciphertext'', ct)]) (tcToken c') w2 = (Inr (status, reply), w3)"
    using assms(3,4,6) by (simp_all add: vaultDo_def roundTrip_def bindIO_def contextIO_def)
  have "post E v (vkDecryptURL v) [(''ciphertext'', ct)] (decodeData ''plaintext'') (w, c) = (Inr p, (w3, c'))"
    using assms(1,7,8) by (simp add: post_def maxPostAttempts_def postOnce_def bindIO_def onFst_def reauth_def contextIO_def
        old t1 t2 d1 d2)
  then show ?thesis using assms(9) by (simp add: VaultUnwrap_def bindIO_def contextIO_def)
qed

theorem revoked_token_replaced_witness:
  "VaultUnwrap revokingVault approleKMS ''vault:v1:abc'' ((), \<lparr>tcToken = ''t1'', tcExpiry = None\<rparr>)
     = (Inr ''dek'', ((), \<lparr>tcToken = ''t2'', tcExpiry = None\<rparr>))"
proof -
  have d: "decodeData ''plaintext'' (''{'' @ jsonQuote ''data'' @ '':{'' @ jsonQuote ''plaintext'' @ '':'' @ jsonQuote ''ZGVr'' @ ''}}'')
      = Inr ''ZGVr''" and b: "StdDecode ''ZGVr'' = Inr ''dek''" by code_simp+
  have k: "vaLoginFn (vkAuth approleKMS) = Some (approleLogin ''http://vault/v1/auth/approle/login'' ''role'' ''secret'')"
    by (simp add: approleKMS_def)
  show ?thesis
    by (rule revoked_token_replaced [OF k _ _ _ revoking_login _ _ d b, where old = "''t1''" and status = 200])
      (simp_all add: revokingVault_def freshToken_def badStatus_def)
qed

end
