(* ===== verification/VaultLogin.thy ===== *)
theory VaultLogin
  imports Vault
begin

text \<open>
  \<^verbatim>\<open>currentToken\<close> and \<^verbatim>\<open>reauth\<close> of \<^verbatim>\<open>internal/kms/vault.go\<close> called by
  many goroutines at once. A step is one access to the cache under \<^verbatim>\<open>mu\<close>, one operation
  on \<^verbatim>\<open>loginMu\<close>, or one login call; the callers and the clock interleave freely. The
  result of a login is whatever Vault answers. Only the login modes are concerned: a static token is
  returned without touching cache or locks.
\<close>

section \<open>Callers\<close>

text \<open>Where a call of \<^verbatim>\<open>currentToken\<close> is. From \<open>Recheck\<close> to \<open>Unlocking\<close> it holds \<^verbatim>\<open>loginMu\<close>.\<close>

datatype callAt =
    Idle
  | FirstCheck
  | Trying
  | UsableCheck
  | Waiting
  | Recheck
  | LoggingIn
  | Fallback goerror
  | Storing tokenCache
  | Unlocking "string result"
  | Returned "string result"

fun holding :: "callAt \<Rightarrow> bool" where
  "holding Recheck = True"
| "holding LoggingIn = True"
| "holding (Fallback e) = True"
| "holding (Storing c) = True"
| "holding (Unlocking r) = True"
| "holding _ = False"

record tokenSys =
  tsCache :: tokenCache
  tsLock :: "nat option"
  tsNow :: int
  tsLogins :: nat
  tsCalls :: "nat \<Rightarrow> callAt"

definition moveTo :: "nat \<Rightarrow> callAt \<Rightarrow> tokenSys \<Rightarrow> tokenSys" where
  "moveTo i p s = s\<lparr>tsCalls := (tsCalls s)(i := p)\<rparr>"

definition fresh :: "tokenSys \<Rightarrow> string option" where
  "fresh s = freshToken (tsNow s) (tsCache s)"

definition usable :: "tokenSys \<Rightarrow> string option" where
  "usable s = usableToken (tsNow s) (tsCache s)"

text \<open>\<open>tsLogins\<close> counts the logins that were answered with a token.\<close>

inductive callStep :: "nat \<Rightarrow> tokenSys \<Rightarrow> tokenSys \<Rightarrow> bool" for i where
  begins: "tsCalls s i = Idle \<Longrightarrow> callStep i s (moveTo i FirstCheck s)"
| freshHit: "tsCalls s i = FirstCheck \<Longrightarrow> fresh s = Some tok \<Longrightarrow> callStep i s (moveTo i (Returned (Inr tok)) s)"
| freshMiss: "tsCalls s i = FirstCheck \<Longrightarrow> fresh s = None \<Longrightarrow> callStep i s (moveTo i Trying s)"
| tryLocks: "tsCalls s i = Trying \<Longrightarrow> tsLock s = None \<Longrightarrow> callStep i s (moveTo i Recheck s\<lparr>tsLock := Some i\<rparr>)"
| tryFails: "tsCalls s i = Trying \<Longrightarrow> tsLock s = Some j \<Longrightarrow> callStep i s (moveTo i UsableCheck s)"
| usableHit: "tsCalls s i = UsableCheck \<Longrightarrow> usable s = Some tok \<Longrightarrow> callStep i s (moveTo i (Returned (Inr tok)) s)"
| usableMiss: "tsCalls s i = UsableCheck \<Longrightarrow> usable s = None \<Longrightarrow> callStep i s (moveTo i Waiting s)"
| locks: "tsCalls s i = Waiting \<Longrightarrow> tsLock s = None \<Longrightarrow> callStep i s (moveTo i Recheck s\<lparr>tsLock := Some i\<rparr>)"
| recheckHit: "tsCalls s i = Recheck \<Longrightarrow> fresh s = Some tok \<Longrightarrow> callStep i s (moveTo i (Unlocking (Inr tok)) s)"
| recheckMiss: "tsCalls s i = Recheck \<Longrightarrow> fresh s = None \<Longrightarrow> callStep i s (moveTo i LoggingIn s)"
| loginOK: "tsCalls s i = LoggingIn \<Longrightarrow> callStep i s (moveTo i (Storing c) s\<lparr>tsLogins := Suc (tsLogins s)\<rparr>)"
| loginFails: "tsCalls s i = LoggingIn \<Longrightarrow> callStep i s (moveTo i (Fallback e) s)"
| fallbackHit: "tsCalls s i = Fallback e \<Longrightarrow> usable s = Some tok \<Longrightarrow> callStep i s (moveTo i (Unlocking (Inr tok)) s)"
| fallbackMiss: "tsCalls s i = Fallback e \<Longrightarrow> usable s = None \<Longrightarrow> callStep i s (moveTo i (Unlocking (Inl e)) s)"
| stores: "tsCalls s i = Storing c \<Longrightarrow> callStep i s (moveTo i (Unlocking (Inr (tcToken c))) s\<lparr>tsCache := c\<rparr>)"
| unlocks: "tsCalls s i = Unlocking r \<Longrightarrow> callStep i s (moveTo i (Returned r) s\<lparr>tsLock := None\<rparr>)"

text \<open>What else happens: time passes, and a caller whose token was rejected drops it.\<close>

inductive otherStep :: "tokenSys \<Rightarrow> tokenSys \<Rightarrow> bool" where
  ticks: "0 < t \<Longrightarrow> otherStep s (s\<lparr>tsNow := tsNow s + t\<rparr>)"
| rejected: "vaLoginFn a \<noteq> None \<Longrightarrow> otherStep s (s\<lparr>tsCache := fst (reauth a stale (tsCache s))\<rparr>)"
| again: "tsCalls s i = Returned r \<Longrightarrow> otherStep s (moveTo i Idle s)"

definition startCalls :: "tokenCache \<Rightarrow> int \<Rightarrow> tokenSys" where
  "startCalls c now = \<lparr>tsCache = c, tsLock = None, tsNow = now, tsLogins = 0, tsCalls = (\<lambda>_. Idle)\<rparr>"

inductive callReach :: "tokenSys \<Rightarrow> bool" where
  start: "callReach (startCalls c now)"
| call: "callReach s \<Longrightarrow> callStep i s s' \<Longrightarrow> callReach s'"
| other: "callReach s \<Longrightarrow> otherStep s s' \<Longrightarrow> callReach s'"

inductive_cases otherStepE: "otherStep s s'"

section \<open>Mutual exclusion\<close>

text \<open>The lock is held by the one caller that is between taking and releasing it.\<close>

definition lockInv :: "tokenSys \<Rightarrow> bool" where
  "lockInv s \<longleftrightarrow> (\<forall>i. holding (tsCalls s i) \<longleftrightarrow> tsLock s = Some i)"

lemma moveTo_simps [simp]:
  "tsCalls (moveTo i p s) = (tsCalls s)(i := p)" "tsLock (moveTo i p s) = tsLock s" "tsCache (moveTo i p s) = tsCache s"
  "tsNow (moveTo i p s) = tsNow s" "tsLogins (moveTo i p s) = tsLogins s"
  by (simp_all add: moveTo_def)

lemma moveTo_moveTo [simp]: "moveTo i p (moveTo i q s) = moveTo i p s"
  by (simp add: moveTo_def)

lemma moveTo_updates [simp]:
  "moveTo i p (s\<lparr>tsLock := l\<rparr>) = moveTo i p s\<lparr>tsLock := l\<rparr>" "moveTo i p (s\<lparr>tsNow := t\<rparr>) = moveTo i p s\<lparr>tsNow := t\<rparr>"
  "moveTo i p (s\<lparr>tsCache := c\<rparr>) = moveTo i p s\<lparr>tsCache := c\<rparr>"
  "moveTo i p (s\<lparr>tsLogins := k\<rparr>) = moveTo i p s\<lparr>tsLogins := k\<rparr>"
  by (cases s; simp add: moveTo_def)+

lemma fresh_moveTo [simp]: "fresh (moveTo i p s) = fresh s" "usable (moveTo i p s) = usable s"
  by (simp_all add: fresh_def usable_def)

lemma lockInv_holder: "lockInv s \<Longrightarrow> holding (tsCalls s i) \<Longrightarrow> tsLock s = Some i"
  by (simp add: lockInv_def)

lemma lockInv_moveTo: "lockInv s \<Longrightarrow> holding p = holding (tsCalls s i) \<Longrightarrow> lockInv (moveTo i p s)"
  by (simp add: lockInv_def)

lemma lockInv_irrelevant [simp]:
  "lockInv (s\<lparr>tsCache := c\<rparr>) = lockInv s" "lockInv (s\<lparr>tsNow := t\<rparr>) = lockInv s" "lockInv (s\<lparr>tsLogins := n\<rparr>) = lockInv s"
  by (simp_all add: lockInv_def)

lemma lockInv_acquired:
  "lockInv s \<Longrightarrow> tsLock s = None \<Longrightarrow> holding p \<Longrightarrow> lockInv (moveTo i p s\<lparr>tsLock := Some i\<rparr>)"
  by (auto simp: lockInv_def)

lemma lockInv_released:
  assumes "lockInv s" "holding (tsCalls s i)" "\<not> holding p"
  shows "lockInv (moveTo i p s\<lparr>tsLock := None\<rparr>)"
  using assms lockInv_holder [OF assms(1,2)] by (auto simp: lockInv_def)

lemma lockInv_call: "callStep i s s' \<Longrightarrow> lockInv s \<Longrightarrow> lockInv s'"
  by (induction rule: callStep.induct) (simp_all add: lockInv_moveTo lockInv_acquired lockInv_released)

lemma lockInv_other: "otherStep s s' \<Longrightarrow> lockInv s \<Longrightarrow> lockInv s'"
  by (induction rule: otherStep.induct) (simp_all add: lockInv_moveTo)

lemma lockInv_start [simp]: "lockInv (startCalls c now)"
  by (simp add: lockInv_def startCalls_def)

lemma lockInv_reach: "callReach s \<Longrightarrow> lockInv s"
  by (induction rule: callReach.induct) (auto intro: lockInv_call lockInv_other)

section \<open>Every call returns\<close>

text \<open>How many steps a call has left at most, and that each of its steps lowers it.\<close>

fun stepsLeft :: "callAt \<Rightarrow> nat" where
  "stepsLeft Idle = 9"
| "stepsLeft FirstCheck = 8"
| "stepsLeft Trying = 7"
| "stepsLeft UsableCheck = 6"
| "stepsLeft Waiting = 5"
| "stepsLeft Recheck = 4"
| "stepsLeft LoggingIn = 3"
| "stepsLeft (Fallback e) = 2"
| "stepsLeft (Storing c) = 2"
| "stepsLeft (Unlocking r) = 1"
| "stepsLeft (Returned r) = 0"

lemma stepsLeft_le: "stepsLeft p \<le> 9"
  by (cases p) auto

lemma stepsLeft_call: "callStep i s s' \<Longrightarrow> stepsLeft (tsCalls s' i) < stepsLeft (tsCalls s i)"
  by (induction rule: callStep.induct) auto

lemma others_unmoved: "callStep i s s' \<Longrightarrow> j \<noteq> i \<Longrightarrow> tsCalls s' j = tsCalls s j"
  by (induction rule: callStep.induct) auto

lemma call_moves:
  assumes "\<forall>r. tsCalls s i \<noteq> Returned r" and "tsCalls s i = Waiting \<longrightarrow> tsLock s = None"
  shows "\<exists>s'. callStep i s s'"
proof (cases "tsCalls s i")
  case FirstCheck
  then show ?thesis by (cases "fresh s") (auto intro: callStep.intros)
next
  case Trying
  then show ?thesis by (cases "tsLock s") (auto intro: callStep.intros)
next
  case UsableCheck
  then show ?thesis by (cases "usable s") (auto intro: callStep.intros)
next
  case Recheck
  then show ?thesis by (cases "fresh s") (auto intro: callStep.intros)
next
  case (Fallback e)
  then show ?thesis by (cases "usable s") (auto intro: callStep.intros)
qed (use assms in \<open>auto intro: callStep.intros\<close>)

text \<open>
  A schedule: \<open>k\<close> steps of the callers below \<open>n\<close> in any order, with time passing and tokens being
  rejected in between.
\<close>

inductive sched :: "nat \<Rightarrow> nat \<Rightarrow> tokenSys \<Rightarrow> tokenSys \<Rightarrow> bool" for n where
  nil: "sched n 0 s s"
| call: "sched n k s s' \<Longrightarrow> i < n \<Longrightarrow> callStep i s' s'' \<Longrightarrow> sched n (Suc k) s s''"
| other: "sched n k s s' \<Longrightarrow> otherStep s' s'' \<Longrightarrow> tsCalls s'' = tsCalls s' \<Longrightarrow> sched n k s s''"

definition workLeft :: "nat \<Rightarrow> tokenSys \<Rightarrow> nat" where
  "workLeft n s = (\<Sum>i<n. stepsLeft (tsCalls s i))"

lemma workLeft_call:
  assumes "callStep i s s'" "i < n"
  shows "workLeft n s' < workLeft n s"
  unfolding workLeft_def
proof (rule sum_strict_mono_ex1)
  show "\<forall>j\<in>{..<n}. stepsLeft (tsCalls s' j) \<le> stepsLeft (tsCalls s j)"
    using stepsLeft_call [OF assms(1)] others_unmoved [OF assms(1)] by (metis nat_less_le order_refl)
qed (use assms stepsLeft_call in auto)

lemma sched_lockInv: "sched n k s s' \<Longrightarrow> lockInv s \<Longrightarrow> lockInv s'"
  by (induction rule: sched.induct) (auto intro: lockInv_call lockInv_other)

lemma sched_others: "sched n k s s' \<Longrightarrow> n \<le> j \<Longrightarrow> tsCalls s' j = tsCalls s j"
proof (induction rule: sched.induct)
  case (call k s s' i s'')
  then show ?case using others_unmoved [of i s' s'' j] by auto
qed auto

lemma sched_work: "sched n k s s' \<Longrightarrow> k + workLeft n s' \<le> workLeft n s"
  by (induction rule: sched.induct) (auto dest: workLeft_call simp: workLeft_def)

lemma workLeft_le: "workLeft n s \<le> 9 * n"
proof -
  have "workLeft n s \<le> (\<Sum>i<n. 9)" unfolding workLeft_def by (rule sum_mono) (rule stepsLeft_le)
  then show ?thesis by simp
qed

lemma no_deadlock:
  assumes "lockInv s" and "\<And>j. n \<le> j \<Longrightarrow> \<not> holding (tsCalls s j)"
    and stuck: "\<And>i s'. i < n \<Longrightarrow> \<not> callStep i s s'" and "i < n"
  shows "\<exists>r. tsCalls s i = Returned r"
proof -
  have free: "tsLock s = None"
  proof (rule ccontr)
    assume "tsLock s \<noteq> None"
    then obtain j where j: "holding (tsCalls s j)" using assms(1) by (auto simp: lockInv_def)
    then have "\<exists>s'. callStep j s s'" by (intro call_moves) auto
    then show False using stuck [of j] assms(2) [of j] j by (meson not_le)
  qed
  then show ?thesis using call_moves [of s i] stuck [OF \<open>i < n\<close>] by blast
qed

text \<open>
  C26. Mutual exclusion and progress of \<^verbatim>\<open>currentToken\<close> under any number of concurrent callers, in every
  reachable state and whatever the clock, the rejections by Vault and the login answers do: at most one
  caller is between taking and releasing \<^verbatim>\<open>loginMu\<close>, in particular at most one login is in flight; a
  schedule of \<open>n\<close> callers takes at most \<open>9 * n\<close> steps, with no fairness assumed; and it can only
  stop once every one of them has returned, so the try-lock, the lock and the early returns under it
  neither deadlock nor leave the lock taken.
\<close>

theorem token_calls_return:
  assumes "callReach s" and "\<And>j. n \<le> j \<Longrightarrow> tsCalls s j = Idle" and "sched n k s s'"
  shows "(\<forall>i j. holding (tsCalls s' i) \<longrightarrow> holding (tsCalls s' j) \<longrightarrow> i = j) \<and> k \<le> 9 * n
     \<and> ((\<forall>i<n. \<forall>s''. \<not> callStep i s' s'') \<longrightarrow> tsLock s' = None \<and> (\<forall>i<n. \<exists>r. tsCalls s' i = Returned r))"
proof (intro conjI allI impI)
  have inv: "lockInv s'" by (rule sched_lockInv [OF assms(3) lockInv_reach [OF assms(1)]])
  then show "i = j" if "holding (tsCalls s' i)" "holding (tsCalls s' j)" for i j
    using lockInv_holder [OF inv that(1)] lockInv_holder [OF inv that(2)] by simp
  show "k \<le> 9 * n" using sched_work [OF assms(3)] workLeft_le [of n s] by linarith
  have idle: "\<not> holding (tsCalls s' j)" if "n \<le> j" for j using sched_others [OF assms(3) that] assms(2) [OF that] by simp
  assume stuck: "\<forall>i<n. \<forall>s''. \<not> callStep i s' s''"
  show all: "\<exists>r. tsCalls s' i = Returned r" if "i < n" for i
    by (rule no_deadlock [OF inv idle _ that]) (use stuck in auto)
  have "\<not> holding (tsCalls s' i)" for i using idle [of i] all [of i] by (cases "i < n") auto
  then show "tsLock s' = None" using inv by (cases "tsLock s'") (auto simp: lockInv_def)
qed

text \<open>Two callers: the first has taken the lock, the second found it taken.\<close>

definition twoCallers :: "callAt \<Rightarrow> callAt \<Rightarrow> tokenSys" where
  "twoCallers p q = (startCalls emptyCache 0)\<lparr>tsCalls := (\<lambda>_. Idle)(0 := p, 1 := q)\<rparr>"

lemma twoCallers_sched: "sched 2 6 (twoCallers Idle Idle) ((twoCallers Recheck UsableCheck)\<lparr>tsLock := Some 0\<rparr>)"
proof -
  have m: "moveTo 0 p' (twoCallers p q) = twoCallers p' q" "moveTo (Suc 0) q' (twoCallers p q) = twoCallers p q'" for p q p' q'
    by (simp_all add: moveTo_def twoCallers_def fun_upd_twist)
  have at: "tsCalls (twoCallers p q) 0 = p" "tsCalls (twoCallers p q) (Suc 0) = q" "tsLock (twoCallers p q) = None" "fresh (twoCallers p q) = None" for p q
    by (simp_all add: twoCallers_def startCalls_def fresh_def freshToken_def emptyCache_def)
  have c: "callStep 0 (twoCallers Idle Idle) (twoCallers FirstCheck Idle)"
      "callStep 1 (twoCallers FirstCheck Idle) (twoCallers FirstCheck FirstCheck)"
      "callStep 0 (twoCallers FirstCheck FirstCheck) (twoCallers Trying FirstCheck)"
      "callStep 1 (twoCallers Trying FirstCheck) (twoCallers Trying Trying)"
      "callStep 0 (twoCallers Trying Trying) ((twoCallers Recheck Trying)\<lparr>tsLock := Some 0\<rparr>)"
      "callStep 1 ((twoCallers Recheck Trying)\<lparr>tsLock := Some 0\<rparr>) ((twoCallers Recheck UsableCheck)\<lparr>tsLock := Some 0\<rparr>)"
    using begins [of "twoCallers Idle Idle" 0] begins [of "twoCallers FirstCheck Idle" 1]
      freshMiss [of "twoCallers FirstCheck FirstCheck" 0] freshMiss [of "twoCallers Trying FirstCheck" 1]
      tryLocks [of "twoCallers Trying Trying" 0] tryFails [of "(twoCallers Recheck Trying)\<lparr>tsLock := Some 0\<rparr>" 1 0]
    by (simp_all add: at m)
  have "sched 2 (Suc (Suc (Suc (Suc (Suc (Suc 0)))))) (twoCallers Idle Idle) ((twoCallers Recheck UsableCheck)\<lparr>tsLock := Some 0\<rparr>)"
    by (rule sched.call [OF sched.call [OF sched.call [OF sched.call [OF sched.call [OF sched.call [OF sched.nil
      _ c(1)] _ c(2)] _ c(3)] _ c(4)] _ c(5)] _ c(6)]) simp_all
  then show ?thesis by (simp add: eval_nat_numeral)
qed

theorem token_calls_return_witness:
  "sched 2 6 (twoCallers Idle Idle) ((twoCallers Recheck UsableCheck)\<lparr>tsLock := Some 0\<rparr>)
   \<and> {j. holding (tsCalls ((twoCallers Recheck UsableCheck)\<lparr>tsLock := Some 0\<rparr>) j)} = {0} \<and> 6 \<le> 9 * (2 :: nat)"
proof -
  have s: "twoCallers Idle Idle = startCalls emptyCache 0" by (simp add: twoCallers_def startCalls_def fun_upd_idem)
  have r: "callReach (twoCallers Idle Idle)" unfolding s by (rule callReach.start)
  have i: "\<And>j. 2 \<le> j \<Longrightarrow> tsCalls (twoCallers Idle Idle) j = Idle" by (simp add: twoCallers_def)
  have h: "holding (tsCalls ((twoCallers Recheck UsableCheck)\<lparr>tsLock := Some 0\<rparr>) 0)" by (simp add: twoCallers_def)
  show ?thesis using token_calls_return [OF r i twoCallers_sched] twoCallers_sched h by blast
qed

section \<open>One login for all\<close>

text \<open>
  A quiet period: callers run, each login is answered with a token that is fresh at that moment, and no
  time passes that would matter.
\<close>

inductive quietRun :: "tokenSys \<Rightarrow> tokenSys \<Rightarrow> bool" where
  nil: "quietRun s s"
| step: "quietRun s s' \<Longrightarrow> callStep i s' s'' \<Longrightarrow> \<forall>e. tsCalls s'' i \<noteq> Fallback e \<Longrightarrow>
    \<forall>c. tsCalls s'' i = Storing c \<longrightarrow> freshToken (tsNow s'') c \<noteq> None \<Longrightarrow> quietRun s s''"

text \<open>
  What holds throughout. A result is a token that was usable at the start or the one the login obtained.
  Before the login the cache is the initial one; after it the token is with the one that logged in, or
  in the cache and fresh.
\<close>

definition got :: "tokenCache \<Rightarrow> tokenSys \<Rightarrow> string result \<Rightarrow> bool" where
  "got c s r \<longleftrightarrow> (\<exists>tok. r = Inr tok \<and> (usableToken (tsNow s) c = Some tok \<or> tsLogins s = 1 \<and> fresh s = Some tok))"

fun calm :: "tokenCache \<Rightarrow> tokenSys \<Rightarrow> callAt \<Rightarrow> bool" where
  "calm c s (Fallback e) = False"
| "calm c s LoggingIn = (tsLogins s = 0 \<and> freshToken (tsNow s) c = None)"
| "calm c s (Storing d) = (tsLogins s = 1 \<and> tsCache s = c \<and> freshToken (tsNow s) d \<noteq> None)"
| "calm c s (Unlocking r) = got c s r"
| "calm c s (Returned r) = got c s r"
| "calm c s _ = True"

definition flightInv :: "tokenCache \<Rightarrow> tokenSys \<Rightarrow> bool" where
  "flightInv c s \<longleftrightarrow> lockInv s \<and> (\<forall>i. calm c s (tsCalls s i))
     \<and> (tsLogins s = 0 \<and> tsCache s = c
        \<or> tsLogins s = 1 \<and> freshToken (tsNow s) c = None \<and> (tsCache s = c \<and> (\<exists>i d. tsCalls s i = Storing d) \<or> fresh s \<noteq> None))"

lemma lockInv_unique: "lockInv s \<Longrightarrow> holding (tsCalls s i) \<Longrightarrow> holding (tsCalls s j) \<Longrightarrow> i = j"
  by (metis lockInv_holder option.inject)

lemma fresh_usable: "freshToken now c = Some tok \<Longrightarrow> usableToken now c = Some tok"
  by (auto simp: freshToken_def usableToken_def renewSkew_def secondNs_def split: if_splits option.splits)

lemma freshToken_cached: "freshToken now c = Some tok \<Longrightarrow> tok = tcToken c"
  by (simp add: freshToken_def split: if_splits)

lemma usableToken_cached: "usableToken now c = Some tok \<Longrightarrow> tok = tcToken c"
  by (simp add: usableToken_def split: if_splits)

lemma calm_cong:
  assumes "tsLogins s' = tsLogins s" "tsCache s' = tsCache s" "tsNow s' = tsNow s"
  shows "calm c s' p = calm c s p"
  using assms by (cases p) (auto simp: got_def fresh_def)

text \<open>A hit in the cache is a token the invariant allows as a result.\<close>

lemma flight_fresh: "flightInv c s \<Longrightarrow> fresh s = Some tok \<Longrightarrow> got c s (Inr tok)"
  by (auto simp: flightInv_def got_def fresh_def dest: fresh_usable)

lemma flight_usable: "flightInv c s \<Longrightarrow> usable s = Some tok \<Longrightarrow> got c s (Inr tok)"
  by (auto simp: flightInv_def got_def fresh_def usable_def dest: freshToken_cached usableToken_cached)

text \<open>A step that only moves the caller keeps the invariant when the new place is allowed.\<close>

lemma flight_moveTo:
  assumes "flightInv c s" "calm c s p" "\<forall>d. tsCalls s i \<noteq> Storing d" "lockInv (moveTo i p s\<lparr>tsLock := l\<rparr>)"
  shows "flightInv c (moveTo i p s\<lparr>tsLock := l\<rparr>)"
  using assms unfolding flightInv_def
  by (auto simp: calm_cong [of "moveTo i p s\<lparr>tsLock := l\<rparr>" s] fresh_def)

lemma flight_move:
  assumes "flightInv c s" "calm c s p" "\<forall>d. tsCalls s i \<noteq> Storing d" "holding p = holding (tsCalls s i)"
  shows "flightInv c (moveTo i p s)"
  using flight_moveTo [OF assms(1-3), of "tsLock s"] lockInv_moveTo [of s p i] assms(1,4)
  by (simp add: flightInv_def moveTo_def)

lemma flight_login:
  assumes "flightInv c s" "tsCalls s i = LoggingIn" "freshToken (tsNow s) d \<noteq> None"
  shows "flightInv c (moveTo i (Storing d) s\<lparr>tsLogins := Suc (tsLogins s)\<rparr>)"
proof -
  let ?s = "moveTo i (Storing d) s\<lparr>tsLogins := Suc (tsLogins s)\<rparr>"
  have inv: "lockInv s" and calm: "\<And>j. calm c s (tsCalls s j)" using assms(1) by (auto simp: flightInv_def)
  have first: "tsLogins s = 0" "freshToken (tsNow s) c = None" using calm [of i] assms(2) by simp_all
  have cache: "tsCache s = c" using assms(1) first by (simp add: flightInv_def)
  have "calm c ?s (tsCalls s j)" if "j \<noteq> i" for j
    using calm [of j] lockInv_unique [OF inv, of j i] that assms(2) first
    by (cases "tsCalls s j") (auto simp: got_def)
  then show ?thesis using assms cache first lockInv_moveTo [OF inv, of "Storing d" i] by (auto simp: flightInv_def)
qed

lemma flight_store:
  assumes "flightInv c s" "tsCalls s i = Storing d"
  shows "flightInv c (moveTo i (Unlocking (Inr (tcToken d))) s\<lparr>tsCache := d\<rparr>)"
proof -
  let ?s = "moveTo i (Unlocking (Inr (tcToken d))) s\<lparr>tsCache := d\<rparr>"
  have inv: "lockInv s" and calm: "\<And>j. calm c s (tsCalls s j)" using assms(1) by (auto simp: flightInv_def)
  have d: "tsLogins s = 1" "tsCache s = c" "freshToken (tsNow s) d = Some (tcToken d)"
    using calm [of i] assms(2) freshToken_cached by auto
  then have stale: "freshToken (tsNow s) c = None" using assms(1) by (simp add: flightInv_def)
  have "calm c ?s (tsCalls s j)" if "j \<noteq> i" for j
    using calm [of j] lockInv_unique [OF inv, of j i] that assms(2) d fresh_usable
    by (cases "tsCalls s j") (auto simp: got_def fresh_def)
  moreover have "calm c ?s (Unlocking (Inr (tcToken d)))" using d by (simp add: got_def fresh_def)
  ultimately show ?thesis using d stale lockInv_moveTo [OF inv, of "Unlocking (Inr (tcToken d))" i] assms(2)
    by (auto simp: flightInv_def fresh_def)
qed

lemma flight_recheck:
  assumes "flightInv c s" "tsCalls s i = Recheck" "fresh s = None"
  shows "calm c s LoggingIn"
proof -
  have "tsCalls s j \<noteq> Storing d" for j d
    using lockInv_unique [of s i j] assms(1,2) by (auto simp: flightInv_def)
  then show ?thesis using assms by (auto simp: flightInv_def fresh_def)
qed

lemma flight_call:
  assumes "callStep i s s'" "flightInv c s" "\<forall>e. tsCalls s' i \<noteq> Fallback e"
    and "\<forall>d. tsCalls s' i = Storing d \<longrightarrow> freshToken (tsNow s') d \<noteq> None"
  shows "flightInv c s'"
proof -
  have inv: "lockInv s" and calm: "\<And>j. calm c s (tsCalls s j)" using assms(2) by (auto simp: flightInv_def)
  from assms(1) show ?thesis
  proof cases
    case tryLocks
    then show ?thesis using flight_moveTo [OF assms(2)] lockInv_acquired [OF inv] by simp
  next
    case locks
    then show ?thesis using flight_moveTo [OF assms(2)] lockInv_acquired [OF inv] by simp
  next
    case (unlocks r)
    then show ?thesis using flight_moveTo [OF assms(2)] lockInv_released [OF inv] calm [of i] by simp
  next
    case recheckMiss
    then show ?thesis using flight_move [OF assms(2)] flight_recheck [OF assms(2)] by simp
  next
    case (loginOK d)
    then show ?thesis using flight_login [OF assms(2)] assms(4) by simp
  next
    case (stores d)
    then show ?thesis using flight_store [OF assms(2)] by simp
  next
    case (fallbackHit e)
    then show ?thesis using calm [of i] by simp
  next
    case (fallbackMiss e)
    then show ?thesis using calm [of i] by simp
  qed (use assms(3) in \<open>auto intro!: flight_move [OF assms(2)] intro: flight_fresh [OF assms(2)] flight_usable [OF assms(2)]\<close>)
qed

lemma flight_run: "quietRun s s' \<Longrightarrow> flightInv c s \<Longrightarrow> flightInv c s'"
  by (induction rule: quietRun.induct) (auto intro: flight_call)

lemma flight_start: "flightInv c (startCalls c now)"
  using lockInv_start [of c now] by (simp add: flightInv_def startCalls_def)

lemma quiet_now: "quietRun s s' \<Longrightarrow> tsNow s' = tsNow s"
proof (induction rule: quietRun.induct)
  case (step s s' i s'')
  then show ?case by (auto elim: callStep.cases)
qed simp

text \<open>
  C27. Logins are shared: however many goroutines ask for a token at once and however they interleave,
  while logins answer with a fresh token there is at most one login, none at all if the cached token was
  still fresh, and every call that returned got a token: one that was usable when the period began, or
  the one the login obtained, which is then the cached one.
\<close>

theorem single_flight:
  assumes "quietRun (startCalls c now) s"
  shows "tsLogins s \<le> 1 \<and> (freshToken now c \<noteq> None \<longrightarrow> tsLogins s = 0)
     \<and> (\<forall>i r. tsCalls s i = Returned r \<longrightarrow>
          (\<exists>tok. r = Inr tok \<and> (usableToken now c = Some tok \<or> tsLogins s = 1 \<and> freshToken now (tsCache s) = Some tok)))"
proof (intro conjI allI impI)
  have inv: "flightInv c s" by (rule flight_run [OF assms flight_start])
  have now: "tsNow s = now" using quiet_now [OF assms] by (simp add: startCalls_def)
  show "tsLogins s \<le> 1" using inv by (auto simp: flightInv_def)
  show "\<exists>tok. r = Inr tok \<and> (usableToken now c = Some tok \<or> tsLogins s = 1 \<and> freshToken now (tsCache s) = Some tok)"
    if "tsCalls s i = Returned r" for i r
  proof -
    have "calm c s (tsCalls s i)" using inv by (simp add: flightInv_def)
    then show ?thesis using that now by (simp add: got_def fresh_def)
  qed
  show "tsLogins s = 0" if "freshToken now c \<noteq> None" using inv now that by (auto simp: flightInv_def)
qed

theorem single_flight_witness:
  "\<exists>s. quietRun (startCalls emptyCache 0) s \<and> tsCalls s 0 = LoggingIn \<and> tsLogins s \<le> 1"
proof -
  let ?z = "startCalls emptyCache 0"
  have z: "fresh ?z = None" "tsCalls ?z 0 = Idle" "tsLock ?z = None"
    by (simp_all add: startCalls_def fresh_def freshToken_def emptyCache_def)
  have "quietRun ?z (moveTo 0 FirstCheck ?z)" by (rule quietRun.step [OF quietRun.nil begins]) (simp_all add: z)
  then have "quietRun ?z (moveTo 0 Trying ?z)" using quietRun.step [OF _ freshMiss, of ?z _ 0] z by fastforce
  then have "quietRun ?z (moveTo 0 Recheck ?z\<lparr>tsLock := Some 0\<rparr>)" using quietRun.step [OF _ tryLocks, of ?z _ 0] z by fastforce
  then have "quietRun ?z (moveTo 0 LoggingIn ?z\<lparr>tsLock := Some 0\<rparr>)"
    using quietRun.step [OF _ recheckMiss, of ?z _ 0] z by (fastforce simp: fresh_def)
  moreover from this have "tsLogins (moveTo 0 LoggingIn ?z\<lparr>tsLock := Some 0\<rparr>) \<le> 1" using single_flight by blast
  ultimately show ?thesis by (intro exI [of _ "moveTo 0 LoggingIn ?z\<lparr>tsLock := Some 0\<rparr>"]) simp
qed

section \<open>A usable token is served at once\<close>

text \<open>
  A call that finds a login in flight and the cached token still usable returns that token by steps of
  its own, at most four: it never waits for the login.
\<close>

theorem usable_not_blocked:
  assumes "tsCalls s i = Idle" "usable s = Some tok" "tsLock s = Some j"
  shows "\<exists>k\<le>4. \<exists>s'. (callStep i ^^ k) s s' \<and> tsCalls s' i = Returned (Inr tok) \<and> tsCache s' = tsCache s \<and> tsLock s' = Some j"
proof -
  let ?at = "\<lambda>p. moveTo i p s"
  have s1: "callStep i s (?at FirstCheck)" by (rule begins [OF assms(1)])
  show ?thesis
  proof (cases "fresh s")
    case None
    have s2: "callStep i (?at FirstCheck) (?at Trying)" using freshMiss [of "?at FirstCheck" i] None by simp
    have s3: "callStep i (?at Trying) (?at UsableCheck)" using tryFails [of "?at Trying" i j] assms(3) by simp
    have "callStep i (?at UsableCheck) (?at (Returned (Inr tok)))" using usableHit [of "?at UsableCheck" i tok] assms(2) by simp
    then have "(callStep i ^^ 4) s (?at (Returned (Inr tok)))"
      using s1 s2 s3 by (auto simp: eval_nat_numeral intro!: relcomppI)
    then show ?thesis using assms(3) by (metis fun_upd_same moveTo_simps(1-3) order_refl)
  next
    case (Some tok')
    then have "tok' = tok" using assms(2) by (auto simp: fresh_def usable_def dest: freshToken_cached usableToken_cached)
    then have "callStep i (?at FirstCheck) (?at (Returned (Inr tok)))" using freshHit [of "?at FirstCheck" i tok] Some by simp
    then have "(callStep i ^^ 2) s (?at (Returned (Inr tok)))" using s1 by (auto simp: eval_nat_numeral)
    then show ?thesis using assms(3) by (intro exI [of _ 2]) (auto intro!: exI [of _ "?at (Returned (Inr tok))"])
  qed
qed

section \<open>The sequential function is one of the runs\<close>

text \<open>
  A call that meets no other runs exactly as \<open>currentToken\<close> does: its steps, with the time the login
  takes, lead to the result and the cache the function computes.
\<close>

definition alone :: "nat \<Rightarrow> tokenSys \<Rightarrow> tokenSys \<Rightarrow> bool" where
  "alone i s s' \<longleftrightarrow> callStep i s s' \<or> (\<exists>t>0. s' = s\<lparr>tsNow := tsNow s + t\<rparr>)"

lemma alone_waits:
  assumes "tsNow s \<le> t"
  shows "(alone i)\<^sup>*\<^sup>* s (s\<lparr>tsNow := t\<rparr>)"
proof (cases "tsNow s = t")
  case False
  then have "alone i s (s\<lparr>tsNow := t\<rparr>)" using assms by (auto simp: alone_def intro!: exI [of _ "t - tsNow s"])
  then show ?thesis by simp
qed (auto intro: back_subst [of "(alone i)\<^sup>*\<^sup>* s"])

lemma alone_step: "(alone i)\<^sup>*\<^sup>* s s' \<Longrightarrow> callStep i s' s'' \<Longrightarrow> (alone i)\<^sup>*\<^sup>* s s''"
  by (auto simp: alone_def elim: rtranclp.rtrancl_into_rtrancl)

text \<open>The run up to the answer of the login, and the two ways it goes on.\<close>

lemma alone_login:
  assumes "tsCalls s i = Idle" "tsLock s = None" "fresh s = None" "tsNow s \<le> t"
  shows "(alone i)\<^sup>*\<^sup>* s (moveTo i LoggingIn s\<lparr>tsLock := Some i, tsNow := t\<rparr>)"
proof -
  let ?l = "moveTo i LoggingIn s\<lparr>tsLock := Some i\<rparr>"
  have s1: "(alone i)\<^sup>*\<^sup>* s (moveTo i FirstCheck s)" using begins assms(1) by (auto simp: alone_def)
  have s2: "(alone i)\<^sup>*\<^sup>* s (moveTo i Trying s)" using alone_step [OF s1 freshMiss] assms(3) by simp
  have s3: "(alone i)\<^sup>*\<^sup>* s (moveTo i Recheck s\<lparr>tsLock := Some i\<rparr>)" using alone_step [OF s2 tryLocks] assms(2) by simp
  have "(alone i)\<^sup>*\<^sup>* s ?l"
    using alone_step [OF s3 recheckMiss] assms(3) by (simp add: fresh_def)
  moreover have "(alone i)\<^sup>*\<^sup>* ?l (?l\<lparr>tsNow := t\<rparr>)" by (rule alone_waits) (simp add: assms(4))
  ultimately show ?thesis by simp
qed

theorem currentToken_is_a_run:
  assumes "vaLoginFn a = Some fn" and "\<And>w x w'. login E fn w = (x, w') \<Longrightarrow> veNow E w \<le> veNow E w'"
    and "currentToken E a (w, tsCache s) = (r, (w', c'))"
    and "tsNow s = veNow E w" "tsCalls s i = Idle" "tsLock s = None"
  shows "\<exists>s'. (alone i)\<^sup>*\<^sup>* s s' \<and> tsCalls s' i = Returned r \<and> tsCache s' = c' \<and> tsLock s' = None \<and> tsNow s' = veNow E w'"
proof (cases "fresh s")
  case (Some tok)
  have s1: "(alone i)\<^sup>*\<^sup>* s (moveTo i FirstCheck s)" using begins assms(5) by (auto simp: alone_def)
  have "(alone i)\<^sup>*\<^sup>* s (moveTo i (Returned (Inr tok)) s)" using alone_step [OF s1 freshHit] Some by simp
  moreover have "r = Inr tok" "w' = w" "c' = tsCache s" using assms(1,3,4) Some by (auto simp: currentToken_def fresh_def)
  ultimately show ?thesis using assms(4,6) by (intro exI [of _ "moveTo i (Returned (Inr tok)) s"]) simp
next
  case None
  obtain x v where l: "login E fn w = (x, v)" by fastforce
  let ?now = "\<lambda>p. moveTo i p s\<lparr>tsLock := Some i, tsNow := veNow E v\<rparr>"
  have run: "(alone i)\<^sup>*\<^sup>* s (?now LoggingIn)" using alone_login None assms(2) [OF l] assms(4-6) by simp
  have cur: "currentToken E a (w, tsCache s) = (case x of
      Inr c \<Rightarrow> (Inr (tcToken c), (v, c))
    | Inl e \<Rightarrow> (case usableToken (veNow E v) (tsCache s) of Some tok \<Rightarrow> Inr tok | None \<Rightarrow> Inl e, (v, tsCache s)))"
    using assms(1,4) None l by (auto simp: currentToken_def fresh_def split: sum.split option.split)
  show ?thesis
  proof (cases x)
    case (Inl e)
    have u: "usable (?now (Fallback e)) = usableToken (veNow E v) (tsCache s)" by (simp add: usable_def)
    have f: "(alone i)\<^sup>*\<^sup>* s (?now (Fallback e))" using alone_step [OF run loginFails] by simp
    have "(alone i)\<^sup>*\<^sup>* s (?now (Unlocking r))"
      using alone_step [OF f fallbackHit] alone_step [OF f fallbackMiss] assms(3) cur Inl u by (auto split: option.splits)
    then have "(alone i)\<^sup>*\<^sup>* s (?now (Returned r)\<lparr>tsLock := None\<rparr>)" using alone_step [OF _ unlocks] by fastforce
    then show ?thesis using assms(3) cur Inl by (intro exI [of _ "?now (Returned r)\<lparr>tsLock := None\<rparr>"]) simp
  next
    case (Inr c)
    let ?fin = "?now (Returned r)\<lparr>tsLogins := Suc (tsLogins s), tsCache := c, tsLock := None\<rparr>"
    have f: "(alone i)\<^sup>*\<^sup>* s (?now (Storing c)\<lparr>tsLogins := Suc (tsLogins s)\<rparr>)" using alone_step [OF run loginOK] by simp
    have "(alone i)\<^sup>*\<^sup>* s (?now (Unlocking r)\<lparr>tsLogins := Suc (tsLogins s), tsCache := c\<rparr>)"
      using alone_step [OF f stores] assms(3) cur Inr by auto
    then have "(alone i)\<^sup>*\<^sup>* s ?fin" using alone_step [OF _ unlocks] by fastforce
    then show ?thesis using assms(3) cur Inr by (intro exI [of _ ?fin]) simp
  qed
qed

end
