(* ===== verification/Scram.thy ===== *)
theory Scram
  imports Base64 Sha256
begin

text \<open>
  \<^verbatim>\<open>internal/wire/scram.go\<close> and \<^verbatim>\<open>scram_client.go\<close>: the two sides of
  SCRAM-SHA-256. A party is a record of its fields; each operation takes the party and
  returns the party it leaves and a result. The nonce a party draws is the argument
  \<open>drawn\<close>, what its nonce function returns.

  The key derivation \<^verbatim>\<open>pbkdf2.Key\<close> is third-party code and the argument
  \<open>kdf\<close> of password, salt, iteration count and length; nothing is assumed of it.
\<close>

type_synonym kdf = "bytes \<Rightarrow> bytes \<Rightarrow> int \<Rightarrow> nat \<Rightarrow> bytes"

section \<open>Keys\<close>

definition saltedPassword :: "kdf \<Rightarrow> string \<Rightarrow> bytes \<Rightarrow> int \<Rightarrow> bytes" where
  "saltedPassword kdf password salt iterations = kdf password salt iterations 32"

definition scramHMAC :: "bytes \<Rightarrow> bytes \<Rightarrow> bytes" where
  "scramHMAC key data = hmacSHA256 key data"

definition scramH :: "bytes \<Rightarrow> bytes" where
  "scramH data = sha256 data"

text \<open>Both callers pass operands of equal length.\<close>

definition xorBytes :: "bytes \<Rightarrow> bytes \<Rightarrow> bytes" where
  "xorBytes a b = map2 xorByte a b"

definition randomNonce :: "bytes result \<Rightarrow> string result" where
  "randomNonce raw =
     (case raw of Inl err \<Rightarrow> Inl (wrapErr ''scram: nonce: '' err []) | Inr b \<Rightarrow> Inr (RawStdEncode b))"

definition nonceBytes :: nat where "nonceBytes = 18"

record ScramVerifier =
  svSalt :: bytes
  svIterations :: int
  svStoredKey :: bytes
  svServerKey :: bytes

definition MakeScramVerifier :: "kdf \<Rightarrow> string \<Rightarrow> bytes \<Rightarrow> int \<Rightarrow> ScramVerifier" where
  "MakeScramVerifier kdf password salt iterations =
     (let salted = saltedPassword kdf password salt iterations;
          clientKey = scramHMAC salted ''Client Key''
      in \<lparr>svSalt = salt, svIterations = iterations, svStoredKey = scramH clientKey,
          svServerKey = scramHMAC salted ''Server Key''\<rparr>)"

section \<open>Names and messages\<close>

definition encodeSaslName :: "string \<Rightarrow> string" where
  "encodeSaslName s = ReplaceAll (ReplaceAll s ''='' ''=3D'') '','' ''=2C''"

definition decodeSaslName :: "string \<Rightarrow> string" where
  "decodeSaslName s = ReplaceAll (ReplaceAll s ''=2C'' '','') ''=3D'' ''=''"

text \<open>The field loop of \<^verbatim>\<open>parseClientFirst\<close>: later fields overwrite earlier ones.\<close>

definition firstFields :: "string \<Rightarrow> string \<times> string" where
  "firstFields bare =
     foldl (\<lambda>(username, nonce) field.
        if HasPrefix field ''n='' then (decodeSaslName (drop 2 field), nonce)
        else if HasPrefix field ''r='' then (username, drop 2 field)
        else (username, nonce)) ([], []) (Split bare (CHR '',''))"

definition parseClientFirst :: "string \<Rightarrow> (string \<times> string \<times> string \<times> string) result" where
  "parseClientFirst msg =
     (case IndexByte msg (CHR '','') of
        None \<Rightarrow> Inl (errorsNew ''scram: malformed client-first (gs2 flag)'')
      | Some first \<Rightarrow>
        (case IndexByte (drop (first + 1) msg) (CHR '','') of
           None \<Rightarrow> Inl (errorsNew ''scram: malformed client-first (authzid)'')
         | Some second \<Rightarrow>
           let cut = first + 1 + second + 1; bare = drop cut msg; (username, nonce) = firstFields bare in
           if nonce = [] then Inl (errorsNew ''scram: client-first missing nonce'')
           else Inr (take cut msg, bare, username, nonce)))"

definition finalBinding :: "string \<Rightarrow> string" where
  "finalBinding withoutProof =
     foldl (\<lambda>cb field. if HasPrefix field ''c='' then drop 2 field else cb) [] (Split withoutProof (CHR '',''))"

definition parseClientFinal :: "string \<Rightarrow> (string \<times> string \<times> bytes) result" where
  "parseClientFinal msg =
     (case strLastIndex msg '',p='' of
        None \<Rightarrow> Inl (errorsNew ''scram: client-final missing proof'')
      | Some idx \<Rightarrow>
        let withoutProof = take idx msg in
        (case StdDecode (drop (idx + 3) msg) of
           Inl err \<Rightarrow> Inl (wrapErr ''scram: bad proof: '' err [])
         | Inr proof \<Rightarrow>
           if finalBinding withoutProof = [] then Inl (errorsNew ''scram: client-final missing channel binding'')
           else Inr (finalBinding withoutProof, withoutProof, proof)))"

text \<open>\<^verbatim>\<open>strconv.NumError\<close> of \<^verbatim>\<open>Atoi\<close>.\<close>

definition atoiErr :: "unicode \<Rightarrow> string \<Rightarrow> goerror" where
  "atoiErr U s =
     (let digits = (if s \<noteq> [] \<and> hd s \<in> {CHR ''-'', CHR ''+''} then tl s else s);
          kind = (if digits \<noteq> [] \<and> list_all isDigit digits then ''value out of range'' else ''invalid syntax'')
      in wrapErr (''strconv.Atoi: parsing '' @ Quote U s @ '': '') (errorsNew kind) [])"

definition serverFirstField ::
  "unicode \<Rightarrow> string \<times> bytes \<times> int \<Rightarrow> string \<Rightarrow> (string \<times> bytes \<times> int) result" where
  "serverFirstField U st field =
     (case st of (nonce, salt, iterations) \<Rightarrow>
      if HasPrefix field ''r='' then Inr (drop 2 field, salt, iterations)
      else if HasPrefix field ''s='' then
        (case StdDecode (drop 2 field) of
           Inl err \<Rightarrow> Inl (wrapErr ''scram: bad salt: '' err [])
         | Inr b \<Rightarrow> Inr (nonce, b, iterations))
      else if HasPrefix field ''i='' then
        (case Atoi (drop 2 field) of
           None \<Rightarrow> Inl (wrapErr ''scram: bad iteration count: '' (atoiErr U (drop 2 field)) [])
         | Some n \<Rightarrow> Inr (nonce, salt, n))
      else Inr st)"

definition parseServerFirst :: "unicode \<Rightarrow> string \<Rightarrow> (string \<times> bytes \<times> int) result" where
  "parseServerFirst U msg =
     bindR (foldR (serverFirstField U) ([], [], 0) (Split msg (CHR '',''))) (\<lambda>(nonce, salt, iterations).
       if nonce = [] \<or> salt = [] \<or> iterations \<le> 0 then Inl (errorsNew ''scram: malformed server-first'')
       else Inr (nonce, salt, iterations))"

section \<open>The server\<close>

record ScramServer =
  ssLookup :: "string \<Rightarrow> ScramVerifier \<times> bool"
  ssCbind :: "bytes option"
  ssUsername :: string
  ssVerifier :: ScramVerifier
  ssClientFirstBare :: string
  ssServerFirst :: string
  ssGs2Header :: string
  ssStep :: nat

definition emptyVerifier :: ScramVerifier where
  "emptyVerifier = \<lparr>svSalt = [], svIterations = 0, svStoredKey = [], svServerKey = []\<rparr>"

definition NewScramServer :: "(string \<Rightarrow> ScramVerifier \<times> bool) \<Rightarrow> bytes option \<Rightarrow> ScramServer" where
  "NewScramServer lookup cbind =
     \<lparr>ssLookup = lookup, ssCbind = cbind, ssUsername = [], ssVerifier = emptyVerifier,
      ssClientFirstBare = [], ssServerFirst = [], ssGs2Header = [], ssStep = 0\<rparr>"

definition SetUsername :: "string \<Rightarrow> ScramServer \<Rightarrow> ScramServer" where
  "SetUsername username s = s\<lparr>ssUsername := username\<rparr>"

definition checkChannelBindingFlag :: "ScramServer \<Rightarrow> string \<Rightarrow> goerror option" where
  "checkChannelBindingFlag s gs2 =
     (let flag = (case IndexByte gs2 (CHR '','') of None \<Rightarrow> gs2 | Some i \<Rightarrow> take i gs2) in
      if HasPrefix flag ''p='' \<noteq> (ssCbind s \<noteq> None)
      then Some (errorsNew ''scram: channel binding flag does not match server policy'')
      else None)"

definition bindingData :: "string \<Rightarrow> bytes option \<Rightarrow> bytes" where
  "bindingData gs2 cbind = gs2 @ (case cbind of None \<Rightarrow> [] | Some b \<Rightarrow> b)"

definition verifyChannelBinding :: "ScramServer \<Rightarrow> string \<Rightarrow> goerror option" where
  "verifyChannelBinding s channelBinding =
     (case StdDecode channelBinding of
        Inl err \<Rightarrow> Some (wrapErr ''scram: bad channel binding: '' err [])
      | Inr raw \<Rightarrow>
          if raw \<noteq> bindingData (ssGs2Header s) (ssCbind s)
          then Some (errorsNew ''scram: channel binding mismatch'') else None)"

definition ServerFirst ::
  "unicode \<Rightarrow> string result \<Rightarrow> bytes \<Rightarrow> ScramServer \<Rightarrow> ScramServer \<times> bytes result" where
  "ServerFirst U drawn clientFirst s =
     (if ssStep s \<noteq> 0 then (s, Inl (errorsNew ''scram: server-first out of order''))
      else case parseClientFirst clientFirst of
          Inl err \<Rightarrow> (s, Inl err)
        | Inr (gs2, bare, username, clientNonce) \<Rightarrow>
          (case checkChannelBindingFlag s gs2 of
             Some cberr \<Rightarrow> (s, Inl cberr)
           | None \<Rightarrow>
             let lookupName = (if ssUsername s \<noteq> [] then ssUsername s else username);
                 (verifier, found) = ssLookup s lookupName in
             if \<not> found then (s, Inl (errorsNew (''scram: unknown user '' @ Quote U lookupName)))
             else (case drawn of
                 Inl err \<Rightarrow> (s, Inl err)
               | Inr serverNonce \<Rightarrow>
                 let sf = ''r='' @ clientNonce @ serverNonce @ '',s='' @ StdEncode (svSalt verifier)
                          @ '',i='' @ showInt (svIterations verifier) in
                 (s\<lparr>ssVerifier := verifier, ssGs2Header := gs2, ssClientFirstBare := bare,
                    ssServerFirst := sf, ssStep := 1\<rparr>, Inr sf))))"

definition authMessage :: "string \<Rightarrow> string \<Rightarrow> string \<Rightarrow> string" where
  "authMessage clientFirstBare serverFirst withoutProof =
     clientFirstBare @ '','' @ serverFirst @ '','' @ withoutProof"

definition ServerFinal :: "bytes \<Rightarrow> ScramServer \<Rightarrow> ScramServer \<times> bytes result" where
  "ServerFinal clientFinal s =
     (if ssStep s \<noteq> 1 then (s, Inl (errorsNew ''scram: server-final out of order''))
      else case parseClientFinal clientFinal of
          Inl err \<Rightarrow> (s, Inl err)
        | Inr (channelBinding, withoutProof, proof) \<Rightarrow>
          (case verifyChannelBinding s channelBinding of
             Some cberr \<Rightarrow> (s, Inl cberr)
           | None \<Rightarrow>
             let am = authMessage (ssClientFirstBare s) (ssServerFirst s) withoutProof;
                 clientSignature = scramHMAC (svStoredKey (ssVerifier s)) am in
             if length proof \<noteq> length clientSignature then (s, Inl (errorsNew ''scram: malformed client proof''))
             else let clientKey = xorBytes proof clientSignature in
               if scramH clientKey \<noteq> svStoredKey (ssVerifier s)
               then (s, Inl (errorsNew ''scram: authentication failed''))
               else (s\<lparr>ssStep := 2\<rparr>,
                     Inr (''v='' @ StdEncode (scramHMAC (svServerKey (ssVerifier s)) am)))))"

section \<open>The client\<close>

definition cbindName :: string where "cbindName = ''tls-server-end-point''"

record ScramClient =
  scUsername :: string
  scPassword :: string
  scCbind :: "bytes option"
  scGs2Header :: string
  scClientNonce :: string
  scClientFirstBare :: string
  scServerSignature :: bytes
  scStep :: nat

definition NewScramClient :: "string \<Rightarrow> string \<Rightarrow> bytes option \<Rightarrow> ScramClient" where
  "NewScramClient username password cbind =
     \<lparr>scUsername = username, scPassword = password, scCbind = cbind, scGs2Header = [],
      scClientNonce = [], scClientFirstBare = [], scServerSignature = [], scStep = 0\<rparr>"

definition ClientFirst :: "string result \<Rightarrow> ScramClient \<Rightarrow> ScramClient \<times> bytes result" where
  "ClientFirst drawn c =
     (if scStep c \<noteq> 0 then (c, Inl (errorsNew ''scram: client-first out of order''))
      else case drawn of
          Inl err \<Rightarrow> (c, Inl err)
        | Inr nonce \<Rightarrow>
          let gs2 = (if scCbind c \<noteq> None then ''p='' @ cbindName @ '',,'' else ''n,,'');
              bare = ''n='' @ encodeSaslName (scUsername c) @ '',r='' @ nonce in
          (c\<lparr>scGs2Header := gs2, scClientNonce := nonce, scClientFirstBare := bare, scStep := 1\<rparr>,
           Inr (gs2 @ bare)))"

definition ClientFinal :: "unicode \<Rightarrow> kdf \<Rightarrow> bytes \<Rightarrow> ScramClient \<Rightarrow> ScramClient \<times> bytes result" where
  "ClientFinal U kdf serverFirst c =
     (if scStep c \<noteq> 1 then (c, Inl (errorsNew ''scram: client-final out of order''))
      else case parseServerFirst U serverFirst of
          Inl err \<Rightarrow> (c, Inl err)
        | Inr (combinedNonce, salt, iterations) \<Rightarrow>
          if \<not> HasPrefix combinedNonce (scClientNonce c)
          then (c, Inl (errorsNew ''scram: server nonce does not extend client nonce''))
          else
            let salted = saltedPassword kdf (scPassword c) salt iterations;
                clientKey = scramHMAC salted ''Client Key'';
                storedKey = scramH clientKey;
                channelBinding = StdEncode (bindingData (scGs2Header c) (scCbind c));
                withoutProof = ''c='' @ channelBinding @ '',r='' @ combinedNonce;
                am = authMessage (scClientFirstBare c) serverFirst withoutProof;
                clientProof = xorBytes clientKey (scramHMAC storedKey am) in
            (c\<lparr>scServerSignature := scramHMAC (scramHMAC salted ''Server Key'') am, scStep := 2\<rparr>,
             Inr (withoutProof @ '',p='' @ StdEncode clientProof)))"

definition VerifyServerFinal :: "bytes \<Rightarrow> ScramClient \<Rightarrow> ScramClient \<times> goerror option" where
  "VerifyServerFinal msg c =
     (if scStep c \<noteq> 2 then (c, Some (errorsNew ''scram: verify out of order''))
      else if \<not> HasPrefix msg ''v='' then (c, Some (errorsNew ''scram: server-final missing signature''))
      else case StdDecode (drop 2 msg) of
          Inl err \<Rightarrow> (c, Some (wrapErr ''scram: bad server signature: '' err []))
        | Inr got \<Rightarrow>
          if got \<noteq> scServerSignature c then (c, Some (errorsNew ''scram: server signature mismatch''))
          else (c\<lparr>scStep := 3\<rparr>, None))"

end
