(* ===== verification/Auth.thy ===== *)
theory Auth
  imports HostIO Scram
begin

text \<open>
  \<^verbatim>\<open>internal/wire/auth.go\<close>, \<^verbatim>\<open>listener.go\<close> and \<^verbatim>\<open>dial.go\<close>:
  the handshakes around the relay.

  A peer of a handshake is a script: the messages (or receive errors) it will produce, in
  order, the errors its connection raises on the proxy's sends, and the log of what the
  proxy sent. The decoder \<^verbatim>\<open>pgproto3\<close> is third-party code; what it yields are the
  messages of the script.
\<close>

section \<open>Messages and scripts\<close>

datatype handshakeMsg =
    StartupMessage "string \<rightharpoonup> string"
  | SSLRequest
  | GSSEncRequest
  | SASLInitialResponse string bytes
  | SASLResponse bytes
  | AuthenticationSASL "string list"
  | AuthenticationSASLContinue bytes
  | AuthenticationSASLFinal bytes
  | AuthenticationOk
  | ErrorResponse string string string
  | SSLDeclined
  | OtherMsg string

text \<open>The Go type a message has, for the error texts (\<^verbatim>\<open>%T\<close>).\<close>

definition msgType :: "handshakeMsg \<Rightarrow> string" where
  "msgType m = ''*pgproto3.'' @
     (case m of
        StartupMessage _ \<Rightarrow> ''StartupMessage'' | SSLRequest \<Rightarrow> ''SSLRequest'' | GSSEncRequest \<Rightarrow> ''GSSEncRequest''
      | SASLInitialResponse _ _ \<Rightarrow> ''SASLInitialResponse'' | SASLResponse _ \<Rightarrow> ''SASLResponse''
      | AuthenticationSASL _ \<Rightarrow> ''AuthenticationSASL'' | AuthenticationSASLContinue _ \<Rightarrow> ''AuthenticationSASLContinue''
      | AuthenticationSASLFinal _ \<Rightarrow> ''AuthenticationSASLFinal'' | AuthenticationOk \<Rightarrow> ''AuthenticationOk''
      | ErrorResponse _ _ _ \<Rightarrow> ''ErrorResponse'' | SSLDeclined \<Rightarrow> '''' | OtherMsg t \<Rightarrow> t)"

record peer =
  incoming :: "handshakeMsg result list"
  sendErrors :: "goerror option list"
  sent :: "handshakeMsg list"
  entropy :: "bytes result list"

definition errEOF :: goerror where "errEOF = errorsNew ''EOF''"

definition receive :: "(peer, handshakeMsg) io" where
  "receive p = (case incoming p of [] \<Rightarrow> (Inl errEOF, p) | m # ms \<Rightarrow> (m, p\<lparr>incoming := ms\<rparr>))"

text \<open>A send the script gives no error for succeeds and is logged.\<close>

definition send :: "handshakeMsg \<Rightarrow> (peer, unit) io" where
  "send m p =
     (case sendErrors p of
        Some e # es \<Rightarrow> (Inl e, p\<lparr>sendErrors := es\<rparr>)
      | None # es \<Rightarrow> (Inr (), p\<lparr>sendErrors := es, sent := sent p @ [m]\<rparr>)
      | [] \<Rightarrow> (Inr (), p\<lparr>sent := sent p @ [m]\<rparr>))"

definition readRandom :: "nat \<Rightarrow> (peer, bytes) io" where
  "readRandom n p =
     (case entropy p of [] \<Rightarrow> (Inl errEOF, p) | b # bs \<Rightarrow> (b, p\<lparr>entropy := bs\<rparr>))"

section \<open>The client leg\<close>

definition scramMechanism :: string where "scramMechanism = ''SCRAM-SHA-256''"

text \<open>Each turn of the loop consumes a message, so the script bounds the number of turns.\<close>

function readStartup :: "(peer, string \<rightharpoonup> string) io" where
  "readStartup p =
     (case incoming p of
        [] \<Rightarrow> (Inl (wrapErr ''wire: receive startup: '' errEOF []), p)
      | Inl err # ms \<Rightarrow> (Inl (wrapErr ''wire: receive startup: '' err []), p\<lparr>incoming := ms\<rparr>)
      | Inr m # ms \<Rightarrow>
        (case m of
           StartupMessage params \<Rightarrow> (Inr params, p\<lparr>incoming := ms\<rparr>)
         | _ \<Rightarrow>
           if m = SSLRequest \<or> m = GSSEncRequest then
             (case send SSLDeclined (p\<lparr>incoming := ms\<rparr>) of
                (Inl err, p') \<Rightarrow> (Inl (wrapErr ''wire: decline ssl/gss: '' err []), p')
              | (Inr _, p') \<Rightarrow> readStartup p')
           else (Inl (errorsNew (''wire: unexpected startup message '' @ msgType m)), p\<lparr>incoming := ms\<rparr>)))"
  by pat_completeness auto
termination
  by (relation "measure (\<lambda>p. length (incoming p))") (auto simp: send_def split: list.splits option.splits)

declare readStartup.simps [simp del]

definition receiveSASLInitial :: "unicode \<Rightarrow> (peer, bytes) io" where
  "receiveSASLInitial U =
     bindIO (contextIO ''wire: receive sasl-initial: '' receive) (\<lambda>msg.
       case msg of
         SASLInitialResponse mech d \<Rightarrow>
           if mech \<noteq> scramMechanism
           then failIO (errorsNew (''wire: unsupported SASL mechanism '' @ Quote U mech))
           else returnIO d
       | m \<Rightarrow> failIO (errorsNew (''wire: expected SASLInitialResponse, got '' @ msgType m)))"

definition receiveSASLResponse :: "(peer, bytes) io" where
  "receiveSASLResponse =
     bindIO (contextIO ''wire: receive sasl-response: '' receive) (\<lambda>msg.
       case msg of
         SASLResponse d \<Rightarrow> returnIO d
       | m \<Rightarrow> failIO (errorsNew (''wire: expected SASLResponse, got '' @ msgType m)))"

text \<open>
  A step of a SCRAM party that draws a nonce: the nonce is drawn only when none of the
  checks before it fails.
\<close>

definition drawing ::
  "(string result \<Rightarrow> 's \<Rightarrow> 's \<times> bytes result) \<Rightarrow> 's \<Rightarrow> (peer, 's \<times> bytes) io" where
  "drawing step s =
     (case snd (step (Inr []) s) of
        Inl e \<Rightarrow> failIO e
      | Inr _ \<Rightarrow>
        (\<lambda>p. let (raw, p') = readRandom nonceBytes p in
             (case step (randomNonce raw) s of
                (s', Inl e) \<Rightarrow> (Inl e, p')
              | (s', Inr out) \<Rightarrow> (Inr (s', out), p'))))"

definition stepping :: "('s \<Rightarrow> 's \<times> bytes result) \<Rightarrow> 's \<Rightarrow> ('w, 's \<times> bytes) io" where
  "stepping step s = (case step s of (s', Inl e) \<Rightarrow> failIO e | (s', Inr out) \<Rightarrow> returnIO (s', out))"

definition runUpstreamSASL :: "unicode \<Rightarrow> ScramServer \<Rightarrow> (peer, ScramServer) io" where
  "runUpstreamSASL U scram =
     bindIO (send (AuthenticationSASL [scramMechanism])) (\<lambda>_.
     bindIO (receiveSASLInitial U) (\<lambda>clientFirst.
     bindIO (drawing (\<lambda>drawn. ServerFirst U drawn clientFirst) scram) (\<lambda>(scram1, serverFirst).
     bindIO (send (AuthenticationSASLContinue serverFirst)) (\<lambda>_.
     bindIO receiveSASLResponse (\<lambda>clientFinal.
     bindIO (stepping (ServerFinal clientFinal) scram1) (\<lambda>(scram2, serverFinal).
     bindIO (send (AuthenticationSASLFinal serverFinal)) (\<lambda>_.
     bindIO (send AuthenticationOk) (\<lambda>_. returnIO scram2))))))))"

definition authFailed :: handshakeMsg where
  "authFailed = ErrorResponse ''FATAL'' ''28P01'' ''authentication failed''"

definition paramOf :: "(string \<rightharpoonup> string) \<Rightarrow> string \<Rightarrow> string" where
  "paramOf params k = (case params k of None \<Rightarrow> [] | Some v \<Rightarrow> v)"

definition AuthenticateUpstream :: "unicode \<Rightarrow> ScramServer \<Rightarrow> (peer, string \<rightharpoonup> string) io" where
  "AuthenticateUpstream U scram =
     bindIO readStartup (\<lambda>params p.
       case runUpstreamSASL U (SetUsername (paramOf params ''user'') scram) p of
         (Inl err, p') \<Rightarrow> (Inl err, snd (send authFailed p'))
       | (Inr _, p') \<Rightarrow> (Inr params, p'))"

section \<open>The backend leg\<close>

definition containsString :: "string list \<Rightarrow> string \<Rightarrow> bool" where
  "containsString haystack needle = list_ex (\<lambda>s. s = needle) haystack"

text \<open>\<^verbatim>\<open>expectBackend\<close> for the message type that \<open>sel\<close> selects.\<close>

definition expectBackend :: "(handshakeMsg \<Rightarrow> 'a option) \<Rightarrow> (peer, 'a) io" where
  "expectBackend sel =
     bindIO (contextIO ''wire: receive: '' receive) (\<lambda>msg.
       case sel msg of
         None \<Rightarrow> failIO (errorsNew (''wire: unexpected backend message '' @ msgType msg))
       | Some x \<Rightarrow> returnIO x)"

definition asSASL :: "handshakeMsg \<Rightarrow> string list option" where
  "asSASL m = (case m of AuthenticationSASL ms \<Rightarrow> Some ms | _ \<Rightarrow> None)"

definition asContinue :: "handshakeMsg \<Rightarrow> bytes option" where
  "asContinue m = (case m of AuthenticationSASLContinue d \<Rightarrow> Some d | _ \<Rightarrow> None)"

definition asFinal :: "handshakeMsg \<Rightarrow> bytes option" where
  "asFinal m = (case m of AuthenticationSASLFinal d \<Rightarrow> Some d | _ \<Rightarrow> None)"

definition asOk :: "handshakeMsg \<Rightarrow> unit option" where
  "asOk m = (if m = AuthenticationOk then Some () else None)"

text \<open>\<^verbatim>\<open>fmt\<close>'s \<^verbatim>\<open>%v\<close> of a string slice.\<close>

definition showStrings :: "string list \<Rightarrow> string" where
  "showStrings ss = ''['' @ (case ss of [] \<Rightarrow> [] | x # xs \<Rightarrow> x @ concat (map (\<lambda>s. '' '' @ s) xs)) @ '']''"

definition verifying :: "bytes \<Rightarrow> ScramClient \<Rightarrow> ('w, ScramClient) io" where
  "verifying d scram = (case VerifyServerFinal d scram of (s', Some e) \<Rightarrow> failIO e | (s', None) \<Rightarrow> returnIO s')"

definition runDownstreamSASL :: "unicode \<Rightarrow> kdf \<Rightarrow> ScramClient \<Rightarrow> (peer, ScramClient) io" where
  "runDownstreamSASL U kdf scram =
     bindIO (expectBackend asSASL) (\<lambda>mechanisms.
     if \<not> containsString mechanisms scramMechanism
     then failIO (errorsNew (''wire: backend does not offer '' @ scramMechanism @ '': '' @ showStrings mechanisms))
     else
       bindIO (drawing ClientFirst scram) (\<lambda>(scram1, clientFirst).
       bindIO (send (SASLInitialResponse scramMechanism clientFirst)) (\<lambda>_.
       bindIO (expectBackend asContinue) (\<lambda>cont.
       bindIO (stepping (ClientFinal U kdf cont) scram1) (\<lambda>(scram2, clientFinal).
       bindIO (send (SASLResponse clientFinal)) (\<lambda>_.
       bindIO (expectBackend asFinal) (\<lambda>final.
       bindIO (verifying final scram2) (\<lambda>scram3.
       bindIO (expectBackend asOk) (\<lambda>_. returnIO scram3)))))))))"

definition AuthenticateDownstream ::
  "unicode \<Rightarrow> kdf \<Rightarrow> (string \<rightharpoonup> string) \<Rightarrow> ScramClient \<Rightarrow> (peer, ScramClient) io" where
  "AuthenticateDownstream U kdf params scram =
     bindIO (contextIO ''wire: send startup: '' (send (StartupMessage params))) (\<lambda>_.
     runDownstreamSASL U kdf scram)"

section \<open>TLS negotiation\<close>

text \<open>
  A byte connection: what the peer will still send, what was written to it, the error its
  writes raise, if any, and whether it runs under TLS. \<^verbatim>\<open>crypto/tls\<close>'s
  handshakes are the environment's: an argument that returns the upgraded connection.
\<close>

record byteConn =
  cnIn :: bytes
  cnOut :: bytes
  cnWriteErr :: "goerror option"
  cnTLS :: bool
  cnClosed :: bool

record tlsConfig =
  tlRootCAs :: bytes
  tlCertificate :: bytes
  tlServerName :: string
  tlMinVersion :: nat

definition VersionTLS12 :: nat where "VersionTLS12 = 0x0303"

type_synonym tlsHandshake = "tlsConfig \<Rightarrow> byteConn \<Rightarrow> byteConn result"

definition readFull :: "nat \<Rightarrow> byteConn \<Rightarrow> bytes result \<times> byteConn" where
  "readFull n c =
     (if n \<le> length (cnIn c) then (Inr (take n (cnIn c)), c\<lparr>cnIn := drop n (cnIn c)\<rparr>)
      else (Inl (if cnIn c = [] then errEOF else errorsNew ''unexpected EOF''), c\<lparr>cnIn := []\<rparr>))"

definition writeConn :: "bytes \<Rightarrow> byteConn \<Rightarrow> unit result \<times> byteConn" where
  "writeConn b c =
     (case cnWriteErr c of Some e \<Rightarrow> (Inl e, c) | None \<Rightarrow> (Inr (), c\<lparr>cnOut := cnOut c @ b\<rparr>))"

definition sslRequestCode :: nat where "sslRequestCode = 80877103"

definition isSSLRequest :: "bytes \<Rightarrow> bool" where
  "isSSLRequest head \<longleftrightarrow> length head = 8 \<and> fromBE32 (take 4 head) = 8 \<and> fromBE32 (drop 4 head) = sslRequestCode"

text \<open>The connection that is returned reads what the returned Go reader reads.\<close>

definition MaybeUpgradeTLS ::
  "tlsHandshake \<Rightarrow> tlsConfig option \<Rightarrow> byteConn \<Rightarrow> byteConn result \<times> byteConn" where
  "MaybeUpgradeTLS handshake tc conn =
     (case readFull 8 conn of
        (Inl err, c1) \<Rightarrow> (Inl (wrapErr ''wire: read startup prefix: '' err []), c1)
      | (Inr head, c1) \<Rightarrow>
        if \<not> isSSLRequest head then (Inr (c1\<lparr>cnIn := head @ cnIn c1\<rparr>), c1)
        else (case tc of
            None \<Rightarrow>
              (case writeConn ''N'' c1 of
                 (Inl err, c2) \<Rightarrow> (Inl (wrapErr ''wire: decline ssl: '' err []), c2)
               | (Inr _, c2) \<Rightarrow> (Inr c2, c2))
          | Some cfg \<Rightarrow>
              (case writeConn ''S'' c1 of
                 (Inl err, c2) \<Rightarrow> (Inl (wrapErr ''wire: accept ssl: '' err []), c2)
               | (Inr _, c2) \<Rightarrow>
                 (case handshake cfg c2 of
                    Inl err \<Rightarrow> (Inl (wrapErr ''wire: tls handshake: '' err []), c2)
                  | Inr upgraded \<Rightarrow> (Inr upgraded, upgraded)))))"

definition sslRequestBytes :: bytes where
  "sslRequestBytes = be32 8 @ be32 sslRequestCode"

definition closeConn :: "byteConn \<Rightarrow> byteConn" where
  "closeConn c = c\<lparr>cnClosed := True\<rparr>"

text \<open>\<^verbatim>\<open>fmt\<close>'s \<^verbatim>\<open>%q\<close> of a byte: a single-quoted rune literal.\<close>

definition quoteByte :: "unicode \<Rightarrow> char \<Rightarrow> string" where
  "quoteByte U b =
     [CHR 0x27] @
     (let r = byteVal b in
      if r = 39 then [CHR 0x5C, CHR 0x27] else if r = 34 then [CHR 0x22] else escapedRune U r)
     @ [CHR 0x27]"

text \<open>\<^verbatim>\<open>net.Dial\<close>'s outcome is the argument \<open>dialed\<close>. The second component is the dialled socket.\<close>

definition DialBackendTLS ::
  "unicode \<Rightarrow> tlsHandshake \<Rightarrow> string \<Rightarrow> tlsConfig option \<Rightarrow> byteConn result
   \<Rightarrow> byteConn result \<times> byteConn option" where
  "DialBackendTLS U handshake addr tc dialed =
     (case dialed of
        Inl err \<Rightarrow> (Inl err, None)
      | Inr c \<Rightarrow>
        (case tc of
           None \<Rightarrow> (Inr c, Some c)
         | Some cfg \<Rightarrow>
           (case writeConn sslRequestBytes c of
              (Inl err, c1) \<Rightarrow> (Inl (wrapErr (''wire: send SSLRequest to '' @ addr @ '': '') err []), Some (closeConn c1))
            | (Inr _, c1) \<Rightarrow>
              (case readFull 1 c1 of
                 (Inl err, c2) \<Rightarrow>
                   (Inl (wrapErr (''wire: read SSLRequest reply from '' @ addr @ '': '') err []), Some (closeConn c2))
               | (Inr reply, c2) \<Rightarrow>
                 if reply ! 0 \<noteq> CHR ''S'' then
                   (Inl (errorsNew (''wire: backend '' @ addr @ '' refused TLS (replied '' @ quoteByte U (reply ! 0) @ '')'')),
                    Some (closeConn c2))
                 else (case handshake cfg c2 of
                     Inl err \<Rightarrow>
                       (Inl (wrapErr (''wire: tls handshake with '' @ addr @ '': '') err []), Some (closeConn c2))
                   | Inr upgraded \<Rightarrow> (Inr upgraded, Some upgraded))))))"

text \<open>\<^verbatim>\<open>AppendCertsFromPEM\<close>, whether the text holds a certificate, is the argument \<open>hasCert\<close>.\<close>

definition LoadBackendCA :: "(bytes \<Rightarrow> bool) \<Rightarrow> bytes \<Rightarrow> string \<Rightarrow> tlsConfig option result" where
  "LoadBackendCA hasCert caPEM serverName =
     (if caPEM = [] then Inr None
      else if \<not> hasCert caPEM then Inl (errorsNew ''wire: PEM has no CA certs'')
      else Inr (Some \<lparr>tlRootCAs = caPEM, tlCertificate = [], tlServerName = serverName, tlMinVersion = VersionTLS12\<rparr>))"

end
