(* ===== verification/ScramProps.thy ===== *)
theory ScramProps
  imports Scram
begin

text \<open>
  SCRAM: user names survive their escaping, an honest client and server finish the exchange,
  and the server accepts nothing but a proof for the stored key over the messages of the
  exchange.
\<close>

section \<open>User names\<close>

definition saslChar :: "char \<Rightarrow> string" where
  "saslChar c = (if c = CHR ''='' then ''=3D'' else if c = CHR '','' then ''=2C'' else [c])"

lemma ReplaceAll_char: "ReplaceAll s [x] new = concat (map (\<lambda>c. if c = x then new else [c]) s)"
proof (induction s)
  case (Cons c s)
  then show ?case by (simp add: ReplaceAll.simps [of "c # s"] HasPrefix_def)
qed simp

lemma encodeSaslName_chars: "encodeSaslName s = concat (map saslChar s)"
  unfolding encodeSaslName_def ReplaceAll_char
  by (induction s) (simp_all add: saslChar_def)

lemma skip_char: "old \<noteq> [] \<Longrightarrow> c \<noteq> hd old \<Longrightarrow> ReplaceAll (c # t) old new = c # ReplaceAll t old new"
  by (cases old) (auto simp: ReplaceAll_skip HasPrefix_def)

lemma decode_comma:
  "ReplaceAll (concat (map saslChar s)) ''=2C'' '','' = concat (map (\<lambda>c. if c = CHR ''='' then ''=3D'' else [c]) s)"
proof (induction s)
  case (Cons c s)
  show ?case
  proof (cases "c = CHR '',''")
    case True
    then have "saslChar c = ''=2C''" by (simp add: saslChar_def)
    then show ?thesis using Cons.IH True ReplaceAll_match [of "''=2C''" "concat (map saslChar s)" "'',''"] by simp
  next
    case False
    then show ?thesis using Cons.IH by (simp add: saslChar_def skip_char ReplaceAll_skip HasPrefix_def)
  qed
qed simp

lemma decode_equals: "ReplaceAll (concat (map (\<lambda>c. if c = CHR ''='' then ''=3D'' else [c]) s)) ''=3D'' ''='' = s"
proof (induction s)
  case (Cons c s)
  then show ?case
    using ReplaceAll_match [of "''=3D''" "concat (map (\<lambda>c. if c = CHR ''='' then ''=3D'' else [c]) s)" "''=''"]
    by (simp add: skip_char)
qed simp

lemma decodeSaslName_encode [go_codec]: "decodeSaslName (encodeSaslName s) = s"
  by (simp add: decodeSaslName_def encodeSaslName_chars decode_comma decode_equals)

lemma encodeSaslName_no_comma [simp]: "CHR '','' \<notin> set (encodeSaslName s)"
  by (auto simp: encodeSaslName_chars saslChar_def split: if_splits)

section \<open>Messages\<close>

lemma parse_clientFirst:
  assumes "CHR '','' \<notin> set flag" "CHR '','' \<notin> set nonce" "nonce \<noteq> []"
  shows "parseClientFirst ((flag @ '',,'') @ ''n='' @ encodeSaslName user @ '',r='' @ nonce) =
     Inr (flag @ '',,'', ''n='' @ encodeSaslName user @ '',r='' @ nonce, user, nonce)"
proof -
  let ?bare = "''n='' @ encodeSaslName user @ '',r='' @ nonce"
  have i: "IndexByte (flag @ CHR '','' # CHR '','' # ?bare) (CHR '','') = Some (length flag)"
    using assms(1) by simp
  have "firstFields ?bare = (user, nonce)"
    using Split_append [of "CHR '',''" "''n='' @ encodeSaslName user" "''r='' @ nonce"] assms(2)
    by (simp add: firstFields_def HasPrefix_def decodeSaslName_encode)
  then show ?thesis using i assms(3) by (simp add: parseClientFirst_def Let_def)
qed

lemma strLastIndex_none: "x \<notin> set t \<Longrightarrow> strLastIndex t (x # sub) = None"
  by (induction t) (auto simp: HasPrefix_def)

lemma strLastIndex_append: "strLastIndex t sub = Some i \<Longrightarrow> strLastIndex (p @ t) sub = Some (length p + i)"
  by (induction p) simp_all

lemma strLastIndex_proof:
  assumes "CHR '','' \<notin> set t"
  shows "strLastIndex (p @ '',p='' @ t) '',p='' = Some (length p)"
proof -
  have "strLastIndex ('',p='' @ t) '',p='' = Some 0"
    using strLastIndex_none [OF assms, of "''p=''"] assms by (simp add: HasPrefix_def)
  then show ?thesis using strLastIndex_append [of "'',p='' @ t" "'',p=''" 0 p] by simp
qed

lemma parse_clientFinal:
  assumes "CHR '','' \<notin> set nonce" "binding \<noteq> []"
  defines "wp \<equiv> ''c='' @ StdEncode binding @ '',r='' @ nonce"
  shows "parseClientFinal (wp @ '',p='' @ StdEncode proof') = Inr (StdEncode binding, wp, proof')"
proof -
  have "finalBinding wp = StdEncode binding"
    using Split_append [of "CHR '',''" "''c='' @ StdEncode binding" "''r='' @ nonce"] assms(1)
    by (simp add: wp_def finalBinding_def HasPrefix_def b64_special)
  then show ?thesis
    using strLastIndex_proof [OF b64_special(2), of wp] assms(2)
    by (simp add: parseClientFinal_def b64.roundtrip)
qed

lemma showInt_pos: "0 < n \<Longrightarrow> showInt n = showNat (nat n)"
  by (simp add: showInt_def)

lemma parse_serverFirst:
  assumes "CHR '','' \<notin> set nonce" "nonce \<noteq> []" "salt \<noteq> []" "0 < n" "n < 2 ^ 63"
  shows "parseServerFirst U (''r='' @ nonce @ '',s='' @ StdEncode salt @ '',i='' @ showInt n) = Inr (nonce, salt, n)"
proof -
  have "nat n < 2 ^ 63" using assms(4,5) by (simp add: nat_less_iff)
  then have a: "Atoi (showInt n) = Some n" using Atoi_showNat [of "nat n"] assms(4) by (simp add: showInt_pos)
  have c: "CHR '','' \<notin> set (showInt n)" using assms(4) showNat_special by (simp add: showInt_pos)
  have "Split (''r='' @ nonce @ '',s='' @ StdEncode salt @ '',i='' @ showInt n) (CHR '','') =
      [''r='' @ nonce, ''s='' @ StdEncode salt, ''i='' @ showInt n]"
    using Split_append [of "CHR '',''" "''r='' @ nonce"] Split_append [of "CHR '',''" "''s='' @ StdEncode salt"] assms(1) c
    by (simp add: b64_special)
  then show ?thesis
    using assms(2-4) a by (simp add: parseServerFirst_def serverFirstField_def HasPrefix_def b64.roundtrip)
qed

section \<open>The exchange\<close>

lemma xorBytes_length [simp]: "length (xorBytes a b) = min (length a) (length b)"
  by (simp add: xorBytes_def)

lemma xorBytes_cancel: "length b = length a \<Longrightarrow> xorBytes (xorBytes a b) b = a"
  by (simp add: xorBytes_def list_eq_iff_nth_eq)

definition gs2Flag :: "bytes option \<Rightarrow> string" where
  "gs2Flag cbind = (if cbind \<noteq> None then ''p='' @ cbindName else ''n'')"

lemma gs2Flag_no_comma: "CHR '','' \<notin> set (gs2Flag cbind)"
  by (simp add: gs2Flag_def cbindName_def)

lemma gs2Flag_checked: "ssCbind s = cbind \<Longrightarrow> checkChannelBindingFlag s (gs2Flag cbind @ '',,'') = None"
  using IndexByte_append [OF gs2Flag_no_comma, of cbind "'',''"]
  by (simp add: checkChannelBindingFlag_def gs2Flag_def HasPrefix_def)

lemma scramHMAC_length [simp]: "length (scramHMAC k d) = 32"
  by (simp add: scramHMAC_def)

text \<open>The proof a client that knows the client key computes is the one the server accepts.\<close>

lemma ServerFinal_accepts:
  assumes "ssStep s = 1" and "CHR '','' \<notin> set nonce"
    and "svStoredKey (ssVerifier s) = scramH ck" and "length ck = 32"
    and "bindingData (ssGs2Header s) (ssCbind s) \<noteq> []"
  defines "wp \<equiv> ''c='' @ StdEncode (bindingData (ssGs2Header s) (ssCbind s)) @ '',r='' @ nonce"
  defines "am \<equiv> authMessage (ssClientFirstBare s) (ssServerFirst s) wp"
  shows "ServerFinal (wp @ '',p='' @ StdEncode (xorBytes ck (scramHMAC (scramH ck) am))) s =
     (s\<lparr>ssStep := 2\<rparr>, Inr (''v='' @ StdEncode (scramHMAC (svServerKey (ssVerifier s)) am)))"
  using parse_clientFinal [OF assms(2,5), of "xorBytes ck (scramHMAC (scramH ck) am)", folded wp_def] assms(1,3,4)
  by (simp add: ServerFinal_def am_def verifyChannelBinding_def b64.roundtrip xorBytes_cancel Let_def)

text \<open>
  An honest exchange completes: a client that knows the password and a server that looks
  up the verifier made from it, with the same channel binding and any nonces drawn by the
  program's nonce function, run through all four messages without error, and both sides end
  in their final state.
\<close>

lemma scram_run:
  assumes "randomNonce (Inr cb) = Inr cn" and "randomNonce (Inr sb) = Inr sn" and "cb \<noteq> []"
    and "s = SetUsername name (NewScramServer lookup cbind)"
    and "lookup (if name = [] then user else name) = (MakeScramVerifier kdf password salt n, True)"
    and "salt \<noteq> []" and "0 < n" and "n < 2 ^ 63"
  shows "\<exists>c1 m1 s1 m2 c2 m3 s2 m4 c3.
     ClientFirst (Inr cn) (NewScramClient user password cbind) = (c1, Inr m1)
     \<and> ServerFirst U (Inr sn) m1 s = (s1, Inr m2)
     \<and> ClientFinal U kdf m2 c1 = (c2, Inr m3)
     \<and> ServerFinal m3 s1 = (s2, Inr m4)
     \<and> VerifyServerFinal m4 c2 = (c3, None) \<and> ssStep s2 = 2 \<and> scStep c3 = 3"
proof -
  let ?v = "MakeScramVerifier kdf password salt n"
  let ?salted = "saltedPassword kdf password salt n"
  let ?ck = "scramHMAC ?salted ''Client Key''"
  define gs2 where "gs2 = gs2Flag cbind @ '',,''"
  define bare where "bare = ''n='' @ encodeSaslName user @ '',r='' @ cn"
  define sf where "sf = ''r='' @ cn @ sn @ '',s='' @ StdEncode salt @ '',i='' @ showInt n"
  define wp where "wp = ''c='' @ StdEncode (bindingData gs2 cbind) @ '',r='' @ cn @ sn"
  define am where "am = authMessage bare sf wp"
  define c1 where "c1 = (NewScramClient user password cbind)
    \<lparr>scGs2Header := gs2, scClientNonce := cn, scClientFirstBare := bare, scStep := 1\<rparr>"
  define s1 where "s1 = s\<lparr>ssVerifier := ?v, ssGs2Header := gs2, ssClientFirstBare := bare,
    ssServerFirst := sf, ssStep := 1\<rparr>"
  have n: "CHR '','' \<notin> set cn" "CHR '','' \<notin> set sn" "cn \<noteq> []"
    using assms(1-3) b64_special by (auto simp: randomNonce_def)
  have "ClientFirst (Inr cn) (NewScramClient user password cbind) = (c1, Inr (gs2 @ bare))"
    by (auto simp: ClientFirst_def NewScramClient_def c1_def gs2_def gs2Flag_def bare_def Let_def)
  moreover have "ServerFirst U (Inr sn) (gs2 @ bare) s = (s1, Inr sf)"
    using parse_clientFirst [OF gs2Flag_no_comma n(1,3), of cbind user] gs2Flag_checked [of s cbind] assms(5)
    by (auto simp: ServerFirst_def s1_def sf_def bare_def gs2_def assms(4) SetUsername_def NewScramServer_def
        MakeScramVerifier_def Let_def)
  moreover have "parseServerFirst U sf = Inr (cn @ sn, salt, n)"
    using parse_serverFirst [of "cn @ sn" salt n U] n assms(6-8) by (simp add: sf_def)
  then have "ClientFinal U kdf sf c1 =
      (c1\<lparr>scServerSignature := scramHMAC (scramHMAC ?salted ''Server Key'') am, scStep := 2\<rparr>,
       Inr (wp @ '',p='' @ StdEncode (xorBytes ?ck (scramHMAC (scramH ?ck) am))))"
    by (simp add: ClientFinal_def c1_def NewScramClient_def am_def wp_def Let_def)
  moreover have "bindingData gs2 cbind \<noteq> []" by (simp add: bindingData_def gs2_def)
  then have "ServerFinal (wp @ '',p='' @ StdEncode (xorBytes ?ck (scramHMAC (scramH ?ck) am))) s1 =
      (s1\<lparr>ssStep := 2\<rparr>, Inr (''v='' @ StdEncode (scramHMAC (scramHMAC ?salted ''Server Key'') am)))"
    using ServerFinal_accepts [of s1 "cn @ sn" ?ck] n
    by (simp add: s1_def am_def wp_def MakeScramVerifier_def assms(4) SetUsername_def NewScramServer_def Let_def)
  moreover have "VerifyServerFinal (''v='' @ StdEncode (scramHMAC (scramHMAC ?salted ''Server Key'') am))
      (c1\<lparr>scServerSignature := scramHMAC (scramHMAC ?salted ''Server Key'') am, scStep := 2\<rparr>) =
      (c1\<lparr>scServerSignature := scramHMAC (scramHMAC ?salted ''Server Key'') am, scStep := 3\<rparr>, None)"
    by (simp add: VerifyServerFinal_def HasPrefix_def b64.roundtrip)
  ultimately show ?thesis by fastforce
qed

text \<open>
  The server accepts exactly the proofs of knowledge: a client-final message is accepted
  iff the exchange is at that step, the message binds the channel and header the client
  announced, and its proof is the XOR of some preimage of the stored key with the signature
  over all messages of this exchange. Every refusal leaves the server as it was.
\<close>

lemma ServerFinal_iff:
  "((\<exists>s' out. ServerFinal m s = (s', Inr out)) \<longleftrightarrow>
      ssStep s = 1 \<and> (\<exists>cb wp p ck. parseClientFinal m = Inr (cb, wp, p)
        \<and> StdDecode cb = Inr (bindingData (ssGs2Header s) (ssCbind s))
        \<and> scramH ck = svStoredKey (ssVerifier s) \<and> length ck = 32
        \<and> p = xorBytes ck (scramHMAC (svStoredKey (ssVerifier s)) (authMessage (ssClientFirstBare s) (ssServerFirst s) wp))))
   \<and> (fst (ServerFinal m s) = s \<or> (\<exists>out. snd (ServerFinal m s) = Inr out))"
proof (rule conjI, rule iffI)
  assume "\<exists>s' out. ServerFinal m s = (s', Inr out)"
  then obtain cb wp p where f: "ssStep s = 1" "parseClientFinal m = Inr (cb, wp, p)" "verifyChannelBinding s cb = None"
    and p: "length p = 32"
      "scramH (xorBytes p (scramHMAC (svStoredKey (ssVerifier s)) (authMessage (ssClientFirstBare s) (ssServerFirst s) wp)))
         = svStoredKey (ssVerifier s)"
    by (auto simp: ServerFinal_def Let_def split: if_splits sum.splits option.splits prod.splits)
  have "StdDecode cb = Inr (bindingData (ssGs2Header s) (ssCbind s))"
    using f(3) by (auto simp: verifyChannelBinding_def split: sum.splits if_splits)
  then show "ssStep s = 1 \<and> (\<exists>cb wp p ck. parseClientFinal m = Inr (cb, wp, p)
        \<and> StdDecode cb = Inr (bindingData (ssGs2Header s) (ssCbind s))
        \<and> scramH ck = svStoredKey (ssVerifier s) \<and> length ck = 32
        \<and> p = xorBytes ck (scramHMAC (svStoredKey (ssVerifier s)) (authMessage (ssClientFirstBare s) (ssServerFirst s) wp)))"
    using f(1,2) p by (intro conjI exI [of _ cb] exI [of _ wp] exI [of _ p]
        exI [of _ "xorBytes p (scramHMAC (svStoredKey (ssVerifier s)) (authMessage (ssClientFirstBare s) (ssServerFirst s) wp))"])
      (simp_all add: xorBytes_cancel)
next
  assume "ssStep s = 1 \<and> (\<exists>cb wp p ck. parseClientFinal m = Inr (cb, wp, p)
        \<and> StdDecode cb = Inr (bindingData (ssGs2Header s) (ssCbind s))
        \<and> scramH ck = svStoredKey (ssVerifier s) \<and> length ck = 32
        \<and> p = xorBytes ck (scramHMAC (svStoredKey (ssVerifier s)) (authMessage (ssClientFirstBare s) (ssServerFirst s) wp)))"
  then show "\<exists>s' out. ServerFinal m s = (s', Inr out)"
    by (auto simp: ServerFinal_def Let_def verifyChannelBinding_def xorBytes_cancel)
next
  show "fst (ServerFinal m s) = s \<or> (\<exists>out. snd (ServerFinal m s) = Inr out)"
    by (auto simp: ServerFinal_def Let_def split: sum.splits option.splits prod.splits)
qed

end
