(* ===== verification/AuthProps.thy ===== *)
theory AuthProps
  imports Auth ScramProps
begin

text \<open>
  The handshakes: an honest peer gets through, nobody else does, and no credential or query
  crosses a connection that was meant to be encrypted in clear.
\<close>

section \<open>Scripts\<close>

lemma receive_Inr: "receive p = (Inr m, p') \<longleftrightarrow> (\<exists>ms. incoming p = Inr m # ms \<and> p' = p\<lparr>incoming := ms\<rparr>)"
  by (auto simp: receive_def split: list.splits)

lemma send_Inr:
  "send m p = (Inr u, p') \<Longrightarrow> incoming p' = incoming p \<and> entropy p' = entropy p \<and> sent p' = sent p @ [m]"
  by (auto simp: send_def split: list.splits option.splits)

lemma send_sent: "set (sent (snd (send m p))) \<subseteq> insert m (set (sent p))"
  by (auto simp: send_def split: list.splits option.splits)

lemma send_quiet: "sendErrors p = [] \<Longrightarrow> send m p = (Inr (), p\<lparr>sent := sent p @ [m]\<rparr>)"
  by (simp add: send_def)

definition freshPeer :: "handshakeMsg list \<Rightarrow> bytes \<Rightarrow> peer" where
  "freshPeer ms b = \<lparr>incoming = map Inr ms, sendErrors = [], sent = [], entropy = [Inr b]\<rparr>"

text \<open>Whether a step succeeds does not depend on the nonce.\<close>

lemma ServerFirst_any_nonce:
  "ServerFirst U (Inr x) m s = (s', Inr out) \<Longrightarrow> \<exists>out'. snd (ServerFirst U (Inr y) m s) = Inr out'"
  by (auto simp: ServerFirst_def Let_def split: if_splits sum.splits option.splits prod.splits)

lemma ClientFirst_any_nonce:
  "ClientFirst (Inr x) c = (c', Inr out) \<Longrightarrow> \<exists>out'. snd (ClientFirst (Inr y) c) = Inr out'"
  by (auto simp: ClientFirst_def Let_def split: if_splits)

lemma drawing_runs:
  assumes "step (Inr x) s = (s', Inr out)" and "\<exists>o1. snd (step (Inr []) s) = Inr o1"
    and "randomNonce (Inr b) = Inr x" and "entropy p = [Inr b]"
  shows "drawing step s p = (Inr (s', out), p\<lparr>entropy := []\<rparr>)"
  using assms by (auto simp: drawing_def readRandom_def)

section \<open>An honest peer gets through\<close>

lemma upstream_run:
  assumes "ServerFirst U (Inr sn) m1 (SetUsername (paramOf params ''user'') s) = (s1, Inr m2)"
    and "ServerFinal m3 s1 = (s2, Inr m4)" and "randomNonce (Inr sb) = Inr sn"
  shows "\<exists>p'. AuthenticateUpstream U s
       (freshPeer [StartupMessage params, SASLInitialResponse scramMechanism m1, SASLResponse m3] sb) = (Inr params, p')
     \<and> sent p' = [AuthenticationSASL [scramMechanism], AuthenticationSASLContinue m2, AuthenticationSASLFinal m4,
                  AuthenticationOk]"
  using drawing_runs [where step = "\<lambda>drawn. ServerFirst U drawn m1", OF assms(1) ServerFirst_any_nonce [OF assms(1)] assms(3)]
    assms(2)
  by (simp add: AuthenticateUpstream_def runUpstreamSASL_def freshPeer_def readStartup.simps bindIO_def contextIO_def
      receiveSASLInitial_def receiveSASLResponse_def receive_def send_def stepping_def)

lemma downstream_run:
  assumes "ClientFirst (Inr cn) c = (c1, Inr m1)" and "ClientFinal U kdf m2 c1 = (c2, Inr m3)"
    and "VerifyServerFinal m4 c2 = (c3, None)" and "randomNonce (Inr cb) = Inr cn"
  shows "\<exists>p'. AuthenticateDownstream U kdf params c
       (freshPeer [AuthenticationSASL [scramMechanism], AuthenticationSASLContinue m2, AuthenticationSASLFinal m4,
          AuthenticationOk] cb) = (Inr c3, p')
     \<and> sent p' = [StartupMessage params, SASLInitialResponse scramMechanism m1, SASLResponse m3]"
  using drawing_runs [where step = ClientFirst, OF assms(1) ClientFirst_any_nonce [OF assms(1)] assms(4)] assms(2,3)
  by (simp add: AuthenticateDownstream_def runDownstreamSASL_def freshPeer_def bindIO_def contextIO_def
      expectBackend_def asSASL_def asContinue_def asFinal_def asOk_def containsString_def
      receive_def send_def stepping_def verifying_def)

text \<open>One user, and a key derivation that returns the password.\<close>

definition demoUnicode :: unicode where
  "demoUnicode = \<lparr>uniToUpper = id, uniToLower = id, uniIsPrint = (\<lambda>_. True)\<rparr>"

definition demoKdf :: kdf where "demoKdf = (\<lambda>password salt iterations len. password)"

definition demoLookup :: "string \<Rightarrow> ScramVerifier \<times> bool" where
  "demoLookup u = (MakeScramVerifier demoKdf ''pw'' ''salt'' 4096, u = ''kc'')"

definition demoParams :: "string \<rightharpoonup> string" where
  "demoParams = [''user'' \<mapsto> ''kc'']"

lemma demo_nonces: "randomNonce (Inr [CHR 0x01]) = Inr ''AQ''" "randomNonce (Inr [CHR 0x02]) = Inr ''Ag''"
  by code_simp+

lemma demo_admitted:
  "\<exists>m1 m3 p'. AuthenticateUpstream demoUnicode (NewScramServer demoLookup None)
       (freshPeer [StartupMessage demoParams, SASLInitialResponse scramMechanism m1, SASLResponse m3] [CHR 0x02])
         = (Inr demoParams, p')
     \<and> AuthenticationOk \<in> set (sent p')"
proof -
  obtain m1 s1 m2 m3 s2 m4 where
    "ServerFirst demoUnicode (Inr ''Ag'') m1 (SetUsername (paramOf demoParams ''user'') (NewScramServer demoLookup None)) = (s1, Inr m2)"
    "ServerFinal m3 s1 = (s2, Inr m4)"
    using scram_run [OF demo_nonces, where lookup = demoLookup and name = "paramOf demoParams ''user''" and user = "''kc''"
      and kdf = demoKdf and password = "''pw''" and salt = "''salt''" and n = 4096 and cbind = None and U = demoUnicode]
    by (fastforce simp: demoLookup_def demoParams_def paramOf_def)
  from upstream_run [OF this demo_nonces(2)] show ?thesis by fastforce
qed

text \<open>
  C16. The two legs of the proxy speak the same protocol: its client side, with the password
  behind the verifier its server side looks up, completes the handshake with the server side.
  What each side reads is what the other side sent, in order, and both report success.
\<close>

theorem handshake_completes:
  assumes "randomNonce (Inr cb) = Inr cn" and "randomNonce (Inr sb) = Inr sn" and "cb \<noteq> []"
    and "lookup (if paramOf params ''user'' = [] then user else paramOf params ''user'')
          = (MakeScramVerifier kdf password salt n, True)"
    and "salt \<noteq> []" and "0 < n" and "n < 2 ^ 63"
  shows "\<exists>up' down' c. AuthenticateUpstream U (NewScramServer lookup cbind) (freshPeer (sent down') sb) = (Inr params, up')
     \<and> AuthenticateDownstream U kdf params (NewScramClient user password cbind) (freshPeer (sent up') cb) = (Inr c, down')
     \<and> scStep c = 3"
proof -
  obtain c1 m1 s1 m2 c2 m3 s2 m4 c3 where r:
    "ClientFirst (Inr cn) (NewScramClient user password cbind) = (c1, Inr m1)"
    "ServerFirst U (Inr sn) m1 (SetUsername (paramOf params ''user'') (NewScramServer lookup cbind)) = (s1, Inr m2)"
    "ClientFinal U kdf m2 c1 = (c2, Inr m3)" "ServerFinal m3 s1 = (s2, Inr m4)"
    "VerifyServerFinal m4 c2 = (c3, None)" "scStep c3 = 3"
    using scram_run [where lookup = lookup and name = "paramOf params ''user''", OF assms(1-3) refl assms(4-7)] by blast
  show ?thesis
    using upstream_run [OF r(2,4) assms(2)] downstream_run [OF r(1,3,5) assms(1), of params] r(6) by metis
qed

theorem handshake_completes_witness:
  "\<exists>up' down' c. AuthenticateUpstream demoUnicode (NewScramServer demoLookup None) (freshPeer (sent down') [CHR 0x02])
       = (Inr demoParams, up')
     \<and> AuthenticateDownstream demoUnicode demoKdf demoParams (NewScramClient ''kc'' ''pw'' None) (freshPeer (sent up') [CHR 0x01])
       = (Inr c, down')"
  using handshake_completes [OF demo_nonces, where lookup = demoLookup and params = demoParams and user = "''kc''"
      and kdf = demoKdf and password = "''pw''" and salt = "''salt''" and n = 4096 and cbind = None and U = demoUnicode]
  by (fastforce simp: demoLookup_def demoParams_def paramOf_def)

section \<open>Nobody else does\<close>

text \<open>
  \<open>quiet\<close> calls never admit the client; \<open>admitting\<close> calls admit it only when
  they succeed.
\<close>

definition quiet :: "(peer, 'a) io \<Rightarrow> bool" where
  "quiet m \<longleftrightarrow> (\<forall>p. AuthenticationOk \<in> set (sent (snd (m p))) \<longrightarrow> AuthenticationOk \<in> set (sent p))"

definition admitting :: "(peer, 'a) io \<Rightarrow> bool" where
  "admitting m \<longleftrightarrow> (\<forall>p e p'. m p = (Inl e, p') \<longrightarrow> AuthenticationOk \<in> set (sent p') \<longrightarrow> AuthenticationOk \<in> set (sent p))"

lemma quietD: "quiet m \<Longrightarrow> m p = (r, p') \<Longrightarrow> AuthenticationOk \<in> set (sent p') \<Longrightarrow> AuthenticationOk \<in> set (sent p)"
  by (metis quiet_def snd_conv)

lemma quietI:
  "(\<And>p r p'. m p = (r, p') \<Longrightarrow> AuthenticationOk \<in> set (sent p') \<Longrightarrow> AuthenticationOk \<in> set (sent p)) \<Longrightarrow> quiet m"
  by (metis quiet_def prod.collapse)

lemma bindIO_cases:
  assumes "bindIO m k p = (r, p')"
  obtains (stop) e where "m p = (Inl e, p')" "r = Inl e" | (step) a p1 where "m p = (Inr a, p1)" "k a p1 = (r, p')"
  using assms by (auto simp: bindIO_def split: prod.splits sum.splits)

lemma quiet_bind:
  assumes "quiet m" and "\<And>a. quiet (k a)"
  shows "quiet (bindIO m k)"
proof (rule quietI)
  fix p r p' assume "bindIO m k p = (r, p')" and ok: "AuthenticationOk \<in> set (sent p')"
  then show "AuthenticationOk \<in> set (sent p)"
  proof (cases rule: bindIO_cases)
    case (stop e)
    then show ?thesis using ok quietD [OF assms(1)] by blast
  next
    case (step a p1)
    then show ?thesis using ok quietD [OF assms(1) step(1)] quietD [OF assms(2) step(2)] by blast
  qed
qed

lemma admitting_bind:
  assumes "quiet m" and "\<And>a. admitting (k a)"
  shows "admitting (bindIO m k)"
  unfolding admitting_def
proof (intro allI impI)
  fix p e p' assume "bindIO m k p = (Inl e, p')" and ok: "AuthenticationOk \<in> set (sent p')"
  then show "AuthenticationOk \<in> set (sent p)"
  proof (cases rule: bindIO_cases)
    case (stop e')
    then show ?thesis using ok quietD [OF assms(1)] by blast
  next
    case (step a p1)
    then have "AuthenticationOk \<in> set (sent p1)" using ok assms(2) by (metis admitting_def)
    then show ?thesis using step(1) quietD [OF assms(1)] by blast
  qed
qed

lemma quiet_calls:
  "quiet (returnIO a)" "quiet (failIO e)" "quiet receive" "m \<noteq> AuthenticationOk \<Longrightarrow> quiet (send m)"
  by (auto simp: quiet_def receive_def send_def split: list.splits option.splits)

lemma contextIO_snd: "snd (contextIO pre m p) = snd (m p)"
  by (simp add: contextIO_def split: prod.splits sum.splits)

lemma quiet_context: "quiet m \<Longrightarrow> quiet (contextIO pre m)"
  by (simp add: quiet_def contextIO_snd)

lemma quiet_steps: "quiet (drawing step s)" "quiet (stepping step' s')"
  by (auto simp: quiet_def drawing_def stepping_def readRandom_def Let_def split: sum.splits prod.splits list.splits)

lemma quiet_receives: "quiet (receiveSASLInitial U)" "quiet receiveSASLResponse"
  by (auto simp: receiveSASLInitial_def receiveSASLResponse_def intro!: quiet_bind quiet_context quiet_calls
      split: handshakeMsg.split)

lemma admitting_ok: "admitting (bindIO (send AuthenticationOk) (\<lambda>_. returnIO s))"
  by (auto simp: admitting_def bindIO_def send_def split: list.splits option.splits prod.splits sum.splits)

lemma runUpstreamSASL_admitting: "admitting (runUpstreamSASL U s)"
  unfolding runUpstreamSASL_def case_prod_unfold
  by (intro admitting_bind quiet_calls quiet_receives quiet_steps admitting_ok) simp_all

lemma readStartup_declined:
  assumes "incoming p = Inr m # ms" and "m = SSLRequest \<or> m = GSSEncRequest"
    and "send SSLDeclined (p\<lparr>incoming := ms\<rparr>) = (u, p1)"
  shows "readStartup p = (case u of Inl e \<Rightarrow> (Inl (wrapErr ''wire: decline ssl/gss: '' e []), p1) | Inr _ \<Rightarrow> readStartup p1)"
  using assms by (subst readStartup.simps) (elim disjE; simp split: sum.split)

lemma readStartup_ends:
  assumes "incoming p = m # ms" and "m \<noteq> Inr SSLRequest" "m \<noteq> Inr GSSEncRequest"
  shows "snd (readStartup p) = p\<lparr>incoming := ms\<rparr>"
  using assms by (subst readStartup.simps) (simp split: sum.split handshakeMsg.split)

lemma readStartup_run:
  "readStartup p = (r, p') \<Longrightarrow> (AuthenticationOk \<in> set (sent p') \<longrightarrow> AuthenticationOk \<in> set (sent p))
     \<and> set (incoming p') \<subseteq> set (incoming p)"
proof (induction "length (incoming p)" arbitrary: p rule: less_induct)
  case less
  show ?case
  proof (cases "incoming p")
    case Nil
    then show ?thesis using less.prems by (auto simp: readStartup.simps [of p])
  next
    case (Cons m ms)
    obtain u p1 where d: "send SSLDeclined (p\<lparr>incoming := ms\<rparr>) = (u, p1)" by fastforce
    have p1: "AuthenticationOk \<in> set (sent p1) \<longrightarrow> AuthenticationOk \<in> set (sent p)" "incoming p1 = ms"
      using d by (auto simp: send_def split: list.splits option.splits)
    consider (ends) "m \<noteq> Inr SSLRequest" "m \<noteq> Inr GSSEncRequest" | (ask) a where "m = Inr a" "a = SSLRequest \<or> a = GSSEncRequest"
      by blast
    then show ?thesis
    proof cases
      case ends
      then have "p' = p\<lparr>incoming := ms\<rparr>" using readStartup_ends [OF Cons] less.prems by simp
      then show ?thesis using Cons by auto
    next
      case ask
      note r = readStartup_declined [OF Cons [unfolded ask(1)] ask(2) d]
      show ?thesis
      proof (cases u)
        case (Inl e)
        then have "p' = p1" using r less.prems by simp
        then show ?thesis using p1 Cons by auto
      next
        case (Inr x)
        then have "readStartup p1 = (r, p')" using r less.prems by simp
        from less.hyps [OF _ this] show ?thesis using p1 Cons by auto
      qed
    qed
  qed
qed

lemma send_incoming: "incoming (snd (send m p)) = incoming p"
  by (auto simp: send_def split: list.splits option.splits)

lemma drawing_Inr:
  assumes "drawing step s p = (Inr (s', out), p')"
  shows "\<exists>raw. step (randomNonce raw) s = (s', Inr out) \<and> incoming p' = incoming p \<and> sent p' = sent p"
  using assms by (auto simp: drawing_def readRandom_def Let_def split: sum.splits prod.splits list.splits)

lemma stepping_Inr: "stepping step s p = (Inr (s', out), p') \<longleftrightarrow> step s = (s', Inr out) \<and> p' = p"
  by (auto simp: stepping_def split: prod.splits sum.splits)

lemma receiveSASLInitial_Inr:
  assumes "receiveSASLInitial U p = (Inr d, p')"
  shows "set (incoming p') \<subseteq> set (incoming p) \<and> sent p' = sent p"
proof -
  obtain m p1 where "receive p = (Inr m, p1)"
    and "(case m of
         SASLInitialResponse mech d \<Rightarrow>
           if mech \<noteq> scramMechanism
           then failIO (errorsNew (''wire: unsupported SASL mechanism '' @ Quote U mech))
           else returnIO d
       | m \<Rightarrow> failIO (errorsNew (''wire: expected SASLInitialResponse, got '' @ msgType m))) p1 = (Inr d, p')"
    using assms unfolding receiveSASLInitial_def io_Inr by blast
  then show ?thesis by (cases m) (auto simp: receive_Inr split: if_splits)
qed

lemma receiveSASLResponse_Inr:
  assumes "receiveSASLResponse p = (Inr d, p')"
  shows "Inr (SASLResponse d) \<in> set (incoming p) \<and> sent p' = sent p"
proof -
  obtain m p1 where "receive p = (Inr m, p1)"
    and "(case m of SASLResponse d \<Rightarrow> returnIO d
       | m \<Rightarrow> failIO (errorsNew (''wire: expected SASLResponse, got '' @ msgType m))) p1 = (Inr d, p')"
    using assms unfolding receiveSASLResponse_def io_Inr by blast
  then show ?thesis by (cases m) (auto simp: receive_Inr)
qed

lemma ServerFirst_Inr:
  assumes "ServerFirst U drawn m s = (s1, Inr sf)"
  shows "\<exists>name. (ssUsername s \<noteq> [] \<longrightarrow> name = ssUsername s) \<and> ssLookup s name = (ssVerifier s1, True) \<and> ssServerFirst s1 = sf"
  using assms by (auto simp: ServerFirst_def Let_def split: if_splits sum.splits option.splits prod.splits)

lemma runUpstreamSASL_Inr:
  assumes "runUpstreamSASL U s p = (Inr s2, p')"
  shows "\<exists>name s1 m3 sf m4. (ssUsername s \<noteq> [] \<longrightarrow> name = ssUsername s) \<and> ssLookup s name = (ssVerifier s1, True)
     \<and> ssServerFirst s1 = sf \<and> AuthenticationSASLContinue sf \<in> set (sent p')
     \<and> Inr (SASLResponse m3) \<in> set (incoming p) \<and> ServerFinal m3 s1 = (s2, Inr m4)"
proof -
  obtain p1 d p2 s1 sf p3 p4 m3 p5 m4 p6 where
    r: "send (AuthenticationSASL [scramMechanism]) p = (Inr (), p1)" "receiveSASLInitial U p1 = (Inr d, p2)"
      "drawing (\<lambda>drawn. ServerFirst U drawn d) s p2 = (Inr (s1, sf), p3)"
      "send (AuthenticationSASLContinue sf) p3 = (Inr (), p4)" "receiveSASLResponse p4 = (Inr m3, p5)"
      "ServerFinal m3 s1 = (s2, Inr m4)" "send (AuthenticationSASLFinal m4) p5 = (Inr (), p6)"
      "send AuthenticationOk p6 = (Inr (), p')"
    using assms by (auto simp: runUpstreamSASL_def io_Inr stepping_Inr)
  have i: "set (incoming p4) \<subseteq> set (incoming p)"
    using send_Inr [OF r(1)] receiveSASLInitial_Inr [OF r(2)] drawing_Inr [OF r(3)] send_Inr [OF r(4)] by auto
  have "AuthenticationSASLContinue sf \<in> set (sent p')"
    using send_Inr [OF r(4)] receiveSASLResponse_Inr [OF r(5)] send_Inr [OF r(7)] send_Inr [OF r(8)] by auto
  moreover obtain raw where "ServerFirst U (randomNonce raw) d s = (s1, Inr sf)" using drawing_Inr [OF r(3)] by blast
  ultimately show ?thesis
    using ServerFirst_Inr receiveSASLResponse_Inr [OF r(5)] i r(6) by (metis subsetD)
qed

lemma upstream_proved:
  assumes "AuthenticateUpstream U (NewScramServer lookup cbind) p = (Inr params, p')"
  shows "\<exists>name v m cb wp ck bare sf. lookup name = (v, True) \<and> (paramOf params ''user'' \<noteq> [] \<longrightarrow> name = paramOf params ''user'')
     \<and> Inr (SASLResponse m) \<in> set (incoming p) \<and> AuthenticationSASLContinue sf \<in> set (sent p')
     \<and> parseClientFinal m = Inr (cb, wp, xorBytes ck (scramHMAC (svStoredKey v) (authMessage bare sf wp)))
     \<and> scramH ck = svStoredKey v \<and> length ck = 32"
proof -
  let ?s = "SetUsername (paramOf params ''user'') (NewScramServer lookup cbind)"
  obtain p1 s2 where p1: "readStartup p = (Inr params, p1)" "runUpstreamSASL U ?s p1 = (Inr s2, p')"
    using assms unfolding AuthenticateUpstream_def io_Inr by (fastforce split: prod.splits sum.splits)
  obtain name s1 m3 sf m4 where n: "ssUsername ?s \<noteq> [] \<longrightarrow> name = ssUsername ?s"
    "ssLookup ?s name = (ssVerifier s1, True)" "ssServerFirst s1 = sf" "AuthenticationSASLContinue sf \<in> set (sent p')"
    "Inr (SASLResponse m3) \<in> set (incoming p1)" "ServerFinal m3 s1 = (s2, Inr m4)"
    using runUpstreamSASL_Inr [OF p1(2)] by blast
  have "\<exists>s' out. ServerFinal m3 s1 = (s', Inr out)" using n(6) by blast
  then have "\<exists>cb wp ck. parseClientFinal m3 =
      Inr (cb, wp, xorBytes ck (scramHMAC (svStoredKey (ssVerifier s1)) (authMessage (ssClientFirstBare s1) sf wp)))
    \<and> scramH ck = svStoredKey (ssVerifier s1) \<and> length ck = 32"
    using ServerFinal_iff [of m3 s1] n(3) by blast
  moreover have "lookup name = (ssVerifier s1, True)" "paramOf params ''user'' \<noteq> [] \<longrightarrow> name = paramOf params ''user''"
    using n(1,2) by (simp_all add: SetUsername_def NewScramServer_def)
  moreover have "Inr (SASLResponse m3) \<in> set (incoming p)" using n(5) readStartup_run [OF p1(1)] by blast
  ultimately show ?thesis using n(4) by blast
qed

lemma admitted_succeeded:
  assumes "AuthenticateUpstream U s p = (r, p')"
    and "AuthenticationOk \<in> set (sent p')" and "AuthenticationOk \<notin> set (sent p)"
  shows "\<exists>params. r = Inr params"
  using assms(1) unfolding AuthenticateUpstream_def
proof (cases rule: bindIO_cases)
  case (stop e)
  then show ?thesis using readStartup_run [OF stop(1)] assms(2,3) by blast
next
  case (step params p1)
  let ?s = "SetUsername (paramOf params ''user'') s"
  have p1: "AuthenticationOk \<notin> set (sent p1)" using readStartup_run [OF step(1)] assms(3) by auto
  obtain u p2 where u: "runUpstreamSASL U ?s p1 = (u, p2)" by fastforce
  show ?thesis
  proof (cases u)
    case (Inl e)
    then have "AuthenticationOk \<notin> set (sent p2)"
      using runUpstreamSASL_admitting [of U ?s] p1 u unfolding admitting_def by blast
    moreover have "sent p' = sent (snd (send authFailed p2))" using step(2) u Inl by auto
    ultimately show ?thesis using assms(2) send_sent [of authFailed p2] by (auto simp: authFailed_def)
  qed (use step(2) u in auto)
qed

text \<open>
  No access without proof: a client that is told \<^verbatim>\<open>AuthenticationOk\<close> sent a SASL
  response whose proof opens to a preimage of the stored key that the verifier lookup
  returned for the user of its startup message, and the proof is over the server-first
  message that this very run sent it. Only a successful run admits a client.
\<close>

theorem no_access_without_proof:
  assumes "AuthenticateUpstream U (NewScramServer lookup cbind) p = (r, p')"
    and "AuthenticationOk \<in> set (sent p')" and "AuthenticationOk \<notin> set (sent p)"
  shows "\<exists>params name v m cb wp ck bare sf. r = Inr params
     \<and> lookup name = (v, True) \<and> (paramOf params ''user'' \<noteq> [] \<longrightarrow> name = paramOf params ''user'')
     \<and> Inr (SASLResponse m) \<in> set (incoming p) \<and> AuthenticationSASLContinue sf \<in> set (sent p')
     \<and> parseClientFinal m = Inr (cb, wp, xorBytes ck (scramHMAC (svStoredKey v) (authMessage bare sf wp)))
     \<and> scramH ck = svStoredKey v \<and> length ck = 32"
proof -
  obtain params where r: "r = Inr params" using admitted_succeeded [OF assms] by blast
  from upstream_proved [OF assms(1) [unfolded r]] show ?thesis unfolding r by blast
qed

theorem no_access_without_proof_witness:
  "\<exists>m1 m3 p' wp cb ck bare sf. AuthenticateUpstream demoUnicode (NewScramServer demoLookup None)
       (freshPeer [StartupMessage demoParams, SASLInitialResponse scramMechanism m1, SASLResponse m3] [CHR 0x02])
         = (Inr demoParams, p')
     \<and> parseClientFinal m3 = Inr (cb, wp, xorBytes ck (scramHMAC (svStoredKey (fst (demoLookup ''kc''))) (authMessage bare sf wp)))
     \<and> scramH ck = svStoredKey (fst (demoLookup ''kc''))"
proof -
  obtain m1 m3 p' where r: "AuthenticateUpstream demoUnicode (NewScramServer demoLookup None)
       (freshPeer [StartupMessage demoParams, SASLInitialResponse scramMechanism m1, SASLResponse m3] [CHR 0x02])
         = (Inr demoParams, p')" "AuthenticationOk \<in> set (sent p')"
    using demo_admitted by blast
  have fresh: "AuthenticationOk \<notin> set (sent (freshPeer ms b))" for ms b by (simp add: freshPeer_def)
  obtain v name m cb wp ck bare sf where "demoLookup name = (v, True)"
    "Inr (SASLResponse m) \<in> set (incoming (freshPeer [StartupMessage demoParams, SASLInitialResponse scramMechanism m1, SASLResponse m3] [CHR 0x02]))"
    "parseClientFinal m = Inr (cb, wp, xorBytes ck (scramHMAC (svStoredKey v) (authMessage bare sf wp)))"
    "scramH ck = svStoredKey v"
    using no_access_without_proof [OF r] fresh by blast
  moreover from this have "v = fst (demoLookup ''kc'')" "m = m3" by (auto simp: demoLookup_def freshPeer_def)
  ultimately show ?thesis using r(1) by blast
qed

section \<open>TLS\<close>

lemma readFull_one: "readFull 1 c = (Inr reply, c') \<Longrightarrow> \<exists>b. reply = [b] \<and> cnIn c = b # cnIn c' \<and> cnOut c' = cnOut c"
  by (cases "cnIn c") (auto simp: readFull_def)

lemma writeConn_Inr: "writeConn b c = (Inr u, c') \<longleftrightarrow> cnWriteErr c = None \<and> c' = c\<lparr>cnOut := cnOut c @ b\<rparr>"
  by (auto simp: writeConn_def split: option.splits)

text \<open>
  C17. With a backend CA the backend leg is encrypted or it does not exist: a dial that
  succeeds returns the connection of a TLS handshake under that configuration, the backend
  agreed to TLS before it, and the eight bytes of the SSL request are all that was sent in
  clear; a dial that fails leaves no open socket.
\<close>

theorem backend_leg_encrypted:
  assumes "DialBackendTLS U handshake addr (Some cfg) (Inr c) = (r, sock)"
  shows "case r of
       Inr upgraded \<Rightarrow> \<exists>c1. handshake cfg c1 = Inr upgraded \<and> cnOut c1 = cnOut c @ be32 8 @ be32 sslRequestCode
          \<and> cnIn c = CHR ''S'' # cnIn c1
     | Inl e \<Rightarrow> \<exists>c1. sock = Some c1 \<and> cnClosed c1"
proof (cases "writeConn sslRequestBytes c")
  case (Pair u c1)
  show ?thesis
  proof (cases u)
    case (Inl e)
    then show ?thesis using assms Pair by (auto simp: DialBackendTLS_def closeConn_def)
  next
    case (Inr x)
    then have c1: "c1 = c\<lparr>cnOut := cnOut c @ sslRequestBytes\<rparr>" using Pair by (simp add: writeConn_Inr)
    obtain t c2 where t: "readFull 1 c1 = (t, c2)" by fastforce
    show ?thesis
    proof (cases t)
      case (Inl e)
      then show ?thesis using assms Pair Inr t by (auto simp: DialBackendTLS_def closeConn_def)
    next
      case (Inr reply)
      then obtain b where b: "reply = [b]" "cnIn c = b # cnIn c2" "cnOut c2 = cnOut c @ sslRequestBytes"
        using t c1 readFull_one [of c1] by fastforce
      then show ?thesis
        using assms Pair \<open>u = Inr x\<close> t Inr
        by (auto simp: DialBackendTLS_def closeConn_def sslRequestBytes_def split: if_splits sum.splits)
    qed
  qed
qed

definition willingBackend :: byteConn where
  "willingBackend = \<lparr>cnIn = ''S'', cnOut = [], cnWriteErr = None, cnTLS = False, cnClosed = False\<rparr>"

definition demoTLS :: tlsConfig where
  "demoTLS = \<lparr>tlRootCAs = ''ca'', tlCertificate = [], tlServerName = ''db'', tlMinVersion = VersionTLS12\<rparr>"

theorem backend_leg_encrypted_witness:
  "\<exists>up c1. fst (DialBackendTLS demoUnicode (\<lambda>cfg c. Inr (c\<lparr>cnTLS := True\<rparr>)) ''db:5432'' (Some demoTLS) (Inr willingBackend)) = Inr up
     \<and> up = c1\<lparr>cnTLS := True\<rparr> \<and> cnOut c1 = be32 8 @ be32 sslRequestCode"
proof -
  obtain up sock where d: "DialBackendTLS demoUnicode (\<lambda>cfg c. Inr (c\<lparr>cnTLS := True\<rparr>)) ''db:5432'' (Some demoTLS) (Inr willingBackend)
      = (Inr up, sock)"
    by (simp add: DialBackendTLS_def willingBackend_def writeConn_def readFull_def)
  from backend_leg_encrypted [OF d] show ?thesis using d by (auto simp: willingBackend_def)
qed

end
