(* ===== verification/GoTime.thy ===== *)
theory GoTime
  imports Strconv
begin

text \<open>
  \<^verbatim>\<open>time.ParseDuration\<close>, as the configuration uses it: a sign, then numbers with
  units, with the overflow checks of the library. A duration is its nanoseconds; the text of
  the error is not used by the program. The scaling of a decimal fraction, which the library
  computes in floating point, is the argument \<open>scaled\<close> of the digits after the point,
  their power of ten and the unit.
\<close>

type_synonym scaling = "nat \<Rightarrow> nat \<Rightarrow> nat \<Rightarrow> nat"

definition unitMap :: "string \<Rightarrow> nat option" where
  "unitMap u =
     map_of [(''ns'', 1), (''us'', 1000), ([CHR 0xC2, CHR 0xB5, CHR ''s''], 1000),
             ([CHR 0xCE, CHR 0xBC, CHR ''s''], 1000), (''ms'', 1000000), (''s'', 1000000000),
             (''m'', 60000000000), (''h'', 3600000000000)] u"

definition unitStop :: "char \<Rightarrow> bool" where
  "unitStop c \<longleftrightarrow> c = CHR ''.'' \<or> isDigit c"

text \<open>\<^verbatim>\<open>leadingInt\<close>: the digits, or an overflow.\<close>

definition leadingInt :: "string \<Rightarrow> (nat \<times> string) option" where
  "leadingInt s =
     (let ds = takeWhile isDigit s in
      if decimal ds > 2 ^ 63 then None else Some (decimal ds, dropWhile isDigit s))"

text \<open>\<^verbatim>\<open>leadingFraction\<close>: digits beyond what fits are dropped.\<close>

fun fractionDigits :: "nat \<Rightarrow> nat \<Rightarrow> string \<Rightarrow> nat \<times> nat" where
  "fractionDigits x scale [] = (x, scale)"
| "fractionDigits x scale (c # cs) =
     (let y = 10 * x + (byteVal c - 48) in
      if x > (2 ^ 63 - 1) div 10 \<or> y > 2 ^ 63 then (x, scale)
      else fractionDigits y (10 * scale) cs)"

definition leadingFraction :: "string \<Rightarrow> nat \<times> nat \<times> string" where
  "leadingFraction s =
     (let (f, scale) = fractionDigits 0 1 (takeWhile isDigit s) in (f, scale, dropWhile isDigit s))"

text \<open>One turn of the loop: the value of a number with its unit, and the rest.\<close>

definition durationPart :: "scaling \<Rightarrow> string \<Rightarrow> (nat \<times> string) option" where
  "durationPart scaled s =
     (if s = [] \<or> \<not> unitStop (hd s) then None
      else case leadingInt s of
          None \<Rightarrow> None
        | Some (v, s1) \<Rightarrow>
          let pre = (length s1 \<noteq> length s);
              (f, scale, s2) = (if s1 \<noteq> [] \<and> hd s1 = CHR ''.'' then leadingFraction (tl s1) else (0, 1, s1));
              post = (s1 \<noteq> [] \<and> hd s1 = CHR ''.'' \<and> length s2 \<noteq> length (tl s1));
              u = takeWhile (\<lambda>c. \<not> unitStop c) s2; s3 = dropWhile (\<lambda>c. \<not> unitStop c) s2 in
          if \<not> pre \<and> \<not> post then None
          else if u = [] then None
          else case unitMap u of
              None \<Rightarrow> None
            | Some unit \<Rightarrow>
              if v > 2 ^ 63 div unit then None
              else let w = v * unit + (if f > 0 then scaled f scale unit else 0) in
                if w > 2 ^ 63 then None else Some (w, s3))"

text \<open>Each turn consumes at least a unit, so as many turns as bytes are enough.\<close>

fun durationSum :: "scaling \<Rightarrow> nat \<Rightarrow> nat \<Rightarrow> string \<Rightarrow> nat option" where
  "durationSum scaled d 0 s = (if s = [] then Some d else None)"
| "durationSum scaled d (Suc n) s =
     (if s = [] then Some d
      else case durationPart scaled s of
          None \<Rightarrow> None
        | Some (w, s') \<Rightarrow> if d + w > 2 ^ 63 then None else durationSum scaled (d + w) n s')"

definition ParseDuration :: "scaling \<Rightarrow> string \<Rightarrow> int option" where
  "ParseDuration scaled s =
     (let neg = (s \<noteq> [] \<and> hd s = CHR ''-'');
          t = (if s \<noteq> [] \<and> (hd s = CHR ''-'' \<or> hd s = CHR ''+'') then tl s else s) in
      if t = ''0'' then Some 0
      else if t = [] then None
      else case durationSum scaled 0 (length t) t of
          None \<Rightarrow> None
        | Some d \<Rightarrow>
            if neg then Some (- int d) else if d > 2 ^ 63 - 1 then None else Some (int d))"

section \<open>The loop ends by itself\<close>

lemma durationPart_shrinks:
  assumes "durationPart scaled s = Some (w, s')"
  shows "length s' < length s"
proof -
  obtain v s1 where i: "leadingInt s = Some (v, s1)"
    using assms by (auto simp: durationPart_def split: if_splits option.splits)
  define s2 where "s2 = (if s1 \<noteq> [] \<and> hd s1 = CHR ''.'' then dropWhile isDigit (tl s1) else s1)"
  have 1: "length s1 \<le> length s" using i by (auto simp: leadingInt_def Let_def length_dropWhile_le split: if_splits)
  have 2: "length s2 \<le> length s1"
    using length_dropWhile_le [of isDigit "tl s1"] by (auto simp: s2_def)
  have "takeWhile (\<lambda>c. \<not> unitStop c) s2 \<noteq> []" "s' = dropWhile (\<lambda>c. \<not> unitStop c) s2"
    using assms i
    by (auto simp: durationPart_def leadingFraction_def s2_def Let_def split: if_splits option.splits prod.splits)
  moreover have "length s2 = length (takeWhile (\<lambda>c. \<not> unitStop c) s2) + length (dropWhile (\<lambda>c. \<not> unitStop c) s2)"
    by (metis length_append takeWhile_dropWhile_id)
  ultimately have "length s' < length s2" by (cases "takeWhile (\<lambda>c. \<not> unitStop c) s2") auto
  then show ?thesis using 1 2 by simp
qed

text \<open>More turns than bytes change nothing.\<close>

lemma durationSum_enough:
  "length s \<le> n \<Longrightarrow> durationSum scaled d (n + k) s = durationSum scaled d n s"
proof (induction n arbitrary: d s)
  case 0
  then show ?case by (cases k) simp_all
next
  case (Suc n)
  show ?case
  proof (cases "durationPart scaled s")
    case (Some ws)
    then have "length (snd ws) \<le> n"
      using durationPart_shrinks [of scaled s "fst ws" "snd ws"] Suc.prems by simp
    then show ?thesis using Suc.IH Some by (cases ws) simp
  qed simp
qed

end
