(* ===== verification/ProxyConfig.thy ===== *)
theory ProxyConfig
  imports FieldSet GoTime Base64
begin

text \<open>
  \<^verbatim>\<open>internal/config/proxy.go\<close>: the runtime configuration, read from environment
  variables (the argument \<open>env\<close>, what \<^verbatim>\<open>os.Getenv\<close> returns) and validated.
  A nil field set is \<open>None\<close>; a duration is its nanoseconds.
\<close>

record ProxyConfig =
  ListenAddr :: string
  BackendAddr :: string
  cfgKEK :: bytes
  UpstreamUser :: string
  UpstreamPassword :: string
  BackendUser :: string
  BackendPassword :: string
  cfgFields :: "FieldSet option"
  cfgLenient :: bool
  DEKSetFile :: string
  VaultAddr :: string
  VaultToken :: string
  VaultKeyName :: string
  VaultMount :: string
  VaultAppRoleMount :: string
  VaultRoleID :: string
  VaultSecretID :: string
  VaultKubernetesRole :: string
  VaultKubernetesMount :: string
  VaultKubernetesJWTFile :: string
  TLSCertFile :: string
  TLSKeyFile :: string
  MetricsAddr :: string
  HealthAddr :: string
  BackendCAFile :: string
  BackendServerName :: string
  MaxConnections :: int
  HandshakeTimeout :: int

definition kekBytes :: nat where "kekBytes = 32"

text \<open>\<^verbatim>\<open>fmt\<close>'s \<^verbatim>\<open>%v\<close> of the list of missing settings.\<close>

definition showNames :: "string list \<Rightarrow> string" where
  "showNames ss = ''['' @ (case ss of [] \<Rightarrow> [] | x # xs \<Rightarrow> x @ concat (map (\<lambda>s. '' '' @ s) xs)) @ '']''"

definition requiredSettings :: "ProxyConfig \<Rightarrow> (string \<times> string) list" where
  "requiredSettings c =
     [(''KKP_LISTEN_ADDR'', ListenAddr c), (''KKP_BACKEND_ADDR'', BackendAddr c),
      (''KKP_UPSTREAM_USER'', UpstreamUser c), (''KKP_UPSTREAM_PASSWORD'', UpstreamPassword c),
      (''KKP_BACKEND_USER'', BackendUser c), (''KKP_BACKEND_PASSWORD'', BackendPassword c)]"

definition missingSettings :: "ProxyConfig \<Rightarrow> string list" where
  "missingSettings c = map fst (filter (\<lambda>(name, value). value = []) (requiredSettings c))"

fun boolCount :: "bool list \<Rightarrow> nat" where
  "boolCount [] = 0"
| "boolCount (b # bs) = (if b then Suc (boolCount bs) else boolCount bs)"

definition validateVaultAuth :: "ProxyConfig \<Rightarrow> goerror option" where
  "validateVaultAuth c =
     (if VaultKeyName c = [] then Some (errorsNew ''config: KKP_VAULT_ADDR requires KKP_VAULT_KEY_NAME'')
      else
        let hasToken = (VaultToken c \<noteq> []);
            hasAppRole = (VaultRoleID c \<noteq> [] \<or> VaultSecretID c \<noteq> []);
            hasK8s = (VaultKubernetesRole c \<noteq> []) in
        if boolCount [hasToken, hasAppRole, hasK8s] > 1
        then Some (errorsNew (''config: configure exactly one Vault auth mode '' @ [CHR 0xE2, CHR 0x80, CHR 0x94]
               @ '' KKP_VAULT_TOKEN, AppRole (KKP_VAULT_ROLE_ID), or Kubernetes (KKP_VAULT_KUBERNETES_ROLE)''))
        else if hasAppRole \<and> (VaultRoleID c = [] \<or> VaultSecretID c = [])
        then Some (errorsNew ''config: AppRole auth requires both KKP_VAULT_ROLE_ID and KKP_VAULT_SECRET_ID'')
        else if \<not> hasToken \<and> \<not> hasAppRole \<and> \<not> hasK8s
        then Some (errorsNew (''config: KKP_VAULT_ADDR requires one of KKP_VAULT_TOKEN, AppRole (KKP_VAULT_ROLE_ID), ''
               @ ''or Kubernetes (KKP_VAULT_KUBERNETES_ROLE)''))
        else None)"

definition validateKMS :: "ProxyConfig \<Rightarrow> goerror option" where
  "validateKMS c =
     (let hasStatic = (length (cfgKEK c) > 0); hasVault = (VaultAddr c \<noteq> []) in
      if hasStatic \<and> hasVault then Some (errorsNew ''config: set KKP_KEK or KKP_VAULT_ADDR, not both'')
      else if \<not> hasStatic \<and> \<not> hasVault then Some (errorsNew ''config: one of KKP_KEK or KKP_VAULT_ADDR is required'')
      else if hasStatic \<and> length (cfgKEK c) \<noteq> kekBytes
      then Some (errorsNew (''config: KKP_KEK must decode to '' @ showNat kekBytes @ '' bytes (got ''
             @ showNat (length (cfgKEK c)) @ '')''))
      else if hasVault then validateVaultAuth c
      else None)"

definition Validate :: "ProxyConfig \<Rightarrow> goerror option" where
  "Validate c =
     (if missingSettings c \<noteq> []
      then Some (errorsNew (''config: missing required settings: '' @ showNames (missingSettings c)))
      else case validateKMS c of
          Some err \<Rightarrow> Some err
        | None \<Rightarrow>
          if (TLSCertFile c = []) \<noteq> (TLSKeyFile c = [])
          then Some (errorsNew ''config: set both KKP_TLS_CERT_FILE and KKP_TLS_KEY_FILE, or neither'')
          else if cfgFields c = None then Some (errorsNew ''config: field set is nil'')
          else None)"

definition decodeKEK :: "string \<Rightarrow> bytes result" where
  "decodeKEK kekB64 =
     (if kekB64 = [] then Inr []
      else case StdDecode kekB64 of
          Inl err \<Rightarrow> Inl (wrapErr ''config: KKP_KEK is not valid base64: '' err [])
        | Inr decoded \<Rightarrow> Inr decoded)"

definition readMaxConnections :: "unicode \<Rightarrow> string \<Rightarrow> int result" where
  "readMaxConnections U v =
     (if v = [] then Inr 0
      else case Atoi v of
          Some n \<Rightarrow> if n < 0 then Inl (errorsNew (''config: KKP_MAX_CONNECTIONS must be a non-negative integer, got '' @ Quote U v))
                    else Inr n
        | None \<Rightarrow> Inl (errorsNew (''config: KKP_MAX_CONNECTIONS must be a non-negative integer, got '' @ Quote U v)))"

definition readHandshakeTimeout :: "unicode \<Rightarrow> scaling \<Rightarrow> string \<Rightarrow> int result" where
  "readHandshakeTimeout U scaled v =
     (if v = [] then Inr 0
      else case ParseDuration scaled v of
          Some d \<Rightarrow> if d < 0 then Inl (errorsNew (''config: KKP_HANDSHAKE_TIMEOUT must be a Go duration (e.g. 10s), got '' @ Quote U v))
                    else Inr d
        | None \<Rightarrow> Inl (errorsNew (''config: KKP_HANDSHAKE_TIMEOUT must be a Go duration (e.g. 10s), got '' @ Quote U v)))"

definition LoadProxyConfig :: "unicode \<Rightarrow> scaling \<Rightarrow> (string \<Rightarrow> string) \<Rightarrow> ProxyConfig result" where
  "LoadProxyConfig U scaled env =
     bindR (decodeKEK (env ''KKP_KEK'')) (\<lambda>kek.
     bindR (selectFields U (env ''KKP_FIELDS'')) (\<lambda>fields.
     let cfg = \<lparr>ListenAddr = env ''KKP_LISTEN_ADDR'', BackendAddr = env ''KKP_BACKEND_ADDR'', cfgKEK = kek,
       UpstreamUser = env ''KKP_UPSTREAM_USER'', UpstreamPassword = env ''KKP_UPSTREAM_PASSWORD'',
       BackendUser = env ''KKP_BACKEND_USER'', BackendPassword = env ''KKP_BACKEND_PASSWORD'',
       cfgFields = Some fields, cfgLenient = (env ''KKP_LENIENT'' = ''true''), DEKSetFile = env ''KKP_DEKSET_FILE'',
       VaultAddr = env ''KKP_VAULT_ADDR'', VaultToken = env ''KKP_VAULT_TOKEN'',
       VaultKeyName = env ''KKP_VAULT_KEY_NAME'', VaultMount = env ''KKP_VAULT_MOUNT'',
       VaultAppRoleMount = env ''KKP_VAULT_APPROLE_MOUNT'', VaultRoleID = env ''KKP_VAULT_ROLE_ID'',
       VaultSecretID = env ''KKP_VAULT_SECRET_ID'', VaultKubernetesRole = env ''KKP_VAULT_KUBERNETES_ROLE'',
       VaultKubernetesMount = env ''KKP_VAULT_KUBERNETES_MOUNT'',
       VaultKubernetesJWTFile = env ''KKP_VAULT_KUBERNETES_JWT_FILE'',
       TLSCertFile = env ''KKP_TLS_CERT_FILE'', TLSKeyFile = env ''KKP_TLS_KEY_FILE'',
       MetricsAddr = env ''KKP_METRICS_ADDR'', HealthAddr = env ''KKP_HEALTH_ADDR'',
       BackendCAFile = env ''KKP_BACKEND_CA_FILE'', BackendServerName = env ''KKP_BACKEND_SERVER_NAME'',
       MaxConnections = 0, HandshakeTimeout = 0\<rparr> in
     bindR (readMaxConnections U (env ''KKP_MAX_CONNECTIONS'')) (\<lambda>n.
     bindR (readHandshakeTimeout U scaled (env ''KKP_HANDSHAKE_TIMEOUT'')) (\<lambda>d.
     let cfg' = cfg\<lparr>MaxConnections := n, HandshakeTimeout := d\<rparr> in
     case Validate cfg' of Some err \<Rightarrow> Inl err | None \<Rightarrow> Inr cfg'))))"

section \<open>What a validated configuration guarantees\<close>

text \<open>Exactly one Vault login mode, complete.\<close>

definition oneVaultMode :: "ProxyConfig \<Rightarrow> bool" where
  "oneVaultMode c \<longleftrightarrow>
     (let token = (VaultToken c \<noteq> []); appRole = (VaultRoleID c \<noteq> [] \<and> VaultSecretID c \<noteq> []);
          noAppRole = (VaultRoleID c = [] \<and> VaultSecretID c = []); k8s = (VaultKubernetesRole c \<noteq> []) in
      token \<and> noAppRole \<and> \<not> k8s \<or> \<not> token \<and> appRole \<and> \<not> k8s \<or> \<not> token \<and> noAppRole \<and> k8s)"

definition validKMS :: "ProxyConfig \<Rightarrow> bool" where
  "validKMS c \<longleftrightarrow>
     (if VaultAddr c = [] then length (cfgKEK c) = kekBytes
      else cfgKEK c = [] \<and> VaultKeyName c \<noteq> [] \<and> oneVaultMode c)"

lemma validateKMS_iff: "validateKMS c = None \<longleftrightarrow> validKMS c"
  by (auto simp: validateKMS_def validateVaultAuth_def validKMS_def oneVaultMode_def kekBytes_def Let_def)

definition validConfig :: "ProxyConfig \<Rightarrow> bool" where
  "validConfig c \<longleftrightarrow>
     ListenAddr c \<noteq> [] \<and> BackendAddr c \<noteq> [] \<and> UpstreamUser c \<noteq> [] \<and> UpstreamPassword c \<noteq> []
     \<and> BackendUser c \<noteq> [] \<and> BackendPassword c \<noteq> [] \<and> validKMS c
     \<and> (TLSCertFile c = [] \<longleftrightarrow> TLSKeyFile c = []) \<and> cfgFields c \<noteq> None"

lemma Validate_iff: "Validate c = None \<longleftrightarrow> validConfig c"
proof -
  have "missingSettings c = [] \<longleftrightarrow> ListenAddr c \<noteq> [] \<and> BackendAddr c \<noteq> [] \<and> UpstreamUser c \<noteq> []
      \<and> UpstreamPassword c \<noteq> [] \<and> BackendUser c \<noteq> [] \<and> BackendPassword c \<noteq> []"
    by (auto simp: missingSettings_def requiredSettings_def)
  then show ?thesis
    using validateKMS_iff [of c] by (auto simp: Validate_def validConfig_def split: option.splits)
qed

lemma LoadProxyConfig_Inr:
  assumes "LoadProxyConfig U scaled env = Inr c"
  shows "validConfig c \<and> 0 \<le> MaxConnections c \<and> 0 \<le> HandshakeTimeout c
     \<and> (\<exists>fs. cfgFields c = Some fs \<and> selectFields U (env ''KKP_FIELDS'') = Inr fs)
     \<and> (cfgLenient c \<longleftrightarrow> env ''KKP_LENIENT'' = ''true'')"
proof -
  obtain kek fields n d where p: "decodeKEK (env ''KKP_KEK'') = Inr kek" "selectFields U (env ''KKP_FIELDS'') = Inr fields"
    "readMaxConnections U (env ''KKP_MAX_CONNECTIONS'') = Inr n"
    "readHandshakeTimeout U scaled (env ''KKP_HANDSHAKE_TIMEOUT'') = Inr d"
    and c: "Validate c = None" "MaxConnections c = n" "HandshakeTimeout c = d" "cfgFields c = Some fields"
      "cfgLenient c \<longleftrightarrow> env ''KKP_LENIENT'' = ''true''"
    using assms by (auto simp: LoadProxyConfig_def bindR_eq_Inr Let_def split: option.splits)
  have "0 \<le> n" using p(3) by (auto simp: readMaxConnections_def split: if_splits option.splits)
  moreover have "0 \<le> d" using p(4) by (auto simp: readHandshakeTimeout_def split: if_splits option.splits)
  ultimately show ?thesis using c p(2) by (simp add: Validate_iff)
qed

end
