(* ===== verification/DekFile.thy ===== *)
theory DekFile
  imports Kms Json
begin

text \<open>
  The key-set file that \<^verbatim>\<open>cmd/backfill/generate.go\<close> writes with
  \<^verbatim>\<open>json.MarshalIndent\<close> and that the proxy (\<^verbatim>\<open>buildCipher\<close> in
  \<^verbatim>\<open>cmd/proxy/main.go\<close>) and the backfill (\<^verbatim>\<open>openCipherFromFile\<close>) read
  back with \<^verbatim>\<open>json.Unmarshal\<close>.
\<close>

definition jsonBytes :: "bytes \<Rightarrow> string" where
  "jsonBytes b = (if b = [] then ''null'' else jsonQuote (StdEncode b))"

definition indentMember :: "string \<Rightarrow> string \<Rightarrow> string" where
  "indentMember name value = [CHR 0x0A] @ ''  '' @ jsonQuote name @ '': '' @ value"

definition marshalDEKSet :: "DEKSet \<Rightarrow> string" where
  "marshalDEKSet st =
     ''{'' @ indentMember ''KeyVersion'' (showNat (unat (dsKeyVersion st)))
     @ '','' @ indentMember ''Deterministic'' (jsonBytes (dsDeterministic st))
     @ '','' @ indentMember ''NonDeterministic'' (jsonBytes (dsNonDeterministic st))
     @ (if dsBlindIndexKey st = [] then []
        else '','' @ indentMember ''BlindIndexKey'' (jsonBytes (dsBlindIndexKey st)))
     @ [CHR 0x0A] @ ''}''"

definition emptyDEKSet :: DEKSet where
  "emptyDEKSet = \<lparr>dsKeyVersion = 0, dsDeterministic = [], dsNonDeterministic = [], dsBlindIndexKey = []\<rparr>"

definition dekField :: "string \<Rightarrow> json \<Rightarrow> DEKSet \<Rightarrow> DEKSet result" where
  "dekField k v st =
     (if keyMatches k ''KeyVersion'' then
        bindR (decodeUint 32 v (unat (dsKeyVersion st))) (\<lambda>n. Inr (st\<lparr>dsKeyVersion := of_nat n\<rparr>))
      else if keyMatches k ''Deterministic'' then
        bindR (decodeBytes v (dsDeterministic st)) (\<lambda>b. Inr (st\<lparr>dsDeterministic := b\<rparr>))
      else if keyMatches k ''NonDeterministic'' then
        bindR (decodeBytes v (dsNonDeterministic st)) (\<lambda>b. Inr (st\<lparr>dsNonDeterministic := b\<rparr>))
      else if keyMatches k ''BlindIndexKey'' then
        bindR (decodeBytes v (dsBlindIndexKey st)) (\<lambda>b. Inr (st\<lparr>dsBlindIndexKey := b\<rparr>))
      else Inr st)"

definition unmarshalDEKSet :: "bytes \<Rightarrow> DEKSet result" where
  "unmarshalDEKSet raw = bindR (jsonParse raw) (\<lambda>j. decodeObj dekField j emptyDEKSet)"

section \<open>Reading plain strings and numbers\<close>

definition plainChar :: "char \<Rightarrow> bool" where
  "plainChar c \<longleftrightarrow> 32 \<le> byteVal c \<and> byteVal c < 128
     \<and> c \<notin> {CHR 0x22, CHR 0x5C, CHR ''<'', CHR ''>'', CHR ''&''}"

lemma plain_scan: "list_all plainChar b \<Longrightarrow> scanStr (b @ CHR 0x22 # r) = Some (b, r)"
  by (induction b) (auto simp: scanStr.simps [of "CHR 0x22 # r"] scanStr.simps [of "c # cs" for c cs] plainChar_def)

lemma plain_unquote: "list_all plainChar b \<Longrightarrow> unquoteBody b = b"
  by (induction b) (auto simp: unquoteBody.simps [of "[]"] unquoteBody.simps [of "c # cs" for c cs] plainChar_def)

lemma plain_chars: "list_all plainChar b \<Longrightarrow> jsonChars h b = b"
  by (induction b) (auto simp: jsonChars.simps [of h "[]"] jsonChars.simps [of h "c # cs" for c cs] plainChar_def jsonEscape_def)

lemma plain_b64: "list_all plainChar (StdEncode b)"
proof -
  have "plainChar c" if "b64alphabet False True c" for c
    using that by (auto simp: b64alphabet_def b64val_def plainChar_def Let_def split: if_splits)
  then show ?thesis using b64encode_alphabet by (fastforce simp: list_all_iff)
qed

lemma showNat_head: "0 < n \<Longrightarrow> hd (showNat n) \<noteq> CHR ''0''"
proof (induction n rule: showNat.induct)
  case (1 n)
  show ?case
  proof (cases "n < 10")
    case True
    then have "byteVal (byteOf (48 + n)) \<noteq> byteVal (CHR ''0'')" using 1(2) by simp
    then have "byteOf (48 + n) \<noteq> CHR ''0''" by metis
    then show ?thesis using True by (simp add: showNat.simps [of n] digitChar_def)
  next
    case False
    then have "hd (showNat (n div 10)) \<noteq> CHR ''0''" using 1(1) by simp
    then show ?thesis using False by (simp add: showNat.simps [of n] hd_append)
  qed
qed

lemma digitsThen_showNat: "\<not> isDigit c \<Longrightarrow> digitsThen (showNat n @ c # r) = (showNat n, c # r)"
  using showNat_digits [of n] by (auto simp: digitsThen_def list_all_iff takeWhile_append dropWhile_append)

lemma scanNum_showNat:
  assumes "c = CHR '',''"
  shows "scanNum (showNat n @ c # r) = Some (showNat n, c # r)"
proof -
  obtain x t where s: "showNat n = x # t" by (cases "showNat n") auto
  have x: "isDigit x" using showNat_digits [of n] by (simp add: s)
  then have m: "x \<noteq> CHR ''-''" using digit_not_special by blast
  have nd: "\<not> isDigit c" using assms by (simp add: isDigit_def)
  have z: "n = 0 \<Longrightarrow> t = []" using s by (simp add: showNat.simps)
  have tail: "scanFraction (c # r) = Some ([], c # r)" "scanExponent (c # r) = Some ([], c # r)"
    using assms by (simp_all add: scanFraction_def scanExponent_def)
  show ?thesis
  proof (cases "x = CHR ''0''")
    case True
    then have "n = 0" using showNat_head [of n] s by fastforce
    then show ?thesis using True z m s tail by (simp add: scanNum_def)
  next
    case False
    then show ?thesis using digitsThen_showNat [OF nd, of n r] m s tail by (simp add: scanNum_def)
  qed
qed

text \<open>A value in the file, followed by a comma or by the closing line.\<close>

lemma jsonValue_number:
  "jsonValue (Suc n) d (CHR '' '' # showNat k @ CHR '','' # r) = Some (JNum (showNat k), CHR '','' # r)"
proof -
  obtain x t where s: "showNat k = x # t" by (cases "showNat k") auto
  have "isDigit x" using showNat_digits [of k] by (simp add: s)
  then have "\<not> jsonSpace x" and h: "x \<notin> {CHR 0x22, CHR ''{'', CHR ''['', CHR ''t'', CHR ''f'', CHR ''n''}"
    by (auto simp: isDigit_def jsonSpace_def)
  moreover from this have "skipWS (CHR '' '' # showNat k @ CHR '','' # r) = x # t @ CHR '','' # r"
    by (simp add: skipWS_def jsonSpace_def s)
  ultimately show ?thesis
    using scanNum_showNat [OF refl, of k r] s by (simp add: HasPrefix_def)
qed

definition decodedBytes :: "bytes \<Rightarrow> json" where
  "decodedBytes b = (if b = [] then JNull else JStr (StdEncode b))"

lemma jsonValue_bytes:
  "jsonValue (Suc n) d (CHR '' '' # jsonBytes b @ r) = Some (decodedBytes b, r)"
proof (cases "b = []")
  case True
  then show ?thesis by (simp add: jsonBytes_def decodedBytes_def skipWS_def jsonSpace_def HasPrefix_def)
next
  case False
  have "skipWS (CHR '' '' # jsonBytes b @ r) = CHR 0x22 # StdEncode b @ CHR 0x22 # r"
    using False by (simp add: jsonBytes_def jsonQuote_def jsonString_def plain_chars [OF plain_b64] skipWS_def jsonSpace_def)
  then show ?thesis using False plain_scan [OF plain_b64, of b r] by (simp add: decodedBytes_def plain_unquote [OF plain_b64])
qed

lemma member_text:
  assumes "list_all plainChar name" "jsonValue n d (CHR '' '' # value @ r) = Some (v, r)"
  shows "jsonMembers (Suc n) d (indentMember name value @ r) =
     (case skipWS r of
        [] \<Rightarrow> None
      | e # es \<Rightarrow>
        if e = CHR '','' then map_option (\<lambda>(kvs, r'). ((name, v) # kvs, r')) (jsonMembers n d es)
        else if e = CHR ''}'' then Some ([(name, v)], es) else None)"
proof -
  have "skipWS (indentMember name value @ r) = CHR 0x22 # name @ CHR 0x22 # CHR '':'' # CHR '' '' # value @ r"
    by (simp add: indentMember_def jsonQuote_def jsonString_def plain_chars [OF assms(1)] skipWS_def jsonSpace_def)
  moreover have "skipWS (CHR '':'' # CHR '' '' # value @ r) = CHR '':'' # CHR '' '' # value @ r"
    by (simp add: skipWS_def jsonSpace_def)
  ultimately show ?thesis
    using plain_scan [OF assms(1), of "CHR '':'' # CHR '' '' # value @ r"] assms(2) plain_unquote [OF assms(1)]
    by (simp add: jsonMembers.simps(2) del: jsonValue.simps split: list.split)
qed

section \<open>The file reads back\<close>

lemma file_members:
  "jsonMembers (Suc (Suc (Suc (Suc (Suc n))))) d
     (indentMember ''KeyVersion'' (showNat k) @ '','' @ indentMember ''Deterministic'' (jsonBytes a)
      @ '','' @ indentMember ''NonDeterministic'' (jsonBytes b)
      @ (if c = [] then [] else '','' @ indentMember ''BlindIndexKey'' (jsonBytes c)) @ [CHR 0x0A] @ ''}'') =
   Some ([(''KeyVersion'', JNum (showNat k)), (''Deterministic'', decodedBytes a), (''NonDeterministic'', decodedBytes b)]
         @ (if c = [] then [] else [(''BlindIndexKey'', decodedBytes c)]), [])"
proof -
  have names: "list_all plainChar ''KeyVersion''" "list_all plainChar ''Deterministic''"
    "list_all plainChar ''NonDeterministic''" "list_all plainChar ''BlindIndexKey''"
    by (simp_all add: plainChar_def)
  have comma: "skipWS (CHR '','' # r) = CHR '','' # r" for r by (simp add: skipWS_def jsonSpace_def)
  have closing: "skipWS [CHR 0x0A, CHR ''}''] = ''}''" by (simp add: skipWS_def jsonSpace_def)
  note bytes = member_text [OF _ jsonValue_bytes]
  have last: "jsonMembers (Suc (Suc n)) d (indentMember ''BlindIndexKey'' (jsonBytes c) @ [CHR 0x0A, CHR ''}'']) =
      Some ([(''BlindIndexKey'', decodedBytes c)], [])"
    by (simp add: bytes [OF names(4)] closing del: jsonMembers.simps)
  have third: "jsonMembers (Suc (Suc (Suc n))) d (indentMember ''NonDeterministic'' (jsonBytes b)
        @ (if c = [] then [] else CHR '','' # indentMember ''BlindIndexKey'' (jsonBytes c)) @ [CHR 0x0A, CHR ''}'']) =
      Some ((''NonDeterministic'', decodedBytes b) # (if c = [] then [] else [(''BlindIndexKey'', decodedBytes c)]), [])"
    using last by (simp add: bytes [OF names(3)] closing comma del: jsonMembers.simps)
  have second: "jsonMembers (Suc (Suc (Suc (Suc n)))) d (indentMember ''Deterministic'' (jsonBytes a)
        @ CHR '','' # indentMember ''NonDeterministic'' (jsonBytes b)
        @ (if c = [] then [] else CHR '','' # indentMember ''BlindIndexKey'' (jsonBytes c)) @ [CHR 0x0A, CHR ''}'']) =
      Some ((''Deterministic'', decodedBytes a) # (''NonDeterministic'', decodedBytes b)
            # (if c = [] then [] else [(''BlindIndexKey'', decodedBytes c)]), [])"
    using third by (simp add: bytes [OF names(2)] comma del: jsonMembers.simps)
  show ?thesis
    using second by (cases "c = []") (simp_all add: member_text [OF names(1) jsonValue_number] comma del: jsonMembers.simps)
qed

lemma keyMatches_fields:
  "keyMatches ''KeyVersion'' ''KeyVersion''" "\<not> keyMatches ''Deterministic'' ''KeyVersion''"
  "keyMatches ''Deterministic'' ''Deterministic''" "\<not> keyMatches ''NonDeterministic'' ''KeyVersion''"
  "\<not> keyMatches ''NonDeterministic'' ''Deterministic''" "keyMatches ''NonDeterministic'' ''NonDeterministic''"
  "\<not> keyMatches ''BlindIndexKey'' ''KeyVersion''" "\<not> keyMatches ''BlindIndexKey'' ''Deterministic''"
  "\<not> keyMatches ''BlindIndexKey'' ''NonDeterministic''" "keyMatches ''BlindIndexKey'' ''BlindIndexKey''"
  by (simp_all add: keyMatches_def utf8Runes_ascii isASCII_def foldRune_def)

lemma decodeBytes_decoded: "decodeBytes (decodedBytes b) old = Inr b"
  by (simp add: decodeBytes_def decodedBytes_def b64.roundtrip)

lemma unmarshal_marshal [go_codec]: "unmarshalDEKSet (marshalDEKSet st) = Inr st"
proof -
  let ?k = "unat (dsKeyVersion st)"
  let ?kvs = "[(''KeyVersion'', JNum (showNat ?k)), (''Deterministic'', decodedBytes (dsDeterministic st)),
     (''NonDeterministic'', decodedBytes (dsNonDeterministic st))]
     @ (if dsBlindIndexKey st = [] then [] else [(''BlindIndexKey'', decodedBytes (dsBlindIndexKey st))])"
  define rest where "rest = indentMember ''KeyVersion'' (showNat ?k) @ '','' @ indentMember ''Deterministic'' (jsonBytes (dsDeterministic st))
      @ '','' @ indentMember ''NonDeterministic'' (jsonBytes (dsNonDeterministic st))
      @ (if dsBlindIndexKey st = [] then [] else '','' @ indentMember ''BlindIndexKey'' (jsonBytes (dsBlindIndexKey st)))
      @ [CHR 0x0A] @ ''}''"
  have m: "marshalDEKSet st = CHR ''{'' # rest" by (simp add: marshalDEKSet_def rest_def)
  have r: "length rest \<ge> 5" by (simp add: rest_def indentMember_def)
  have w: "\<not> (skipWS rest \<noteq> [] \<and> hd (skipWS rest) = CHR ''}'')" "skipWS (CHR ''{'' # rest) = CHR ''{'' # rest"
    by (simp_all add: rest_def indentMember_def jsonQuote_def jsonString_def skipWS_def jsonSpace_def)
  obtain n where n: "Suc (length (CHR ''{'' # rest)) = Suc (Suc (Suc (Suc (Suc (Suc n)))))"
    using r by (auto dest: le_Suc_ex)
  have "jsonMembers (Suc (Suc (Suc (Suc (Suc n))))) (Suc 0) rest = Some (?kvs, [])"
    unfolding rest_def by (rule file_members)
  then have "jsonValue (Suc (Suc (Suc (Suc (Suc (Suc n)))))) 0 (CHR ''{'' # rest) = Some (JObj ?kvs, [])"
    using w by (simp add: jsonValue.simps(2) jsonMaxDepth_def del: jsonMembers.simps)
  then have "jsonParse (marshalDEKSet st) = Inr (JObj ?kvs)"
    unfolding jsonParse_def m n by (simp add: skipWS_def del: jsonValue.simps)
  then show ?thesis
    using unsigned_less [of "dsKeyVersion st", where ?'a = nat]
    by (simp add: unmarshalDEKSet_def decodeObj_def dekField_def keyMatches_fields decodeBytes_decoded decodeUint_def
        ParseUint_showNat emptyDEKSet_def)
qed

end
