(* ===== verification/Server.thy ===== *)
theory Server
  imports Auth Relay ProxyConfig Vault DekFile
begin

text \<open>
  \<^verbatim>\<open>cmd/proxy\<close>: building the cipher and the server from the configuration, the
  handler of one connection, and the life cycle of the process (accept loop, shutdown).

  Files are an argument \<open>files\<close>, what \<^verbatim>\<open>os.ReadFile\<close> returns for a path.
\<close>

section \<open>The cipher\<close>

definition vaultConfigOf :: "ProxyConfig \<Rightarrow> VaultConfig" where
  "vaultConfigOf cfg =
     \<lparr>vcAddress = VaultAddr cfg, vcToken = VaultToken cfg, vcKeyName = VaultKeyName cfg, vcMount = VaultMount cfg,
      vcAppRoleMount = VaultAppRoleMount cfg, vcRoleID = VaultRoleID cfg, vcSecretID = VaultSecretID cfg,
      vcKubernetesRole = VaultKubernetesRole cfg, vcKubernetesMount = VaultKubernetesMount cfg,
      vcKubernetesJWTFile = VaultKubernetesJWTFile cfg\<rparr>"

definition buildKMS ::
  "'w vaultEnv \<Rightarrow> (nat \<Rightarrow> ('w \<times> tokenCache, bytes) io) \<Rightarrow> ProxyConfig \<Rightarrow> ('w \<times> tokenCache) KMS result" where
  "buildKMS E rand cfg =
     (if VaultAddr cfg \<noteq> [] then bindR (NewVaultKMS (vaultConfigOf cfg)) (\<lambda>v. Inr (vaultKMS E v))
      else bindR (NewStaticKMS (cfgKEK cfg)) (\<lambda>k. Inr (staticKMS rand k)))"

definition buildCipher ::
  "'w vaultEnv \<Rightarrow> ('w \<times> tokenCache, 'h) tink \<Rightarrow> (nat \<Rightarrow> ('w \<times> tokenCache, bytes) io) \<Rightarrow> (string \<Rightarrow> bytes result)
   \<Rightarrow> ProxyConfig \<Rightarrow> ('w \<times> tokenCache, Cipher) io" where
  "buildCipher E T rand files cfg =
     bindIO (liftIO (buildKMS E rand cfg)) (\<lambda>k.
     bindIO
       (if DEKSetFile cfg \<noteq> [] then
          bindIO (contextIO ''proxy: read DEK set: '' (liftIO (files (DEKSetFile cfg)))) (\<lambda>raw.
          contextIO ''proxy: decode DEK set: '' (liftIO (unmarshalDEKSet raw)))
        else GenerateDEKSet T rand k 1) (\<lambda>st.
     OpenCipher T k st))"

section \<open>The server\<close>

text \<open>The host part of \<^verbatim>\<open>net.SplitHostPort\<close>; its callers ignore which error it reports.\<close>

definition SplitHostPort :: "string \<Rightarrow> string option" where
  "SplitHostPort hostport =
     (case strLastIndex hostport '':'' of
        None \<Rightarrow> None
      | Some i \<Rightarrow>
        if HasPrefix hostport ''['' then
          (case IndexByte hostport (CHR '']'') of
             None \<Rightarrow> None
           | Some e \<Rightarrow>
             if e + 1 \<noteq> i then None
             else if CHR ''['' \<in> set (drop 1 hostport) \<or> CHR '']'' \<in> set (drop (e + 1) hostport) then None
             else Some (drop 1 (take e hostport)))
        else
          let host = take i hostport in
          if CHR '':'' \<in> set host \<or> CHR ''['' \<in> set hostport \<or> CHR '']'' \<in> set hostport then None
          else Some host)"

record server =
  srvCfg :: ProxyConfig
  srvCipher :: "Cipher option"
  srvPlanner :: Planner
  srvVerifier :: ScramVerifier
  srvTLS :: "tlsConfig option"
  srvBackendTLS :: "tlsConfig option"

definition scramSaltLen :: nat where "scramSaltLen = 16"
definition scramIterations :: int where "scramIterations = 4096"

definition backendServerName :: "ProxyConfig \<Rightarrow> string" where
  "backendServerName cfg =
     (if BackendServerName cfg \<noteq> [] then BackendServerName cfg
      else case SplitHostPort (BackendAddr cfg) of Some host \<Rightarrow> host | None \<Rightarrow> BackendAddr cfg)"

definition backendTLSOf :: "(bytes \<Rightarrow> bool) \<Rightarrow> (string \<Rightarrow> bytes result) \<Rightarrow> ProxyConfig \<Rightarrow> tlsConfig option result" where
  "backendTLSOf hasCert files cfg =
     (if BackendCAFile cfg = [] then Inr None
      else case files (BackendCAFile cfg) of
          Inl err \<Rightarrow> Inl (wrapErr ''proxy: read backend CA: '' err [])
        | Inr ca \<Rightarrow>
          (case LoadBackendCA hasCert ca (backendServerName cfg) of
             Inl err \<Rightarrow> Inl (wrapErr ''proxy: backend CA: '' err [])
           | Inr t \<Rightarrow> Inr t))"

text \<open>The field set of a validated configuration is present.\<close>

definition newServer ::
  "kdf \<Rightarrow> (bytes \<Rightarrow> bool) \<Rightarrow> (string \<Rightarrow> bytes result) \<Rightarrow> bytes result \<Rightarrow> ProxyConfig \<Rightarrow> Cipher option \<Rightarrow> server result" where
  "newServer kdf hasCert files salt cfg c =
     (case salt of
        Inl err \<Rightarrow> Inl (wrapErr ''proxy: generate scram salt: '' err [])
      | Inr st \<Rightarrow>
        bindR (backendTLSOf hasCert files cfg) (\<lambda>backendTLS.
        Inr \<lparr>srvCfg = cfg, srvCipher = c,
             srvPlanner = (if cfgLenient cfg then NewLenientPlanner else NewPlanner) (the (cfgFields cfg)),
             srvVerifier = MakeScramVerifier kdf (UpstreamPassword cfg) st scramIterations,
             srvTLS = None, srvBackendTLS = backendTLS\<rparr>))"

text \<open>\<open>bound\<close> is what \<^verbatim>\<open>net.Listen\<close> returns, \<open>keypair\<close> what loading the key pair returns.\<close>

definition listen :: "unit result \<Rightarrow> (string \<Rightarrow> string \<Rightarrow> bytes result) \<Rightarrow> server \<Rightarrow> server result" where
  "listen bound keypair s =
     bindR bound (\<lambda>_.
     if TLSCertFile (srvCfg s) = [] then Inr s
     else case keypair (TLSCertFile (srvCfg s)) (TLSKeyFile (srvCfg s)) of
         Inl err \<Rightarrow> Inl (wrapErr ''proxy: load TLS keypair: '' err [])
       | Inr cert \<Rightarrow>
         Inr (s\<lparr>srvTLS := Some \<lparr>tlRootCAs = [], tlCertificate = cert, tlServerName = [], tlMinVersion = VersionTLS12\<rparr>\<rparr>))"

definition upstreamVerifier :: "server \<Rightarrow> string \<Rightarrow> ScramVerifier \<times> bool" where
  "upstreamVerifier s username = (srvVerifier s, username = UpstreamUser (srvCfg s))"

definition newSession :: "server \<Rightarrow> nat \<Rightarrow> Metrics \<Rightarrow> Session" where
  "newSession s rnd m = NewSession (srvPlanner s) (srvCipher s) rnd m"

definition downstreamParams :: "(string \<rightharpoonup> string) \<Rightarrow> string \<Rightarrow> (string \<rightharpoonup> string)" where
  "downstreamParams upstream backendUser = upstream(''user'' \<mapsto> backendUser)"

section \<open>One connection\<close>

record proxyCounters =
  metricConnections :: nat
  metricAuthFailures :: nat
  metricRelayEnded :: "string \<Rightarrow> nat"

definition noCounts :: proxyCounters where
  "noCounts = \<lparr>metricConnections = 0, metricAuthFailures = 0, metricRelayEnded = (\<lambda>_. 0)\<rparr>"

definition relayEnded :: "string \<Rightarrow> proxyCounters \<Rightarrow> proxyCounters" where
  "relayEnded outcome m = m\<lparr>metricRelayEnded := (metricRelayEnded m)(outcome := Suc (metricRelayEnded m outcome))\<rparr>"

text \<open>
  A run of \<^verbatim>\<open>Relay\<close>: the turns its two pumps take, in the order the scheduler gives
  them, until one of them delivers a value.
\<close>

datatype relayTurn =
    ClientTurn "FrontendMessage result" "goerror option"
  | BackendTurn "BackendMessage result" "goerror option"

definition takeTurn :: "env \<Rightarrow> relayTurn \<Rightarrow> relayState \<Rightarrow> relayState" where
  "takeTurn E t r =
     (case t of
        ClientTurn received outcome \<Rightarrow>
          if rlClientPump r \<noteq> Going then r
          else let (s', out, st) = pumpClientStep E received outcome (rlSession r) in
            r\<lparr>rlSession := s', rlToBackend := rlToBackend r @ out, rlClientPump := st, rlResult := deliver st (rlResult r)\<rparr>
      | BackendTurn received outcome \<Rightarrow>
          if rlBackendPump r \<noteq> Going then r
          else let (s', out, st) = pumpBackendStep E received outcome (rlSession r) in
            r\<lparr>rlSession := s', rlToClient := rlToClient r @ out, rlBackendPump := st, rlResult := deliver st (rlResult r)\<rparr>)"

fun runRelay :: "env \<Rightarrow> relayTurn list \<Rightarrow> relayState \<Rightarrow> relayState" where
  "runRelay E [] r = r"
| "runRelay E (t # ts) r = (if rlResult r \<noteq> None then r else runRelay E ts (takeTurn E t r))"

text \<open>
  What one connection meets: the TLS handshakes, the scripts the message decoder
  (\<^verbatim>\<open>pgproto3\<close>) reads from the two byte streams, the dialled socket, and the
  turns of the relay.
\<close>

record connWorld =
  cwEnv :: env
  cwKdf :: kdf
  cwTLSServer :: tlsHandshake
  cwTLSClient :: tlsHandshake
  cwUpstream :: "byteConn \<Rightarrow> peer"
  cwDial :: "byteConn result"
  cwDownstream :: "byteConn \<Rightarrow> peer"
  cwTurns :: "relayTurn list"
  cwDrawn :: nat
  cwMetrics :: Metrics

text \<open>How far the handler got, and what the two sides saw of it.\<close>

record handled =
  hdCounters :: proxyCounters
  hdUpstream :: "peer option"
  hdBackend :: "byteConn option"
  hdDownstream :: "peer option"
  hdRelay :: "relayState option"
  hdReturned :: bool

definition handle :: "connWorld \<Rightarrow> server \<Rightarrow> byteConn \<Rightarrow> proxyCounters \<Rightarrow> handled" where
  "handle W s conn m0 =
     (let U = envUnicode (cwEnv W); cfg = srvCfg s; m = m0\<lparr>metricConnections := Suc (metricConnections m0)\<rparr>;
          h0 = \<lparr>hdCounters = m, hdUpstream = None, hdBackend = None, hdDownstream = None, hdRelay = None, hdReturned = True\<rparr> in
      case fst (MaybeUpgradeTLS (cwTLSServer W) (srvTLS s) conn) of
        Inl err \<Rightarrow> h0
      | Inr up \<Rightarrow>
        (case AuthenticateUpstream U (NewScramServer (upstreamVerifier s) None) (cwUpstream W up) of
           (Inl err, p) \<Rightarrow>
             h0\<lparr>hdUpstream := Some p,
                hdCounters := relayEnded ''upstream-auth-failed'' (m\<lparr>metricAuthFailures := Suc (metricAuthFailures m)\<rparr>)\<rparr>
         | (Inr params, p) \<Rightarrow>
           let h1 = h0\<lparr>hdUpstream := Some p\<rparr> in
           (case DialBackendTLS U (cwTLSClient W) (BackendAddr cfg) (srvBackendTLS s) (cwDial W) of
              (Inl err, sock) \<Rightarrow> h1\<lparr>hdBackend := sock\<rparr>
            | (Inr bc, sock) \<Rightarrow>
              (case AuthenticateDownstream U (cwKdf W) (downstreamParams params (BackendUser cfg))
                      (NewScramClient (BackendUser cfg) (BackendPassword cfg) None) (cwDownstream W bc) of
                 (Inl err, q) \<Rightarrow> h1\<lparr>hdBackend := Some (closeConn bc), hdDownstream := Some q\<rparr>
               | (Inr _, q) \<Rightarrow>
                 let r = runRelay (cwEnv W) (cwTurns W) (startRelay (newSession s (cwDrawn W) (cwMetrics W)));
                     h2 = h1\<lparr>hdBackend := Some bc, hdDownstream := Some q, hdRelay := Some r\<rparr> in
                 (case rlResult r of
                    None \<Rightarrow> h2\<lparr>hdReturned := False\<rparr>
                  | Some (Some err) \<Rightarrow> h2\<lparr>hdBackend := Some (closeConn bc), hdCounters := relayEnded ''error'' m\<rparr>
                  | Some None \<Rightarrow> h2\<lparr>hdBackend := Some (closeConn bc), hdCounters := relayEnded ''ok'' m\<rparr>)))))"

section \<open>The life of the process\<close>

text \<open>
  \<^verbatim>\<open>serve\<close>, \<^verbatim>\<open>close\<close> and the \<^verbatim>\<open>select\<close> of
  \<^verbatim>\<open>run\<close>, each at the place it has reached; connections are numbered in the order
  they are accepted. A step is one action that is atomic under the server's mutex or on one
  channel. \<open>slots\<close> is the length of the semaphore channel, \<open>wgCount\<close> the
  counter of the wait group; a handler first gives its slot back and then leaves the wait
  group, the order of its deferred calls.
\<close>

datatype serveAt =
    ServeStart
  | Accepting
  | AwaitSlot nat
  | Registering nat
  | ServeReturned "goerror option"
  | ServePanicked

datatype closeAt =
    CloseIdle
  | CloseStart
  | Unlinked
  | Draining
  | CloseReturned "goerror option"

datatype mainAt =
    MainServing
  | MainDraining
  | MainReturned "goerror option"

record process =
  listener :: bool
  socketOpen :: bool
  slots :: nat
  wgCount :: nat
  handling :: "nat list"
  leaving :: "nat list"
  dropped :: "nat list"
  nextConn :: nat
  serveAt :: serveAt
  closeAt :: closeAt
  mainAt :: mainAt
  ready :: bool

text \<open>The state in which \<^verbatim>\<open>run\<close> starts the serving goroutine, after \<^verbatim>\<open>listen\<close>.\<close>

definition startProcess :: process where
  "startProcess = \<lparr>listener = True, socketOpen = True, slots = 0, wgCount = 0, handling = [], leaving = [],
     dropped = [], nextConn = 0, serveAt = ServeStart, closeAt = CloseIdle, mainAt = MainServing, ready = True\<rparr>"

definition slotOf :: "int \<Rightarrow> nat" where
  "slotOf maxConns = (if maxConns > 0 then 1 else 0)"

definition alive :: "process \<Rightarrow> bool" where
  "alive p \<longleftrightarrow> serveAt p \<noteq> ServePanicked \<and> (case mainAt p of MainReturned _ \<Rightarrow> False | _ \<Rightarrow> True)"

inductive processAct :: "int \<Rightarrow> process \<Rightarrow> process \<Rightarrow> bool" for maxConns where
  serveReads: "serveAt p = ServeStart \<Longrightarrow>
     processAct maxConns p (p\<lparr>serveAt := (if listener p then Accepting else ServePanicked)\<rparr>)"
| accepts: "serveAt p = Accepting \<Longrightarrow> socketOpen p \<Longrightarrow>
     processAct maxConns p (p\<lparr>serveAt := AwaitSlot (nextConn p), nextConn := Suc (nextConn p)\<rparr>)"
| acceptFails: "serveAt p = Accepting \<Longrightarrow> processAct maxConns p (p\<lparr>serveAt := ServeReturned (Some e)\<rparr>)"
| acceptClosed: "serveAt p = Accepting \<Longrightarrow> \<not> socketOpen p \<Longrightarrow>
     processAct maxConns p (p\<lparr>serveAt := ServeReturned None\<rparr>)"
| takesSlot: "serveAt p = AwaitSlot c \<Longrightarrow> maxConns \<le> 0 \<or> int (slots p) < maxConns \<Longrightarrow>
     processAct maxConns p (p\<lparr>serveAt := Registering c, slots := slots p + slotOf maxConns\<rparr>)"
| registers: "serveAt p = Registering c \<Longrightarrow> listener p \<Longrightarrow>
     processAct maxConns p (p\<lparr>serveAt := Accepting, wgCount := Suc (wgCount p), handling := c # handling p\<rparr>)"
| drops: "serveAt p = Registering c \<Longrightarrow> \<not> listener p \<Longrightarrow>
     processAct maxConns p (p\<lparr>serveAt := ServeReturned None, dropped := c # dropped p, slots := slots p - slotOf maxConns\<rparr>)"
| givesSlot: "c \<in> set (handling p) \<Longrightarrow>
     processAct maxConns p (p\<lparr>handling := remove1 c (handling p), leaving := c # leaving p, slots := slots p - slotOf maxConns\<rparr>)"
| leaves: "c \<in> set (leaving p) \<Longrightarrow>
     processAct maxConns p (p\<lparr>leaving := remove1 c (leaving p), wgCount := wgCount p - 1\<rparr>)"
| serveEnds: "mainAt p = MainServing \<Longrightarrow> serveAt p = ServeReturned e \<Longrightarrow>
     processAct maxConns p (p\<lparr>mainAt := MainReturned e\<rparr>)"
| signalled: "mainAt p = MainServing \<Longrightarrow>
     processAct maxConns p (p\<lparr>mainAt := MainDraining, ready := False, closeAt := CloseStart\<rparr>)"
| unlinks: "closeAt p = CloseStart \<Longrightarrow> listener p \<Longrightarrow>
     processAct maxConns p (p\<lparr>listener := False, closeAt := Unlinked\<rparr>)"
| noListener: "closeAt p = CloseStart \<Longrightarrow> \<not> listener p \<Longrightarrow>
     processAct maxConns p (p\<lparr>closeAt := CloseReturned None\<rparr>)"
| closesSocket: "closeAt p = Unlinked \<Longrightarrow>
     processAct maxConns p (p\<lparr>socketOpen := False, closeAt := Draining\<rparr>)"
| drained: "closeAt p = Draining \<Longrightarrow> wgCount p = 0 \<Longrightarrow>
     processAct maxConns p (p\<lparr>closeAt := CloseReturned e\<rparr>)"
| drainedCleanly: "mainAt p = MainDraining \<Longrightarrow> closeAt p = CloseReturned e \<Longrightarrow>
     processAct maxConns p (p\<lparr>mainAt := MainReturned None\<rparr>)"
| drainTimeout: "mainAt p = MainDraining \<Longrightarrow>
     processAct maxConns p (p\<lparr>mainAt := MainReturned None\<rparr>)"

definition processStep :: "int \<Rightarrow> process \<Rightarrow> process \<Rightarrow> bool" where
  "processStep maxConns p p' \<longleftrightarrow> alive p \<and> processAct maxConns p p'"

inductive processReach :: "int \<Rightarrow> process \<Rightarrow> bool" for maxConns where
  start: "processReach maxConns startProcess"
| step: "processReach maxConns p \<Longrightarrow> processStep maxConns p p' \<Longrightarrow> processReach maxConns p'"

section \<open>Health\<close>

definition healthz :: "process \<Rightarrow> nat \<times> string" where
  "healthz p = (if \<not> ready p then (503, ''shutting down'' @ [CHR 0x0A]) else (200, ''ok'' @ [CHR 0x0A]))"

definition readyz :: "process \<Rightarrow> string \<Rightarrow> goerror option \<Rightarrow> nat \<times> string" where
  "readyz p backendAddr dial =
     (if \<not> ready p then (503, ''shutting down'' @ [CHR 0x0A])
      else case dial of
          Some err \<Rightarrow> (503, ''backend '' @ backendAddr @ '': '' @ errText err @ [CHR 0x0A])
        | None \<Rightarrow> (200, ''ok'' @ [CHR 0x0A]))"

end
