(* ===== verification/ServerProps.thy ===== *)
theory ServerProps
  imports Server AuthProps CryptoProps
begin

text \<open>
  The process: the bound on concurrent connections, the drain on shutdown, and who may reach
  the backend.
\<close>

section \<open>Configuration\<close>

text \<open>
  C37. The validator accepts exactly the usable configurations: every required setting is
  present, one KMS is chosen (a 32-byte key, or a Vault address with a key name and exactly
  one complete login mode), and the listener's certificate and key come together.
\<close>

theorem validation_exact: "Validate c = None \<longleftrightarrow> validConfig c"
  by (rule Validate_iff)

lemma valid_builds_kms:
  assumes "validConfig cfg"
  shows "\<exists>k. buildKMS E rand cfg = Inr k"
proof (cases "VaultAddr cfg = []")
  case True
  then have "NewStaticKMS (cfgKEK cfg) = Inr \<lparr>skGCM = cfgKEK cfg\<rparr>"
    using assms by (simp add: validConfig_def validKMS_def NewStaticKMS_Inr kekBytes_def kekSize_def)
  then show ?thesis using True by (simp add: buildKMS_def)
next
  case False
  then have "\<exists>a. newVaultAuth (vaultConfigOf cfg) = Inr a"
    using assms by (auto simp: validConfig_def validKMS_def oneVaultMode_def newVaultAuth_def vaultConfigOf_def btoi_def Let_def)
  then show ?thesis
    using False assms by (auto simp: buildKMS_def NewVaultKMS_def vaultConfigOf_def validConfig_def validKMS_def Let_def)
qed

text \<open>
  A configuration that loads is one the proxy can start from: the KMS it names can be
  built, its field set is well formed, and the limits read from the environment are not
  negative.
\<close>

theorem loaded_config_usable:
  assumes "LoadProxyConfig U scaled env = Inr cfg"
  shows "(\<exists>k. buildKMS E rand cfg = Inr k) \<and> (\<exists>fs. cfgFields cfg = Some fs \<and> piiFieldSet fs)
     \<and> 0 \<le> MaxConnections cfg \<and> 0 \<le> HandshakeTimeout cfg"
  using LoadProxyConfig_Inr [OF assms] valid_builds_kms [of cfg E rand] selectFields_pii by metis

definition demoEnv :: "string \<Rightarrow> string" where
  "demoEnv k =
     (if k = ''KKP_KEK'' then ''MDEyMzQ1Njc4OWFiY2RlZjAxMjM0NTY3ODlhYmNkZWY=''
      else if k = ''KKP_UPSTREAM_USER'' then ''kc'' else if k = ''KKP_UPSTREAM_PASSWORD'' then ''pw''
      else if k \<in> {''KKP_LISTEN_ADDR'', ''KKP_BACKEND_ADDR'', ''KKP_BACKEND_USER'', ''KKP_BACKEND_PASSWORD''} then ''x:1''
      else [])"

lemma demo_loads: "\<exists>cfg. LoadProxyConfig demoUnicode (\<lambda>_ _ _. 0) demoEnv = Inr cfg
    \<and> UpstreamUser cfg = ''kc'' \<and> UpstreamPassword cfg = ''pw'' \<and> BackendCAFile cfg = [] \<and> TLSCertFile cfg = []
    \<and> VaultAddr cfg = [] \<and> DEKSetFile cfg = [] \<and> cfgKEK cfg = ''0123456789abcdef0123456789abcdef''"
proof -
  have k: "decodeKEK (demoEnv ''KKP_KEK'') = Inr ''0123456789abcdef0123456789abcdef''" by code_simp
  obtain fs where f: "selectFields demoUnicode [] = Inr fs" using selectFields_accepts by blast
  show ?thesis
    unfolding LoadProxyConfig_def k
    by (simp add: f demoEnv_def readMaxConnections_def readHandshakeTimeout_def Validate_def missingSettings_def requiredSettings_def
        validateKMS_def kekBytes_def Let_def)
qed

theorem loaded_config_usable_witness:
  "\<exists>cfg k. LoadProxyConfig demoUnicode (\<lambda>_ _ _. 0) demoEnv = Inr cfg
     \<and> buildKMS (undefined :: nat vaultEnv) (\<lambda>n. failIO (errorsNew ''no entropy'')) cfg = Inr k"
  using demo_loads loaded_config_usable by blast

section \<open>The invariant of the process\<close>

text \<open>
  The wait group counts the handlers, and the semaphore those that still hold a slot (and the
  connection being registered).
\<close>

definition holdsSlot :: "process \<Rightarrow> nat" where
  "holdsSlot p = length (handling p) + (case serveAt p of Registering _ \<Rightarrow> 1 | _ \<Rightarrow> 0)"

definition countInv :: "int \<Rightarrow> process \<Rightarrow> bool" where
  "countInv maxConns p \<longleftrightarrow>
     wgCount p = length (handling p) + length (leaving p)
     \<and> (maxConns > 0 \<longrightarrow> slots p = holdsSlot p \<and> int (slots p) \<le> maxConns)"

text \<open>The listener is gone once the close has unlinked it; the close returns after the drain.\<close>

definition closeInv :: "process \<Rightarrow> bool" where
  "closeInv p \<longleftrightarrow>
     (case closeAt p of
        CloseIdle \<Rightarrow> listener p \<and> ready p \<and> mainAt p \<noteq> MainDraining
      | CloseStart \<Rightarrow> listener p \<and> \<not> ready p \<and> mainAt p \<noteq> MainServing
      | Unlinked \<Rightarrow> \<not> listener p \<and> \<not> ready p \<and> mainAt p \<noteq> MainServing
      | Draining \<Rightarrow> \<not> listener p \<and> \<not> ready p \<and> mainAt p \<noteq> MainServing \<and> \<not> socketOpen p
      | CloseReturned _ \<Rightarrow> \<not> listener p \<and> \<not> ready p \<and> mainAt p \<noteq> MainServing \<and> \<not> socketOpen p \<and> wgCount p = 0)"

lemma length_remove1_in: "c \<in> set xs \<Longrightarrow> length xs = Suc (length (remove1 c xs))"
  using length_pos_if_in_set [of c xs] by (simp add: length_remove1)

lemma start_inv: "countInv maxConns startProcess" "closeInv startProcess"
  by (simp_all add: countInv_def holdsSlot_def closeInv_def startProcess_def)

lemma countInv_act:
  assumes "processAct maxConns p p'" and "countInv maxConns p"
  shows "countInv maxConns p'"
  using assms
proof (cases rule: processAct.cases)
  case (givesSlot c)
  then show ?thesis using length_remove1_in [OF givesSlot(2)] assms(2)
    by (auto simp: countInv_def holdsSlot_def slotOf_def split: serveAt.splits)
next
  case (leaves c)
  then show ?thesis using length_remove1_in [OF leaves(2)] assms(2)
    by (auto simp: countInv_def holdsSlot_def split: serveAt.splits)
qed (auto simp: countInv_def holdsSlot_def slotOf_def)

lemma closeInv_act:
  assumes "processAct maxConns p p'" and "closeInv p"
  shows "closeInv p'"
  using assms by (cases rule: processAct.cases) (auto simp: closeInv_def split: closeAt.splits)

lemma reach_inv: "processReach maxConns p \<Longrightarrow> countInv maxConns p \<and> closeInv p"
  by (induction rule: processReach.induct) (auto simp: start_inv processStep_def intro: countInv_act closeInv_act)

lemma reach_steps: "(processStep maxConns)\<^sup>*\<^sup>* p p' \<Longrightarrow> processReach maxConns p \<Longrightarrow> processReach maxConns p'"
  by (induction rule: rtranclp_induct) (auto intro: processReach.step)

section \<open>Accepting\<close>

text \<open>
  C21. The connection limit holds at every moment: in every reachable state of a process with
  a positive limit, no more connections are being handled than the limit allows, and
  the wait group counts exactly the handlers that have not finished.
\<close>

theorem connection_limit:
  assumes "processReach maxConns p" and "0 < maxConns"
  shows "int (length (handling p)) \<le> maxConns \<and> wgCount p = length (handling p) + length (leaving p)"
  using reach_inv [OF assms(1)] assms(2) by (auto simp: countInv_def holdsSlot_def)

text \<open>A run that accepts and registers one connection.\<close>

lemma one_connection:
  "processReach 1 (startProcess\<lparr>serveAt := Accepting, slots := 1, wgCount := 1, handling := [0], nextConn := 1\<rparr>)"
proof -
  let ?p1 = "startProcess\<lparr>serveAt := Accepting\<rparr>"
  let ?p2 = "?p1\<lparr>serveAt := AwaitSlot 0, nextConn := 1\<rparr>"
  let ?p3 = "?p2\<lparr>serveAt := Registering 0, slots := 1\<rparr>"
  have "processReach 1 ?p1"
    using processReach.step [OF processReach.start, of 1 ?p1] processAct.serveReads [of startProcess 1]
    by (simp add: processStep_def alive_def startProcess_def)
  then have "processReach 1 ?p2"
    using processReach.step [of 1 ?p1 ?p2] processAct.accepts [of ?p1 1] by (simp add: processStep_def alive_def startProcess_def)
  then have "processReach 1 ?p3"
    using processReach.step [of 1 ?p2 ?p3] processAct.takesSlot [of ?p2 0 1]
    by (simp add: processStep_def alive_def startProcess_def slotOf_def)
  then show ?thesis
    using processReach.step [of 1 ?p3] processAct.registers [of ?p3 0 1] by (simp add: processStep_def alive_def startProcess_def)
qed

theorem connection_limit_witness:
  "processReach 1 (startProcess\<lparr>serveAt := Accepting, slots := 1, wgCount := 1, handling := [0], nextConn := 1\<rparr>)
   \<and> int (length (handling (startProcess\<lparr>serveAt := Accepting, slots := 1, wgCount := 1, handling := [0], nextConn := 1\<rparr>))) \<le> 1"
  using connection_limit [OF one_connection] one_connection by simp

section \<open>Shutting down\<close>

lemma steps_handlers:
  assumes "alive p"
  shows "\<exists>p'. (processStep maxConns)\<^sup>*\<^sup>* p p' \<and> handling p' = [] \<and> leaving p' = []
     \<and> closeAt p' = closeAt p \<and> mainAt p' = mainAt p \<and> serveAt p' = serveAt p \<and> listener p' = listener p"
  using assms
proof (induction "2 * length (handling p) + length (leaving p)" arbitrary: p rule: less_induct)
  case less
  show ?case
  proof (cases "handling p")
    case (Cons c cs)
    let ?p = "p\<lparr>handling := cs, leaving := c # leaving p, slots := slots p - slotOf maxConns\<rparr>"
    have s: "processStep maxConns p ?p"
      using processAct.givesSlot [of c p maxConns] less.prems Cons by (simp add: processStep_def)
    have "alive ?p" using less.prems by (simp add: alive_def)
    then obtain p' where "(processStep maxConns)\<^sup>*\<^sup>* ?p p'" "handling p' = [] \<and> leaving p' = []
     \<and> closeAt p' = closeAt p \<and> mainAt p' = mainAt p \<and> serveAt p' = serveAt p \<and> listener p' = listener p"
      using less.hyps [of ?p] Cons by auto
    then show ?thesis using converse_rtranclp_into_rtranclp [of "processStep maxConns", OF s] by blast
  next
    case Nil
    show ?thesis
    proof (cases "leaving p")
      case (Cons c cs)
      let ?p = "p\<lparr>leaving := cs, wgCount := wgCount p - 1\<rparr>"
      have s: "processStep maxConns p ?p"
        using processAct.leaves [of c p maxConns] less.prems Cons by (simp add: processStep_def)
      have "alive ?p" using less.prems by (simp add: alive_def)
      then obtain p' where "(processStep maxConns)\<^sup>*\<^sup>* ?p p'" "handling p' = [] \<and> leaving p' = []
       \<and> closeAt p' = closeAt p \<and> mainAt p' = mainAt p \<and> serveAt p' = serveAt p \<and> listener p' = listener p"
        using less.hyps [of ?p] Cons Nil by auto
      then show ?thesis using converse_rtranclp_into_rtranclp [of "processStep maxConns", OF s] by blast
    qed (use Nil in auto)
  qed
qed

lemma steps_close:
  assumes "alive p" and "closeInv p" and "closeAt p \<in> {CloseStart, Unlinked, Draining}"
  shows "\<exists>p'. (processStep maxConns)\<^sup>*\<^sup>* p p' \<and> closeAt p' = Draining \<and> mainAt p' = mainAt p \<and> alive p'"
proof -
  have u: "(processStep maxConns)\<^sup>*\<^sup>* q (q\<lparr>socketOpen := False, closeAt := Draining\<rparr>)" if "alive q" "closeAt q = Unlinked" for q
    using processAct.closesSocket [of q maxConns] that by (auto simp: processStep_def)
  consider "closeAt p = Draining" | "closeAt p = Unlinked" | "closeAt p = CloseStart" using assms(3) by blast
  then show ?thesis
  proof cases
    case 1
    then show ?thesis using assms(1) by blast
  next
    case 2
    then show ?thesis
      using u [OF assms(1)] assms(1)
      by (intro exI [of _ "p\<lparr>socketOpen := False, closeAt := Draining\<rparr>"]) (simp add: alive_def)
  next
    case 3
    let ?q = "p\<lparr>listener := False, closeAt := Unlinked\<rparr>"
    have "processStep maxConns p ?q"
      using processAct.unlinks [of p maxConns] assms(1,2) 3 by (simp add: processStep_def closeInv_def)
    moreover have "alive ?q" using assms(1) by (simp add: alive_def)
    ultimately show ?thesis
      using u [of ?q] by (intro exI [of _ "?q\<lparr>socketOpen := False, closeAt := Draining\<rparr>"])
        (simp add: alive_def converse_rtranclp_into_rtranclp)
  qed
qed

lemma closes:
  assumes "processReach maxConns p" and "alive p" and "mainAt p = MainDraining"
  shows "\<exists>p' e. (processStep maxConns)\<^sup>*\<^sup>* p p' \<and> closeAt p' = CloseReturned e \<and> mainAt p' = MainDraining
     \<and> serveAt p' \<noteq> ServePanicked"
proof (cases "\<exists>e. closeAt p = CloseReturned e")
  case True
  then show ?thesis using assms(2,3) by (auto simp: alive_def)
next
  case False
  have inv: "closeInv p" using reach_inv [OF assms(1)] by blast
  then have "closeAt p \<in> {CloseStart, Unlinked, Draining}"
    using assms(3) False by (auto simp: closeInv_def split: closeAt.splits)
  then obtain q where q: "(processStep maxConns)\<^sup>*\<^sup>* p q" "closeAt q = Draining" "mainAt q = MainDraining" "alive q"
    using steps_close [OF assms(2) inv] assms(3) by metis
  obtain r where r: "(processStep maxConns)\<^sup>*\<^sup>* q r" "handling r = []" "leaving r = []" "closeAt r = Draining"
    "mainAt r = MainDraining" "serveAt r = serveAt q"
    using steps_handlers [OF q(4)] q(2,3) by metis
  have "processReach maxConns r" using reach_steps [OF r(1) reach_steps [OF q(1) assms(1)]] .
  then have "wgCount r = 0" using reach_inv r(2,3) by (fastforce simp: countInv_def)
  then have "processStep maxConns r (r\<lparr>closeAt := CloseReturned None\<rparr>)"
    using processAct.drained [OF r(4), of maxConns None] q(4) r(5,6) by (simp add: processStep_def alive_def)
  then have "(processStep maxConns)\<^sup>*\<^sup>* p (r\<lparr>closeAt := CloseReturned None\<rparr>)"
    using q(1) r(1) by (meson rtranclp.rtrancl_into_rtrancl rtranclp_trans)
  then show ?thesis
    using q(4) r(5,6) by (intro exI [of _ "r\<lparr>closeAt := CloseReturned None\<rparr>"]) (simp add: alive_def)
qed

text \<open>
  C22. The drain cannot get stuck: from every reachable state in which the process is shutting
  down, handlers that finish let the close return and the process exit with nothing in
  flight, without the drain timeout and whatever the accept loop is doing (accepting, waiting for a slot, or registering).
\<close>

theorem drain_completes:
  assumes "processReach maxConns p" and "alive p" and "mainAt p = MainDraining"
  shows "\<exists>p' e. (processStep maxConns)\<^sup>*\<^sup>* p p' \<and> closeAt p' = CloseReturned e \<and> mainAt p' = MainReturned None \<and> handling p' = []"
proof -
  obtain q e where q: "(processStep maxConns)\<^sup>*\<^sup>* p q" "closeAt q = CloseReturned e" "mainAt q = MainDraining" "serveAt q \<noteq> ServePanicked"
    using closes [OF assms] by blast
  then have "processStep maxConns q (q\<lparr>mainAt := MainReturned None\<rparr>)"
    using processAct.drainedCleanly [OF q(3,2)] by (simp add: processStep_def alive_def)
  moreover have "handling q = []"
    using reach_inv [OF reach_steps [OF q(1) assms(1)]] q(2) by (auto simp: countInv_def closeInv_def)
  ultimately show ?thesis
    using q(1,2) by (intro exI [of _ "q\<lparr>mainAt := MainReturned None\<rparr>"] exI [of _ e]) auto
qed

lemma one_draining:
  "processReach 1 (startProcess\<lparr>serveAt := Accepting, slots := 1, wgCount := 1, handling := [0], nextConn := 1,
     mainAt := MainDraining, ready := False, closeAt := CloseStart\<rparr>)"
  using processReach.step [OF one_connection, OF processStep_def [THEN iffD2], OF conjI, OF _ processAct.signalled]
  by (simp add: alive_def startProcess_def)

theorem drain_completes_witness:
  "\<exists>p' e. (processStep 1)\<^sup>*\<^sup>* (startProcess\<lparr>serveAt := Accepting, slots := 1, wgCount := 1, handling := [0], nextConn := 1,
     mainAt := MainDraining, ready := False, closeAt := CloseStart\<rparr>) p' \<and> closeAt p' = CloseReturned e"
  using drain_completes [OF one_draining] by (force simp: alive_def startProcess_def)

text \<open>
  C23. After the close has returned nothing is served any more: in every reachable state from
  then on no handler runs or is about to leave, the socket is closed, and the health endpoint
  reports the shutdown.
\<close>

theorem closed_serves_nothing:
  assumes "processReach maxConns p" and "closeAt p = CloseReturned e"
  shows "handling p = [] \<and> leaving p = [] \<and> \<not> socketOpen p \<and> fst (healthz p) = 503"
  using reach_inv [OF assms(1)] assms(2) by (auto simp: countInv_def closeInv_def healthz_def)

theorem closed_serves_nothing_witness:
  "\<exists>p e. processReach 1 p \<and> closeAt p = CloseReturned e \<and> handling p = [] \<and> fst (healthz p) = 503"
proof -
  obtain p e where "processReach 1 p" "closeAt p = CloseReturned e"
    using closes [OF one_draining] reach_steps [OF _ one_draining] by (force simp: alive_def startProcess_def)
  then show ?thesis using closed_serves_nothing by blast
qed

text \<open>
  A shutdown signal that arrives before the serving goroutine has read the listener leaves it
  a nil listener, and calling Accept on it ends the process with a panic.
\<close>

lemma serve_may_panic: "\<exists>p. processReach maxConns p \<and> serveAt p = ServePanicked"
proof -
  let ?p1 = "startProcess\<lparr>mainAt := MainDraining, ready := False, closeAt := CloseStart\<rparr>"
  let ?p2 = "?p1\<lparr>listener := False, closeAt := Unlinked\<rparr>"
  have "processReach maxConns ?p1"
    using processReach.step [OF processReach.start, of maxConns ?p1] processAct.signalled [of startProcess maxConns]
    by (simp add: processStep_def alive_def startProcess_def)
  then have "processReach maxConns ?p2"
    using processReach.step [of maxConns ?p1 ?p2] processAct.unlinks [of ?p1 maxConns]
    by (simp add: processStep_def alive_def startProcess_def)
  then show ?thesis
    using processReach.step [of maxConns ?p2 "?p2\<lparr>serveAt := ServePanicked\<rparr>"] processAct.serveReads [of ?p2 maxConns]
    by (intro exI [of _ "?p2\<lparr>serveAt := ServePanicked\<rparr>"]) (simp add: processStep_def alive_def startProcess_def)
qed

section \<open>Handling a connection\<close>

lemma server_verifier:
  assumes "newServer kdf hasCert files salt cfg c = Inr s0" and "listen bound keypair s0 = Inr s"
  shows "\<exists>st. salt = Inr st \<and> srvVerifier s = MakeScramVerifier kdf (UpstreamPassword cfg) st scramIterations
     \<and> srvCfg s = cfg \<and> srvCipher s = c
     \<and> srvPlanner s = (if cfgLenient cfg then NewLenientPlanner else NewPlanner) (the (cfgFields cfg))"
  using assms by (auto simp: newServer_def listen_def bindR_eq_Inr split: sum.splits if_splits)

lemma handle_backend:
  assumes "hdBackend (handle W s conn m) = Some bc"
  shows "\<exists>up params p. fst (MaybeUpgradeTLS (cwTLSServer W) (srvTLS s) conn) = Inr up
     \<and> AuthenticateUpstream (envUnicode (cwEnv W)) (NewScramServer (upstreamVerifier s) None) (cwUpstream W up) = (Inr params, p)
     \<and> hdUpstream (handle W s conn m) = Some p"
proof -
  obtain up where up: "fst (MaybeUpgradeTLS (cwTLSServer W) (srvTLS s) conn) = Inr up"
    using assms by (auto simp: handle_def Let_def split: sum.splits)
  obtain params p where
    a: "AuthenticateUpstream (envUnicode (cwEnv W)) (NewScramServer (upstreamVerifier s) None) (cwUpstream W up) = (Inr params, p)"
    using assms up by (auto simp: handle_def Let_def split: sum.splits prod.splits)
  then have "hdUpstream (handle W s conn m) = Some p"
    using up by (simp add: handle_def Let_def split: sum.split prod.split option.split)
  then show ?thesis using up a by blast
qed

text \<open>
  C8. Only the configured Keycloak user reaches the database: whenever the handler of a
  connection has so much as opened a backend socket, the client had sent a SASL response whose
  proof opens to a preimage of the key derived from the configured upstream password, over
  the server-first message of its own connection, and its startup message named the
  configured upstream user (or none).
\<close>

theorem backend_only_for_keycloak:
  assumes "newServer kdf hasCert files (Inr salt) cfg c = Inr s0" and "listen bound keypair s0 = Inr s"
    and "hdBackend (handle W s conn m) = Some bc"
  shows "\<exists>up p msg cb wp ck bare sf user. hdUpstream (handle W s conn m) = Some p
     \<and> Inr (SASLResponse msg) \<in> set (incoming (cwUpstream W up)) \<and> AuthenticationSASLContinue sf \<in> set (sent p)
     \<and> parseClientFinal msg = Inr (cb, wp,
         xorBytes ck (scramHMAC (svStoredKey (MakeScramVerifier kdf (UpstreamPassword cfg) salt 4096)) (authMessage bare sf wp)))
     \<and> scramH ck = scramH (scramHMAC (saltedPassword kdf (UpstreamPassword cfg) salt 4096) ''Client Key'')
     \<and> user \<in> {[], UpstreamUser cfg}
     \<and> (\<exists>params. paramOf params ''user'' = user
          \<and> fst (AuthenticateUpstream (envUnicode (cwEnv W)) (NewScramServer (upstreamVerifier s) None) (cwUpstream W up)) = Inr params)"
proof -
  obtain up params p where h: "hdUpstream (handle W s conn m) = Some p"
    "AuthenticateUpstream (envUnicode (cwEnv W)) (NewScramServer (upstreamVerifier s) None) (cwUpstream W up) = (Inr params, p)"
    using handle_backend [OF assms(3)] by blast
  have v: "srvVerifier s = MakeScramVerifier kdf (UpstreamPassword cfg) salt 4096" "srvCfg s = cfg"
    using server_verifier [OF assms(1,2)] by (auto simp: scramIterations_def)
  obtain name v' msg cb wp ck bare sf where u: "upstreamVerifier s name = (v', True)"
    "paramOf params ''user'' \<noteq> [] \<longrightarrow> name = paramOf params ''user''"
    "Inr (SASLResponse msg) \<in> set (incoming (cwUpstream W up))" "AuthenticationSASLContinue sf \<in> set (sent p)"
    "parseClientFinal msg = Inr (cb, wp, xorBytes ck (scramHMAC (svStoredKey v') (authMessage bare sf wp)))"
    "scramH ck = svStoredKey v'"
    using upstream_proved [OF h(2)] by blast
  have n: "v' = srvVerifier s" "name = UpstreamUser cfg" using u(1) v(2) by (auto simp: upstreamVerifier_def)
  have "scramH ck = scramH (scramHMAC (saltedPassword kdf (UpstreamPassword cfg) salt 4096) ''Client Key'')"
    using u(6) n(1) v(1) by (simp add: MakeScramVerifier_def Let_def)
  moreover have "paramOf params ''user'' \<in> {[], UpstreamUser cfg}" using u(2) n(2) by auto
  moreover have "fst (AuthenticateUpstream (envUnicode (cwEnv W)) (NewScramServer (upstreamVerifier s) None) (cwUpstream W up)) = Inr params"
    using h(2) by simp
  ultimately show ?thesis using h(1) u(3,4,5) unfolding n(1) v(1) by blast
qed

theorem backend_only_for_keycloak_witness:
  "\<exists>W s conn m ck. hdBackend (handle W s conn m) \<noteq> None
     \<and> scramH ck = scramH (scramHMAC (saltedPassword demoKdf ''pw'' ''salt'' 4096) ''Client Key'')"
proof -
  obtain cfg :: ProxyConfig where cfg: "UpstreamUser cfg = ''kc''" "UpstreamPassword cfg = ''pw''" "BackendCAFile cfg = []" "TLSCertFile cfg = []"
    using demo_loads by blast
  obtain s where n: "newServer demoKdf (\<lambda>_. True) (\<lambda>_. Inl errEOF) (Inr ''salt'') cfg None = Inr s"
    and l: "listen (Inr ()) (\<lambda>_ _. Inl errEOF) s = Inr s"
    using cfg by (simp add: newServer_def backendTLSOf_def listen_def)
  have s: "upstreamVerifier s = demoLookup" "srvTLS s = None" "srvBackendTLS s = None"
    using n cfg by (auto simp: newServer_def backendTLSOf_def upstreamVerifier_def demoLookup_def scramIterations_def fun_eq_iff)
  obtain m1 m3 p' where a: "AuthenticateUpstream demoUnicode (NewScramServer demoLookup None)
       (freshPeer [StartupMessage demoParams, SASLInitialResponse scramMechanism m1, SASLResponse m3] [CHR 0x02])
         = (Inr demoParams, p')"
    using demo_admitted by blast
  define W where "W = \<lparr>cwEnv = \<lparr>envUnicode = demoUnicode, envParser = undefined, envRand = undefined\<rparr>, cwKdf = demoKdf,
    cwTLSServer = (\<lambda>cfg c. Inr c), cwTLSClient = (\<lambda>cfg c. Inr c),
    cwUpstream = (\<lambda>_. freshPeer [StartupMessage demoParams, SASLInitialResponse scramMechanism m1, SASLResponse m3] [CHR 0x02]),
    cwDial = Inr willingBackend, cwDownstream = (\<lambda>_. freshPeer [] []), cwTurns = [], cwDrawn = 0, cwMetrics = undefined\<rparr>"
  let ?conn = "willingBackend\<lparr>cnIn := ''12345678''\<rparr>"
  have "\<exists>bc. hdBackend (handle W s ?conn noCounts) = Some bc"
    using a s by (simp add: handle_def W_def Let_def MaybeUpgradeTLS_def readFull_def isSSLRequest_def willingBackend_def
        DialBackendTLS_def fromBE32_def split: sum.split prod.split option.split)
  then obtain bc where "hdBackend (handle W s ?conn noCounts) = Some bc" ..
  from this backend_only_for_keycloak [OF n l this] show ?thesis unfolding cfg(2) by blast
qed

text \<open>
  A backend CA file that is empty turns TLS off: the server starts, reports that backend TLS is
  enabled, and dials in clear.
\<close>

lemma empty_ca_dials_plain:
  assumes "BackendCAFile cfg \<noteq> []" and "files (BackendCAFile cfg) = Inr []"
  shows "\<exists>s. newServer kdf hasCert files (Inr salt) cfg c = Inr s \<and> srvBackendTLS s = None
     \<and> DialBackendTLS U handshake addr (srvBackendTLS s) (Inr conn) = (Inr conn, Some conn)"
  using assms by (simp add: newServer_def backendTLSOf_def LoadBackendCA_def DialBackendTLS_def)

text \<open>
  A listener with a certificate still serves a client that does not ask for TLS, in clear.
\<close>

lemma listener_accepts_plaintext:
  assumes "length (cnIn conn) \<ge> 8" and "\<not> isSSLRequest (take 8 (cnIn conn))"
  shows "\<exists>c. fst (MaybeUpgradeTLS handshake (Some cfg) conn) = Inr c \<and> cnIn c = cnIn conn \<and> cnTLS c = cnTLS conn"
  using assms by (simp add: MaybeUpgradeTLS_def readFull_def)

end
