(* ===== verification/Backfill.thy ===== *)
theory Backfill
  imports Vault DekFile Plan
begin

text \<open>
  \<^verbatim>\<open>cmd/backfill\<close>: minting a key set, adding and filling the hash columns, and
  encrypting the rows that are still in clear.

  PostgreSQL is explicit state: the rows of each table, and what the connection does to the
  next statements (an error, or a result set that ends early). The statements are a datatype;
  \<open>sqlText\<close> is the SQL the program sends for each, \<open>runSelect\<close> and
  \<open>runUpdate\<close> are what PostgreSQL does for it.
\<close>

section \<open>The database\<close>

record dbRow =
  rowId :: string
  rowCells :: "string \<rightharpoonup> string"

datatype fetchOutcome =
    AllRows
  | BreaksAfter nat
  | ScanFails nat goerror

record database =
  dbTables :: "string \<Rightarrow> dbRow list"
  dbFaults :: "goerror option list"
  dbFetches :: "fetchOutcome list"
  dbDrawn :: nat

datatype sqlStmt =
    SelectUnmarked string string
  | SelectUnhashed string string string
  | UpdateCell string string
  | AddHashColumn string string
  | CreateHashIndex string string

fun sqlText :: "sqlStmt \<Rightarrow> string" where
  "sqlText (SelectUnmarked table column) =
     ''SELECT id, '' @ column @ '' FROM '' @ table @ '' WHERE '' @ column @ '' IS NOT NULL AND '' @ column
     @ '' NOT LIKE '' @ [CHR 0x27] @ ''$KKP$%'' @ [CHR 0x27]"
| "sqlText (SelectUnhashed table src hash) =
     ''SELECT id, '' @ src @ '' FROM '' @ table @ '' WHERE '' @ src @ '' IS NOT NULL AND '' @ hash @ '' IS NULL''"
| "sqlText (UpdateCell table column) = ''UPDATE '' @ table @ '' SET '' @ column @ '' = $1 WHERE id = $2''"
| "sqlText (AddHashColumn table hash) = ''ALTER TABLE '' @ table @ '' ADD COLUMN IF NOT EXISTS '' @ hash @ '' varchar(64)''"
| "sqlText (CreateHashIndex table hash) =
     ''CREATE INDEX IF NOT EXISTS idx_'' @ table @ ''_'' @ hash @ '' ON '' @ table @ '' ('' @ hash @ '')''"

text \<open>Whether a row is selected; the pattern of \<^verbatim>\<open>NOT LIKE\<close> has no wildcard but the last.\<close>

fun selects :: "sqlStmt \<Rightarrow> dbRow \<Rightarrow> bool" where
  "selects (SelectUnmarked table column) r =
     (case rowCells r column of None \<Rightarrow> False | Some v \<Rightarrow> \<not> HasPrefix v ''$KKP$'')"
| "selects (SelectUnhashed table src hash) r \<longleftrightarrow> rowCells r src \<noteq> None \<and> rowCells r hash = None"
| "selects _ r = False"

definition nextFault :: "(database, unit) io" where
  "nextFault db =
     (case dbFaults db of
        [] \<Rightarrow> (Inr (), db)
      | None # fs \<Rightarrow> (Inr (), db\<lparr>dbFaults := fs\<rparr>)
      | Some e # fs \<Rightarrow> (Inl e, db\<lparr>dbFaults := fs\<rparr>))"

definition nextFetch :: "(database, fetchOutcome) io" where
  "nextFetch db = (case dbFetches db of [] \<Rightarrow> (Inr AllRows, db) | f # fs \<Rightarrow> (Inr f, db\<lparr>dbFetches := fs\<rparr>))"

text \<open>
  The row loop: \<^verbatim>\<open>rows.Next\<close> also ends the loop when the stream breaks, and
  \<^verbatim>\<open>rows.Err\<close> is not consulted.
\<close>

definition fetchRows :: "string \<Rightarrow> fetchOutcome \<Rightarrow> 'a list \<Rightarrow> 'a list result" where
  "fetchRows scanErr outcome rs =
     (case outcome of
        AllRows \<Rightarrow> Inr rs
      | BreaksAfter n \<Rightarrow> Inr (take n rs)
      | ScanFails n e \<Rightarrow> if n < length rs then Inl (wrapErr scanErr e []) else Inr rs)"

definition runSelect :: "string \<Rightarrow> sqlStmt \<Rightarrow> string \<Rightarrow> string \<Rightarrow> (database, (string \<times> string) list) io" where
  "runSelect scanErr stmt table column =
     bindIO (contextIO ''select: '' nextFault) (\<lambda>_.
     bindIO nextFetch (\<lambda>outcome db.
       (fetchRows scanErr outcome
          (map (\<lambda>r. (rowId r, the (rowCells r column))) (filter (selects stmt) (dbTables db table))), db)))"

definition setCell :: "string \<Rightarrow> string \<Rightarrow> string \<Rightarrow> dbRow \<Rightarrow> dbRow" where
  "setCell column v ident r =
     (if rowId r = ident then r\<lparr>rowCells := (rowCells r)(column \<mapsto> v)\<rparr> else r)"

definition runUpdate :: "string \<Rightarrow> string \<Rightarrow> string \<Rightarrow> string \<Rightarrow> (database, unit) io" where
  "runUpdate table column v ident =
     bindIO nextFault (\<lambda>_ db.
       (Inr (), db\<lparr>dbTables := (dbTables db)(table := map (setCell column v ident) (dbTables db table))\<rparr>))"

section \<open>Encrypting rows\<close>

definition encryptRow ::
  "unicode \<Rightarrow> (nat \<Rightarrow> bytes) \<Rightarrow> Cipher \<Rightarrow> Rule \<Rightarrow> string \<Rightarrow> string \<Rightarrow> bytes \<Rightarrow> string \<times> string \<Rightarrow> (database, unit) io" where
  "encryptRow U rand c rule table column aad r db =
     (let plaintext = (if LowercaseNormalize rule then NormalizeLowercase U (snd r) else snd r);
          db' = db\<lparr>dbDrawn := Suc (dbDrawn db)\<rparr> in
      case Encrypt c (rand (dbDrawn db)) (ruleScheme rule) plaintext aad of
        Inl err \<Rightarrow> (Inl (wrapErr (''encrypt id='' @ fst r @ '': '') err []), db')
      | Inr stored \<Rightarrow> contextIO (''update id='' @ fst r @ '': '') (runUpdate table column stored (fst r)) db')"

definition encryptColumn ::
  "unicode \<Rightarrow> (nat \<Rightarrow> bytes) \<Rightarrow> Cipher \<Rightarrow> ColumnKey \<times> Rule \<Rightarrow> (database, nat) io" where
  "encryptColumn U rand c e =
     (let table = ToLower U (ckTable (fst e)); column = ToLower U (ckColumn (fst e));
          aad = ToUpper U (ckTable (fst e)) @ ''.'' @ ToUpper U (ckColumn (fst e)) in
      bindIO (runSelect ''scan: '' (SelectUnmarked table column) table column) (\<lambda>batch.
      bindIO (eachIO (encryptRow U rand c (snd e) table column aad) batch) (\<lambda>_.
      returnIO (length batch))))"

fun encryptColumns ::
  "unicode \<Rightarrow> (nat \<Rightarrow> bytes) \<Rightarrow> Cipher \<Rightarrow> (ColumnKey \<times> Rule) list \<Rightarrow> nat \<Rightarrow> (database, nat) io" where
  "encryptColumns U rand c [] sofar = returnIO sofar"
| "encryptColumns U rand c (e # es) sofar =
     bindIO (contextIO (ckTable (fst e) @ ''.'' @ ckColumn (fst e) @ '': '') (encryptColumn U rand c e)) (\<lambda>n.
     encryptColumns U rand c es (sofar + n))"

section \<open>Hashing rows\<close>

definition hashRow ::
  "unicode \<Rightarrow> Cipher \<Rightarrow> BlindIndex \<Rightarrow> string \<Rightarrow> string \<Rightarrow> bytes \<Rightarrow> string \<times> string \<Rightarrow> (database, unit) io" where
  "hashRow U c bi table hash aad r =
     (case Decrypt U c (snd r) aad of
        Inl err \<Rightarrow> failIO (wrapErr (''decrypt id='' @ fst r @ '': '') err [])
      | Inr plaintext \<Rightarrow>
        (case Compute bi (NormalizeLowercase U plaintext) aad of
           Inl err \<Rightarrow> failIO (wrapErr (''hmac id='' @ fst r @ '': '') err [])
         | Inr h \<Rightarrow> contextIO (''update id='' @ fst r @ '': '') (runUpdate table hash h (fst r))))"

definition hashColumn ::
  "unicode \<Rightarrow> Cipher \<Rightarrow> BlindIndex \<Rightarrow> string \<Rightarrow> string \<Rightarrow> string \<Rightarrow> (database, nat) io" where
  "hashColumn U c bi table column hashColumn' =
     (let tab = ToLower U table; src = ToLower U column; hash = ToLower U hashColumn';
          aad = ToUpper U table @ ''.'' @ ToUpper U column in
      bindIO (runSelect [] (SelectUnhashed tab src hash) tab src) (\<lambda>batch.
      bindIO (eachIO (hashRow U c bi tab hash aad) batch) (\<lambda>_.
      returnIO (length batch))))"

fun hashColumns :: "unicode \<Rightarrow> Cipher \<Rightarrow> BlindIndex \<Rightarrow> (ColumnKey \<times> Rule) list \<Rightarrow> nat \<Rightarrow> (database, nat) io" where
  "hashColumns U c bi [] sofar = returnIO sofar"
| "hashColumns U c bi (e # es) sofar =
     (if ruleBlindIndex (snd e) = [] then hashColumns U c bi es sofar
      else bindIO (contextIO (ckTable (fst e) @ ''.'' @ ckColumn (fst e) @ '': '')
             (hashColumn U c bi (ckTable (fst e)) (ckColumn (fst e)) (ruleBlindIndex (snd e)))) (\<lambda>n.
           hashColumns U c bi es (sofar + n)))"

section \<open>Commands\<close>

definition backfillFields :: "unicode \<Rightarrow> string \<Rightarrow> FieldSet result" where
  "backfillFields U value =
     (if value = ''email-only'' then Inr (SetColumn TableUserEntity ''EMAIL'' detRule NewFieldSet)
      else if value = ''email-only-blind-index''
      then Inr (SetColumn TableUserEntity ''EMAIL'' (detRule\<lparr>ruleBlindIndex := ''EMAIL_HASH''\<rparr>) NewFieldSet)
      else if value = ''default'' then Inr DefaultFields
      else Inl (errorsNew (''unknown -fields value '' @ Quote U value)))"

text \<open>A KMS on the world of a Vault environment, which the static KMS ignores.\<close>

definition selectKMS ::
  "'w vaultEnv \<Rightarrow> (nat \<Rightarrow> ('w \<times> tokenCache, bytes) io) \<Rightarrow> string \<Rightarrow> string \<Rightarrow> string \<Rightarrow> string \<Rightarrow> string
   \<Rightarrow> ('w \<times> tokenCache) KMS result" where
  "selectKMS E rand kekB64 vaultAddr vaultToken vaultKey vaultMount =
     (let hasStatic = (kekB64 \<noteq> []); hasVault = (vaultAddr \<noteq> []) in
      if hasStatic \<and> hasVault then Inl (errorsNew ''provide -kek or -vault-addr, not both'')
      else if hasStatic then
        (case StdDecode kekB64 of
           Inl err \<Rightarrow> Inl (wrapErr ''decode KEK: '' err [])
         | Inr kek \<Rightarrow> bindR (NewStaticKMS kek) (\<lambda>k. Inr (staticKMS rand k)))
      else if hasVault then
        (if vaultToken = [] \<or> vaultKey = []
         then Inl (errorsNew ''-vault-addr requires -vault-token and -vault-key'')
         else bindR (NewVaultKMS \<lparr>vcAddress = vaultAddr, vcToken = vaultToken, vcKeyName = vaultKey,
                 vcMount = vaultMount, vcAppRoleMount = [], vcRoleID = [], vcSecretID = [],
                 vcKubernetesRole = [], vcKubernetesMount = [], vcKubernetesJWTFile = []\<rparr>) (\<lambda>v.
              Inr (vaultKMS E v)))
      else Inl (errorsNew ''one of -kek or -vault-addr is required''))"

definition openCipherFromFile ::
  "('w, 'h) tink \<Rightarrow> 'w KMS \<Rightarrow> bytes result \<Rightarrow> ('w, Cipher) io" where
  "openCipherFromFile T k file =
     bindIO (contextIO ''read DEK set: '' (liftIO file)) (\<lambda>raw.
     bindIO (contextIO ''decode DEK set: '' (liftIO (unmarshalDEKSet raw))) (\<lambda>st.
     OpenCipher T k st))"

text \<open>The value is what the file holds after a run that succeeds.\<close>

definition runGenerate ::
  "('w, 'h) tink \<Rightarrow> (nat \<Rightarrow> ('w, bytes) io) \<Rightarrow> (bytes \<Rightarrow> ('w, unit) io) \<Rightarrow> 'w KMS result \<Rightarrow> nat
   \<Rightarrow> ('w, bytes) io" where
  "runGenerate T rand writeFile kms keyVersion' =
     bindIO (liftIO kms) (\<lambda>k.
     if keyVersion' > 4294967295
     then failIO (errorsNew (''-key-version '' @ showNat keyVersion' @ '' exceeds uint32 range''))
     else bindIO (GenerateDEKSet T rand k (of_nat keyVersion')) (\<lambda>st.
       bindIO (writeFile (marshalDEKSet st)) (\<lambda>_. returnIO (marshalDEKSet st))))"

definition runEncrypt ::
  "unicode \<Rightarrow> (nat \<Rightarrow> bytes) \<Rightarrow> ('w, 'h) tink \<Rightarrow> string \<Rightarrow> 'w KMS result \<Rightarrow> bytes result \<Rightarrow> string \<Rightarrow> goerror option
   \<Rightarrow> ('w \<times> database, nat) io" where
  "runEncrypt U rand T dsn kms file fieldsOpt connect =
     (if dsn = [] then failIO (errorsNew ''-dsn is required'')
      else
        bindIO (liftIO kms) (\<lambda>k.
        bindIO (onFst (openCipherFromFile T k file)) (\<lambda>c.
        bindIO (liftIO (backfillFields U fieldsOpt)) (\<lambda>fs.
        case connect of
          Some err \<Rightarrow> failIO (wrapErr ''connect: '' err [])
        | None \<Rightarrow> onSnd (encryptColumns U rand c (Columns fs) 0)))))"

definition runHashRows ::
  "unicode \<Rightarrow> ('w, 'h) tink \<Rightarrow> string \<Rightarrow> 'w KMS result \<Rightarrow> bytes result \<Rightarrow> string \<Rightarrow> goerror option
   \<Rightarrow> ('w \<times> database, nat) io" where
  "runHashRows U T dsn kms file fieldsOpt connect =
     (if dsn = [] then failIO (errorsNew ''-dsn is required'')
      else
        bindIO (liftIO kms) (\<lambda>k.
        bindIO (onFst (openCipherFromFile T k file)) (\<lambda>c.
        case CipherBlindIndex c of
          None \<Rightarrow> failIO (errorsNew (''DEK set has no blind-index key '' @ [CHR 0xE2, CHR 0x80, CHR 0x94]
                    @ '' regenerate with generate-dekset''))
        | Some bi \<Rightarrow>
          bindIO (liftIO (backfillFields U fieldsOpt)) (\<lambda>fs.
          case connect of
            Some err \<Rightarrow> failIO err
          | None \<Rightarrow> onSnd (hashColumns U c bi (Columns fs) 0)))))"

text \<open>The data definition statements leave the rows as they are.\<close>

fun migrateColumns :: "unicode \<Rightarrow> (ColumnKey \<times> Rule) list \<Rightarrow> (database, unit) io" where
  "migrateColumns U [] = returnIO ()"
| "migrateColumns U (e # es) =
     (if ruleBlindIndex (snd e) = [] then migrateColumns U es
      else
        let table = ToLower U (ckTable (fst e)); hash = ToLower U (ruleBlindIndex (snd e)) in
        bindIO (contextIO (''alter '' @ table @ '': '') nextFault) (\<lambda>_.
        bindIO (contextIO (''index '' @ hash @ '': '') nextFault) (\<lambda>_.
        migrateColumns U es)))"

definition runMigrate :: "unicode \<Rightarrow> string \<Rightarrow> string \<Rightarrow> goerror option \<Rightarrow> (database, unit) io" where
  "runMigrate U dsn fieldsOpt connect =
     (if dsn = [] then failIO (errorsNew ''-dsn is required'')
      else bindIO (liftIO (backfillFields U fieldsOpt)) (\<lambda>fs.
        case connect of Some err \<Rightarrow> failIO err | None \<Rightarrow> migrateColumns U (Columns fs)))"

section \<open>What a row loop leaves\<close>

text \<open>The effect of a loop that writes one cell per selected row, as a map from ids to values.\<close>

definition applyCells :: "string \<Rightarrow> (string \<rightharpoonup> string) \<Rightarrow> dbRow list \<Rightarrow> dbRow list" where
  "applyCells column m rs =
     map (\<lambda>r. case m (rowId r) of None \<Rightarrow> r | Some v \<Rightarrow> r\<lparr>rowCells := (rowCells r)(column \<mapsto> v)\<rparr>) rs"

lemma applyCells_empty [simp]: "applyCells column Map.empty rs = rs"
  by (simp add: applyCells_def)

lemma applyCells_setCell:
  "m ident = None \<Longrightarrow> applyCells column m (map (setCell column v ident) rs) = applyCells column (m(ident \<mapsto> v)) rs"
  by (auto simp: applyCells_def setCell_def split: option.split)

lemma nextFault_tables: "nextFault db = (r, db') \<Longrightarrow> dbTables db' = dbTables db"
  by (auto simp: nextFault_def split: list.splits option.splits)

lemma runUpdate_Inr:
  "runUpdate table column v ident db = (Inr u, db') \<Longrightarrow>
   dbTables db' = (dbTables db)(table := map (setCell column v ident) (dbTables db table))"
  by (auto simp: runUpdate_def io_Inr dest: nextFault_tables)

text \<open>
  The interface between a row loop and the step it runs: a step that succeeds wrote one
  value it may write into one cell of its row, and nothing else.
\<close>

locale cell_writer =
  fixes step :: "string \<times> string \<Rightarrow> (database, unit) io"
    and table column :: string
    and good :: "string \<Rightarrow> string \<Rightarrow> bool"
  assumes step_writes: "step r db = (Inr u, db') \<Longrightarrow>
    \<exists>v. good (snd r) v \<and> dbTables db' = (dbTables db)(table := map (setCell column v (fst r)) (dbTables db table))"
begin

lemma loop_writes:
  assumes "eachIO step rs db = (Inr u, db')" and "distinct (map fst rs)"
  shows "\<exists>m. dom m = fst ` set rs \<and> (\<forall>(i, x) \<in> set rs. \<exists>v. m i = Some v \<and> good x v)
     \<and> dbTables db' = (dbTables db)(table := applyCells column m (dbTables db table))"
  using assms
proof (induction rs arbitrary: db)
  case Nil
  then show ?case by (intro exI [of _ Map.empty]) simp
next
  case (Cons r rs)
  obtain db1 where s: "step r db = (Inr (), db1)" "eachIO step rs db1 = (Inr u, db')"
    using Cons.prems(1) by (auto simp: io_Inr)
  obtain v where v: "good (snd r) v"
    "dbTables db1 = (dbTables db)(table := map (setCell column v (fst r)) (dbTables db table))"
    using step_writes [OF s(1)] by blast
  have d: "distinct (map fst rs)" using Cons.prems(2) by simp
  obtain m where m: "dom m = fst ` set rs" "\<forall>(i, x) \<in> set rs. \<exists>v. m i = Some v \<and> good x v"
    "dbTables db' = (dbTables db1)(table := applyCells column m (dbTables db1 table))"
    using Cons.IH [OF s(2) d] by blast
  have n: "m (fst r) = None" using m(1) Cons.prems(2) by (auto simp: domIff)
  show ?case
  proof (intro exI [of _ "m(fst r \<mapsto> v)"] conjI)
    show "dom (m(fst r \<mapsto> v)) = fst ` set (r # rs)" using m(1) by simp
    have f: "fst r \<notin> fst ` set rs" using Cons.prems(2) by simp
    show "\<forall>(i, x) \<in> set (r # rs). \<exists>v'. (m(fst r \<mapsto> v)) i = Some v' \<and> good x v'"
    proof (intro ballI, clarify)
      fix i x assume "(i, x) \<in> set (r # rs)"
      then consider "r = (i, x)" | "(i, x) \<in> set rs" by auto
      then show "\<exists>v'. (m(fst r \<mapsto> v)) i = Some v' \<and> good x v'"
      proof cases
        case 1
        then show ?thesis using v(1) by simp
      next
        case 2
        then have "i \<noteq> fst r" using f by (metis fst_conv image_eqI)
        then show ?thesis using 2 m(2) by auto
      qed
    qed
    show "dbTables db' = (dbTables db)(table := applyCells column (m(fst r \<mapsto> v)) (dbTables db table))"
      using m(3) v(2) n by (simp add: applyCells_setCell)
  qed
qed

end

definition storedFor :: "Cipher \<Rightarrow> unicode \<Rightarrow> Rule \<Rightarrow> bytes \<Rightarrow> string \<Rightarrow> string \<Rightarrow> bool" where
  "storedFor c U rule aad x v \<longleftrightarrow>
     (\<exists>rnd. Encrypt c rnd (ruleScheme rule) (if LowercaseNormalize rule then NormalizeLowercase U x else x) aad = Inr v)"

definition hashFor :: "Cipher \<Rightarrow> BlindIndex \<Rightarrow> unicode \<Rightarrow> bytes \<Rightarrow> string \<Rightarrow> string \<Rightarrow> bool" where
  "hashFor c bi U aad x v \<longleftrightarrow>
     (\<exists>pt. Decrypt U c x aad = Inr pt \<and> Compute bi (NormalizeLowercase U pt) aad = Inr v)"

interpretation encw: cell_writer "encryptRow U rand c rule table column aad" table column "storedFor c U rule aad"
  for U rand c rule table column aad
proof unfold_locales
  fix r db u db'
  assume "encryptRow U rand c rule table column aad r db = (Inr u, db')"
  then obtain v where "storedFor c U rule aad (snd r) v"
    and "runUpdate table column v (fst r) (db\<lparr>dbDrawn := Suc (dbDrawn db)\<rparr>) = (Inr u, db')"
    by (auto simp: encryptRow_def storedFor_def contextIO_Inr Let_def split: sum.splits)
  then show "\<exists>v. storedFor c U rule aad (snd r) v
      \<and> dbTables db' = (dbTables db)(table := map (setCell column v (fst r)) (dbTables db table))"
    using runUpdate_Inr by fastforce
qed

interpretation hashw: cell_writer "hashRow U c bi table column aad" table column "hashFor c bi U aad"
  for U c bi table column aad
  by unfold_locales
    (auto simp: hashRow_def hashFor_def contextIO_Inr split: sum.splits dest: runUpdate_Inr)

lemma runSelect_all:
  assumes "runSelect scanErr stmt table column db = (Inr batch, db')" and "dbFetches db = []"
  shows "batch = map (\<lambda>r. (rowId r, the (rowCells r column))) (filter (selects stmt) (dbTables db table))
     \<and> dbTables db' = dbTables db"
proof -
  obtain db1 db2 outcome where s: "nextFault db = (Inr (), db1)" "nextFetch db1 = (Inr outcome, db2)"
    and b: "fetchRows scanErr outcome
      (map (\<lambda>r. (rowId r, the (rowCells r column))) (filter (selects stmt) (dbTables db2 table))) = Inr batch" "db' = db2"
    using assms(1) by (auto simp: runSelect_def io_Inr)
  have "dbFetches db1 = []" using s(1) assms(2) by (auto simp: nextFault_def split: list.splits option.splits)
  then have "outcome = AllRows" "db2 = db1" using s(2) by (auto simp: nextFetch_def)
  then show ?thesis using b nextFault_tables [OF s(1)] by (simp add: fetchRows_def)
qed

lemma selected_ids:
  "distinct (map rowId rs) \<Longrightarrow> distinct (map fst (map (\<lambda>r. (rowId r, the (rowCells r column))) (filter P rs)))"
  by (simp add: comp_def distinct_map_filter)

lemma applyCells_row:
  "i < length rs \<Longrightarrow> applyCells column m rs ! i =
     (case m (rowId (rs ! i)) of None \<Rightarrow> rs ! i | Some v \<Rightarrow> (rs ! i)\<lparr>rowCells := (rowCells (rs ! i))(column \<mapsto> v)\<rparr>)"
  by (simp add: applyCells_def)

context cell_writer
begin

lemma column_written:
  assumes "bindIO (runSelect scanErr stmt table src) (\<lambda>batch. bindIO (eachIO step batch) (\<lambda>_. returnIO (length batch))) db
      = (Inr n, db')"
    and "dbFetches db = []" and "distinct (map rowId (dbTables db table))"
  shows "n = length (filter (selects stmt) (dbTables db table))
     \<and> (\<forall>t. t \<noteq> table \<longrightarrow> dbTables db' t = dbTables db t)
     \<and> length (dbTables db' table) = length (dbTables db table)
     \<and> (\<forall>i < length (dbTables db table). let r = dbTables db table ! i; r' = dbTables db' table ! i in
          if selects stmt r then \<exists>v. good (the (rowCells r src)) v \<and> r' = r\<lparr>rowCells := (rowCells r)(column \<mapsto> v)\<rparr>
          else r' = r)"
proof -
  let ?rs = "dbTables db table"
  let ?batch = "map (\<lambda>r. (rowId r, the (rowCells r src))) (filter (selects stmt) ?rs)"
  obtain batch db1 where r: "runSelect scanErr stmt table src db = (Inr batch, db1)"
    and e: "eachIO step batch db1 = (Inr (), db')" and n: "n = length batch"
    using assms(1) by (auto simp: io_Inr)
  have b: "dbTables db1 = dbTables db" "eachIO step ?batch db1 = (Inr (), db')" "n = length ?batch"
    using runSelect_all [OF r assms(2)] e n by auto
  obtain m where m: "dom m = fst ` set ?batch" "\<forall>(i, x) \<in> set ?batch. \<exists>v. m i = Some v \<and> good x v"
    "dbTables db' = (dbTables db)(table := applyCells column m ?rs)"
    using loop_writes [OF b(2) selected_ids [OF assms(3)]] b(1) by auto
  have "let r = ?rs ! i; r' = dbTables db' table ! i in
          if selects stmt r then \<exists>v. good (the (rowCells r src)) v \<and> r' = r\<lparr>rowCells := (rowCells r)(column \<mapsto> v)\<rparr>
          else r' = r" if i: "i < length ?rs" for i
  proof (cases "selects stmt (?rs ! i)")
    case True
    then have "(rowId (?rs ! i), the (rowCells (?rs ! i) src)) \<in> set ?batch" using i by auto
    then obtain v where "m (rowId (?rs ! i)) = Some v" "good (the (rowCells (?rs ! i) src)) v" using m(2) by blast
    then show ?thesis using True i m(3) by (auto simp: applyCells_row Let_def)
  next
    case False
    have "rowId (?rs ! i) \<notin> fst ` set ?batch"
    proof
      assume "rowId (?rs ! i) \<in> fst ` set ?batch"
      then obtain j where "j < length ?rs" "selects stmt (?rs ! j)" "rowId (?rs ! j) = rowId (?rs ! i)"
        by (auto simp: in_set_conv_nth)
      then have "j = i" using assms(3) i by (metis distinct_conv_nth length_map nth_map)
      then show False using False \<open>selects stmt (?rs ! j)\<close> by simp
    qed
    then have "m (rowId (?rs ! i)) = None" using m(1) by blast
    then show ?thesis using False i m(3) by (simp add: applyCells_row Let_def)
  qed
  then show ?thesis using b(3) m(3) by (simp add: applyCells_def)
qed

end

end
