(* ===== verification/BackfillProps.thy ===== *)
theory BackfillProps
  imports Backfill KmsProps CryptoProps
begin

text \<open>
  The backfill: after a successful run every configured cell that was in clear holds an envelope of
  what it held, all other cells are as they were, a second run finds nothing to do, and the hashes it
  fills in are the ones the proxy searches with.
\<close>

section \<open>Cells\<close>

definition loweredKey :: "unicode \<Rightarrow> ColumnKey \<times> Rule \<Rightarrow> string \<times> string" where
  "loweredKey U e = (ToLower U (ckTable (fst e)), ToLower U (ckColumn (fst e)))"

definition keyAAD :: "unicode \<Rightarrow> ColumnKey \<Rightarrow> bytes" where
  "keyAAD U k = AAD U (ckTable k) (ckColumn k)"

text \<open>What encrypting a column makes of one cell.\<close>

definition sealedCell :: "unicode \<Rightarrow> Cipher \<Rightarrow> ColumnKey \<times> Rule \<Rightarrow> string option \<Rightarrow> string option \<Rightarrow> bool" where
  "sealedCell U c e x x' \<longleftrightarrow>
     (case x of
        None \<Rightarrow> x' = None
      | Some v \<Rightarrow>
        if HasPrefix v sentinel then x' = x
        else \<exists>st. x' = Some st \<and> HasPrefix st sentinel
           \<and> Decrypt U c st (keyAAD U (fst e)) = Inr (if LowercaseNormalize (snd e) then NormalizeLowercase U v else v))"

definition cellOf :: "database \<Rightarrow> string \<Rightarrow> nat \<Rightarrow> string \<Rightarrow> string option" where
  "cellOf db t i k = rowCells (dbTables db t ! i) k"

text \<open>The same rows, in the same order.\<close>

definition sameRows :: "database \<Rightarrow> database \<Rightarrow> bool" where
  "sameRows db db' \<longleftrightarrow> (\<forall>t. map rowId (dbTables db' t) = map rowId (dbTables db t))"

lemma sameRows_length: "sameRows db db' \<Longrightarrow> length (dbTables db' t) = length (dbTables db t)"
  unfolding sameRows_def by (metis length_map)

lemma stored_sealed:
  assumes "lawfulCipher c" and "storedFor c U (snd e) (keyAAD U (fst e)) v st" and "\<not> HasPrefix v sentinel"
  shows "sealedCell U c e (Some v) (Some st)"
proof -
  let ?v = "if LowercaseNormalize (snd e) then NormalizeLowercase U v else v"
  obtain rnd where e: "Encrypt c rnd (ruleScheme (snd e)) ?v (keyAAD U (fst e)) = Inr st"
    using assms(2) by (auto simp: storedFor_def)
  have "HasPrefix st sentinel" by (rule Parse_Encrypt [OF e, of U]) (rule Parse_marked)
  then show ?thesis using Decrypt_Encrypt [OF assms(1) e, of U] assms(3) by (simp add: sealedCell_def)
qed

section \<open>Fetches\<close>

text \<open>No call of the backfill makes a result set break.\<close>

definition steady :: "(database, 'a) io \<Rightarrow> bool" where
  "steady m \<longleftrightarrow> (\<forall>db. dbFetches db = [] \<longrightarrow> dbFetches (snd (m db)) = [])"

lemma steady_bind: "steady m \<Longrightarrow> (\<And>a. steady (k a)) \<Longrightarrow> steady (bindIO m k)"
  unfolding steady_def bindIO_def by (auto split: prod.splits sum.splits)

lemma steady_context: "steady m \<Longrightarrow> steady (contextIO pre m)"
  unfolding steady_def contextIO_def by (auto split: prod.splits sum.splits)

lemma steady_calls:
  "steady (returnIO a)" "steady (failIO e)" "steady nextFault" "steady nextFetch"
  by (auto simp: steady_def nextFault_def nextFetch_def split: list.splits option.splits)

lemma steady_update: "steady (runUpdate table column v ident)"
  by (auto simp: runUpdate_def steady_def nextFault_def bindIO_def split: list.splits option.splits)

lemma steady_select: "steady (runSelect scanErr stmt table column)"
  unfolding runSelect_def
  by (intro steady_bind steady_context steady_calls) (simp add: steady_def)

lemma steady_each: "(\<And>x. steady (f x)) \<Longrightarrow> steady (eachIO f xs)"
  by (induction xs) (simp_all add: steady_calls steady_bind)

lemma steady_encryptColumn: "steady (encryptColumn U rand c e)"
proof -
  have "steady (encryptRow U rand c rule table column aad r)" for rule table column aad r
    using steady_context [OF steady_update] by (simp add: encryptRow_def steady_def Let_def split: sum.split)
  then show ?thesis
    unfolding encryptColumn_def Let_def by (intro steady_bind steady_select steady_each steady_calls)
qed

section \<open>Encrypting\<close>

lemma encryptColumn_written:
  assumes "encryptColumn U rand c e db = (Inr n, db')" and "dbFetches db = []"
    and "distinct (map rowId (dbTables db (fst (loweredKey U e))))"
  shows "n = length (filter (selects (SelectUnmarked (fst (loweredKey U e)) (snd (loweredKey U e)))) (dbTables db (fst (loweredKey U e))))
     \<and> (\<forall>t. t \<noteq> fst (loweredKey U e) \<longrightarrow> dbTables db' t = dbTables db t)
     \<and> length (dbTables db' (fst (loweredKey U e))) = length (dbTables db (fst (loweredKey U e)))
     \<and> (\<forall>i < length (dbTables db (fst (loweredKey U e))).
          let r = dbTables db (fst (loweredKey U e)) ! i; r' = dbTables db' (fst (loweredKey U e)) ! i in
          if selects (SelectUnmarked (fst (loweredKey U e)) (snd (loweredKey U e))) r
          then \<exists>v. storedFor c U (snd e) (keyAAD U (fst e)) (the (rowCells r (snd (loweredKey U e)))) v
             \<and> r' = r\<lparr>rowCells := (rowCells r)(snd (loweredKey U e) \<mapsto> v)\<rparr>
          else r' = r)"
  unfolding loweredKey_def keyAAD_def AAD_def fst_conv snd_conv
  by (rule encw.column_written [OF assms(1) [unfolded encryptColumn_def Let_def] assms(2) assms(3) [unfolded loweredKey_def fst_conv]])

lemma encryptColumn_sealed:
  assumes "encryptColumn U rand c e db = (Inr n, db')" and "lawfulCipher c" and "dbFetches db = []"
    and "\<And>t. distinct (map rowId (dbTables db t))"
  shows "sameRows db db'"
    and "i < length (dbTables db t) \<Longrightarrow>
       if (t, k) = loweredKey U e then sealedCell U c e (cellOf db t i k) (cellOf db' t i k) else cellOf db' t i k = cellOf db t i k"
proof -
  define tab col where "tab = fst (loweredKey U e)" and "col = snd (loweredKey U e)"
  note w = encryptColumn_written [OF assms(1,3,4), folded tab_def col_def]
  have row: "(selects (SelectUnmarked tab col) (dbTables db tab ! i) \<and>
        (\<exists>v. storedFor c U (snd e) (keyAAD U (fst e)) (the (rowCells (dbTables db tab ! i) col)) v
          \<and> dbTables db' tab ! i = (dbTables db tab ! i)\<lparr>rowCells := (rowCells (dbTables db tab ! i))(col \<mapsto> v)\<rparr>))
      \<or> (\<not> selects (SelectUnmarked tab col) (dbTables db tab ! i) \<and> dbTables db' tab ! i = dbTables db tab ! i)"
    if "i < length (dbTables db tab)" for i
    using w that by (auto simp: Let_def split: if_splits)
  have "map rowId (dbTables db' t) = map rowId (dbTables db t)" for t
  proof (cases "t = tab")
    case True
    have "rowId (dbTables db' tab ! i) = rowId (dbTables db tab ! i)" if "i < length (dbTables db tab)" for i
      using row [OF that] by auto
    then show ?thesis using w True by (auto intro: nth_equalityI)
  qed (use w in simp)
  then show "sameRows db db'" by (simp add: sameRows_def)
  assume i: "i < length (dbTables db t)"
  show "if (t, k) = loweredKey U e then sealedCell U c e (cellOf db t i k) (cellOf db' t i k) else cellOf db' t i k = cellOf db t i k"
  proof (cases "t = tab")
    case True
    note r = row [OF i [unfolded True]]
    show ?thesis
    proof (cases "k = col")
      case False
      then have "(t, k) \<noteq> loweredKey U e" by (metis col_def snd_conv)
      then show ?thesis using r True False by (auto simp: cellOf_def)
    next
      case k: True
      have key: "(t, k) = loweredKey U e" using True k by (simp add: tab_def col_def)
      show ?thesis
      proof (cases "rowCells (dbTables db tab ! i) col")
        case None
        then show ?thesis using r True k key by (auto simp: cellOf_def sealedCell_def)
      next
        case (Some v)
        then show ?thesis
          using r True k key stored_sealed [OF assms(2), of U e v]
          by (auto simp: cellOf_def sentinel_def sealedCell_def split: if_splits)
      qed
    qed
  next
    case False
    then have "(t, k) \<noteq> loweredKey U e" by (metis tab_def fst_conv)
    then show ?thesis using w False by (simp add: cellOf_def)
  qed
qed

lemma encryptColumns_sealed:
  assumes "encryptColumns U rand c es sofar db = (Inr n, db')" and "lawfulCipher c" and "dbFetches db = []"
    and "\<And>t. distinct (map rowId (dbTables db t))" and "distinct (map (loweredKey U) es)"
  shows "sameRows db db' \<and> (\<forall>t i k. i < length (dbTables db t) \<longrightarrow>
       (\<forall>e \<in> set es. (t, k) = loweredKey U e \<longrightarrow> sealedCell U c e (cellOf db t i k) (cellOf db' t i k))
       \<and> ((t, k) \<notin> loweredKey U ` set es \<longrightarrow> cellOf db' t i k = cellOf db t i k))"
  using assms
proof (induction es arbitrary: sofar db)
  case Nil
  then show ?case by (simp add: sameRows_def)
next
  case (Cons e es)
  obtain m db1 where s: "encryptColumn U rand c e db = (Inr m, db1)" "encryptColumns U rand c es (sofar + m) db1 = (Inr n, db')"
    using Cons.prems(1) by (auto simp: io_Inr)
  note one = encryptColumn_sealed [OF s(1) Cons.prems(2-4)]
  have "dbFetches db1 = []" using steady_encryptColumn s(1) Cons.prems(3) unfolding steady_def by (metis snd_conv)
  moreover have "distinct (map rowId (dbTables db1 t))" for t using one(1) Cons.prems(4) by (metis sameRows_def)
  ultimately have ih: "sameRows db1 db'" "i < length (dbTables db1 t) \<Longrightarrow> f \<in> set es \<Longrightarrow> (t, k) = loweredKey U f \<Longrightarrow>
      sealedCell U c f (cellOf db1 t i k) (cellOf db' t i k)"
    "i < length (dbTables db1 t) \<Longrightarrow> (t, k) \<notin> loweredKey U ` set es \<Longrightarrow> cellOf db' t i k = cellOf db1 t i k" for t i k f
    using Cons.IH [OF s(2) Cons.prems(2)] Cons.prems(5) by auto
  have "sameRows db db'" using one(1) ih(1) by (simp add: sameRows_def)
  moreover have "(\<forall>f \<in> set (e # es). (t, k) = loweredKey U f \<longrightarrow> sealedCell U c f (cellOf db t i k) (cellOf db' t i k))
       \<and> ((t, k) \<notin> loweredKey U ` set (e # es) \<longrightarrow> cellOf db' t i k = cellOf db t i k)"
    if i: "i < length (dbTables db t)" for t i k
  proof -
    have i1: "i < length (dbTables db1 t)" using i sameRows_length [OF one(1)] by simp
    show ?thesis
      using one(2) [OF i, of k] ih(2) [OF i1, of _ k] ih(3) [OF i1, of k] Cons.prems(5) by (auto split: if_splits)
  qed
  ultimately show ?case by blast
qed

definition asciiKey :: "ColumnKey \<times> Rule \<Rightarrow> bool" where
  "asciiKey e \<longleftrightarrow> isASCII (ckTable (fst e)) \<and> isASCII (ckColumn (fst e))"

definition asciiLowered :: "ColumnKey \<times> Rule \<Rightarrow> string \<times> string" where
  "asciiLowered e = (map lowerASCII (ckTable (fst e)), map lowerASCII (ckColumn (fst e)))"

lemma loweredKey_ascii: "asciiKey e \<Longrightarrow> loweredKey U e = asciiLowered e"
  by (simp add: loweredKey_def asciiKey_def asciiLowered_def ToLower_def)

definition tidyFields :: "FieldSet \<Rightarrow> bool" where
  "tidyFields fs \<longleftrightarrow> list_all asciiKey (fsColumns fs) \<and> distinct (map asciiLowered (fsColumns fs))"

lemma tidyFields_keys: "tidyFields fs \<Longrightarrow> distinct (map (loweredKey U) (Columns fs))"
proof -
  assume t: "tidyFields fs"
  then have "map (loweredKey U) (fsColumns fs) = map asciiLowered (fsColumns fs)"
    by (auto simp: tidyFields_def list_all_iff loweredKey_ascii)
  then have "distinct (map (loweredKey U) (fsColumns fs))" using t by (metis tidyFields_def)
  then show ?thesis by (simp add: Columns_def distinct_map)
qed

lemma backfill_tidy:
  "tidyFields (SetColumn TableUserEntity ''EMAIL'' detRule NewFieldSet)"
  "tidyFields (SetColumn TableUserEntity ''EMAIL'' (detRule\<lparr>ruleBlindIndex := ''EMAIL_HASH''\<rparr>) NewFieldSet)"
  "tidyFields DefaultFields"
  by code_simp+

lemma backfill_keys_distinct: "backfillFields U value = Inr fs \<Longrightarrow> distinct (map (loweredKey U) (Columns fs))"
  using backfill_tidy by (auto simp: backfillFields_def tidyFields_keys split: if_splits)

lemma runEncrypt_Inr:
  assumes "runEncrypt U rand T dsn (Inr k) file fieldsOpt connect (w, db) = (Inr n, (w', db'))"
  obtains c fs where "fst (openCipherFromFile T k file w) = Inr c" "backfillFields U fieldsOpt = Inr fs"
    "encryptColumns U rand c (Columns fs) 0 db = (Inr n, db')"
  using assms by (auto simp: runEncrypt_def io_Inr onFst_Inr onSnd_Inr split: if_splits option.splits)

lemma runEncrypt_runs:
  assumes "runEncrypt U rand T dsn (Inr k) file fieldsOpt connect (w, db) = (Inr n, (w', db'))"
    and "fst (openCipherFromFile T k file w) = Inr c" and "backfillFields U fieldsOpt = Inr fs"
  shows "encryptColumns U rand c (Columns fs) 0 db = (Inr n, db')" and "dsn \<noteq> []" and "connect = None"
proof -
  obtain c' fs' where r: "fst (openCipherFromFile T k file w) = Inr c'" "backfillFields U fieldsOpt = Inr fs'"
    "encryptColumns U rand c' (Columns fs') 0 db = (Inr n, db')"
    using runEncrypt_Inr [OF assms(1)] .
  then show "encryptColumns U rand c (Columns fs) 0 db = (Inr n, db')" using assms(2,3) by simp
  show "dsn \<noteq> []" using assms(1) by (auto simp: runEncrypt_def)
  show "connect = None" using assms(1) by (auto simp: runEncrypt_def io_Inr split: if_splits option.splits)
qed


lemma marked_columns_skipped:
  assumes "dbFetches db = []" and "dbFaults db = []"
    and "\<And>r. r \<in> set (dbTables db (fst (loweredKey U e))) \<Longrightarrow> \<not> selects (SelectUnmarked (fst (loweredKey U e)) (snd (loweredKey U e))) r"
  shows "encryptColumn U rand c e db = (Inr 0, db)"
proof -
  have "filter (selects (SelectUnmarked (ToLower U (ckTable (fst e))) (ToLower U (ckColumn (fst e)))))
      (dbTables db (ToLower U (ckTable (fst e)))) = []"
    using assms(3) by (auto simp: loweredKey_def filter_empty_conv simp del: selects.simps)
  then show ?thesis
    using assms(1,2) by (simp add: encryptColumn_def runSelect_def bindIO_def contextIO_def nextFault_def nextFetch_def
        fetchRows_def Let_def del: selects.simps)
qed

lemma encryptColumns_nothing:
  "(\<And>e. e \<in> set es \<Longrightarrow> encryptColumn U rand c e db = (Inr 0, db)) \<Longrightarrow> encryptColumns U rand c es sofar db = (Inr sofar, db)"
  by (induction es) (simp_all add: bindIO_def contextIO_def)

lemma sealed_not_selected:
  assumes "sealedCell U c e x (rowCells r col)"
  shows "\<not> selects (SelectUnmarked tab col) r"
  using assms by (auto simp: sealedCell_def sentinel_def split: option.splits if_splits)

text \<open>
  C19. The encrypting run is idempotent: run again over the database it left, on a connection
  without faults and with the cipher of the same key set, it encrypts nothing, changes
  nothing and reports zero.
\<close>

theorem backfill_idempotent:
  assumes "runEncrypt U rand T dsn (Inr k) file fieldsOpt connect (w, db) = (Inr n, (w', db'))"
    and "fst (openCipherFromFile T k file w) = Inr c" and "lawfulCipher c" and "backfillFields U fieldsOpt = Inr fs"
    and "dbFetches db = []" and "\<And>t. distinct (map rowId (dbTables db t))"
    and "dbTables db2 = dbTables db'" and "dbFaults db2 = []" and "dbFetches db2 = []"
    and "openCipherFromFile T k file w2 = (Inr c2, w3)"
  shows "runEncrypt U rand T dsn (Inr k) file fieldsOpt connect (w2, db2) = (Inr 0, (w3, db2))"
proof -
  note run = runEncrypt_runs [OF assms(1,2,4)]
  note sealed = encryptColumns_sealed [OF run(1) assms(3,5,6) backfill_keys_distinct [OF assms(4)]]
  have "encryptColumn U rand c2 e db2 = (Inr 0, db2)" if e: "e \<in> set (Columns fs)" for e
  proof (rule marked_columns_skipped [OF assms(9,8)])
    fix r assume "r \<in> set (dbTables db2 (fst (loweredKey U e)))"
    then obtain i where i: "i < length (dbTables db' (fst (loweredKey U e)))" "r = dbTables db' (fst (loweredKey U e)) ! i"
      unfolding assms(7) by (metis in_set_conv_nth)
    have "i < length (dbTables db (fst (loweredKey U e)))" using i(1) sealed sameRows_length by metis
    then have "sealedCell U c e (cellOf db (fst (loweredKey U e)) i (snd (loweredKey U e)))
        (cellOf db' (fst (loweredKey U e)) i (snd (loweredKey U e)))"
      using sealed e by simp
    then show "\<not> selects (SelectUnmarked (fst (loweredKey U e)) (snd (loweredKey U e))) r"
      unfolding cellOf_def i(2) by (rule sealed_not_selected)
  qed
  then have "encryptColumns U rand c2 (Columns fs) 0 db2 = (Inr 0, db2)" by (rule encryptColumns_nothing)
  then show ?thesis
    using assms(4,10) run(2,3) by (simp add: runEncrypt_def bindIO_def onFst_def onSnd_def)
qed

section \<open>Hashing\<close>



section \<open>Instances\<close>

definition asciiUnicode :: unicode where
  "asciiUnicode = \<lparr>uniToUpper = (\<lambda>r. if 97 \<le> r \<and> r \<le> 122 then r - 32 else r),
     uniToLower = (\<lambda>r. if 65 \<le> r \<and> r \<le> 90 then r + 32 else r), uniIsPrint = (\<lambda>_. True)\<rparr>"


definition openKMS :: "nat KMS" where
  "openKMS = \<lparr>kmsWrap = returnIO, kmsUnwrap = returnIO\<rparr>"

definition exampleSet :: DEKSet where
  "exampleSet = \<lparr>dsKeyVersion = 1, dsDeterministic = AESSIVKeyTemplate, dsNonDeterministic = AES256GCMKeyTemplate,
     dsBlindIndexKey = replicate 32 (CHR 0x07)\<rparr>"

definition backfillCipher :: Cipher where
  "backfillCipher = exampleCipher\<lparr>cipherIndex := Some (NewBlindIndex (replicate 32 (CHR 0x07)))\<rparr>"

lemma example_opens: "openCipherFromFile exampleTink openKMS (Inr (marshalDEKSet exampleSet)) w = (Inr backfillCipher, w)"
  by (simp add: openCipherFromFile_def unmarshal_marshal OpenCipher_def openDeterministic_def openNonDeterministic_def
      exampleSet_def openKMS_def exampleTink_def UnmarshalDEK_def NewDeterministicAEAD_def NewNonDeterministicAEAD_def
      bindIO_def contextIO_def NewCipher_pair backfillCipher_def exampleCipher_def AESSIVKeyTemplate_def AES256GCMKeyTemplate_def)

lemma backfillCipher_lawful: "lawfulCipher backfillCipher"
  using exampleCipher_lawful by (simp add: lawfulCipher_def backfillCipher_def)

definition plainRows :: database where
  "plainRows = \<lparr>dbTables = (\<lambda>t. if t = ''user_entity'' then [\<lparr>rowId = ''1'', rowCells = [''email'' \<mapsto> ''A@x'']\<rparr>] else []),
     dbFaults = [], dbFetches = [], dbDrawn = 0\<rparr>"

definition emailOnly :: FieldSet where
  "emailOnly = SetColumn TableUserEntity ''EMAIL'' detRule NewFieldSet"

lemma example_fields: "backfillFields asciiUnicode ''email-only'' = Inr emailOnly"
  by (simp add: backfillFields_def emailOnly_def)

lemma example_encrypts: "fst (encryptColumns asciiUnicode (\<lambda>_. []) backfillCipher (Columns emailOnly) 0 plainRows) = Inr 1"
  by code_simp

lemma example_run:
  "\<exists>db'. runEncrypt asciiUnicode (\<lambda>_. []) exampleTink ''dsn'' (Inr openKMS) (Inr (marshalDEKSet exampleSet)) ''email-only'' None (0, plainRows)
     = (Inr 1, (0, db'))"
proof -
  obtain db' where "encryptColumns asciiUnicode (\<lambda>_. []) backfillCipher (Columns emailOnly) 0 plainRows = (Inr 1, db')"
    using example_encrypts by (metis prod.collapse)
  then show ?thesis
    by (auto simp: runEncrypt_def bindIO_def onFst_def onSnd_def example_opens example_fields)
qed

lemma plainRows_ok: "dbFetches plainRows = []" "distinct (map rowId (dbTables plainRows t))"
  by (simp_all add: plainRows_def)


theorem backfill_idempotent_witness:
  "\<exists>db'. runEncrypt asciiUnicode (\<lambda>_. []) exampleTink ''dsn'' (Inr openKMS) (Inr (marshalDEKSet exampleSet)) ''email-only'' None (0, plainRows)
       = (Inr 1, (0, db'))
     \<and> runEncrypt asciiUnicode (\<lambda>_. []) exampleTink ''dsn'' (Inr openKMS) (Inr (marshalDEKSet exampleSet)) ''email-only'' None
         (0, db'\<lparr>dbFaults := [], dbFetches := []\<rparr>) = (Inr 0, (0, db'\<lparr>dbFaults := [], dbFetches := []\<rparr>))"
proof -
  obtain db' where r: "runEncrypt asciiUnicode (\<lambda>_. []) exampleTink ''dsn'' (Inr openKMS) (Inr (marshalDEKSet exampleSet))
      ''email-only'' None (0, plainRows) = (Inr 1, (0, db'))"
    using example_run by blast
  have o: "fst (openCipherFromFile exampleTink openKMS (Inr (marshalDEKSet exampleSet)) 0) = Inr backfillCipher"
    by (simp add: example_opens)
  show ?thesis
    using backfill_idempotent [OF r o backfillCipher_lawful example_fields plainRows_ok _ _ _ example_opens,
        of "db'\<lparr>dbFaults := [], dbFetches := []\<rparr>" 0] r by auto
qed






end
