(* ===== verification/JsonPrint.thy ===== *)
theory JsonPrint
  imports Json
begin

text \<open>
  \<^verbatim>\<open>json.Encoder\<close> with \<^verbatim>\<open>SetIndent("", "  ")\<close> and without HTML escapes: the
  indented text of a document without numbers, and that the parser reads it back. A string
  that is not valid UTF-8 comes back with U+FFFD for its bad bytes.
\<close>

section \<open>Strings\<close>

definition validText :: "string \<Rightarrow> string" where
  "validText s = concat (map EncodeRune (utf8Runes s))"

lemma DecodeRune_take:
  assumes "DecodeRune (x # s) = (r, w)" "\<not> byteVal x < 128" "(r, w) \<noteq> (runeError, 1)"
  shows "DecodeRune (take w (x # s) @ t) = (r, w)" "w \<le> length (x # s)"
  using assms by (auto simp: DecodeRune_def Let_def split: if_splits list.splits)

text \<open>A character of the text that stands for itself.\<close>

definition selfChar :: "char \<Rightarrow> bool" where
  "selfChar c \<longleftrightarrow> 32 \<le> byteVal c \<and> c \<noteq> CHR 0x22 \<and> c \<noteq> CHR 0x5C"

lemma scan_self: "scanStr t = Some (b, r) \<Longrightarrow> list_all selfChar p \<Longrightarrow> scanStr (p @ t) = Some (p @ b, r)"
  by (induction p) (auto simp: scanStr.simps [of "x # y @ t" for x y] selfChar_def)

lemma scan_escape:
  "scanStr t = Some (b, r) \<Longrightarrow> e \<in> set (''bfnrt/'' @ [CHR 0x5C, CHR 0x22])
   \<Longrightarrow> scanStr (CHR 0x5C # e # t) = Some (CHR 0x5C # e # b, r)"
  by (simp add: scanStr.simps [of "CHR 0x5C # e # t"])

lemma hexChar_digit:
  assumes "d < 16"
  shows "isHex (hexChar d)" "hexDigitVal (hexChar d) = d"
  using assms by (auto simp: hexChar_def isHex_def isDigit_def hexDigitVal_def byteVal_byteOf)

lemma hexDigits_read:
  "length (hexDigits k n) = k" "list_all isHex (hexDigits k n)" "hexVal (hexDigits k n) = n mod 16 ^ k"
proof -
  show "length (hexDigits k n) = k" by (induction k arbitrary: n) auto
  show "list_all isHex (hexDigits k n)" by (induction k arbitrary: n) (auto simp: hexChar_digit)
  show "hexVal (hexDigits k n) = n mod 16 ^ k"
  proof (induction k arbitrary: n)
    case (Suc k)
    then show ?case by (simp add: hexVal_def hexChar_digit mod_mult2_eq)
  qed (simp add: hexVal_def)
qed

lemma scan_unicode:
  "scanStr t = Some (b, r) \<Longrightarrow>
   scanStr (CHR 0x5C # CHR ''u'' # hexDigits 4 n @ t) = Some (CHR 0x5C # CHR ''u'' # hexDigits 4 n @ b, r)"
  using hexDigits_read(1,2) [of 4 n]
  by (simp add: scanStr.simps [of "CHR 0x5C # CHR ''u'' # hexDigits 4 n @ t"] fourHex_def)

lemma unquote_unicode:
  "n < 0x10000 \<Longrightarrow> \<not> surrogate n \<Longrightarrow>
   unquoteBody (CHR 0x5C # CHR ''u'' # hexDigits 4 n @ t) = EncodeRune n @ unquoteBody t"
  using hexDigits_read(1,3) [of 4 n]
  by (simp add: unquoteBody.simps [of "CHR 0x5C # CHR ''u'' # hexDigits 4 n @ t"])

text \<open>The three kinds of items in an encoded string.\<close>

lemma jsonEscape_scan: "scanStr t = Some (b, r) \<Longrightarrow> scanStr (jsonEscape h c @ t) = Some (jsonEscape h c @ b, r)"
  using scan_escape [of t b r] scan_unicode [of t b r "byteVal c"] scan_self [of t b r "[c]"]
  by (auto simp: jsonEscape_def selfChar_def)

lemma unquote_self: "c \<noteq> CHR 0x5C \<Longrightarrow> byteVal c < 128 \<Longrightarrow> unquoteBody (c # t) = c # unquoteBody t"
  by (simp add: unquoteBody.simps [of "c # t"])

lemma unquote_escape: "e \<noteq> CHR ''u'' \<Longrightarrow> unquoteBody (CHR 0x5C # e # t) = escapeChar e # unquoteBody t"
  by (simp add: unquoteBody.simps [of "CHR 0x5C # e # t"])

lemma control_chars:
  "byteVal c = (8::nat) \<Longrightarrow> c = CHR 0x08" "byteVal c = (12::nat) \<Longrightarrow> c = CHR 0x0C" "byteVal c = (10::nat) \<Longrightarrow> c = CHR 0x0A"
  "byteVal c = (13::nat) \<Longrightarrow> c = CHR 0x0D" "byteVal c = (9::nat) \<Longrightarrow> c = CHR 0x09"
  using of_char_eq_iff [of c "CHR 0x08", where ?'a = nat] of_char_eq_iff [of c "CHR 0x0C", where ?'a = nat]
    of_char_eq_iff [of c "CHR 0x0A", where ?'a = nat] of_char_eq_iff [of c "CHR 0x0D", where ?'a = nat]
    of_char_eq_iff [of c "CHR 0x09", where ?'a = nat]
  by simp_all

lemma jsonEscape_unquote:
  assumes "byteVal c < 128"
  shows "unquoteBody (jsonEscape h c @ t) = c # unquoteBody t"
proof -
  have n: "byteVal c < (0x10000::nat)" "\<not> surrogate (byteVal c)" using assms by (auto simp: surrogate_def)
  have e: "EncodeRune (byteVal c) = [c]" using EncodeRune_1 [of "byteVal c"] assms by simp
  have u: "unquoteBody ((CHR 0x5C # CHR ''u'' # hexDigits 4 (byteVal c)) @ t) = c # unquoteBody t"
    using unquote_unicode [OF n, of t] e by simp
  show ?thesis
    unfolding jsonEscape_def
    using u assms by (auto simp: unquote_self unquote_escape escapeChar_def dest: control_chars)
qed


lemma jsonChars_scan: "scanStr (jsonChars h s @ CHR 0x22 # r) = Some (jsonChars h s, r)"
proof (induction h s rule: jsonChars.induct)
  case (1 h s)
  show ?case
  proof (cases "s = []")
    case True
    then show ?thesis by (simp add: jsonChars.simps [of h "[]"] scanStr.simps [of "CHR 0x22 # r"])
  next
    case s: False
    obtain q w where d: "DecodeRune s = (q, w)" by fastforce
    have raw: "list_all selfChar (take w s)" if "\<not> byteVal (hd s) < 128"
      using DecodeRune_bytes [of "hd s" "tl s" q w] d s that by (auto simp: list_all_iff selfChar_def)
    show ?thesis
      using 1 s d raw jsonEscape_scan scan_unicode scan_self
      by (simp add: jsonChars.simps [of h s])
  qed
qed

lemma unquote_raw:
  assumes "DecodeRune s = (q, w)" "s \<noteq> []" "\<not> byteVal (hd s) < 128" "(q, w) \<noteq> (runeError, 1)"
  shows "unquoteBody (take w s @ t) = EncodeRune q @ unquoteBody t"
proof -
  obtain x u where s: "s = x # u" using assms(2) by (cases s) auto
  note dt = DecodeRune_take [OF assms(1) [unfolded s] _ assms(4)]
  have w: "0 < w" using DecodeRune_width [of x u] assms(1) s by simp
  then obtain v where v: "take w s @ t = x # v" using s by (cases w) auto
  have hx: "\<not> byteVal x < 128" using assms(3) s by simp
  have "DecodeRune (x # v) = (q, w)" unfolding v [symmetric] s by (rule dt(1) [OF hx])
  moreover have "drop w (x # v) = t" unfolding v [symmetric] using dt(2) [OF hx] s by simp
  moreover have "x \<noteq> CHR 0x5C" using hx by auto
  ultimately show ?thesis using assms(3) s w v by (simp add: unquoteBody.simps [of "x # v"] max_def)
qed

lemma jsonChars_unquote: "unquoteBody (jsonChars h s) = validText s"
proof (induction h s rule: jsonChars.induct)
  case (1 h s)
  show ?case
  proof (cases "s = []")
    case True
    then show ?thesis by (simp add: jsonChars.simps [of h "[]"] unquoteBody.simps validText_def)
  next
    case s: False
    obtain q w where d: "DecodeRune s = (q, w)" by fastforce
    have v: "validText s = EncodeRune q @ validText (drop w s)"
      using d s by (simp add: validText_def utf8Runes.simps [of s])
    have ascii: "q = byteVal (hd s) \<and> w = 1" if "byteVal (hd s) < 128"
      using DecodeRune_bytes [of "hd s" "tl s" q w] d s that by simp
    have tl: "drop (Suc 0) s = tl s" by (simp add: drop_Suc)
    show ?thesis
      using 1 s d v ascii tl EncodeRune_1 [of q] jsonEscape_unquote [of "hd s" h] unquote_raw [OF d s]
        unquote_unicode [of runeError] unquote_unicode [of q]
      by (auto simp: jsonChars.simps [of h s] runeError_def surrogate_def)
  qed
qed


section \<open>Documents\<close>

definition newline :: "nat \<Rightarrow> string" where
  "newline n = CHR 0x0A # replicate (2 * n) (CHR '' '')"

fun pretty :: "nat \<Rightarrow> json \<Rightarrow> string"
and prettyElems :: "nat \<Rightarrow> json list \<Rightarrow> string"
and prettyMembers :: "nat \<Rightarrow> (string \<times> json) list \<Rightarrow> string" where
  "pretty n JNull = ''null''"
| "pretty n (JBool b) = (if b then ''true'' else ''false'')"
| "pretty n (JNum lit) = lit"
| "pretty n (JStr s) = jsonString False s"
| "pretty n (JArr vs) = (if vs = [] then ''[]'' else ''['' @ prettyElems (Suc n) vs @ newline n @ '']'')"
| "pretty n (JObj kvs) = (if kvs = [] then ''{}'' else ''{'' @ prettyMembers (Suc n) kvs @ newline n @ ''}'')"
| "prettyElems n [] = []"
| "prettyElems n (v # vs) = newline n @ pretty n v @ (if vs = [] then [] else '','' @ prettyElems n vs)"
| "prettyMembers n [] = []"
| "prettyMembers n ((k, v) # kvs) =
     newline n @ jsonString False k @ '': '' @ pretty n v @ (if kvs = [] then [] else '','' @ prettyMembers n kvs)"

text \<open>What is read back: the same document, with valid strings.\<close>

fun validJson :: "json \<Rightarrow> json" where
  "validJson (JStr s) = JStr (validText s)"
| "validJson (JArr vs) = JArr (map validJson vs)"
| "validJson (JObj kvs) = JObj (map (\<lambda>(k, v). (validText k, validJson v)) kvs)"
| "validJson j = j"

fun noNumbers :: "json \<Rightarrow> bool" where
  "noNumbers (JNum s) = False"
| "noNumbers (JArr vs) = list_all noNumbers vs"
| "noNumbers (JObj kvs) = list_all (\<lambda>(k, v). noNumbers v) kvs"
| "noNumbers j = True"

fun nesting :: "json \<Rightarrow> nat" where
  "nesting (JArr vs) = Suc (Max (set (0 # map nesting vs)))"
| "nesting (JObj kvs) = Suc (Max (set (0 # map (\<lambda>(k, v). nesting v) kvs)))"
| "nesting j = 0"

section \<open>Reading back\<close>

lemma skipWS_newline: "skipWS (newline n @ s) = skipWS s"
proof -
  have "dropWhile jsonSpace (replicate k (CHR '' '') @ s) = dropWhile jsonSpace s" for k
    by (induction k) (simp_all add: jsonSpace_def)
  then show ?thesis by (simp add: skipWS_def newline_def jsonSpace_def)
qed

lemma skipWS_head: "\<not> jsonSpace c \<Longrightarrow> skipWS (c # s) = c # s"
  by (simp add: skipWS_def)

lemma skipWS_marks [simp]:
  "skipWS (CHR '','' # s) = CHR '','' # s" "skipWS (CHR '']'' # s) = CHR '']'' # s" "skipWS (CHR ''}'' # s) = CHR ''}'' # s"
  "skipWS (CHR '':'' # s) = CHR '':'' # s" "skipWS (CHR 0x22 # s) = CHR 0x22 # s" "skipWS (CHR '' '' # s) = skipWS s"
  "skipWS (CHR ''['' # s) = CHR ''['' # s" "skipWS (CHR ''{'' # s) = CHR ''{'' # s" "skipWS [] = []"
  by (simp_all add: skipWS_def jsonSpace_def)

lemma jsonValue_skip: "skipWS s = skipWS t \<Longrightarrow> jsonValue f d s = jsonValue f d t"
  by (cases f) simp_all

lemma pretty_head:
  assumes "noNumbers j"
  shows "\<exists>c s. pretty n j = c # s \<and> \<not> jsonSpace c \<and> c \<notin> {CHR '']'', CHR ''}''}"
  using assms by (cases j) (auto simp: jsonString_def jsonSpace_def)

lemma prettyElems_head: "vs \<noteq> [] \<Longrightarrow> list_all noNumbers vs \<Longrightarrow> \<exists>c s. skipWS (prettyElems n vs @ t) = c # s \<and> c \<noteq> CHR '']''"
  using pretty_head [of "hd vs" n] by (cases vs) (auto simp: skipWS_newline skipWS_head)

lemma prettyMembers_head: "kvs \<noteq> [] \<Longrightarrow> \<exists>s. skipWS (prettyMembers n kvs @ t) = CHR 0x22 # s"
  by (cases kvs) (auto simp: skipWS_newline jsonString_def)

lemma nesting_elem: "v \<in> set vs \<Longrightarrow> nesting v < nesting (JArr vs)"
  by (simp add: less_Suc_eq_le Max_ge_iff)

lemma nesting_member: "(k, v) \<in> set kvs \<Longrightarrow> nesting v < nesting (JObj kvs)"
  by (simp add: less_Suc_eq_le Max_ge_iff) (metis (no_types, lifting) case_prod_conv order_refl)

text \<open>One container or one item, given how its parts are read.\<close>

lemma read_array:
  assumes "vs \<noteq> []" "list_all noNumbers vs" "d < jsonMaxDepth"
    and "jsonElems f (Suc d) (prettyElems (Suc n) vs @ newline n @ CHR '']'' # r) = Some (ws, r)"
  shows "jsonValue (Suc f) d (pretty n (JArr vs) @ r) = Some (JArr ws, r)"
  using prettyElems_head [OF assms(1), of "Suc n" "newline n @ CHR '']'' # r"] assms
  by (auto simp: jsonMaxDepth_def simp del: jsonElems.simps)

lemma read_object:
  assumes "kvs \<noteq> []" "d < jsonMaxDepth"
    and "jsonMembers f (Suc d) (prettyMembers (Suc n) kvs @ newline n @ CHR ''}'' # r) = Some (ws, r)"
  shows "jsonValue (Suc f) d (pretty n (JObj kvs) @ r) = Some (JObj ws, r)"
  using prettyMembers_head [OF assms(1), of "Suc n" "newline n @ CHR ''}'' # r"] assms
  by (auto simp: jsonMaxDepth_def simp del: jsonMembers.simps)

lemma read_elem:
  assumes "\<And>rr. jsonValue f d (pretty n v @ rr) = Some (v', rr)"
    and "if vs = [] then ws = [] \<and> skipWS t = CHR '']'' # r else jsonElems f d (prettyElems n vs @ t) = Some (ws, r)"
  shows "jsonElems (Suc f) d (prettyElems n (v # vs) @ t) = Some (v' # ws, r)"
proof -
  have "jsonValue f d (newline n @ pretty n v @ rr) = Some (v', rr)" for rr
    using assms(1) [of rr] jsonValue_skip [OF skipWS_newline, of f d n "pretty n v @ rr"] by simp
  then show ?thesis using assms(2) by (auto simp del: jsonValue.simps split: if_splits)
qed

lemma read_member:
  assumes "\<And>rr. jsonValue f d (pretty n v @ rr) = Some (v', rr)"
    and "if kvs = [] then ws = [] \<and> skipWS t = CHR ''}'' # r else jsonMembers f d (prettyMembers n kvs @ t) = Some (ws, r)"
  shows "jsonMembers (Suc f) d (prettyMembers n ((k, v) # kvs) @ t) = Some ((validText k, v') # ws, r)"
proof -
  have "jsonValue f d (CHR '' '' # pretty n v @ rr) = Some (v', rr)" for rr
    using assms(1) [of rr] jsonValue_skip [of "CHR '' '' # pretty n v @ rr" "pretty n v @ rr" f d] by simp
  then show ?thesis
    using assms(2)
    by (auto simp: skipWS_newline jsonString_def jsonChars_scan jsonChars_unquote simp del: jsonValue.simps split: if_splits)
qed

lemma pretty_read:
  "noNumbers j \<Longrightarrow> d + nesting j \<le> jsonMaxDepth \<Longrightarrow> length (pretty n j) \<le> f
   \<Longrightarrow> jsonValue f d (pretty n j @ r) = Some (validJson j, r)"
  "vs \<noteq> [] \<Longrightarrow> list_all noNumbers vs \<Longrightarrow> (\<And>v. v \<in> set vs \<Longrightarrow> d + nesting v \<le> jsonMaxDepth)
   \<Longrightarrow> length (prettyElems n vs) \<le> f
   \<Longrightarrow> jsonElems f d (prettyElems n vs @ newline m @ CHR '']'' # r) = Some (map validJson vs, r)"
  "kvs \<noteq> [] \<Longrightarrow> list_all (\<lambda>(k, v). noNumbers v) kvs \<Longrightarrow> (\<And>k v. (k, v) \<in> set kvs \<Longrightarrow> d + nesting v \<le> jsonMaxDepth)
   \<Longrightarrow> length (prettyMembers n kvs) \<le> f
   \<Longrightarrow> jsonMembers f d (prettyMembers n kvs @ newline m @ CHR ''}'' # r)
      = Some (map (\<lambda>(k, v). (validText k, validJson v)) kvs, r)"
proof (induction n j and n vs and n kvs arbitrary: d f r and d f r m and d f r m rule: pretty_prettyElems_prettyMembers.induct)
  case (1 n)
  then show ?case by (cases f) (auto simp: skipWS_def jsonSpace_def HasPrefix_def)
next
  case (2 n b)
  then show ?case by (cases f; cases b) (auto simp: skipWS_def jsonSpace_def HasPrefix_def)
next
  case (4 n s)
  then show ?case by (cases f) (auto simp: jsonString_def jsonChars_scan jsonChars_unquote)
next
  case (5 n vs)
  then obtain f' where f: "f = Suc f'" by (cases f) (auto split: if_splits)
  have dep: "Suc d + nesting v \<le> jsonMaxDepth" if "v \<in> set vs" for v using 5(3) nesting_elem [OF that] by simp
  show ?case
  proof (cases "vs = []")
    case False
    then show ?thesis
      using read_array [OF False, of d f' n r "map validJson vs"] 5 dep f by simp
  qed (use 5(3) f in simp)
next
  case (6 n kvs)
  then obtain f' where f: "f = Suc f'" by (cases f) (auto split: if_splits)
  have dep: "Suc d + nesting v \<le> jsonMaxDepth" if "(k, v) \<in> set kvs" for k v using 6(3) nesting_member [OF that] by simp
  show ?case
  proof (cases "kvs = []")
    case False
    then show ?thesis
      using read_object [OF False, of d f' n r "map (\<lambda>(k, v). (validText k, validJson v)) kvs"] 6 dep f by simp
  qed (use 6(3) f in simp)
next
  case (8 n v vs)
  then obtain f' where f: "f = Suc f'" by (cases f) (auto simp: newline_def)
  have "jsonValue f' d (pretty n v @ rr) = Some (validJson v, rr)" for rr
    using 8(1) [of d f' rr] 8(4-6) f by (simp add: newline_def)
  moreover have "vs \<noteq> [] \<Longrightarrow> jsonElems f' d (prettyElems n vs @ newline m @ CHR '']'' # r) = Some (map validJson vs, r)"
    using 8(2) [of d f' m r] 8(4-6) f by (simp add: newline_def)
  ultimately show ?case
    using f read_elem [of f' d n v "validJson v" vs "map validJson vs" "newline m @ CHR '']'' # r" r]
    by (simp add: skipWS_newline)
next
  case (10 n k v kvs)
  then obtain f' where f: "f = Suc f'" by (cases f) (auto simp: newline_def)
  have "jsonValue f' d (pretty n v @ rr) = Some (validJson v, rr)" for rr
    using 10(1) [of d f' rr] 10(4-6) f by (fastforce simp: newline_def)
  moreover have "kvs \<noteq> [] \<Longrightarrow> jsonMembers f' d (prettyMembers n kvs @ newline m @ CHR ''}'' # r)
      = Some (map (\<lambda>(k, v). (validText k, validJson v)) kvs, r)"
    using 10(2) [of d f' m r] 10(4-6) f by (fastforce simp: newline_def)
  ultimately show ?case
    using f read_member [of f' d n v "validJson v" kvs "map (\<lambda>(k, v). (validText k, validJson v)) kvs" "newline m @ CHR ''}'' # r" r k]
    by (simp add: skipWS_newline)
qed simp_all

lemma jsonParse_pretty:
  assumes "noNumbers j" "nesting j \<le> jsonMaxDepth"
  shows "jsonParse (pretty 0 j @ [CHR 0x0A]) = Inr (validJson j)"
  using pretty_read(1) [OF assms(1), of 0 0 "Suc (length (pretty 0 j @ [CHR 0x0A]))" "[CHR 0x0A]"] assms(2)
  by (simp add: jsonParse_def skipWS_def jsonSpace_def del: jsonValue.simps)

end
