(* ===== verification/Corpus.thy ===== *)
theory Corpus
  imports JsonPrint Disk Strconv
begin

text \<open>
  \<^verbatim>\<open>internal/keycloakmodel\<close>: the hand-written model of Keycloak's schema
  (\<^verbatim>\<open>model.go\<close>) and the corpus generated from its sources (\<^verbatim>\<open>corpus.go\<close>)
  with its JSON file. A slice that may be nil is an option, since a nil and an empty slice
  are encoded differently.
\<close>

section \<open>The schema model\<close>

record Entity =
  enClass :: string
  enTable :: string
  PIIColumns :: "string list"

definition IsPIIColumn :: "Entity \<Rightarrow> string \<Rightarrow> bool" where
  "IsPIIColumn e column = list_ex (\<lambda>c. c = column) (PIIColumns e)"

record QueryParam =
  qpParam :: string
  qpColumn :: string

record NamedQuery =
  nqName :: string
  nqEntity :: string
  nqParams :: "QueryParam list"

record Model =
  moVersion :: string
  moEntities :: "Entity list"
  moQueries :: "NamedQuery list"

definition Model_Entity :: "Model \<Rightarrow> string \<Rightarrow> Entity option" where
  "Model_Entity m cls = find (\<lambda>e. enClass e = cls) (moEntities m)"

definition EntityByTable :: "Model \<Rightarrow> string \<Rightarrow> Entity option" where
  "EntityByTable m table = find (\<lambda>e. enTable e = table) (moEntities m)"

definition Model_Query :: "Model \<Rightarrow> string \<Rightarrow> NamedQuery option" where
  "Model_Query m name = find (\<lambda>q. nqName q = name) (moQueries m)"

definition PIIParams :: "Model \<Rightarrow> NamedQuery \<Rightarrow> QueryParam list" where
  "PIIParams m q =
     (case Model_Entity m (nqEntity q) of
        None \<Rightarrow> []
      | Some e \<Rightarrow> filter (\<lambda>p. IsPIIColumn e (qpColumn p)) (nqParams q))"

definition entity :: "string \<Rightarrow> string \<Rightarrow> string list \<Rightarrow> Entity" where
  "entity cls table cols = \<lparr>enClass = cls, enTable = table, PIIColumns = cols\<rparr>"

definition namedQuery :: "string \<Rightarrow> string \<Rightarrow> (string \<times> string) list \<Rightarrow> NamedQuery" where
  "namedQuery name cls ps =
     \<lparr>nqName = name, nqEntity = cls, nqParams = map (\<lambda>(p, c). \<lparr>qpParam = p, qpColumn = c\<rparr>) ps\<rparr>"

definition Keycloak260 :: Model where
  "Keycloak260 =
     \<lparr>moVersion = ''26.0.0'',
      moEntities =
        [entity ''UserEntity'' ''USER_ENTITY'' [''USERNAME'', ''EMAIL'', ''FIRST_NAME'', ''LAST_NAME''],
         entity ''UserAttributeEntity'' ''USER_ATTRIBUTE'' [''VALUE'', ''LONG_VALUE''],
         entity ''CredentialEntity'' ''CREDENTIAL'' [''SECRET_DATA'', ''CREDENTIAL_DATA''],
         entity ''FederatedIdentityEntity'' ''FEDERATED_IDENTITY'' [''FEDERATED_USERNAME'', ''TOKEN''],
         entity ''FederatedUserAttributeEntity'' ''FED_USER_ATTRIBUTE'' [''VALUE'', ''LONG_VALUE''],
         entity ''FederatedUserCredentialEntity'' ''FED_USER_CREDENTIAL'' [''SECRET_DATA'', ''CREDENTIAL_DATA'']],
      moQueries =
        [namedQuery ''getRealmUserByUsername'' ''UserEntity'' [(''username'', ''USERNAME''), (''realmId'', ''REALM_ID'')],
         namedQuery ''getRealmUserByEmail'' ''UserEntity'' [(''email'', ''EMAIL''), (''realmId'', ''REALM_ID'')],
         namedQuery ''getRealmUsersByAttributeNameAndValue'' ''UserAttributeEntity''
           [(''name'', ''NAME''), (''value'', ''VALUE'')],
         namedQuery ''getRealmUsersByAttributeNameAndLongValue'' ''UserAttributeEntity''
           [(''name'', ''NAME''), (''longValueHash'', ''LONG_VALUE_HASH'')]]\<rparr>"

section \<open>The corpus\<close>

record CorpusColumn =
  ccField :: string
  ccName :: string

record CorpusQuery =
  cqName :: string
  JPQL :: string

record CorpusEntity =
  ceClass :: string
  cePackage :: string
  ceTable :: string
  ceColumns :: "CorpusColumn list option"
  ceQueries :: "CorpusQuery list option"

record Corpus =
  coVersion :: string
  coEntities :: "CorpusEntity list option"

definition elems :: "'a list option \<Rightarrow> 'a list" where
  "elems xs = (case xs of None \<Rightarrow> [] | Some ys \<Rightarrow> ys)"

definition LookupEntity :: "Corpus \<Rightarrow> string \<Rightarrow> CorpusEntity option" where
  "LookupEntity c cls = find (\<lambda>e. ceClass e = cls) (elems (coEntities c))"

definition Entity_HasColumn :: "CorpusEntity \<Rightarrow> string \<Rightarrow> bool" where
  "Entity_HasColumn e name = list_ex (\<lambda>col. ccName col = name) (elems (ceColumns e))"

definition Entity_HasQuery :: "CorpusEntity \<Rightarrow> string \<Rightarrow> bool" where
  "Entity_HasQuery e name = list_ex (\<lambda>q. cqName q = name) (elems (ceQueries e))"

definition Corpus_HasColumn :: "Corpus \<Rightarrow> string \<Rightarrow> bool" where
  "Corpus_HasColumn c name = list_ex (\<lambda>e. Entity_HasColumn e name) (elems (coEntities c))"

definition Corpus_HasQuery :: "Corpus \<Rightarrow> string \<Rightarrow> bool" where
  "Corpus_HasQuery c name = list_ex (\<lambda>e. Entity_HasQuery e name) (elems (coEntities c))"

section \<open>Its file\<close>

definition jsonSlice :: "('a \<Rightarrow> json) \<Rightarrow> 'a list option \<Rightarrow> json" where
  "jsonSlice f xs = (case xs of None \<Rightarrow> JNull | Some ys \<Rightarrow> JArr (map f ys))"

definition columnJson :: "CorpusColumn \<Rightarrow> json" where
  "columnJson c = JObj [(''field'', JStr (ccField c)), (''name'', JStr (ccName c))]"

definition queryJson :: "CorpusQuery \<Rightarrow> json" where
  "queryJson q = JObj [(''name'', JStr (cqName q)), (''jpql'', JStr (JPQL q))]"

definition entityJson :: "CorpusEntity \<Rightarrow> json" where
  "entityJson e =
     JObj [(''class'', JStr (ceClass e)), (''package'', JStr (cePackage e)), (''table'', JStr (ceTable e)),
           (''columns'', jsonSlice columnJson (ceColumns e)), (''queries'', jsonSlice queryJson (ceQueries e))]"

definition corpusJson :: "Corpus \<Rightarrow> json" where
  "corpusJson c = JObj [(''version'', JStr (coVersion c)), (''entities'', jsonSlice entityJson (coEntities c))]"

text \<open>The encoder hands its text, with a final line break, to one \<^verbatim>\<open>Write\<close>.\<close>

definition WriteJSON :: "Corpus \<Rightarrow> (bytes \<Rightarrow> ('w, unit) io) \<Rightarrow> ('w, unit) io" where
  "WriteJSON c w = contextIO ''encode corpus: '' (w (pretty 0 (corpusJson c) @ [CHR 0x0A]))"

text \<open>
  Decoding an array fills the elements a slice has and appends the others; \<open>zero\<close> is
  a fresh element. What a slice keeps beyond its length is not modelled.
\<close>

fun decodeInto :: "(json \<Rightarrow> 'a \<Rightarrow> 'a result) \<Rightarrow> 'a \<Rightarrow> json list \<Rightarrow> 'a list \<Rightarrow> 'a list result" where
  "decodeInto f zero [] old = Inr []"
| "decodeInto f zero (j # js) old =
     bindR (f j (case old of [] \<Rightarrow> zero | x # _ \<Rightarrow> x)) (\<lambda>x.
     bindR (decodeInto f zero js (tl old)) (\<lambda>xs. Inr (x # xs)))"

definition decodeSlice :: "(json \<Rightarrow> 'a \<Rightarrow> 'a result) \<Rightarrow> 'a \<Rightarrow> json \<Rightarrow> 'a list option \<Rightarrow> 'a list option result" where
  "decodeSlice f zero j old =
     (case j of
        JArr js \<Rightarrow> bindR (decodeInto f zero js (elems old)) (\<lambda>xs. Inr (Some xs))
      | JNull \<Rightarrow> Inr None
      | _ \<Rightarrow> Inl jsonType)"

definition columnField :: "string \<Rightarrow> json \<Rightarrow> CorpusColumn \<Rightarrow> CorpusColumn result" where
  "columnField k v c =
     (if keyMatches k ''field'' then bindR (decodeString v (ccField c)) (\<lambda>s. Inr (c\<lparr>ccField := s\<rparr>))
      else if keyMatches k ''name'' then bindR (decodeString v (ccName c)) (\<lambda>s. Inr (c\<lparr>ccName := s\<rparr>))
      else Inr c)"

definition queryField :: "string \<Rightarrow> json \<Rightarrow> CorpusQuery \<Rightarrow> CorpusQuery result" where
  "queryField k v q =
     (if keyMatches k ''name'' then bindR (decodeString v (cqName q)) (\<lambda>s. Inr (q\<lparr>cqName := s\<rparr>))
      else if keyMatches k ''jpql'' then bindR (decodeString v (JPQL q)) (\<lambda>s. Inr (q\<lparr>JPQL := s\<rparr>))
      else Inr q)"

definition zeroColumn :: CorpusColumn where "zeroColumn = \<lparr>ccField = [], ccName = []\<rparr>"
definition zeroQuery :: CorpusQuery where "zeroQuery = \<lparr>cqName = [], JPQL = []\<rparr>"

definition zeroEntity :: CorpusEntity where
  "zeroEntity = \<lparr>ceClass = [], cePackage = [], ceTable = [], ceColumns = None, ceQueries = None\<rparr>"

definition zeroCorpus :: Corpus where "zeroCorpus = \<lparr>coVersion = [], coEntities = None\<rparr>"

definition entityField :: "string \<Rightarrow> json \<Rightarrow> CorpusEntity \<Rightarrow> CorpusEntity result" where
  "entityField k v e =
     (if keyMatches k ''class'' then bindR (decodeString v (ceClass e)) (\<lambda>s. Inr (e\<lparr>ceClass := s\<rparr>))
      else if keyMatches k ''package'' then bindR (decodeString v (cePackage e)) (\<lambda>s. Inr (e\<lparr>cePackage := s\<rparr>))
      else if keyMatches k ''table'' then bindR (decodeString v (ceTable e)) (\<lambda>s. Inr (e\<lparr>ceTable := s\<rparr>))
      else if keyMatches k ''columns''
      then bindR (decodeSlice (decodeObj columnField) zeroColumn v (ceColumns e)) (\<lambda>xs. Inr (e\<lparr>ceColumns := xs\<rparr>))
      else if keyMatches k ''queries''
      then bindR (decodeSlice (decodeObj queryField) zeroQuery v (ceQueries e)) (\<lambda>xs. Inr (e\<lparr>ceQueries := xs\<rparr>))
      else Inr e)"

definition corpusField :: "string \<Rightarrow> json \<Rightarrow> Corpus \<Rightarrow> Corpus result" where
  "corpusField k v c =
     (if keyMatches k ''version'' then bindR (decodeString v (coVersion c)) (\<lambda>s. Inr (c\<lparr>coVersion := s\<rparr>))
      else if keyMatches k ''entities''
      then bindR (decodeSlice (decodeObj entityField) zeroEntity v (coEntities c)) (\<lambda>xs. Inr (c\<lparr>coEntities := xs\<rparr>))
      else Inr c)"

definition unmarshalCorpus :: "bytes \<Rightarrow> Corpus result" where
  "unmarshalCorpus raw = bindR (jsonParse raw) (\<lambda>j. decodeObj corpusField j zeroCorpus)"

definition LoadCorpus :: "unicode \<Rightarrow> string \<Rightarrow> (disk, Corpus) io" where
  "LoadCorpus U path =
     bindIO (contextIO (''read corpus '' @ Quote U path @ '': '') (ReadFile path)) (\<lambda>raw.
     contextIO (''decode corpus '' @ Quote U path @ '': '') (liftIO (unmarshalCorpus raw)))"

end
