(* ===== verification/CorpusGen.thy ===== *)
theory CorpusGen
  imports Corpus GoRegexp "HOL-Library.List_Lexorder" "HOL-Library.Char_ord"
begin

text \<open>
  \<^verbatim>\<open>cmd/gen-keycloak-tests\<close>: the generator that reads Keycloak's JPA entity classes
  with regular expressions and writes the corpus. The files lie on the disk of \<open>Disk\<close>.
\<close>

section \<open>The expressions\<close>

definition dquote :: string where "dquote = [CHR 0x22]"
definition backslash :: string where "backslash = [CHR 0x5C]"

definition ws0 :: rx where "ws0 = Star spaceRx"
definition ws1 :: rx where "ws1 = Plus spaceRx"
definition word1 :: rx where "word1 = Plus wordRx"

definition reClass :: rx where
  "reClass = seqs [BeginLine, ws0, Lit ''public'', ws1, Lit ''class'', ws1, Group 1 word1]"

definition rePackage :: rx where
  "rePackage = seqs [BeginLine, ws0, Lit ''package'', ws1, Group 1 (Plus (Class False (wordRanges @ [(46, 46)]))),
     ws0, Lit '';'']"

definition reTable :: rx where
  "reTable = seqs [Lit ''@Table'', ws0, Lit ''('', ws0, Lit ''name'', ws0, Lit ''='', ws0, Lit dquote,
     Group 1 (Plus (noneOf dquote)), Lit dquote]"

definition reColumn :: rx where
  "reColumn = seqs
     [Lit ''@Column'', ws0, Lit ''('', ws0, Lit ''name'', ws0, Lit ''='', ws0, Lit dquote,
      Group 1 (Plus (noneOf dquote)), Lit dquote, Star (noneOf '')''), Lit '')'',
      Star (seqs [ws0, Lit ''@'', word1, Opt (seqs [Lit ''('', Star (noneOf '')''), Lit '')''])]),
      ws1, Alt (Lit ''private'') (Alt (Lit ''protected'') (Lit ''public'')), ws1,
      Plus (Class False (wordRanges @ [(46, 46), (91, 91), (93, 93), (60, 60), (62, 62)])), ws1,
      Group 2 word1, ws0, Class False [(59, 59), (61, 61)]]"

text \<open>The inside of a Java string literal.\<close>

definition javaChar :: rx where
  "javaChar = Alt (noneOf (dquote @ backslash)) (Seq (Lit backslash) anyRx)"

definition reNamedQuery :: rx where
  "reNamedQuery = seqs
     [Lit ''@NamedQuery'', ws0, Lit ''('', ws0, Lit ''name'', ws0, Lit ''='', ws0, Lit dquote,
      Group 1 (Plus (noneOf dquote)), Lit dquote, ws0, Lit '','', ws0, Lit ''query'', ws0, Lit ''='', ws0,
      Group 2 (Plus (seqs [Lit dquote, Star javaChar, Lit dquote, ws0, Opt (Lit ''+''), ws0])), Lit '')'']"

definition reStringSegment :: rx where
  "reStringSegment = seqs [Lit dquote, Group 1 (Star javaChar), Lit dquote]"

definition reLineComment :: rx where
  "reLineComment = Seq (Lit ''//'') (Star (noneOf [CHR 0x0A]))"

section \<open>Parsing an entity\<close>

definition entitySources :: "string list" where
  "entitySources =
     [''model/jpa/src/main/java/org/keycloak/models/jpa/entities/UserEntity.java'',
      ''model/jpa/src/main/java/org/keycloak/models/jpa/entities/UserAttributeEntity.java'',
      ''model/jpa/src/main/java/org/keycloak/models/jpa/entities/CredentialEntity.java'',
      ''model/jpa/src/main/java/org/keycloak/models/jpa/entities/FederatedIdentityEntity.java'',
      ''model/jpa/src/main/java/org/keycloak/storage/jpa/entity/FederatedUserAttributeEntity.java'',
      ''model/jpa/src/main/java/org/keycloak/storage/jpa/entity/FederatedUserCredentialEntity.java'']"

definition firstSubmatch :: "rx \<Rightarrow> string \<Rightarrow> string" where
  "firstSubmatch re src = (case FindStringSubmatch re src of Some m \<Rightarrow> group m 1 | None \<Rightarrow> [])"

text \<open>
  \<^verbatim>\<open>strings.NewReplacer\<close> with the four escapes: at each position the first pair that
  matches is replaced, and the text after it is read on.
\<close>

fun unescapeJava :: "string \<Rightarrow> string" where
  "unescapeJava (c # e # s) =
     (if c = CHR 0x5C \<and> e \<in> {CHR 0x22, CHR 0x5C} then e # unescapeJava s
      else if c = CHR 0x5C \<and> e = CHR ''n'' then CHR 0x0A # unescapeJava s
      else if c = CHR 0x5C \<and> e = CHR ''t'' then CHR 0x09 # unescapeJava s
      else c # unescapeJava (e # s))"
| "unescapeJava s = s"

definition joinJavaString :: "string \<Rightarrow> string" where
  "joinJavaString expr =
     strJoin '' '' (Fields (concat (map (\<lambda>seg. unescapeJava (group seg 1)) (FindAllStringSubmatch reStringSegment expr))))"

text \<open>A slice that was only appended to: nil when nothing was.\<close>

definition appended :: "'a list \<Rightarrow> 'a list option" where
  "appended xs = (if xs = [] then None else Some xs)"

definition parseColumns :: "string \<Rightarrow> CorpusColumn list option" where
  "parseColumns src =
     appended (map (\<lambda>m. \<lparr>ccField = group m 2, ccName = group m 1\<rparr>) (FindAllStringSubmatch reColumn src))"

definition parseQueries :: "string \<Rightarrow> CorpusQuery list option" where
  "parseQueries src =
     appended (map (\<lambda>m. \<lparr>cqName = group m 1, JPQL = joinJavaString (group m 2)\<rparr>) (FindAllStringSubmatch reNamedQuery src))"

definition parseEntity :: "string \<Rightarrow> string \<Rightarrow> CorpusEntity result" where
  "parseEntity path raw =
     (let src = deleteAll reLineComment raw;
          cls = firstSubmatch reClass src; table = firstSubmatch reTable src in
      if cls = [] \<or> table = [] then Inl (errorsNew (''missing class or @Table in '' @ path))
      else Inr \<lparr>ceClass = cls, cePackage = firstSubmatch rePackage src, ceTable = table,
                ceColumns = parseColumns src, ceQueries = parseQueries src\<rparr>)"

definition parseEntityFile :: "string \<Rightarrow> (disk, CorpusEntity) io" where
  "parseEntityFile path =
     bindIO (contextIO ''read: '' (ReadFile path)) (\<lambda>raw. liftIO (parseEntity path raw))"

section \<open>The corpus\<close>

text \<open>
  \<^verbatim>\<open>sort.Slice\<close>: entities, columns and queries have distinct names in practice, and
  then every sort gives this list; among equal names the model keeps the order, as the
  library does for short slices.
\<close>

definition sortSlice :: "('a \<Rightarrow> string) \<Rightarrow> 'a list option \<Rightarrow> 'a list option" where
  "sortSlice key = map_option (sort_key key)"

definition sortEntity :: "CorpusEntity \<Rightarrow> CorpusEntity" where
  "sortEntity e = e\<lparr>ceColumns := sortSlice ccName (ceColumns e), ceQueries := sortSlice cqName (ceQueries e)\<rparr>"

definition sortCorpus :: "Corpus \<Rightarrow> Corpus" where
  "sortCorpus c = c\<lparr>coEntities := map_option (map sortEntity) (sortSlice ceClass (coEntities c))\<rparr>"

fun parseFiles :: "string \<Rightarrow> string list \<Rightarrow> (disk, CorpusEntity list) io" where
  "parseFiles root [] = returnIO []"
| "parseFiles root (rel # rels) =
     bindIO (contextIO (''parse '' @ rel @ '': '') (parseEntityFile (root @ ''/'' @ rel))) (\<lambda>e.
     bindIO (parseFiles root rels) (\<lambda>es. returnIO (e # es)))"

definition parseSource :: "string \<Rightarrow> string \<Rightarrow> (disk, Corpus) io" where
  "parseSource root version =
     bindIO (parseFiles root entitySources) (\<lambda>es.
     returnIO (sortCorpus \<lparr>coVersion = version, coEntities = appended es\<rparr>))"

definition writeCorpus :: "unicode \<Rightarrow> string \<Rightarrow> Corpus \<Rightarrow> (disk, unit) io" where
  "writeCorpus U path corpus =
     bindIO (contextIO (''create '' @ Quote U path @ '': '') (CreateFile path)) (\<lambda>_.
     bindIO (WriteJSON corpus (WriteTo path)) (\<lambda>_.
     contextIO (''close '' @ Quote U path @ '': '') (CloseFile path)))"

text \<open>\<^verbatim>\<open>filepath.Clean\<close> and \<^verbatim>\<open>filepath.Join\<close> of two elements.\<close>

fun cleanParts :: "bool \<Rightarrow> string list \<Rightarrow> string list \<Rightarrow> string list" where
  "cleanParts rooted [] out = rev out"
| "cleanParts rooted (p # ps) out =
     (if p = [] \<or> p = ''.'' then cleanParts rooted ps out
      else if p = ''..'' then
        (if out \<noteq> [] \<and> hd out \<noteq> ''..'' then cleanParts rooted ps (tl out)
         else cleanParts rooted ps (if rooted then out else p # out))
      else cleanParts rooted ps (p # out))"

definition cleanPath :: "string \<Rightarrow> string" where
  "cleanPath p =
     (let rooted = HasPrefix p ''/'';
          r = (if rooted then ''/'' else []) @ strJoin ''/'' (cleanParts rooted (Split p (CHR ''/'')) []) in
      if r = [] then ''.'' else r)"

definition joinPath :: "string \<Rightarrow> string \<Rightarrow> string" where
  "joinPath a b =
     (if a = [] then (if b = [] then [] else cleanPath b) else cleanPath (a @ ''/'' @ b))"

text \<open>The value is the number of entities the tool reports.\<close>

definition runGenerator ::
  "unicode \<Rightarrow> string \<Rightarrow> string \<Rightarrow> string \<Rightarrow> (disk, nat) io" where
  "runGenerator U src out version =
     (if src = []
      then failIO (errorsNew (''-src is required (path to a Keycloak '' @ version @ '' source checkout)''))
      else
        bindIO (contextIO (''source tree '' @ Quote U src @ '': '') (StatPath src)) (\<lambda>_.
        bindIO (parseSource src version) (\<lambda>corpus.
        let dir = joinPath out version; path = joinPath dir ''corpus.json'' in
        bindIO (contextIO (''create output dir '' @ Quote U dir @ '': '') (MkdirAll dir)) (\<lambda>_.
        bindIO (writeCorpus U path corpus) (\<lambda>_.
        returnIO (length (elems (coEntities corpus))))))))"

end
