(* ===== verification/CorpusProps.thy ===== *)
theory CorpusProps
  imports CorpusGen FieldSet Example
begin

text \<open>
  The corpus: its file reads back, a generated corpus is canonical (it does not depend on
  the order of the declarations in the sources), and how the schema model compares with the
  built-in field set.
\<close>

section \<open>The file reads back\<close>

definition validColumn :: "CorpusColumn \<Rightarrow> CorpusColumn" where
  "validColumn c = \<lparr>ccField = validText (ccField c), ccName = validText (ccName c)\<rparr>"

definition validQuery :: "CorpusQuery \<Rightarrow> CorpusQuery" where
  "validQuery q = \<lparr>cqName = validText (cqName q), JPQL = validText (JPQL q)\<rparr>"

definition validEntity :: "CorpusEntity \<Rightarrow> CorpusEntity" where
  "validEntity e =
     \<lparr>ceClass = validText (ceClass e), cePackage = validText (cePackage e), ceTable = validText (ceTable e),
      ceColumns = map_option (map validColumn) (ceColumns e), ceQueries = map_option (map validQuery) (ceQueries e)\<rparr>"

definition validCorpus :: "Corpus \<Rightarrow> Corpus" where
  "validCorpus c =
     \<lparr>coVersion = validText (coVersion c), coEntities = map_option (map validEntity) (coEntities c)\<rparr>"

lemma validText_ascii: "isASCII s \<Longrightarrow> validText s = s"
proof -
  assume a: "isASCII s"
  then have "map EncodeRune (utf8Runes s) = map (\<lambda>c. [c]) s"
    using EncodeRune_1 by (auto simp: utf8Runes_ascii isASCII_def list_all_iff)
  then show ?thesis by (simp add: validText_def)
qed

lemma keys_valid [simp]:
  "validText ''field'' = ''field''" "validText ''name'' = ''name''" "validText ''jpql'' = ''jpql''"
  "validText ''class'' = ''class''" "validText ''package'' = ''package''" "validText ''table'' = ''table''"
  "validText ''columns'' = ''columns''" "validText ''queries'' = ''queries''" "validText ''version'' = ''version''"
  "validText ''entities'' = ''entities''"
  by (simp_all add: validText_ascii isASCII_def)

lemma validJson_slice: "validJson (jsonSlice f xs) = jsonSlice g (map_option (map h) xs)"
  if "\<And>x. validJson (f x) = g (h x)"
  using that by (auto simp: jsonSlice_def split: option.split)

lemma validJson_corpus: "validJson (corpusJson c) = corpusJson (validCorpus c)"
proof -
  have col: "validJson (columnJson x) = columnJson (validColumn x)" for x by (simp add: columnJson_def validColumn_def)
  have q: "validJson (queryJson x) = queryJson (validQuery x)" for x by (simp add: queryJson_def validQuery_def)
  have e: "validJson (entityJson x) = entityJson (validEntity x)" for x
    by (simp add: entityJson_def validEntity_def validJson_slice [where f = columnJson and g = columnJson and h = validColumn, OF col] validJson_slice [where f = queryJson and g = queryJson and h = validQuery, OF q])
  show ?thesis by (simp add: corpusJson_def validCorpus_def validJson_slice [where f = entityJson and g = entityJson and h = validEntity, OF e])
qed

lemma slice_shape:
  "(\<And>x. noNumbers (f x)) \<Longrightarrow> noNumbers (jsonSlice f xs)"
  "(\<And>x. nesting (f x) \<le> n) \<Longrightarrow> nesting (jsonSlice f xs) \<le> Suc n"
  by (auto simp: jsonSlice_def list_all_iff split: option.split)

lemma corpus_shape: "noNumbers (corpusJson c)" "nesting (corpusJson c) \<le> 5"
proof -
  have col: "noNumbers (columnJson x)" "nesting (columnJson x) \<le> 1" for x by (simp_all add: columnJson_def)
  have q: "noNumbers (queryJson x)" "nesting (queryJson x) \<le> 1" for x by (simp_all add: queryJson_def)
  have e: "noNumbers (entityJson x)" "nesting (entityJson x) \<le> 3" for x
    using slice_shape(2) [of columnJson 1, OF col(2)] slice_shape(2) [of queryJson 1, OF q(2)]
    by (simp_all add: entityJson_def numeral_2_eq_2 numeral_3_eq_3 slice_shape(1) [of columnJson, OF col(1)] slice_shape(1) [of queryJson, OF q(1)])
  show "noNumbers (corpusJson c)" "nesting (corpusJson c) \<le> 5"
    using slice_shape(2) [of entityJson 3, OF e(2)] by (simp_all add: corpusJson_def slice_shape(1) [of entityJson, OF e(1)])
qed

lemma key_matches:
  "keyMatches ''field'' ''field''" "\<not> keyMatches ''name'' ''field''" "keyMatches ''name'' ''name''"
  "\<not> keyMatches ''jpql'' ''name''" "keyMatches ''jpql'' ''jpql''" "keyMatches ''class'' ''class''"
  "\<not> keyMatches ''package'' ''class''" "keyMatches ''package'' ''package''" "\<not> keyMatches ''table'' ''class''"
  "\<not> keyMatches ''table'' ''package''" "keyMatches ''table'' ''table''" "\<not> keyMatches ''columns'' ''class''"
  "\<not> keyMatches ''columns'' ''package''" "\<not> keyMatches ''columns'' ''table''" "keyMatches ''columns'' ''columns''"
  "\<not> keyMatches ''queries'' ''class''" "\<not> keyMatches ''queries'' ''package''" "\<not> keyMatches ''queries'' ''table''"
  "\<not> keyMatches ''queries'' ''columns''" "keyMatches ''queries'' ''queries''" "keyMatches ''version'' ''version''"
  "\<not> keyMatches ''entities'' ''version''" "keyMatches ''entities'' ''entities''"
  by (simp_all add: keyMatches_def utf8Runes_ascii isASCII_def foldRune_def)

lemma decodeInto_map: "(\<And>x. f (g x) zero = Inr x) \<Longrightarrow> decodeInto f zero (map g xs) [] = Inr xs"
  by (induction xs) simp_all

lemma decodeSlice_map: "(\<And>x. f (g x) zero = Inr x) \<Longrightarrow> decodeSlice f zero (jsonSlice g xs) None = Inr xs"
  by (auto simp: decodeSlice_def jsonSlice_def elems_def decodeInto_map split: option.split)

lemma decode_corpus: "decodeObj corpusField (corpusJson c) zeroCorpus = Inr c"
proof -
  have col: "decodeObj columnField (columnJson x) zeroColumn = Inr x" for x
    by (simp add: decodeObj_def columnJson_def columnField_def key_matches decodeString_def zeroColumn_def)
  have q: "decodeObj queryField (queryJson x) zeroQuery = Inr x" for x
    by (simp add: decodeObj_def queryJson_def queryField_def key_matches decodeString_def zeroQuery_def)
  have e: "decodeObj entityField (entityJson x) zeroEntity = Inr x" for x
    by (simp add: decodeObj_def entityJson_def entityField_def key_matches decodeString_def zeroEntity_def
        decodeSlice_map [where g = columnJson and f = "decodeObj columnField" and zero = zeroColumn, OF col] decodeSlice_map [where g = queryJson and f = "decodeObj queryField" and zero = zeroQuery, OF q])
  show ?thesis
    by (simp add: decodeObj_def corpusJson_def corpusField_def key_matches decodeString_def zeroCorpus_def
        decodeSlice_map [where g = entityJson and f = "decodeObj entityField" and zero = zeroEntity, OF e])
qed

lemma unmarshal_written [go_codec]:
  "unmarshalCorpus (pretty 0 (corpusJson c) @ [CHR 0x0A]) = Inr (validCorpus c)"
  using jsonParse_pretty [OF corpus_shape(1), of c] corpus_shape(2) [of c]
  by (simp add: unmarshalCorpus_def validJson_corpus decode_corpus jsonMaxDepth_def)

lemma writeCorpus_ok:
  assumes "diskFaults d = []"
  shows "writeCorpus U path c d =
     (Inr (), d\<lparr>diskFiles := (diskFiles d)(path \<mapsto> pretty 0 (corpusJson c) @ [CHR 0x0A])\<rparr>)"
  using assms
  by (simp add: writeCorpus_def WriteJSON_def bindIO_def contextIO_def CreateFile_def WriteTo_def CloseFile_def
      diskCall_def popFault_def)

lemma LoadCorpus_written:
  assumes "diskFaults d = []" "diskFiles d path = Some (pretty 0 (corpusJson c) @ [CHR 0x0A])"
  shows "LoadCorpus U path d = (Inr (validCorpus c), d)"
  using assms
  by (simp add: LoadCorpus_def bindIO_def contextIO_def ReadFile_def openRead_def popFault_def unmarshal_written)

section \<open>Canonical order\<close>

text \<open>Two slices with the same elements, up to order and up to \<open>R\<close> between elements.\<close>

definition sameSlice :: "('a \<Rightarrow> string) \<Rightarrow> 'a list option \<Rightarrow> 'a list option \<Rightarrow> bool" where
  "sameSlice key xs ys \<longleftrightarrow>
     (case (xs, ys) of
        (None, None) \<Rightarrow> True
      | (Some as, Some bs) \<Rightarrow> mset as = mset bs \<and> distinct (map key as)
      | _ \<Rightarrow> False)"

lemma sortSlice_canonical: "sameSlice key xs ys \<Longrightarrow> sortSlice key xs = sortSlice key ys"
proof (cases xs; cases ys)
  fix as bs
  assume s: "sameSlice key xs ys" "xs = Some as" "ys = Some bs"
  then have m: "mset as = mset bs" "distinct (map key as)" by (simp_all add: sameSlice_def)
  have "sort_key key as = sort_key key bs"
    by (rule sort_key_inj_key_eq) (use m in \<open>simp_all add: distinct_map\<close>)
  then show ?thesis using s by (simp add: sortSlice_def)
qed (auto simp: sameSlice_def)

definition sameEntity :: "CorpusEntity \<Rightarrow> CorpusEntity \<Rightarrow> bool" where
  "sameEntity e e' \<longleftrightarrow>
     ceClass e = ceClass e' \<and> cePackage e = cePackage e' \<and> ceTable e = ceTable e'
     \<and> sameSlice ccName (ceColumns e) (ceColumns e') \<and> sameSlice cqName (ceQueries e) (ceQueries e')"

lemma sortEntity_canonical: "sameEntity e e' \<Longrightarrow> sortEntity e = sortEntity e'"
  using sortSlice_canonical unfolding sameEntity_def sortEntity_def
  by (cases e; cases e') fastforce

lemma map_sort_key: "(\<And>x. k (f x) = k x) \<Longrightarrow> map f (sort_key k xs) = sort_key k (map f xs)"
proof (induction xs)
  case (Cons x xs)
  have "map f (insort_key k x ys) = insort_key k (f x) (map f ys)" for ys
    by (induction ys) (simp_all add: Cons.prems)
  then show ?case using Cons by simp
qed simp

lemma sortEntity_class [simp]: "ceClass (sortEntity e) = ceClass e"
  by (simp add: sortEntity_def)

lemma sortCorpus_canonical:
  assumes "list_all2 sameEntity es fs" "mset fs = mset gs" "distinct (map ceClass es)"
  shows "sortCorpus \<lparr>coVersion = v, coEntities = Some es\<rparr> = sortCorpus \<lparr>coVersion = v, coEntities = Some gs\<rparr>"
proof -
  have se: "map sortEntity es = map sortEntity fs" and cl: "map ceClass es = map ceClass fs"
    using assms(1) by (induction rule: list_all2_induct) (auto simp: sortEntity_canonical sameEntity_def)
  have "mset (map sortEntity es) = mset (map sortEntity gs)" using assms(2) by (simp add: se)
  moreover have "inj_on ceClass (set (map sortEntity es))"
    using assms(3) by (auto simp: distinct_map inj_on_def)
  ultimately have "sort_key ceClass (map sortEntity es) = sort_key ceClass (map sortEntity gs)"
    by (intro sort_key_inj_key_eq) simp_all
  then show ?thesis by (simp add: sortCorpus_def sortSlice_def map_sort_key)
qed

section \<open>The generator\<close>

definition parsedAt :: "disk \<Rightarrow> string \<Rightarrow> CorpusEntity option" where
  "parsedAt d path =
     (case diskFiles d path of
        None \<Rightarrow> None
      | Some raw \<Rightarrow> (case parseEntity path raw of Inr e \<Rightarrow> Some e | Inl _ \<Rightarrow> None))"

definition parsedFrom :: "disk \<Rightarrow> string \<Rightarrow> CorpusEntity list option" where
  "parsedFrom d root = those (map (\<lambda>rel. parsedAt d (root @ ''/'' @ rel)) entitySources)"

lemma parseEntityFile_ok:
  assumes "diskFaults d = []"
  shows "case parsedAt d path of
       Some e \<Rightarrow> parseEntityFile path d = (Inr e, d)
     | None \<Rightarrow> \<exists>err. parseEntityFile path d = (Inl err, d)"
  using assms
  by (auto simp: parsedAt_def parseEntityFile_def ReadFile_def bindIO_def contextIO_def openRead_def popFault_def
      split: option.split sum.split)

lemma parseFiles_ok:
  assumes "diskFaults d = []"
  shows "case those (map (\<lambda>rel. parsedAt d (root @ ''/'' @ rel)) rels) of
       Some es \<Rightarrow> parseFiles root rels d = (Inr es, d)
     | None \<Rightarrow> \<exists>err. parseFiles root rels d = (Inl err, d)"
proof (induction rels)
  case (Cons rel rels)
  show ?case
    using Cons parseEntityFile_ok [OF assms, of "root @ ''/'' @ rel"]
    by (auto simp: bindIO_def contextIO_def split: option.splits)
qed simp

lemma those_length: "those xs = Some ys \<Longrightarrow> length ys = length xs"
  by (induction xs arbitrary: ys) (auto split: option.splits)

lemma generator_exact:
  assumes "diskFaults d = []" "src \<noteq> []" "src \<in> set (diskDirs d)"
    and p: "path = joinPath (joinPath out version) ''corpus.json''"
  shows "case parsedFrom d src of
       None \<Rightarrow> \<exists>err. runGenerator U src out version d = (Inl err, d)
     | Some es \<Rightarrow>
         \<exists>d'. runGenerator U src out version d = (Inr (length es), d')
           \<and> LoadCorpus U path d' = (Inr (validCorpus (sortCorpus \<lparr>coVersion = version, coEntities = Some es\<rparr>)), d')"
proof -
  let ?dir = "joinPath out version"
  have stat: "StatPath src d = (Inr (), d)" using assms(1,3) by (simp add: StatPath_def popFault_def)
  note files = parseFiles_ok [OF assms(1), of src entitySources, folded parsedFrom_def]
  show ?thesis
  proof (cases "parsedFrom d src")
    case None
    then show ?thesis
      using files assms(2) stat by (auto simp: runGenerator_def parseSource_def bindIO_def contextIO_def)
  next
    case (Some es)
    let ?c = "sortCorpus \<lparr>coVersion = version, coEntities = Some es\<rparr>"
    let ?d1 = "d\<lparr>diskDirs := List.insert ?dir (diskDirs d)\<rparr>"
    let ?d2 = "?d1\<lparr>diskFiles := (diskFiles ?d1)(path \<mapsto> pretty 0 (corpusJson ?c) @ [CHR 0x0A])\<rparr>"
    have "length es = length entitySources" using Some those_length unfolding parsedFrom_def by fastforce
    then have ne: "es \<noteq> []" by (auto simp: entitySources_def)
    have "parseSource src version d = (Inr ?c, d)"
      using files Some ne by (simp add: parseSource_def bindIO_def appended_def)
    moreover have "MkdirAll ?dir d = (Inr (), ?d1)" using assms(1) by (simp add: MkdirAll_def diskCall_def popFault_def)
    moreover have "writeCorpus U path ?c ?d1 = (Inr (), ?d2)" using assms(1) by (intro writeCorpus_ok) simp
    moreover have "length (elems (coEntities ?c)) = length es" by (simp add: sortCorpus_def sortSlice_def elems_def)
    ultimately have "runGenerator U src out version d = (Inr (length es), ?d2)"
      using assms(2) stat
      by (simp add: runGenerator_def bindIO_def contextIO_def Let_def p)
    moreover have "LoadCorpus U path ?d2 = (Inr (validCorpus ?c), ?d2)"
      by (rule LoadCorpus_written) (use assms(1) in simp_all)
    ultimately show ?thesis using Some by auto
  qed
qed

definition exampleJava :: string where
  "exampleJava =
     ''@NamedQuery(name='' @ dquote @ ''q'' @ dquote @ '',query='' @ dquote @ ''a '' @ dquote @ ''+'' @ dquote @ ''b'' @ dquote @ '')''
     @ ''@Table(name='' @ dquote @ ''T'' @ dquote @ [CHR 0x0A] @ ''public class A'' @ [CHR 0x0A]
     @ ''@Column(name='' @ dquote @ ''E'' @ dquote @ '') //x'' @ [CHR 0x0A] @ ''private S e;''"

definition exampleSource :: string where
  "exampleSource =
     ''@NamedQuery(name='' @ dquote @ ''q'' @ dquote @ '',query='' @ dquote @ ''a '' @ dquote @ ''+'' @ dquote @ ''b'' @ dquote @ '')''
     @ ''@Table(name='' @ dquote @ ''T'' @ dquote @ [CHR 0x0A] @ ''public class A'' @ [CHR 0x0A]
     @ ''@Column(name='' @ dquote @ ''E'' @ dquote @ '') '' @ [CHR 0x0A] @ ''private S e;''"

definition exampleEntity :: CorpusEntity where
  "exampleEntity =
     \<lparr>ceClass = ''A'', cePackage = [], ceTable = ''T'', ceColumns = Some [\<lparr>ccField = ''e'', ccName = ''E''\<rparr>],
      ceQueries = Some [\<lparr>cqName = ''q'', JPQL = ''a b''\<rparr>]\<rparr>"

lemma nextRune_end: "rest c = [] \<Longrightarrow> nextRune c = None"
  by (simp add: nextRune_def)

lemmas rx_eval = findFrom.simps nextRune_ascii nextRune_end runeIn_def seqs.simps atStart_def group_def
  Plus_def Opt_def noneOf_def spaceRx_def wordRx_def wordRanges_def ws0_def ws1_def word1_def dquote_def backslash_def

lemma exampleJava_stripped: "deleteAll reLineComment exampleJava = exampleSource"
  by (simp add: exampleJava_def exampleSource_def deleteAll_def deleteFrom.simps reLineComment_def rx_eval)

lemma exampleSource_parsed:
  "firstSubmatch reClass exampleSource = ''A''" "firstSubmatch reTable exampleSource = ''T''"
  "firstSubmatch rePackage exampleSource = []" "parseColumns exampleSource = ceColumns exampleEntity"
  by (simp_all add: exampleSource_def exampleEntity_def firstSubmatch_def FindStringSubmatch_def reClass_def reTable_def
      rePackage_def parseColumns_def FindAllStringSubmatch_def findAll.simps appended_def reColumn_def rx_eval)

lemma exampleSource_queries: "parseQueries exampleSource = ceQueries exampleEntity"
  by (simp add: exampleSource_def exampleEntity_def parseQueries_def FindAllStringSubmatch_def findAll.simps appended_def
      reNamedQuery_def reStringSegment_def javaChar_def anyRx_def joinJavaString_def Fields_def fieldsFrom.simps
      DecodeRune_def isSpace_def rx_eval) blast

lemma exampleJava_parsed: "parseEntity path exampleJava = Inr exampleEntity"
  by (simp add: parseEntity_def exampleJava_stripped exampleSource_parsed exampleSource_queries) (simp add: exampleEntity_def)

definition exampleDisk :: disk where
  "exampleDisk = \<lparr>diskFiles = (\<lambda>path. if HasPrefix path ''kc/'' then Some exampleJava else None),
     diskDirs = [''kc''], diskFaults = []\<rparr>"

lemma exampleDisk_parsed: "parsedFrom exampleDisk ''kc'' = Some (replicate 6 exampleEntity)"
  by (simp add: parsedFrom_def parsedAt_def exampleDisk_def entitySources_def exampleJava_parsed HasPrefix_def numeral_eq_Suc)

text \<open>
  C40. The generator is all or nothing, and what it writes can be loaded: when one of the
  entity files is missing or declares no class or table, the run fails and the disk is as it
  was; otherwise the corpus file holds the parsed entities in canonical order, and loading it
  returns them (strings that are not UTF-8 are repaired).
\<close>

theorem generated_corpus_loads:
  assumes "diskFaults d = []" "src \<noteq> []" "src \<in> set (diskDirs d)"
  shows "case parsedFrom d src of
       None \<Rightarrow> \<exists>err. runGenerator U src out version d = (Inl err, d)
     | Some es \<Rightarrow>
         \<exists>d'. runGenerator U src out version d = (Inr (length es), d')
           \<and> LoadCorpus U (joinPath (joinPath out version) ''corpus.json'') d'
              = (Inr (validCorpus (sortCorpus \<lparr>coVersion = version, coEntities = Some es\<rparr>)), d')"
  using generator_exact [OF assms refl] .

theorem generated_corpus_loads_witness:
  "\<exists>d'. runGenerator plainUnicode ''kc'' ''out'' ''26.0.0'' exampleDisk = (Inr 6, d')
     \<and> LoadCorpus plainUnicode (joinPath (joinPath ''out'' ''26.0.0'') ''corpus.json'') d'
        = (Inr (validCorpus (sortCorpus \<lparr>coVersion = ''26.0.0'', coEntities = Some (replicate 6 exampleEntity)\<rparr>)), d')"
  using generated_corpus_loads [of exampleDisk "''kc''" plainUnicode "''out''" "''26.0.0''"] exampleDisk_parsed
  by (simp add: exampleDisk_def)

text \<open>
  The corpus depends only on what is declared, not on the order of the declarations: sources
  with the same entities, columns and queries in another order give the same file.
\<close>

theorem corpus_is_canonical:
  assumes "list_all2 sameEntity es fs" "mset fs = mset gs" "distinct (map ceClass es)"
  shows "pretty 0 (corpusJson (sortCorpus \<lparr>coVersion = v, coEntities = Some es\<rparr>))
       = pretty 0 (corpusJson (sortCorpus \<lparr>coVersion = v, coEntities = Some gs\<rparr>))"
  using sortCorpus_canonical [OF assms, of v] by simp

section \<open>The schema model and the field set\<close>

text \<open>The PII columns of the schema model for which the field set has neither a rule nor a policy.\<close>

definition unprotected :: "Model \<Rightarrow> FieldSet \<Rightarrow> (string \<times> string) list" where
  "unprotected m fs =
     concat (map (\<lambda>e. map (Pair (enTable e))
       (filter (\<lambda>c. ColumnRule fs (enTable e) c = None
          \<and> (case AttributePolicyFor fs (enTable e) of None \<Rightarrow> True | Some p \<Rightarrow> c \<notin> set (apValueColumns p)))
         (PIIColumns e))) (moEntities m))"

text \<open>The built-in set covers the user tables and leaves the federated ones in clear.\<close>

lemma federated_columns_unprotected:
  "unprotected Keycloak260 DefaultFields =
     [(''FEDERATED_IDENTITY'', ''FEDERATED_USERNAME''), (''FEDERATED_IDENTITY'', ''TOKEN''),
      (''FED_USER_ATTRIBUTE'', ''VALUE''), (''FED_USER_ATTRIBUTE'', ''LONG_VALUE''),
      (''FED_USER_CREDENTIAL'', ''SECRET_DATA''), (''FED_USER_CREDENTIAL'', ''CREDENTIAL_DATA'')]"
  by code_simp

text \<open>
  Every parameter the model lists as PII for an intercepted query filters a column the
  built-in set protects, deterministically unless it is an attribute value.
\<close>

lemma query_params_protected:
  "list_all (\<lambda>q. list_all (\<lambda>p.
      case Model_Entity Keycloak260 (nqEntity q) of
        None \<Rightarrow> False
      | Some e \<Rightarrow>
        (case ColumnRule DefaultFields (enTable e) (qpColumn p) of
           Some r \<Rightarrow> ruleScheme r = SchemeDeterministic
         | None \<Rightarrow> AttributePolicyFor DefaultFields (enTable e) \<noteq> None))
     (PIIParams Keycloak260 q)) (moQueries Keycloak260)"
  by code_simp

end
