(* ===== verification/Commands.thy ===== *)
theory Commands
  imports Server Backfill Capture CorpusGen
begin

text \<open>
  The four programs from their command lines: Go's \<^verbatim>\<open>flag\<close> package, the dispatch of
  \<^verbatim>\<open>cmd/backfill/main.go\<close>, the start-up of \<^verbatim>\<open>cmd/proxy/main.go\<close> and the
  \<^verbatim>\<open>main\<close> functions of the two developer tools.
\<close>

section \<open>Flags\<close>

datatype flagKind = StringFlag | BoolFlag | UintFlag

type_synonym flagDefs = "(string \<times> flagKind \<times> string) list"

datatype flagOutcome =
    Flags "(string \<times> string) list" "string list"
  | Help
  | BadFlags goerror

text \<open>
  \<^verbatim>\<open>strconv.ParseUint(s, 0, 64)\<close>: the prefix chooses the base, and underscores may
  stand between digits and after the prefix.
\<close>

definition digitIn :: "nat \<Rightarrow> char \<Rightarrow> bool" where
  "digitIn base c \<longleftrightarrow> isHex c \<and> hexDigitVal c < base"

fun underscoresOK :: "bool \<Rightarrow> string \<Rightarrow> bool" where
  "underscoresOK afterDigit [] = True"
| "underscoresOK afterDigit (c # s) =
     (if c = CHR ''_'' then afterDigit \<and> s \<noteq> [] \<and> hd s \<noteq> CHR ''_'' \<and> underscoresOK False s
      else underscoresOK True s)"

definition basePrefix :: "string \<Rightarrow> nat \<times> string \<times> bool" where
  "basePrefix s =
     (if length s \<ge> 3 \<and> hd s = CHR ''0'' \<and> s ! 1 \<in> set ''bB'' then (2, drop 2 s, True)
      else if length s \<ge> 3 \<and> hd s = CHR ''0'' \<and> s ! 1 \<in> set ''oO'' then (8, drop 2 s, True)
      else if length s \<ge> 3 \<and> hd s = CHR ''0'' \<and> s ! 1 \<in> set ''xX'' then (16, drop 2 s, True)
      else if length s \<ge> 2 \<and> hd s = CHR ''0'' then (8, drop 1 s, True)
      else (10, s, False))"

definition ParseUint0 :: "string \<Rightarrow> nat option" where
  "ParseUint0 s =
     (let (base, digits, prefixed) = basePrefix s;
          ds = filter (\<lambda>c. c \<noteq> CHR ''_'') digits;
          n = foldl (\<lambda>n c. base * n + hexDigitVal c) 0 ds in
      if ds \<noteq> [] \<and> list_all (digitIn base) ds \<and> underscoresOK prefixed digits \<and> n < 2 ^ 64
      then Some n else None)"

definition boolTexts :: "string list" where
  "boolTexts = [''1'', ''t'', ''T'', ''TRUE'', ''true'', ''True'', ''0'', ''f'', ''F'', ''FALSE'', ''false'', ''False'']"

definition flagTrue :: "string \<Rightarrow> bool" where
  "flagTrue v \<longleftrightarrow> v \<in> set (take 6 boolTexts)"

fun validFlag :: "flagKind \<Rightarrow> string \<Rightarrow> bool" where
  "validFlag StringFlag v = True"
| "validFlag BoolFlag v = (v \<in> set boolTexts)"
| "validFlag UintFlag v = (ParseUint0 v \<noteq> None)"

definition splitFlag :: "string \<Rightarrow> string \<times> string option" where
  "splitFlag s =
     (case IndexByte (tl s) (CHR ''='') of
        None \<Rightarrow> (s, None)
      | Some i \<Rightarrow> (take (Suc i) s, Some (drop (i + 2) s)))"

text \<open>\<open>vs\<close> are the flags set so far, the latest first; what is left are the other arguments.\<close>

fun parseFlags :: "flagDefs \<Rightarrow> (string \<times> string) list \<Rightarrow> string list \<Rightarrow> flagOutcome" where
  "parseFlags defs vs [] = Flags vs []"
| "parseFlags defs vs (s # args) =
     (if length s < 2 \<or> hd s \<noteq> CHR ''-'' then Flags vs (s # args)
      else if s = ''--'' then Flags vs args
      else
        let arg = (if s ! 1 = CHR ''-'' then drop 2 s else drop 1 s) in
        if arg = [] \<or> hd arg = CHR ''-'' \<or> hd arg = CHR ''='' then BadFlags (errorsNew (''bad flag syntax: '' @ s))
        else
          let (name, value) = splitFlag arg in
          case map_of defs name of
            None \<Rightarrow>
              (if name = ''help'' \<or> name = ''h'' then Help
               else BadFlags (errorsNew (''flag provided but not defined: -'' @ name)))
          | Some (kind, _) \<Rightarrow>
            (let bad = BadFlags (errorsNew (''invalid value for flag -'' @ name)) in
             case value of
               Some v \<Rightarrow> if validFlag kind v then parseFlags defs ((name, v) # vs) args else bad
             | None \<Rightarrow>
               if kind = BoolFlag then parseFlags defs ((name, ''true'') # vs) args
               else
                 (case args of
                    [] \<Rightarrow> BadFlags (errorsNew (''flag needs an argument: -'' @ name))
                  | v # others \<Rightarrow> if validFlag kind v then parseFlags defs ((name, v) # vs) others else bad)))"

definition flagValue :: "flagDefs \<Rightarrow> (string \<times> string) list \<Rightarrow> string \<Rightarrow> string" where
  "flagValue defs vs name =
     (case map_of vs name of
        Some v \<Rightarrow> v
      | None \<Rightarrow> (case map_of defs name of Some (_, d) \<Rightarrow> d | None \<Rightarrow> []))"

text \<open>How a program ends; \<^verbatim>\<open>flag.Parse\<close> ends it on a bad flag and on \<^verbatim>\<open>-help\<close>.\<close>

datatype exit = Done | HelpShown | UsageShown | FlagError goerror | Fatal goerror

fun exitCode :: "exit \<Rightarrow> nat" where
  "exitCode Done = 0"
| "exitCode HelpShown = 0"
| "exitCode UsageShown = 2"
| "exitCode (FlagError e) = 2"
| "exitCode (Fatal e) = 1"

definition withFlags :: "flagDefs \<Rightarrow> string list \<Rightarrow> ((string \<Rightarrow> string) \<Rightarrow> ('w, 'a) io) \<Rightarrow> 'w \<Rightarrow> exit \<times> 'w" where
  "withFlags defs args body w =
     (case parseFlags defs [] args of
        Help \<Rightarrow> (HelpShown, w)
      | BadFlags e \<Rightarrow> (FlagError e, w)
      | Flags vs _ \<Rightarrow> (case body (flagValue defs vs) w of (Inl e, w') \<Rightarrow> (Fatal e, w') | (Inr _, w') \<Rightarrow> (Done, w')))"

section \<open>The backfill tool\<close>

record ('w, 'h) backfillEnv =
  beUnicode :: unicode
  beVault :: "'w vaultEnv"
  beTink :: "('w \<times> tokenCache, 'h) tink"
  beRandom :: "nat \<Rightarrow> ('w \<times> tokenCache, bytes) io"
  beNonces :: "nat \<Rightarrow> bytes"
  beReadFile :: "string \<Rightarrow> bytes result"
  beWriteFile :: "string \<Rightarrow> bytes \<Rightarrow> ('w \<times> tokenCache, unit) io"
  beConnect :: "string \<Rightarrow> goerror option"

definition kmsFlags :: flagDefs where
  "kmsFlags = map (\<lambda>n. (n, StringFlag, [])) [''kek'', ''vault-addr'', ''vault-token'', ''vault-key'', ''vault-mount'']"

definition generateFlags :: flagDefs where
  "generateFlags = kmsFlags @ [(''out'', StringFlag, ''dekset.json''), (''key-version'', UintFlag, ''1'')]"

definition encryptFlags :: flagDefs where
  "encryptFlags = kmsFlags @ [(''dekset'', StringFlag, ''dekset.json''), (''dsn'', StringFlag, []), (''fields'', StringFlag, ''default'')]"

definition migrateFlags :: flagDefs where
  "migrateFlags = [(''dsn'', StringFlag, []), (''fields'', StringFlag, ''email-only-blind-index'')]"

definition hashFlags :: flagDefs where
  "hashFlags = kmsFlags @ [(''dekset'', StringFlag, ''dekset.json''), (''dsn'', StringFlag, []),
     (''fields'', StringFlag, ''email-only-blind-index'')]"

definition flagKMS :: "('w, 'h) backfillEnv \<Rightarrow> (string \<Rightarrow> string) \<Rightarrow> ('w \<times> tokenCache) KMS result" where
  "flagKMS B f = selectKMS (beVault B) (beRandom B) (f ''kek'') (f ''vault-addr'') (f ''vault-token'') (f ''vault-key'') (f ''vault-mount'')"

definition backfillMain ::
  "('w, 'h) backfillEnv \<Rightarrow> string list \<Rightarrow> ('w \<times> tokenCache) \<times> database \<Rightarrow> exit \<times> ('w \<times> tokenCache) \<times> database" where
  "backfillMain B osArgs st =
     (case osArgs of
        prog # cmd # args \<Rightarrow>
          if cmd = ''generate-dekset'' then
            withFlags generateFlags args (\<lambda>f. onFst (runGenerate (beTink B) (beRandom B) (beWriteFile B (f ''out''))
              (flagKMS B f) (the (ParseUint0 (f ''key-version''))))) st
          else if cmd = ''encrypt-rows'' then
            withFlags encryptFlags args (\<lambda>f. runEncrypt (beUnicode B) (beNonces B) (beTink B) (f ''dsn'') (flagKMS B f)
              (beReadFile B (f ''dekset'')) (f ''fields'') (beConnect B (f ''dsn''))) st
          else if cmd = ''migrate-blind-index'' then
            withFlags migrateFlags args (\<lambda>f. onSnd (runMigrate (beUnicode B) (f ''dsn'') (f ''fields'') (beConnect B (f ''dsn'')))) st
          else if cmd = ''hash-rows'' then
            withFlags hashFlags args (\<lambda>f. runHashRows (beUnicode B) (beTink B) (f ''dsn'') (flagKMS B f)
              (beReadFile B (f ''dekset'')) (f ''fields'') (beConnect B (f ''dsn''))) st
          else (UsageShown, st)
      | _ \<Rightarrow> (UsageShown, st))"

section \<open>The developer tools\<close>

definition captureFlags :: flagDefs where
  "captureFlags = [(''in'', StringFlag, ''-''), (''out'', StringFlag, []), (''merge'', BoolFlag, ''false'')]"

definition captureMain :: "bytes \<times> goerror option \<Rightarrow> string list \<Rightarrow> disk \<Rightarrow> exit \<times> disk" where
  "captureMain stdin osArgs =
     withFlags captureFlags (tl osArgs) (\<lambda>f. runCapture stdin (f ''in'') (f ''out'') (flagTrue (f ''merge'')))"

definition defaultVersion :: string where "defaultVersion = ''26.0.0''"

definition generatorFlags :: flagDefs where
  "generatorFlags =
     [(''src'', StringFlag, []), (''out'', StringFlag, ''testdata/keycloak''), (''version'', StringFlag, defaultVersion)]"

definition generatorMain :: "unicode \<Rightarrow> string list \<Rightarrow> disk \<Rightarrow> exit \<times> disk" where
  "generatorMain U osArgs =
     withFlags generatorFlags (tl osArgs) (\<lambda>f. runGenerator U (f ''src'') (f ''out'') (f ''version''))"

section \<open>Starting the proxy\<close>

text \<open>What the process meets on its way up.\<close>

record ('w, 'h) proxyEnv =
  peUnicode :: unicode
  peScaling :: scaling
  peEnviron :: "string \<Rightarrow> string"
  peVault :: "'w vaultEnv"
  peTink :: "('w \<times> tokenCache, 'h) tink"
  peRandom :: "nat \<Rightarrow> ('w \<times> tokenCache, bytes) io"
  peKdf :: kdf
  peHasCert :: "bytes \<Rightarrow> bool"
  peReadFile :: "string \<Rightarrow> bytes result"
  peListen :: "string \<Rightarrow> unit result"
  peKeyPair :: "string \<Rightarrow> string \<Rightarrow> bytes result"

text \<open>The running proxy; an endpoint is started when its address is set.\<close>

record startedProxy =
  spServer :: server
  spProcess :: process
  spMetrics :: "string option"
  spHealth :: "string option"

definition endpoint :: "string \<Rightarrow> string option" where
  "endpoint addr = (if addr = [] then None else Some addr)"

definition proxyRun :: "('w, 'h) proxyEnv \<Rightarrow> ('w \<times> tokenCache, startedProxy) io" where
  "proxyRun P =
     bindIO (liftIO (LoadProxyConfig (peUnicode P) (peScaling P) (peEnviron P))) (\<lambda>cfg.
     bindIO (buildCipher (peVault P) (peTink P) (peRandom P) (peReadFile P) cfg) (\<lambda>c w.
     let (salt, w1) = peRandom P scramSaltLen w in
     bindIO (liftIO (newServer (peKdf P) (peHasCert P) (peReadFile P) salt cfg (Some c))) (\<lambda>s.
     bindIO (liftIO (listen (peListen P (ListenAddr cfg)) (peKeyPair P) s)) (\<lambda>s'.
     returnIO \<lparr>spServer = s', spProcess = startProcess, spMetrics = endpoint (MetricsAddr cfg),
               spHealth = endpoint (HealthAddr cfg)\<rparr>)) w1))"

definition versionFlags :: flagDefs where
  "versionFlags = [(''version'', BoolFlag, ''false'')]"

text \<open>\<^verbatim>\<open>main\<close>: the version, or the started proxy.\<close>

definition proxyMain ::
  "('w, 'h) proxyEnv \<Rightarrow> string list \<Rightarrow> 'w \<times> tokenCache \<Rightarrow> (exit + startedProxy) \<times> ('w \<times> tokenCache)" where
  "proxyMain P osArgs w =
     (case parseFlags versionFlags [] (tl osArgs) of
        Help \<Rightarrow> (Inl HelpShown, w)
      | BadFlags e \<Rightarrow> (Inl (FlagError e), w)
      | Flags vs _ \<Rightarrow>
        if flagTrue (flagValue versionFlags vs ''version'') then (Inl Done, w)
        else (case proxyRun P w of (Inl e, w') \<Rightarrow> (Inl (Fatal e), w') | (Inr p, w') \<Rightarrow> (Inr p, w')))"

end
