(* ===== verification/CommandsProps.thy ===== *)
theory CommandsProps
  imports Commands ServerProps BackfillProps VaultProps
begin

text \<open>
  The command lines: flags given by name are what the program sees, an unknown subcommand
  changes nothing, and what a proxy that has come up guarantees to its connections.
\<close>

section \<open>Flags\<close>

definition plainFlag :: "flagDefs \<Rightarrow> string \<Rightarrow> bool" where
  "plainFlag defs name \<longleftrightarrow>
     name \<noteq> [] \<and> hd name \<noteq> CHR ''-'' \<and> CHR ''='' \<notin> set name \<and> (\<exists>d. map_of defs name = Some (StringFlag, d))"

definition flagArgs :: "(string \<times> string) list \<Rightarrow> string list" where
  "flagArgs nvs = concat (map (\<lambda>(n, v). [CHR ''-'' # n, v]) nvs)"

lemma parse_one:
  assumes "plainFlag defs n"
  shows "parseFlags defs vs ((CHR ''-'' # n) # v # args) = parseFlags defs ((n, v) # vs) args"
proof -
  obtain c s d where n: "n = c # s" "map_of defs (c # s) = Some (StringFlag, d)" "c \<noteq> CHR ''-''" "c \<noteq> CHR ''=''" "CHR ''='' \<notin> set s"
    using assms by (cases n) (auto simp: plainFlag_def)
  have i: "IndexByte s (CHR ''='') = None" using n(5) by simp
  have "splitFlag (c # s) = (c # s, None)" by (simp only: splitFlag_def list.sel i option.case)
  then show ?thesis using n by (simp add: Let_def)
qed

text \<open>Flags written one after the other are read back, the last of a name counting.\<close>

lemma parseFlags_args:
  "list_all (plainFlag defs) (map fst nvs) \<Longrightarrow>
   parseFlags defs vs (flagArgs nvs @ args) = parseFlags defs (rev nvs @ vs) args"
  by (induction nvs arbitrary: vs) (auto simp: flagArgs_def parse_one simp del: parseFlags.simps)

lemma flagValue_given:
  assumes "distinct (map fst nvs)" "(n, v) \<in> set nvs"
  shows "flagValue defs (rev nvs) n = v"
  using assms map_of_is_SomeI [of "rev nvs" n v] by (simp add: flagValue_def rev_map [symmetric])

lemma flagValue_default:
  "n \<notin> fst ` set nvs \<Longrightarrow> map_of defs n = Some (k, d) \<Longrightarrow> flagValue defs (rev nvs) n = d"
  using map_of_eq_None_iff [of "rev nvs" n] by (simp add: flagValue_def)

lemma withFlags_args:
  assumes "list_all (plainFlag defs) (map fst nvs)"
  shows "withFlags defs (flagArgs nvs) body w =
     (case body (flagValue defs (rev nvs)) w of (Inl e, w') \<Rightarrow> (Fatal e, w') | (Inr _, w') \<Rightarrow> (Done, w'))"
  using parseFlags_args [OF assms, of "[]" "[]"] by (simp add: withFlags_def)

section \<open>The backfill tool\<close>

text \<open>Without a known subcommand nothing happens but the usage, and the exit code is 2.\<close>

definition subcommands :: "string list" where
  "subcommands = [''generate-dekset'', ''encrypt-rows'', ''migrate-blind-index'', ''hash-rows'']"

lemma unknown_subcommand:
  assumes "length osArgs < 2 \<or> osArgs ! 1 \<notin> set subcommands"
  shows "backfillMain B osArgs st = (UsageShown, st)"
proof (cases osArgs)
  case (Cons prog args)
  then show ?thesis
    using assms by (cases args) (simp_all add: backfillMain_def subcommands_def)
qed (simp add: backfillMain_def)

text \<open>The run an operator starts with the flags of the documentation.\<close>

lemma encrypt_rows_command:
  "backfillMain B (prog # ''encrypt-rows'' # flagArgs [(''kek'', kek), (''dekset'', path), (''dsn'', dsn), (''fields'', fieldsOpt)]) st =
     (case runEncrypt (beUnicode B) (beNonces B) (beTink B) dsn (selectKMS (beVault B) (beRandom B) kek [] [] [] [])
             (beReadFile B path) fieldsOpt (beConnect B dsn) st of
        (Inl e, st') \<Rightarrow> (Fatal e, st')
      | (Inr _, st') \<Rightarrow> (Done, st'))"
proof -
  let ?nvs = "[(''kek'', kek), (''dekset'', path), (''dsn'', dsn), (''fields'', fieldsOpt)]"
  have p: "list_all (plainFlag encryptFlags) (map fst ?nvs)"
    by (simp add: plainFlag_def encryptFlags_def kmsFlags_def)
  show ?thesis
    by (simp add: backfillMain_def withFlags_args [OF p] flagKMS_def del: rev.simps)
      (simp add: flagValue_def encryptFlags_def kmsFlags_def)
qed

section \<open>A started proxy\<close>

lemma buildCipher_lawful:
  assumes "buildCipher E T rand files cfg w = (Inr c, w')" "lawfulTink T"
  shows "lawfulCipher c"
proof -
  obtain k st w1 where "OpenCipher T k st w1 = (Inr c, w')"
    using assms(1) by (auto simp: buildCipher_def io_Inr)
  then show ?thesis using OpenCipher_Inr [of T k st w1 c] cipherOf_lawful [OF assms(2)] by auto
qed

lemma proxyRun_Inr:
  assumes "proxyRun P w = (Inr p, w')"
  obtains cfg c w1 salt w2 s where
    "LoadProxyConfig (peUnicode P) (peScaling P) (peEnviron P) = Inr cfg"
    "buildCipher (peVault P) (peTink P) (peRandom P) (peReadFile P) cfg w = (Inr c, w1)"
    "peRandom P scramSaltLen w1 = (Inr salt, w2)"
    "newServer (peKdf P) (peHasCert P) (peReadFile P) (Inr salt) cfg (Some c) = Inr s"
    "listen (peListen P (ListenAddr cfg)) (peKeyPair P) s = Inr (spServer p)" "spProcess p = startProcess"
proof -
  obtain cfg c w1 where c: "LoadProxyConfig (peUnicode P) (peScaling P) (peEnviron P) = Inr cfg"
    "buildCipher (peVault P) (peTink P) (peRandom P) (peReadFile P) cfg w = (Inr c, w1)"
    and r: "(let (salt, w2) = peRandom P scramSaltLen w1 in
     bindIO (liftIO (newServer (peKdf P) (peHasCert P) (peReadFile P) salt cfg (Some c))) (\<lambda>s.
     bindIO (liftIO (listen (peListen P (ListenAddr cfg)) (peKeyPair P) s)) (\<lambda>s'.
     returnIO \<lparr>spServer = s', spProcess = startProcess, spMetrics = endpoint (MetricsAddr cfg),
               spHealth = endpoint (HealthAddr cfg)\<rparr>)) w2) = (Inr p, w')"
    using assms unfolding proxyRun_def io_Inr by blast
  obtain salt w2 where d: "peRandom P scramSaltLen w1 = (salt, w2)" by (cases "peRandom P scramSaltLen w1")
  then show thesis
    using that [OF c] r by (cases salt) (auto simp: io_Inr newServer_def)
qed

lemma listen_keeps:
  assumes "listen bound keypair s = Inr s'"
  shows "srvCfg s' = srvCfg s" "srvCipher s' = srvCipher s" "srvPlanner s' = srvPlanner s"
    "srvVerifier s' = srvVerifier s" "srvBackendTLS s' = srvBackendTLS s"
  using assms by (auto simp: listen_def bindR_eq_Inr split: if_splits sum.splits)

text \<open>
  C38. What a proxy that has come up guarantees to every connection: its configuration is a
  valid one, its sessions have a cipher that decrypts what it encrypts and plan with the
  field set the environment names, strictly unless the environment says otherwise; clients
  are checked against the configured password under a fresh 16-byte salt; the limits are not
  negative; and the process is in the initial state of its life cycle, so that everything
  proved of reachable states applies.
\<close>

theorem started_proxy_well_formed:
  assumes "proxyRun P w = (Inr p, w')" and "lawfulTink (peTink P)" and "fullReads (peRandom P)"
  shows "\<exists>c fs salt. cipher (newSession (spServer p) rnd m) = Some c \<and> lawfulCipher c
     \<and> selectFields (peUnicode P) (peEnviron P ''KKP_FIELDS'') = Inr fs \<and> piiFieldSet fs
     \<and> planner (newSession (spServer p) rnd m) = \<lparr>plannerFields = fs, lenient = (peEnviron P ''KKP_LENIENT'' = ''true'')\<rparr>
     \<and> length salt = 16
     \<and> srvVerifier (spServer p) = MakeScramVerifier (peKdf P) (UpstreamPassword (srvCfg (spServer p))) salt 4096
     \<and> validConfig (srvCfg (spServer p)) \<and> 0 \<le> MaxConnections (srvCfg (spServer p))
     \<and> processReach (MaxConnections (srvCfg (spServer p))) (spProcess p)"
proof -
  obtain cfg c w1 salt w2 s where r:
    "LoadProxyConfig (peUnicode P) (peScaling P) (peEnviron P) = Inr cfg"
    "buildCipher (peVault P) (peTink P) (peRandom P) (peReadFile P) cfg w = (Inr c, w1)"
    "peRandom P scramSaltLen w1 = (Inr salt, w2)"
    "newServer (peKdf P) (peHasCert P) (peReadFile P) (Inr salt) cfg (Some c) = Inr s"
    "listen (peListen P (ListenAddr cfg)) (peKeyPair P) s = Inr (spServer p)" "spProcess p = startProcess"
    using proxyRun_Inr [OF assms(1)] .
  note l = listen_keeps [OF r(5)]
  obtain fs where fs: "cfgFields cfg = Some fs" "selectFields (peUnicode P) (peEnviron P ''KKP_FIELDS'') = Inr fs"
    and cfg: "validConfig cfg" "0 \<le> MaxConnections cfg" "cfgLenient cfg \<longleftrightarrow> peEnviron P ''KKP_LENIENT'' = ''true''"
    using LoadProxyConfig_Inr [OF r(1)] by blast
  have s: "srvCfg s = cfg" "srvCipher s = Some c" "srvVerifier s = MakeScramVerifier (peKdf P) (UpstreamPassword cfg) salt 4096"
    "srvPlanner s = \<lparr>plannerFields = fs, lenient = cfgLenient cfg\<rparr>"
    using r(4) fs(1) by (auto simp: newServer_def bindR_eq_Inr NewPlanner_def NewLenientPlanner_def scramIterations_def)
  have "length salt = 16" using fullReadsD [OF assms(3) r(3)] by (simp add: scramSaltLen_def)
  moreover have "piiFieldSet fs" using selectFields_pii [OF fs(2)] .
  ultimately show ?thesis
    using l s fs cfg buildCipher_lawful [OF r(2) assms(2)] r(6)
    by (auto simp: newSession_def NewSession_def intro: processReach.start)
qed

definition demoProxy :: "(unit, string) proxyEnv" where
  "demoProxy =
     \<lparr>peUnicode = demoUnicode, peScaling = (\<lambda>_ _ _. 0), peEnviron = demoEnv, peVault = revokingVault, peTink = exampleTink,
      peRandom = exampleRand, peKdf = demoKdf, peHasCert = (\<lambda>_. True), peReadFile = (\<lambda>_. Inl errEOF),
      peListen = (\<lambda>_. Inr ()), peKeyPair = (\<lambda>_ _. Inl errEOF)\<rparr>"

lemma demoProxy_runs: "\<exists>p w'. proxyRun demoProxy ((), emptyCache) = (Inr p, w')"
proof -
  obtain cfg where cfg: "LoadProxyConfig demoUnicode (\<lambda>_ _ _. 0) demoEnv = Inr cfg" "BackendCAFile cfg = []" "TLSCertFile cfg = []"
    "VaultAddr cfg = []" "DEKSetFile cfg = []" "cfgKEK cfg = exampleKEK"
    using demo_loads by (auto simp: exampleKEK_def)
  let ?k = "staticKMS exampleRand exampleStatic"
  obtain st w1 where st: "GenerateDEKSet exampleTink exampleRand ?k 1 ((), emptyCache) = (Inr st, w1)"
    using example_generates [of exampleStatic 1 "((), emptyCache)"] by (metis prod.collapse)
  obtain c w2 where c: "OpenCipher exampleTink ?k st w1 = (Inr c, w2)"
    using dek_set_opens [OF exampleStatic_new exampleRand_full exampleTink_lawful, of 1 "((), emptyCache)" st] st
    by (metis fst_conv prod.collapse)
  have "buildCipher revokingVault exampleTink exampleRand (\<lambda>_. Inl errEOF) cfg ((), emptyCache) = (Inr c, w2)"
    using cfg st c exampleStatic_new by (simp add: buildCipher_def buildKMS_def bindIO_def)
  then show ?thesis
    using cfg by (cases w2) (simp add: proxyRun_def demoProxy_def bindIO_def newServer_def backendTLSOf_def listen_def exampleRand_def)
qed

theorem started_proxy_well_formed_witness:
  "\<exists>p w' c. proxyRun demoProxy ((), emptyCache) = (Inr p, w')
     \<and> cipher (newSession (spServer p) 0 registeredMetrics) = Some c \<and> lawfulCipher c
     \<and> \<not> lenient (planner (newSession (spServer p) 0 registeredMetrics))"
proof -
  obtain p w' where r: "proxyRun demoProxy ((), emptyCache) = (Inr p, w')" using demoProxy_runs by blast
  have "lawfulTink (peTink demoProxy)" "fullReads (peRandom demoProxy)"
    using exampleTink_lawful exampleRand_full by (simp_all add: demoProxy_def)
  then show ?thesis
    using started_proxy_well_formed [OF r, of 0 registeredMetrics] r by (cases w') (auto simp: demoProxy_def demoEnv_def)
qed

end
