(* ===== verification/Deadline.thy ===== *)
theory Deadline
  imports Server
begin

text \<open>
  The deadline \<^verbatim>\<open>serve\<close> sets on an accepted connection (\<^verbatim>\<open>cmd/proxy/server.go\<close>):
  from then on every read and every write of the client connection that has not completed by the
  deadline fails with a timeout, in the handshake and in the relay alike, because nothing
  clears it. Arrival times are explicit; a read that waits when the deadline passes fails then.
\<close>

section \<open>Timed connections\<close>

text \<open>\<^verbatim>\<open>os.ErrDeadlineExceeded\<close>.\<close>

definition errDeadline :: goerror where "errDeadline = errorsNew ''i/o timeout''"

definition acceptDeadline :: "ProxyConfig \<Rightarrow> int \<Rightarrow> int option" where
  "acceptDeadline cfg now = (if HandshakeTimeout cfg > 0 then Some (now + HandshakeTimeout cfg) else None)"

definition expired :: "int option \<Rightarrow> int \<Rightarrow> bool" where
  "expired dl t \<longleftrightarrow> (case dl of None \<Rightarrow> False | Some d \<Rightarrow> d \<le> t)"

text \<open>What the reads of the handshake return for messages that arrive at the given times.\<close>

definition clientReads :: "int option \<Rightarrow> (int \<times> handshakeMsg result) list \<Rightarrow> handshakeMsg result list" where
  "clientReads dl script =
     map snd (takeWhile (\<lambda>e. \<not> expired dl (fst e)) script) @ (if dl = None then [] else [Inl errDeadline])"

text \<open>A turn of the relay: the client pump reads from the client, the backend pump writes to it.\<close>

fun timedTurn :: "int option \<Rightarrow> int \<times> relayTurn \<Rightarrow> relayTurn" where
  "timedTurn dl (t, ClientTurn rd wr) = ClientTurn (if expired dl t then Inl errDeadline else rd) wr"
| "timedTurn dl (t, BackendTurn rd wr) = BackendTurn rd (if expired dl t then Some errDeadline else wr)"

definition serveConn ::
  "connWorld \<Rightarrow> server \<Rightarrow> int \<Rightarrow> (int \<times> handshakeMsg result) list \<Rightarrow> (int \<times> relayTurn) list \<Rightarrow> byteConn \<Rightarrow> proxyCounters
   \<Rightarrow> handled" where
  "serveConn W s now script turns conn m =
     (let dl = acceptDeadline (srvCfg s) now in
      handle (W\<lparr>cwUpstream := (\<lambda>c. (cwUpstream W c)\<lparr>incoming := clientReads dl script\<rparr>),
                cwTurns := map (timedTurn dl) turns\<rparr>) s conn m)"

section \<open>The handshake\<close>

text \<open>Only what arrives before the deadline decides the handshake.\<close>

theorem handshake_decided_by_deadline:
  assumes "takeWhile (\<lambda>e. \<not> expired (acceptDeadline (srvCfg s) now) (fst e)) script
         = takeWhile (\<lambda>e. \<not> expired (acceptDeadline (srvCfg s) now) (fst e)) script'"
  shows "serveConn W s now script turns conn m = serveConn W s now script' turns conn m"
  using assms by (simp add: serveConn_def clientReads_def)

text \<open>A client that stays silent is dropped without a backend connection, and counted.\<close>

theorem silent_client_dropped:
  assumes "0 < HandshakeTimeout (srvCfg s)" and "\<forall>e \<in> set script. now + HandshakeTimeout (srvCfg s) \<le> fst e"
    and "fst (MaybeUpgradeTLS (cwTLSServer W) (srvTLS s) conn) = Inr up"
  shows "hdReturned (serveConn W s now script turns conn m) \<and> hdBackend (serveConn W s now script turns conn m) = None
     \<and> metricAuthFailures (hdCounters (serveConn W s now script turns conn m)) = Suc (metricAuthFailures m)"
proof -
  have reads: "clientReads (acceptDeadline (srvCfg s) now) script = [Inl errDeadline]"
    using assms(1,2) by (cases script) (auto simp: clientReads_def acceptDeadline_def expired_def)
  show ?thesis
    using assms(3)
    by (simp add: serveConn_def handle_def reads AuthenticateUpstream_def bindIO_def readStartup.simps relayEnded_def Let_def)
qed

section \<open>The relay\<close>

lemma takeTurn_going:
  assumes "rlResult r = None" "rlClientPump r = Going" "rlBackendPump r = Going" "rlResult (takeTurn E t r) = None"
  shows "rlClientPump (takeTurn E t r) = Going \<and> rlBackendPump (takeTurn E t r) = Going"
  using assms by (auto simp: takeTurn_def deliver_def case_prod_unfold Let_def split: relayTurn.splits pumpStatus.splits)

lemma late_read_ends:
  assumes "rlResult r = None" "rlClientPump r = Going" "expired dl t"
  shows "rlResult (takeTurn E (timedTurn dl (t, ClientTurn rd wr)) r) = Some (Some errDeadline)"
  using assms by (simp add: takeTurn_def pumpClientStep_def deliver_def)

lemma runRelay_late:
  assumes "(t, ClientTurn rd wr) \<in> set turns" "expired dl t"
    and "rlResult r \<noteq> None \<or> rlClientPump r = Going \<and> rlBackendPump r = Going"
  shows "rlResult (runRelay E (map (timedTurn dl) turns) r) \<noteq> None"
  using assms
proof (induction turns arbitrary: r)
  case (Cons u us)
  show ?case
  proof (cases "rlResult r")
    case None
    let ?r = "takeTurn E (timedTurn dl u) r"
    have "rlResult ?r \<noteq> None \<or> rlClientPump ?r = Going \<and> rlBackendPump ?r = Going"
      using takeTurn_going None Cons.prems(3) by blast
    moreover have "rlResult ?r \<noteq> None" if "(t, ClientTurn rd wr) \<notin> set us"
    proof -
      have "u = (t, ClientTurn rd wr)" using that Cons.prems(1) by simp
      then show ?thesis using late_read_ends [OF None _ Cons.prems(2)] Cons.prems(3) None by simp
    qed
    moreover have "rlResult (runRelay E ts q) \<noteq> None" if "rlResult q \<noteq> None" for ts q
      using that by (cases ts) auto
    ultimately show ?thesis using Cons.IH [of ?r] Cons.prems(2) None by auto
  qed auto
qed simp

text \<open>
  No connection outlives the deadline: once a client message is due after it, the handler has
  returned. The configuration documents the timeout as a bound on the handshake that is
  cleared when the client is authenticated; it is not cleared, so it also ends relays.
\<close>

theorem relay_ends_at_deadline:
  assumes "0 < HandshakeTimeout (srvCfg s)" and "(t, ClientTurn rd wr) \<in> set turns"
    and "now + HandshakeTimeout (srvCfg s) \<le> t"
  shows "hdReturned (serveConn W s now script turns conn m)"
proof -
  have "rlResult (runRelay (cwEnv W) (map (timedTurn (acceptDeadline (srvCfg s) now)) turns) (startRelay (newSession s (cwDrawn W) (cwMetrics W)))) \<noteq> None"
    using assms by (intro runRelay_late) (auto simp: acceptDeadline_def expired_def startRelay_def)
  then show ?thesis
    by (auto simp: serveConn_def handle_def Let_def split: sum.splits prod.splits option.splits)
qed

end
