(* ===== verification/Endpoints.thy ===== *)
theory Endpoints
  imports Commands ServerProps
begin

text \<open>
  The HTTP endpoints of the proxy: \<^verbatim>\<open>startHealthServer\<close> of \<^verbatim>\<open>cmd/proxy/main.go\<close> and
  \<^verbatim>\<open>startMetricsServer\<close> of \<^verbatim>\<open>cmd/proxy/metrics.go\<close>, with what they use of
  \<^verbatim>\<open>net/http\<close>: the routing of a request and the shutdown of a server. The Prometheus
  handler is an argument.
\<close>

section \<open>Routing\<close>

record httpRequest =
  hrMethod :: string
  hrPath :: string

datatype httpResponse = Response nat string | Redirect string

text \<open>\<^verbatim>\<open>cleanPath\<close> of \<^verbatim>\<open>net/http\<close>: rooted, without dot segments, the final slash kept.\<close>

definition urlClean :: "string \<Rightarrow> string" where
  "urlClean p =
     (if p = [] then ''/''
      else let p' = (if hd p = CHR ''/'' then p else CHR ''/'' # p); np = cleanPath p' in
        if last p' = CHR ''/'' \<and> np \<noteq> ''/'' then np @ ''/'' else np)"

text \<open>
  A mux whose patterns are plain paths: a pattern without a final slash matches its own path,
  under any method, and a path that is not clean is redirected.
\<close>

definition serveMux :: "(string \<times> (httpRequest \<Rightarrow> nat \<times> string)) list \<Rightarrow> httpRequest \<Rightarrow> httpResponse" where
  "serveMux handlers rq =
     (let path = (if hrMethod rq = ''CONNECT'' then hrPath rq else urlClean (hrPath rq)) in
      if path \<noteq> hrPath rq then Redirect path
      else case map_of handlers path of
          Some h \<Rightarrow> (case h rq of (status, body) \<Rightarrow> Response status body)
        | None \<Rightarrow> Response 404 (''404 page not found'' @ [CHR 0x0A]))"

text \<open>\<open>dial\<close> is the outcome of the TCP probe of the backend.\<close>

definition healthMux :: "process \<Rightarrow> string \<Rightarrow> goerror option \<Rightarrow> httpRequest \<Rightarrow> httpResponse" where
  "healthMux p backendAddr dial =
     serveMux [(''/healthz'', \<lambda>_. healthz p), (''/readyz'', \<lambda>_. readyz p backendAddr dial)]"

definition metricsMux :: "(httpRequest \<Rightarrow> nat \<times> string) \<Rightarrow> httpRequest \<Rightarrow> httpResponse" where
  "metricsMux promHandler = serveMux [(''/metrics'', promHandler)]"

text \<open>An address that is not set starts no server: a request to it meets no listener.\<close>

definition startMetricsServer :: "string \<Rightarrow> (httpRequest \<Rightarrow> nat \<times> string) \<Rightarrow> (httpRequest \<Rightarrow> httpResponse) option" where
  "startMetricsServer addr promHandler = (if addr = [] then None else Some (metricsMux promHandler))"

text \<open>\<^verbatim>\<open>addr\<close> of the server; \<open>bound\<close> is the address of the socket.\<close>

definition addr :: "string \<Rightarrow> process \<Rightarrow> string" where
  "addr bound p = (if listener p then bound else [])"

section \<open>What the probes report\<close>

lemma clean_probes [simp]: "urlClean ''/healthz'' = ''/healthz''" "urlClean ''/readyz'' = ''/readyz''" "urlClean ''/metrics'' = ''/metrics''"
  by code_simp+

lemma ready_serving: "processReach maxConns p \<Longrightarrow> ready p \<longleftrightarrow> closeAt p = CloseIdle"
  using reach_inv [of maxConns p] by (auto simp: closeInv_def split: closeAt.splits)

text \<open>
  The probes tell the orchestrator the truth, in every reachable state and under every method but CONNECT
  too: liveness is 200 exactly while no shutdown has been signalled, readiness exactly while
  moreover the backend accepts connections; every other clean path is unknown.
\<close>

theorem probes_exact:
  assumes "processReach maxConns p"
  shows "(healthMux p backend dial \<lparr>hrMethod = md, hrPath = ''/healthz''\<rparr> = Response 200 (''ok'' @ [CHR 0x0A])
        \<longleftrightarrow> closeAt p = CloseIdle)
     \<and> (healthMux p backend dial \<lparr>hrMethod = md, hrPath = ''/readyz''\<rparr> = Response 200 (''ok'' @ [CHR 0x0A])
        \<longleftrightarrow> closeAt p = CloseIdle \<and> dial = None)
     \<and> (urlClean path = path \<longrightarrow> path \<notin> {''/healthz'', ''/readyz''} \<longrightarrow>
          healthMux p backend dial \<lparr>hrMethod = md, hrPath = path\<rparr> = Response 404 (''404 page not found'' @ [CHR 0x0A]))"
  using ready_serving [OF assms]
  by (simp add: healthMux_def serveMux_def healthz_def readyz_def Let_def split: option.split)

section \<open>Shutting the health server down\<close>

text \<open>
  \<^verbatim>\<open>Shutdown\<close> of \<^verbatim>\<open>net/http\<close>: the listener is closed; then the server polls, returns
  when no request is active, and gives up when its context is done. \<open>active\<close> are the
  numbers of active requests at the polls, \<open>left\<close> for how many polls the context still lives.
\<close>

datatype shutdown = Idled | GaveUp | Polling

fun Shutdown :: "nat list \<Rightarrow> nat \<Rightarrow> shutdown" where
  "Shutdown [] left = Polling"
| "Shutdown (n # ns) left =
     (if n = 0 then Idled else if left = 0 then GaveUp else Shutdown ns (left - 1))"

text \<open>
  \<^verbatim>\<open>context.WithTimeout\<close>: a context derived from one that is done is done, whatever the timeout.
\<close>

definition withTimeout :: "nat \<Rightarrow> nat \<Rightarrow> nat" where
  "withTimeout parentLeft polls = min parentLeft polls"

text \<open>The goroutine runs when the context of the process is done, so nothing is left of it.\<close>

definition stopHealthServer :: "nat list \<Rightarrow> nat \<Rightarrow> shutdown" where
  "stopHealthServer active polls = Shutdown active (withTimeout 0 polls)"

text \<open>
  The five seconds are never granted: a probe that is being answered when the signal
  arrives is abandoned at the first poll, however long the timeout; with a context of its own the
  server would have waited for it.
\<close>

lemma health_shutdown_abandons:
  "0 < n \<Longrightarrow> stopHealthServer (n # ns) polls = GaveUp"
  "\<forall>k < length ns. ns ! k \<noteq> 0 \<Longrightarrow> length ns \<le> polls \<Longrightarrow> Shutdown (ns @ [0]) polls = Idled"
proof -
  show "0 < n \<Longrightarrow> stopHealthServer (n # ns) polls = GaveUp" by (simp add: stopHealthServer_def withTimeout_def)
  show "\<forall>k < length ns. ns ! k \<noteq> 0 \<Longrightarrow> length ns \<le> polls \<Longrightarrow> Shutdown (ns @ [0]) polls = Idled"
  proof (induction ns arbitrary: polls)
    case (Cons n ns)
    then have "n \<noteq> 0" "\<forall>k < length ns. ns ! k \<noteq> 0" by (auto simp: nth_Cons split: nat.splits)
    then show ?case using Cons by (cases polls) auto
  qed simp
qed

end
