(* ===== verification/Spec2Isabelle.thy ===== *)
theory Spec2Isabelle
  imports CryptoProps RewriteProps WireProps Forwarding DebugLog KmsProps VaultProps VaultLogin AuthProps ServerProps BackfillProps
    CaptureProps CorpusProps CommandsProps Deadline Endpoints
begin

text \<open>
  keycloak-kms-proxy sits between Keycloak and PostgreSQL. It speaks the PostgreSQL protocol
  to both, encrypts the personal data (PII) that Keycloak binds to its statements, decrypts
  what the rows bring back, and keeps the keys wrapped by a key management service (KMS). A
  second program, \<^verbatim>\<open>backfill\<close>, encrypts the rows that were stored before the proxy was
  put in place, and two developer tools keep the test corpora. This development models these
  programs from their Go sources under
  \<^verbatim>\<open>src/\<close>, definition by definition, and proves what an operator relies on.

  \<^bold>\<open>How the parts interact.\<close> \<^verbatim>\<open>cmd/proxy\<close> loads the configuration, opens the
  key set with the KMS, listens, and hands each connection to a handler. The handler runs a
  SCRAM handshake with the client and another with the backend, then a \<^verbatim>\<open>Relay\<close>: two
  pumps that share a \<^verbatim>\<open>Session\<close>. On a Parse the session has \<^verbatim>\<open>internal/rewrite\<close>
  analyse the statement and plan it; on a Bind it encrypts the parameters of the plan with
  \<^verbatim>\<open>internal/crypto\<close>; on a RowDescription it plans the read, and on a DataRow it
  decrypts the planned fields. Two queues in the session say which request the backend is
  answering.

  \<^bold>\<open>Which theory models what.\<close>
  \<^item> Go and its library. \<open>Prelude\<close>: bytes, errors with wrapping, results, the collections of
    rewrite rules. \<open>GoStrings\<close>, \<open>GoText\<close> (UTF-8, runes, case mapping), \<open>Strconv\<close>,
    \<open>Base64\<close>, \<open>Json\<close> (\<^verbatim>\<open>encoding/json\<close>), \<open>GoTime\<close> (\<^verbatim>\<open>ParseDuration\<close>), \<open>Sha256\<close>
    (with HMAC), \<open>AesGcm\<close>, \<open>HostIO\<close> (random source, files): what \<^verbatim>\<open>src/\<close> uses of the
    standard library, executable. \<open>GoRegexp\<close>: \<^verbatim>\<open>regexp\<close>, leftmost-first
    matching with submatches, sound and complete for a relation \<open>matches\<close>. \<open>Disk\<close>: files and
    directories with injected faults, \<^verbatim>\<open>bufio.Scanner\<close>. \<open>JsonPrint\<close>: indented JSON and its
    round trip with the parser.
  \<^item> \<^verbatim>\<open>internal/crypto\<close>. \<open>Marker\<close>: \<^verbatim>\<open>marker.go\<close>, the envelope text and the escape of
    look-alikes. \<open>Cipher\<close>: \<^verbatim>\<open>aead.go\<close>, \<^verbatim>\<open>daead.go\<close>, \<^verbatim>\<open>cipher.go\<close>,
    \<^verbatim>\<open>blindindex.go\<close>.
  \<^item> \<^verbatim>\<open>internal/kms\<close>. \<open>Kms\<close>: \<^verbatim>\<open>static.go\<close>, \<^verbatim>\<open>envelope.go\<close> and the key sets of
    \<^verbatim>\<open>internal/crypto/dek.go\<close>, \<^verbatim>\<open>keyset.go\<close>. \<open>Vault\<close>: \<^verbatim>\<open>vault.go\<close>,
    one call at a time. \<open>VaultLogin\<close>: its token cache under many goroutines. \<open>DekFile\<close>: the
    key-set file between the two programs.
  \<^item> \<^verbatim>\<open>internal/config\<close>. \<open>FieldSet\<close>: \<^verbatim>\<open>fields.go\<close>. \<open>ProxyConfig\<close>: \<^verbatim>\<open>proxy.go\<close>.
  \<^item> \<^verbatim>\<open>internal/rewrite\<close>. \<open>PgAst\<close>: the part of pg_query's syntax tree the code looks at.
    \<open>Analyze\<close>: \<^verbatim>\<open>analyze.go\<close>. \<open>Plan\<close>: \<^verbatim>\<open>plan.go\<close>. \<open>ReadPlan\<close>: \<^verbatim>\<open>read.go\<close>.
    \<open>BlindIndexSQL\<close>: \<^verbatim>\<open>blindindex.go\<close>.
  \<^item> \<^verbatim>\<open>internal/wire\<close>. \<open>Session\<close>: \<^verbatim>\<open>session.go\<close>; the statements and portals that
    several maps and queues point to live in two explicit heaps, since the code shares the
    pointers. \<open>Transform\<close>: \<^verbatim>\<open>transform.go\<close>. \<open>Relay\<close>: \<^verbatim>\<open>relay.go\<close>, each pump as the
    fold of one step, and both as a relation that interleaves the atomic calls. \<open>Scram\<close>:
    \<^verbatim>\<open>scram.go\<close>, \<^verbatim>\<open>scram_client.go\<close>. \<open>Auth\<close>: \<^verbatim>\<open>auth.go\<close>, \<^verbatim>\<open>listener.go\<close>,
    \<^verbatim>\<open>dial.go\<close>. \<open>Observe\<close>: the counters of \<^verbatim>\<open>internal/observe\<close>.
  \<^item> \<^verbatim>\<open>cmd/proxy\<close> is \<open>Server\<close>: start-up, the handler, and the life cycle of the process (accept,
    finish, signal, drain, health endpoints) as a step relation; \<open>Deadline\<close> its connections against
    the clock, \<open>Endpoints\<close> its HTTP endpoints. \<^verbatim>\<open>cmd/backfill\<close> is
    \<open>Backfill\<close>, on a database of tables and rows with injected faults.
  \<^item> The developer tools. \<open>Capture\<close>: \<^verbatim>\<open>cmd/capture-keycloak-sql\<close> and the log line of
    \<^verbatim>\<open>OnParse\<close> it reads (\<open>DebugLog\<close>). \<open>Corpus\<close>: \<^verbatim>\<open>internal/keycloakmodel\<close>. \<open>CorpusGen\<close>:
    \<^verbatim>\<open>cmd/gen-keycloak-tests\<close>. \<open>Commands\<close>: the command lines of the four programs, with
    Go's \<^verbatim>\<open>flag\<close> package, and the start-up of the proxy.

  \<^bold>\<open>What the lemmas show.\<close>
  \<^item> This theory, with \<open>TransformProps\<close> and \<open>Forwarding\<close>: in every run of the relay with a strict
    planner a forwarded Bind carries the values of the protected columns the analysis reports only as
    envelopes that open to what was bound, because the session holds under each name what the stream
    has prepared; what was written comes back where the read plan resolves the field; rows are
    changed in their planned fields only; searches find what was written, by deterministic
    envelope or by blind index; and the two programs agree on the keys.
  \<^item> \<open>SessionInv\<close>, \<open>Protocol\<close>, \<open>WireProps\<close>: the invariant of the session under every interleaving
    of the two pumps, and the refinement of an in-order PostgreSQL backend: the queues are
    always the projection of the requests the backend has yet to answer, after errors and
    skipped batches too. From it, a row is decrypted with the plan of its own portal, and a
    refused statement is never sent.
  \<^item> \<open>AnalyzeProps\<close>, \<open>RewriteProps\<close>: the planners against declarative specifications; the coverage
    by a strict planner of the assignments and equality comparisons a statement makes, read off its tree;
    the relations named in the FROM clauses of a SELECT; the rewriting of conditions to hash
    columns as a relation; and, as lemmas, what the analysis does not see (later rows of VALUES, INSERT
    without a column list, ON CONFLICT, operators other than \<^verbatim>\<open>=\<close> and LIKE,
    filters in a join, sub-selects outside FROM, shadowed CTEs).
  \<^item> \<open>CryptoProps\<close>, \<open>KmsProps\<close>, \<open>VaultProps\<close>: the envelope format and decryption in full, round trips of envelopes, ciphers, wrapped keys and key
    sets, rotation, the number of requests to Vault and the replacement of a revoked token.
  \<^item> \<open>ScramProps\<close>, \<open>AuthProps\<close>: the two handshakes complete with each other, only a proof for the
    stored key is accepted, the backend leg is encrypted when a CA is given.
  \<^item> \<open>ServerProps\<close>: the connection limit, the drain, the validator against its specification.
    \<open>Deadline\<close>: the deadline of an accepted connection, which bounds the handshake and, not being
    cleared, the relay. \<open>Endpoints\<close>: the health and metrics endpoints and what the probes report.
    \<open>BackfillProps\<close>: cells without the marker sealed, idempotence, hashes the proxy can search.
  \<^item> \<open>VaultLogin\<close>: concurrent callers of the Vault client exclude each other, all return, and share
    one login; a usable token is served without waiting; the sequential function is one of the runs.
  \<^item> \<open>CaptureProps\<close>: what is logged is captured, and captures merge. \<open>DebugLog\<close>: the log of a relay
    lets the tool capture every statement the relay forwarded. \<open>CorpusProps\<close>: the generated
    corpus loads, and does not depend on the order of declarations. \<open>CommandsProps\<close>: what a started
    proxy guarantees, and which subcommand runs with which arguments.

  Contracts that several operations share are locales, interpreted on the definitions of the
  code: \<open>text_codec\<close> (the base64 variants), \<open>primitive_family\<close> (the two schemes),
  \<open>kms_provider\<close> and \<open>kms_rotation\<close> (static key, Vault, and moving from one to the other),
  \<open>slot_loop\<close> (the five loops over bound parameters and row fields), \<open>boundary_queue\<close> and
  \<open>projected_queue\<close> (the execute and describe queues), \<open>cell_writer\<close> (the two row updates of
  the backfill).

  \<^bold>\<open>Parameters.\<close> Code outside \<^verbatim>\<open>src/\<close> is an argument of the definitions that use it,
  and a theorem that needs its documented behaviour names it as a hypothesis: Tink's AEADs
  and keyset handles (\<open>lawfulAEAD\<close>, \<open>lawfulDAEAD\<close>, \<open>lawfulCipher\<close>: decryption inverts
  encryption; nothing is assumed about secrecy), pg_query's parser and deparser, the pgproto3
  decoder, the TLS handshake, PBKDF2, Vault's HTTP answers (\<open>honestTransit\<close>), clock, files,
  the random source (\<open>fullReads\<close>) and the Unicode tables. \<open>Example\<close> holds a concrete instance
  of each, on which the properties are exercised.

  \<^bold>\<open>Bounds and fuel.\<close> The walk over a SELECT follows references to CTEs and takes fuel;
  \<open>selectFuel\<close>, the number of CTE names plus one times the number of nodes plus four, is proved
  to be enough for every statement (\<open>select_walk_ends\<close>), because a name is entered once on a
  path. The JSON parser and the trimming of white space take the length of their input as fuel
  and consume a byte in every call, as does a round
  of a starred regular expression; the depth limit of 10000 is the one of Go. Durations and
  parameter numbers are kept at the width Go gives them where a conversion can wrap.

  \<^bold>\<open>Not modelled.\<close> Debug and warning lines of the log (they change no state), except for the lines of
  a Parse, which the capture tool reads; messages on standard output and error; the transport of
  the HTTP servers and the Prometheus registry behind the metrics handler, which are I/O of
  libraries; the package documentation files, which hold comments only; secrecy and timing.
\<close>

section \<open>Bound values and result rows\<close>

text \<open>
  C1. No protected value the analysis sees reaches the backend in clear. In any run of the relay,
  however the two pumps interleave and whatever the peers send, take a Bind the proxy forwarded, of a
  statement the stream had prepared under that name and that a strict planner could analyse. For every
  column that the analysis reports as written or as compared for equality, and that the field set
  protects in the statement's table, the forwarded message holds an envelope in the place of the bound value, and that envelope
  opens, under the column's associated data, to what the client bound (lower-cased where the rule says
  so). The analysis reports (\<open>WriteColumns_assignments\<close>, \<open>FilterColumns_equalities\<close>) the SET list of an
  UPDATE, the column list of an INSERT with the first row of VALUES, and the comparisons with \<^verbatim>\<open>=\<close> of the WHERE clause; the statement's
  table is its target or, for a SELECT, its first FROM item if that is a plain relation. Columns of joined
  relations, later rows of VALUES, LIKE with wildcards, \<^verbatim>\<open>IN\<close> and
  \<^verbatim>\<open><>\<close> are not covered, and a lenient planner is not. The statement uses each
  parameter once (\<open>separate\<close>, see \<open>plan_separate\<close>), and the decoder hands over slices without spare
  capacity.
\<close>

theorem bind_protects_pii:
  assumes "relayRun E (NewSession pl (Some c) rnd m) ins r" and "lawfulCipher c" and "\<not> lenient pl"
    and "k < length ins" and "ins ! k = FBind b" and "bmSpare b = []"
    and "prepared (take k ins) (bmStatement b) = Some p"
    and "Analyze (envUnicode E) (envParser E) (pmQuery p) = Inr a"
    and "planned E pl p = Some plan" and "separate plan"
    and "cp \<in> set (WriteColumns a) \<union> set (FilterColumns a)"
    and "ColumnRule (plannerFields pl) (ToUpper (envUnicode E) (anTable a)) (ToUpper (envUnicode E) (cpColumn cp)) = Some rule"
    and "paramValue b (cpParam cp) = Some v"
  shows "\<exists>b' st. rlToBackend r ! k = FBind b' \<and> paramValue b' (cpParam cp) = Some st \<and> isEnvelope (envUnicode E) st
     \<and> Decrypt (envUnicode E) c st
         (AAD (envUnicode E) (ToUpper (envUnicode E) (anTable a)) (ToUpper (envUnicode E) (cpColumn cp)))
         = Inr (normalized E rule v)"
proof -
  have "judged E pl (Some c) (prepared (take k ins)) (FBind b) (rlToBackend r ! k)"
    using stream_invariant [OF assms(1)] assms(4,5) by (metis streamInv_def)
  from bind_judged [OF this assms(7,9,10,6,2) protected_param [OF assms(9,8,3,11,12)]]
  show ?thesis using assms(13) by simp
qed

theorem bind_protects_pii_witness:
  "\<exists>r b' st. relayRun exampleEnv session0 writing r \<and> rlToBackend r ! 2 = FBind b' \<and> paramValue b' 2 = Some st
     \<and> Decrypt plainUnicode exampleCipher st (AAD plainUnicode ''USER_ENTITY'' ''EMAIL'') = Inr ''a@x''"
proof -
  obtain r where r: "relayRun exampleEnv (NewSession examplePlanner (Some exampleCipher) 0 registeredMetrics) writing r"
    using writing_run by (auto simp: session0_def)
  show ?thesis
    using bind_protects_pii [OF r exampleCipher_lawful email_protected(5) writing_parts(1,2) insert_values(3)
        writing_parts(3) insert_analysed insert_separate UnI1 [OF email_protected(1)] _ writing_parts(4), of detRule]
      r email_protected(2-4) writing_parts(5)
    by (auto simp: exampleEnv_def session0_def emailParam_def)
qed

text \<open>
  C2. Write, then read: the value a client bound for a protected column comes back to a client as
  it was bound (up to the rule's lower-casing), in any row with the stored value that the backend pump
  forwards, on the same or on another connection with the same cipher, whenever the read plan of the portal
  being answered resolves the field to that table and column.
\<close>

theorem write_then_read:
  assumes "relayRun E (NewSession pl (Some c) rnd m) ins r" and "lawfulCipher c" and "\<not> lenient pl"
    and "k < length ins" and "ins ! k = FBind b" and "bmSpare b = []"
    and "prepared (take k ins) (bmStatement b) = Some p"
    and "Analyze (envUnicode E) (envParser E) (pmQuery p) = Inr a"
    and "planned E pl p = Some plan" and "separate plan"
    and "cp \<in> set (WriteColumns a)"
    and "ColumnRule (plannerFields pl) (ToUpper (envUnicode E) (anTable a)) (ToUpper (envUnicode E) (cpColumn cp)) = Some rule"
    and "paramValue b (cpParam cp) = Some v"
    and "rlToBackend r ! k = FBind b'"
    and "relayReach E (NewSession pl' (Some c) rnd' m') q" and "CurrentExecuting (rlSession q) = Some po"
    and "snd (ensureReadPlan E po (rlSession q)) = Some rp" and "f \<in> set (rpFields rp)"
    and "rfTable f = ToUpper (envUnicode E) (anTable a)" and "rfColumn f = ToUpper (envUnicode E) (cpColumn cp)"
    and "rfIndex f < length row" and "row ! rfIndex f = paramValue b' (cpParam cp)"
    and "pumpBackendStep E (Inr (BDataRow row)) None (rlSession q) = (s', out, Going)"
  shows "\<exists>row'. out = [BDataRow row'] \<and> row' ! rfIndex f = Some (normalized E rule v)"
proof -
  have j: "judged E pl (Some c) (prepared (take k ins)) (FBind b) (FBind b')"
    using stream_invariant [OF assms(1)] assms(4,5,14) by (metis streamInv_def)
  obtain st where st: "paramValue b' (cpParam cp) = Some st"
    "Decrypt (envUnicode E) c st (AAD (envUnicode E) (rfTable f) (rfColumn f)) = Inr (normalized E rule v)"
    using bind_judged [OF j assms(7,9,10,6,2) protected_param [OF assms(9,8,3) UnI1 [OF assms(11)] assms(12)]] assms(13,19,20)
    by auto
  obtain row' where "out = [BDataRow row']" "opened E c f (row ! rfIndex f) (row' ! rfIndex f)"
    using row_opened [OF assms(15-18,21,23)] by blast
  then show ?thesis using st assms(22) by (auto simp: opened_def)
qed

theorem write_then_read_witness:
  "\<exists>q s' row'. relayReach exampleEnv session0 q
     \<and> pumpBackendStep exampleEnv (Inr (BDataRow [Some ''7'', Some storedEmail])) None (rlSession q) = (s', [BDataRow row'], Going)
     \<and> row' ! 1 = Some ''a@x''"
proof -
  obtain r b' where r: "relayRun exampleEnv (NewSession examplePlanner (Some exampleCipher) 0 registeredMetrics) writing r"
    "rlToBackend r ! 2 = FBind b'" "bmParameters b' = [Some ''7'', Some storedEmail]"
    using writing_run by (auto simp: session0_def)
  obtain q where q: "relayReach exampleEnv (NewSession examplePlanner (Some exampleCipher) 0 registeredMetrics) q" "rlSession q = session2"
    using session2_reach by (auto simp: session0_def)
  obtain s' out where d: "pumpBackendStep exampleEnv (Inr (BDataRow [Some ''7'', Some storedEmail])) None (rlSession q) = (s', out, Going)"
    using row_example q(2) by (cases "DecryptDataRow exampleEnv [Some ''7'', Some storedEmail] session2")
      (auto simp: pumpBackendStep_def observeBackend_def)
  have f: "emailField \<in> set (rpFields \<lparr>rpFields = [emailField], Ambiguous = []\<rparr>)"
    "rfTable emailField = ToUpper (envUnicode exampleEnv) (anTable insertAnalysis)"
    "rfColumn emailField = ToUpper (envUnicode exampleEnv) (cpColumn emailParam)"
    "rfIndex emailField < length [Some ''7'', Some storedEmail]"
    "[Some ''7'', Some storedEmail] ! rfIndex emailField = paramValue b' (cpParam emailParam)"
    using email_protected(2,3) by (simp_all add: exampleEnv_def emailField_def emailParam_def paramValue_def inRange_def slot_def r(3))
  have "\<exists>row'. out = [BDataRow row'] \<and> row' ! rfIndex emailField = Some (normalized exampleEnv detRule ''A@x'')"
    using write_then_read [OF r(1) exampleCipher_lawful email_protected(5) writing_parts(1,2) insert_values(3)
        writing_parts(3) insert_analysed insert_separate email_protected(1) _ writing_parts(4) r(2) q(1) _ _ f d, of detRule 0]
      q(2) select_planned email_protected(2-4)
    by (simp add: exampleEnv_def)
  then show ?thesis using q d writing_parts(5) by (auto simp: session0_def emailField_def)
qed

text \<open>
  C15. A row is rewritten exactly in its planned fields: NULLs stay NULL, a planned value
  becomes what its envelope (or its escape) opens to under the column's associated data,
  and every other column is forwarded as the backend sent it.
\<close>

theorem row_decrypted_exactly:
  assumes "wfSession E s" and "CurrentExecuting s = Some p"
    and "snd (ensureReadPlan E p s) = Some plan" and "cipher s = Some c"
    and "DecryptDataRow E row s = ((s', row'), None)" and "i < length row"
  shows "length row' = length row
     \<and> (i \<notin> rfIndex ` set (rpFields plan) \<longrightarrow> row' ! i = row ! i)
     \<and> (\<forall>f \<in> set (rpFields plan). rfIndex f = i \<longrightarrow> opened E c f (row ! i) (row' ! i))"
  using DecryptDataRow_fields [OF assms] by blast

theorem row_decrypted_exactly_witness:
  "snd (fst (DecryptDataRow exampleEnv [Some ''7'', Some storedEmail] session2)) = [Some ''7'', Some ''a@x'']"
proof -
  obtain t' row' where d: "DecryptDataRow exampleEnv [Some ''7'', Some storedEmail] session2 = ((t', row'), None)"
    using row_example by (metis prod.collapse)
  note fields = row_decrypted_exactly [OF session_wf(2) select_planned(1,2) session_cipher(2) d]
  have "length row' = 2 \<and> row' ! 0 = Some ''7''" using fields [of 0] by (simp add: emailField_def)
  moreover have "row' ! 1 = Some ''a@x''"
    using fields [of 1] stored_opens by (simp add: emailField_def opened_def exampleEnv_def)
  ultimately show ?thesis using d by (auto simp: length_Suc_conv numeral_eq_Suc)
qed

text \<open>
  A leaked ciphertext is not encrypted again: when a value bound for an encrypted
  parameter already is an envelope, the Bind fails and the pump sends nothing.
\<close>

theorem envelope_not_reencrypted:
  assumes "statements s (bmStatement b) = Some a" and "psWritePlan (stmtAt s a) = Some plan"
    and "separate plan" and "bmSpare b = []" and "pr \<in> set (wpParams plan)"
    and "paramValue b (prParam pr) = Some v" and "isEnvelope (envUnicode E) v"
  shows "snd (EncryptBind E b s) \<noteq> None"
proof
  assume none: "snd (EncryptBind E b s) = None"
  then obtain c where "transformBind E c plan (s, b) = (fst (EncryptBind E b s), None)"
    using assms(1,2,5) by (auto simp: EncryptBind_def WritePlan_IsEmpty_def prod_eq_iff split: if_splits option.splits)
  then have "sealed E c pr (paramValue b (prParam pr)) (bindSlot (fst (EncryptBind E b s)) (prParam pr))"
    using assms(3-5) by (rule transformBind_sealed)
  then show False using assms(6,7) by (simp add: sealed_def)
qed

theorem envelope_not_reencrypted_witness:
  "snd (EncryptBind exampleEnv (bindInsert\<lparr>bmParameters := [Some ''7'', Some storedEmail]\<rparr>) session1) \<noteq> None"
proof -
  have "isEnvelope (envUnicode exampleEnv) storedEmail" using stored_envelope by (simp add: exampleEnv_def)
  then show ?thesis
    using envelope_not_reencrypted [of session1 "bindInsert\<lparr>bmParameters := [Some ''7'', Some storedEmail]\<rparr>" 0,
        OF _ insert_planned(2) insert_separate _ insert_values(2), of storedEmail exampleEnv] insert_values(1,3)
    by (simp add: insertRule_def paramValue_def inRange_def slot_def)
qed

text \<open>
  C32. Attribute rows: under an attribute condition every non-NULL value opens again to what
  the client bound, whether the attribute name had the PII prefix (the value is then an
  envelope) or not (the value is then stored in clear and never mistaken for an envelope).
\<close>

theorem attribute_roundtrip:
  assumes "applyAttributeCondition E c cond (s, b) = ((s', b'), None)"
    and "distinct (map prParam (acValueParams cond))" and "lawfulCipher c"
    and "pr \<in> set (acValueParams cond)" and "paramValue b (prParam pr) = Some v"
  shows "\<exists>st. paramValue b' (prParam pr) = Some st \<and> (isEnvelope (envUnicode E) st \<longleftrightarrow> piiName cond b)
     \<and> Decrypt (envUnicode E) c st (AAD (envUnicode E) (prTable pr) (prColumn pr))
         = Inr (if piiName cond b then normalized E (prRule pr) v else v)"
proof -
  have "attrPost E c (piiName cond b) pr (bindSlot (s, b) (prParam pr)) (bindSlot (s', b') (prParam pr))"
    using attrp.loop_post [OF assms(1) [unfolded applyAttributeCondition_eq] assms(2,4)] by simp
  then show ?thesis
    using assms(3,5) sealed_opens [of E c pr v]
    by (auto simp: attrPost_def bindSlot_def escaped_def isEnvelope_def Decrypt_Escape
        Parse_plaintext_iff [THEN iffD2, OF isPlaintext_Escape] split: if_splits)
qed

definition attributeCondition :: AttributeCondition where
  "attributeCondition = \<lparr>acNameParam = 1, acPrefix = ''pii-'', acValueParams =
     [\<lparr>prParam = 2, prTable = ''USER_ATTRIBUTE'', prColumn = ''VALUE'', prRule = nondetRule\<rparr>]\<rparr>"

definition attributeBind :: BindMsg where
  "attributeBind = bindInsert\<lparr>bmParameters := [Some ''locale'', Some ''$KKP$x'']\<rparr>"

theorem attribute_roundtrip_witness:
  "\<exists>st. paramValue (snd (fst (applyAttributeCondition exampleEnv exampleCipher attributeCondition (session1, attributeBind)))) 2 = Some st
     \<and> Decrypt plainUnicode exampleCipher st (AAD plainUnicode ''USER_ATTRIBUTE'' ''VALUE'') = Inr ''$KKP$x''"
proof -
  let ?pr = "\<lparr>prParam = 2, prTable = ''USER_ATTRIBUTE'', prColumn = ''VALUE'', prRule = nondetRule\<rparr>"
  have n: "piiName attributeCondition attributeBind = False" by code_simp
  then have "snd (applyAttributeCondition exampleEnv exampleCipher attributeCondition (session1, attributeBind)) = None"
    by (simp add: applyAttributeCondition_eq attrBody_def attributeCondition_def)
  then obtain s' b' where r: "applyAttributeCondition exampleEnv exampleCipher attributeCondition (session1, attributeBind) = ((s', b'), None)"
    by (metis prod.collapse)
  have v: "paramValue attributeBind (prParam ?pr) = Some ''$KKP$x''" by code_simp
  have "distinct (map prParam (acValueParams attributeCondition))" "?pr \<in> set (acValueParams attributeCondition)"
    by (simp_all add: attributeCondition_def)
  from attribute_roundtrip [OF r this(1) exampleCipher_lawful this(2) v]
  have "\<exists>st. paramValue b' 2 = Some st
      \<and> Decrypt plainUnicode exampleCipher st (AAD plainUnicode ''USER_ATTRIBUTE'' ''VALUE'') = Inr ''$KKP$x''"
    using n by (auto simp: exampleEnv_def)
  then show ?thesis by (simp add: r)
qed

section \<open>Searches\<close>

text \<open>
  Equality search on a deterministic column finds what was written: whenever the same
  value, up to the rule's normalisation, is encrypted for the same column, on any two
  occasions, the two envelopes are the same string.
\<close>

theorem deterministic_search:
  assumes "primitives c SchemeDeterministic = Some (DeterministicAEAD d)"
    and "ruleScheme (prRule pr) = SchemeDeterministic" and "prRule pr = prRule pr'"
    and "prTable pr = prTable pr'" and "prColumn pr = prColumn pr'"
    and "normalized E (prRule pr) v = normalized E (prRule pr) v'"
  shows "encrypting c (envUnicode E) rnd pr v = encrypting c (envUnicode E) rnd' pr' v'"
  using assms Encrypt_deterministic [OF assms(1), of rnd _ _ rnd'] by (simp add: encrypting_def normalized_def)

theorem deterministic_search_witness:
  "encrypting exampleCipher plainUnicode ''n1'' insertRule ''A@x'' =
   encrypting exampleCipher plainUnicode ''n2'' insertRule ''a@X''"
proof -
  have "primitives exampleCipher SchemeDeterministic = Some (DeterministicAEAD toyDAEAD)"
    by (simp add: exampleCipher_def SchemeDeterministic_def SchemeNonDeterministic_def)
  moreover have "normalized exampleEnv (prRule insertRule) ''A@x'' = normalized exampleEnv (prRule insertRule) ''a@X''" by code_simp
  ultimately show ?thesis
    using deterministic_search [of exampleCipher toyDAEAD insertRule insertRule exampleEnv "''A@x''" "''a@X''" "''n1''" "''n2''"]
    by (simp add: insertRule_def detRule_def exampleEnv_def)
qed

text \<open>
  C31. A blind-index search finds what was written. Take two Binds that relays with the same cipher
  forwarded: one writes a value into a column with a blind index, the other searches that column with
  a pattern \<^verbatim>\<open>term\<close>, \<^verbatim>\<open>%term\<close>, \<^verbatim>\<open>term%\<close> or
  \<^verbatim>\<open>%term%\<close>, where the term agrees with the value up to case. Then the backend receives
  the same hash in the slot of the hash column and in the place of the pattern, although the value
  itself is encrypted in the same message. Outside the statement: terms with a wildcard of their own
  (\<^verbatim>\<open>%\<close> or \<^verbatim>\<open>_\<close>, which the proxy leaves as they are) and terms
  that end in a backslash.
\<close>

theorem blind_index_search:
  assumes "forwardedBind E pl c ins r k b plan" and "separate plan" and "w \<in> set (BlindIndexWrites plan)"
    and "bwSourceParam ` set (BlindIndexWrites plan) \<inter> bwNewParam ` set (BlindIndexWrites plan) = {}"
    and "paramValue b (bwSourceParam w) = Some v"
    and "forwardedBind E pl' c ins' r' k' q plan'" and "separate plan'" and "f \<in> set (BlindIndexFilters plan')"
    and "bfTable f = bwTable w" and "bfColumn f = bwColumn w"
    and "paramValue q (bfParam f) = Some pat" and "searchPattern pat t"
    and "NormalizeLowercase (envUnicode E) t = NormalizeLowercase (envUnicode E) v"
    and "\<not> hasLikeWildcards t" and "t = [] \<or> last t \<noteq> CHR 0x5C"
  shows "\<exists>b' q' h. rlToBackend r ! k = FBind b' \<and> rlToBackend r' ! k' = FBind q'
     \<and> paramValue b' (bwNewParam w) = Some h \<and> paramValue q' (bfParam f) = Some h"
proof -
  have ne: "\<not> WritePlan_IsEmpty plan" "\<not> WritePlan_IsEmpty plan'" using assms(3,8) by (auto simp: WritePlan_IsEmpty_def)
  obtain s s' b' where b: "rlToBackend r ! k = FBind b'" "transformBind E c plan (s, b) = ((s', b'), None)"
    using forwarded_transformed [OF assms(1) ne(1)] by blast
  obtain u u' q' where q: "rlToBackend r' ! k' = FBind q'" "transformBind E c plan' (u, q) = ((u', q'), None)"
    using forwarded_transformed [OF assms(6) ne(2)] by blast
  have spare: "bmSpare b = []" "bmSpare q = []" using assms(1,6) by (auto simp: forwardedBind_def)
  obtain bi h where h: "CipherBlindIndex c = Some bi" "hashValue (envUnicode E) bi (bwTable w) (bwColumn w) v = Inr h"
    "paramValue b' (bwNewParam w) = Some h"
    using transformBind_hashed [OF b(2) assms(2) spare(1) assms(3,4)] assms(5) by (auto simp: writePost_def bindSlot_def)
  have "hashValue (envUnicode E) bi (bfTable f) (bfColumn f) t = Inr h"
    using h(2) assms(9,10,13) by (simp add: hashValue_def)
  then have "paramValue q' (bfParam f) = Some h"
    using transformBind_searched [OF q(2) assms(7) spare(2) assms(8)] assms(11,14) stripOuterWildcards_pattern [OF assms(12,14,15)] h(1)
    by (auto simp: hashPost_def bindSlot_def)
  then show ?thesis using b(1) q(1) h(3) by blast
qed
theorem blind_index_search_witness:
  "\<exists>r r' b' q' h. forwardedBind blindEnv blindPlanner exampleCipher [FParse parseInsert, FParse parseSelect, FBind bindInsert] r 2 bindInsert writePlan
     \<and> forwardedBind blindEnv blindPlanner exampleCipher [FParse parseInsert, FParse parseSelect, FBind searchBind] r' 2 searchBind searchPlan
     \<and> rlToBackend r ! 2 = FBind b' \<and> rlToBackend r' ! 2 = FBind q'
     \<and> paramValue b' 3 = Some h \<and> paramValue q' 1 = Some h"
proof -
  have ne: "(searchBind = bindInsert) = False" by (simp add: searchBind_def bindInsert_def bindSelect_def)
  obtain r where r: "forwardedBind blindEnv blindPlanner exampleCipher [FParse parseInsert, FParse parseSelect, FBind bindInsert] r 2 bindInsert writePlan"
    using blind_forwarded [of bindInsert] by auto
  obtain r' where r': "forwardedBind blindEnv blindPlanner exampleCipher [FParse parseInsert, FParse parseSelect, FBind searchBind] r' 2 searchBind searchPlan"
    using blind_forwarded [of searchBind] ne by auto
  have sep: "separate writePlan" "separate searchPlan"
    by (simp_all add: separate_def touchedParams_def writePlan_def searchPlan_def emptyWritePlan_def insertRule_def blindWrite_def emailWrite_def)
  have w: "blindWrite \<in> set (BlindIndexWrites writePlan)" "blindFilter \<in> set (BlindIndexFilters searchPlan)"
    "bwSourceParam ` set (BlindIndexWrites writePlan) \<inter> bwNewParam ` set (BlindIndexWrites writePlan) = {}"
    "bfTable blindFilter = bwTable blindWrite" "bfColumn blindFilter = bwColumn blindWrite"
    by (simp_all add: writePlan_def searchPlan_def blindWrite_def emailWrite_def blindFilter_def)
  have v: "paramValue bindInsert (bwSourceParam blindWrite) = Some ''A@x''" "paramValue searchBind (bfParam blindFilter) = Some ''%a@X%''"
    "NormalizeLowercase (envUnicode blindEnv) ''a@X'' = NormalizeLowercase (envUnicode blindEnv) ''A@x''" "\<not> hasLikeWildcards ''a@X''" by code_simp+
  have "searchPattern ''%a@X%'' ''a@X''" "''a@X'' = [] \<or> last ''a@X'' \<noteq> CHR 0x5C" by (simp_all add: searchPattern_def)
  from blind_index_search [OF r sep(1) w(1,3) v(1) r' sep(2) w(2,4,5) v(2) this(1) v(3,4) this(2)]
  have "\<exists>b' q' h. rlToBackend r ! 2 = FBind b' \<and> rlToBackend r' ! 2 = FBind q' \<and> paramValue b' 3 = Some h \<and> paramValue q' 1 = Some h"
    by (simp add: blindWrite_def blindFilter_def)
  then show ?thesis using r r' by blast
qed
section \<open>Keys across the programs\<close>

lemma generated_file:
  assumes "fst (runGenerate T rand writeFile (Inr k) kv w) = Inr file"
  obtains st where "fst (GenerateDEKSet T rand k (of_nat kv) w) = Inr st" "file = marshalDEKSet st" "kv < 2 ^ 32"
  using assms by (auto simp: runGenerate_def fst_bindIO_Inr split: if_splits)

text \<open>
  C10. The proxy and the backfill work with the same keys: from the file that the key-set
  generation wrote, the configured proxy and the backfill tool open one and the same cipher,
  whenever they do so; it has the requested key version and a blind index, and it decrypts
  what it encrypts.
\<close>

theorem proxy_and_backfill_share_keys:
  assumes "NewStaticKMS kek = Inr sk" and "fullReads rand" and "lawfulTink T" and "templatesFit T"
    and "fst (runGenerate T rand writeFile (Inr (staticKMS rand sk)) kv w) = Inr file"
    and "VaultAddr cfg = []" and "cfgKEK cfg = kek" and "DEKSetFile cfg \<noteq> []" and "files (DEKSetFile cfg) = Inr file"
  shows "\<exists>c. (\<forall>v. fst (buildCipher E T rand files cfg v) = Inr c)
     \<and> (\<forall>u. fst (openCipherFromFile T (staticKMS rand sk) (Inr file) u) = Inr c)
     \<and> unat (keyVersion c) = kv \<and> CipherBlindIndex c \<noteq> None \<and> lawfulCipher c"
proof -
  obtain st where st: "fst (GenerateDEKSet T rand (staticKMS rand sk) (of_nat kv) w) = Inr st" "file = marshalDEKSet st" "kv < 2 ^ 32"
    using generated_file [OF assms(5)] .
  obtain c where c: "\<And>v. fst (OpenCipher T (staticKMS rand sk) st v) = Inr c" "lawfulCipher c" "keyVersion c = of_nat kv"
    "CipherBlindIndex c \<noteq> None"
    using dek_set_opens [OF assms(1-4) st(1)] by blast
  have "fst (buildCipher E T rand files cfg v) = Inr c" for v
    using c(1) assms(1,6-9) st(2)
    by (simp add: buildCipher_def buildKMS_def bindIO_def contextIO_def unmarshal_marshal)
  moreover have "fst (openCipherFromFile T (staticKMS rand sk) (Inr file) u) = Inr c" for u
    using c(1) st(2) by (simp add: openCipherFromFile_def bindIO_def contextIO_def unmarshal_marshal)
  moreover have "unat (keyVersion c) = kv" using c(3) st(3) by (simp add: unat_of_nat take_bit_nat_eq_self)
  ultimately show ?thesis using c(2,4) by blast
qed

theorem proxy_and_backfill_share_keys_witness:
  "\<exists>file cfg c. fst (runGenerate exampleTink exampleRand (\<lambda>_. returnIO ()) (Inr (staticKMS exampleRand exampleStatic)) 7 ((), emptyCache)) = Inr file
     \<and> fst (buildCipher revokingVault exampleTink exampleRand (\<lambda>_. Inr file) cfg ((), emptyCache)) = Inr c
     \<and> fst (openCipherFromFile exampleTink (staticKMS exampleRand exampleStatic) (Inr file) ((), emptyCache)) = Inr c"
proof -
  obtain st where st: "fst (GenerateDEKSet exampleTink exampleRand (staticKMS exampleRand exampleStatic) 7 ((), emptyCache)) = Inr st"
    using example_generates [of exampleStatic 7 "((), emptyCache)"] by blast
  then have g: "fst (runGenerate exampleTink exampleRand (\<lambda>_. returnIO ()) (Inr (staticKMS exampleRand exampleStatic)) 7 ((), emptyCache)) = Inr (marshalDEKSet st)"
    by (auto simp: runGenerate_def bindIO_def split: prod.splits sum.splits)
  obtain cfg :: ProxyConfig where cfg: "VaultAddr cfg = []" "cfgKEK cfg = exampleKEK"
    using demo_loads by (auto simp: exampleKEK_def)
  show ?thesis
    using proxy_and_backfill_share_keys [OF exampleStatic_new exampleRand_full exampleTink_lawful g,
        of "cfg\<lparr>DEKSetFile := ''dekset.json''\<rparr>" "\<lambda>_. Inr (marshalDEKSet st)" revokingVault] cfg g by fastforce
qed

end
